(* ===== verification/Prelude.thy ===== *)
theory Prelude
  imports Main "HOL-Library.Word"
begin

text \<open>
  The shared vocabulary of the development: names for the C integer types of the i386 build,
  the error-pointer convention of the emulated kernel, page arithmetic, and the generic
  lemmas the component theories use.

  \<^item> A C integer of width \<open>w\<close> is a \<open>w word\<close>; \<open>uint\<close>/\<open>unat\<close> read it unsigned and
    \<open>sint\<close> reads it as two's complement.
  \<^item> A kernel function returns either a value or a negated errno in the same 32 bits;
    \<open>IBCS_IS_ERR\<close> (\<^verbatim>\<open>src/include/ibcs-us/ibcs/ibcs-lib.h\<close>) tells them apart.
  \<^item> \<open>None\<close> as the result of an operation stands for behaviour C leaves undefined (a read
    outside an array) or for a loop that does not end; each theory says which.
\<close>

unbundle bit_operations_syntax

type_synonym u8 = "8 word"
type_synonym u16 = "16 word"
type_synonym u32 = "32 word"
type_synonym u64 = "64 word"

named_theorems ibcs_simps \<open>unfolding rules for the small header macros\<close>

section \<open>Errors in return values\<close>

definition IBCS_IS_ERR :: "u32 \<Rightarrow> bool" where
  "IBCS_IS_ERR x \<longleftrightarrow> - 4096 < x"

abbreviation (input) EPERM :: u32 where "EPERM \<equiv> 1"
abbreviation (input) ENOENT :: u32 where "ENOENT \<equiv> 2"
abbreviation (input) ENOEXEC :: u32 where "ENOEXEC \<equiv> 8"
abbreviation (input) EBADF :: u32 where "EBADF \<equiv> 9"
abbreviation (input) ENOMEM :: u32 where "ENOMEM \<equiv> 12"
abbreviation (input) EFAULT :: u32 where "EFAULT \<equiv> 14"
abbreviation (input) EBUSY :: u32 where "EBUSY \<equiv> 16"
abbreviation (input) EEXIST :: u32 where "EEXIST \<equiv> 17"
abbreviation (input) EINVAL :: u32 where "EINVAL \<equiv> 22"
abbreviation (input) ENAMETOOLONG :: u32 where "ENAMETOOLONG \<equiv> 36"
abbreviation (input) ENOSYS :: u32 where "ENOSYS \<equiv> 38"
abbreviation (input) EOVERFLOW :: u32 where "EOVERFLOW \<equiv> 75"
abbreviation (input) EILSEQ :: u32 where "EILSEQ \<equiv> 84"

lemma IBCS_IS_ERR_iff: "IBCS_IS_ERR x \<longleftrightarrow> 2 ^ 32 - 4096 < unat x"
  by (simp add: IBCS_IS_ERR_def word_less_nat_alt)

lemma IBCS_IS_ERR_uminus:
  assumes "0 < unat e" "unat e < 4096"
  shows "IBCS_IS_ERR (- e)"
proof -
  have "unat (- e) = 2 ^ 32 - unat e"
    using assms unat_sub_if' [of 0 e] by (simp add: word_le_nat_alt)
  with assms show ?thesis by (simp add: IBCS_IS_ERR_iff)
qed

lemma not_IBCS_IS_ERR_small: "unat x \<le> 2 ^ 31 \<Longrightarrow> \<not> IBCS_IS_ERR x"
  by (simp add: IBCS_IS_ERR_iff)

section \<open>Bits\<close>

lemma and_exp_nonzero: "a AND 2 ^ n \<noteq> 0 \<longleftrightarrow> bit a n" for a :: "'a::len word"
  using bit_iff_and_push_bit_not_eq_0 [of a n] by simp

lemma and_exp_zero: "a AND 2 ^ n = 0 \<longleftrightarrow> \<not> bit a n" for a :: "'a::len word"
  using and_exp_nonzero by blast

lemma bit_or_exp: "bit (a OR 2 ^ n) j \<longleftrightarrow> bit a j \<or> (n = j \<and> j < LENGTH('a))"
  for a :: "'a::len word"
  by (auto simp: bit_or_iff bit_exp_iff)

lemma word_32_len: "LENGTH(32) = 32"
  by simp

lemma of_nat_minus_1: "1 \<le> k \<Longrightarrow> of_nat k - 1 = (of_nat (k - 1) :: 'a::len word)"
  by (cases k) simp_all

lemma unat_of_nat_u32: "k < 2 ^ 32 \<Longrightarrow> unat (of_nat k :: u32) = k"
  by (simp add: unat_of_nat)

lemmas bit_loop_simps = and_exp_nonzero and_exp_zero bit_or_exp bit_or_iff

lemma bit_word_bound: "bit a n \<Longrightarrow> n < LENGTH('a)" for a :: "'a::len word"
  by (rule bit_imp_le_length)

section \<open>Counting loops\<close>

text \<open>One iteration of a loop over \<open>i, \<dots>, n - 1\<close>: the first index, or a later one.\<close>

lemma ex_range_step:
  "i < n \<Longrightarrow> (\<exists>k. i \<le> k \<and> k < n \<and> P k) \<longleftrightarrow> P i \<or> (\<exists>k. i + 1 \<le> k \<and> k < n \<and> P k)"
  for i n :: nat
  by (metis Suc_eq_plus1 Suc_leD le_antisym not_less_eq_eq)

lemma all_range_step:
  "i < n \<Longrightarrow> (\<forall>k. i \<le> k \<and> k < n \<longrightarrow> P k) \<longleftrightarrow> P i \<and> (\<forall>k. i + 1 \<le> k \<and> k < n \<longrightarrow> P k)"
  for i n :: nat
  by (metis Suc_eq_plus1 Suc_leD le_antisym not_less_eq_eq)

section \<open>Lists\<close>

lemma length_takeWhile_less: "x \<in> set xs \<Longrightarrow> \<not> P x \<Longrightarrow> length (takeWhile P xs) < length xs"
  by (induction xs) auto

lemma nth_takeWhile_stop: "length (takeWhile P xs) < length xs \<Longrightarrow> \<not> P (xs ! length (takeWhile P xs))"
  using nth_length_takeWhile by blast

section \<open>Sequences of calls\<close>

text \<open>
  A component answers a call \<open>c\<close> in the state \<open>s\<close> with a result and a new state, or the call is
  undefined. \<open>runs\<close> makes the calls one after the other; \<open>kept_invariant\<close> is the contract of a
  component whose calls keep an invariant, and of a client that relies on it over a whole run.
\<close>

fun runs :: "('c \<Rightarrow> 's \<Rightarrow> ('r \<times> 's) option) \<Rightarrow> 'c list \<Rightarrow> 's \<Rightarrow> ('r list \<times> 's) option" where
  "runs step [] s = Some ([], s)"
| "runs step (c # cs) s =
     (case step c s of
        None \<Rightarrow> None
      | Some (r, s) \<Rightarrow> map_option (\<lambda>(rs, s). (r # rs, s)) (runs step cs s))"

lemma runs_append:
  "runs step (cs @ ds) s =
     (case runs step cs s of
        None \<Rightarrow> None
      | Some (rs, s) \<Rightarrow> map_option (\<lambda>(rs', s). (rs @ rs', s)) (runs step ds s))"
  by (induction cs arbitrary: s)
     (auto simp: option.map_comp o_def case_prod_beta' option.map_ident split: option.splits)

locale kept_invariant =
  fixes step :: "'c \<Rightarrow> 's \<Rightarrow> ('r \<times> 's) option" and inv_holds :: "'s \<Rightarrow> bool"
  assumes kept: "inv_holds s \<Longrightarrow> step c s = Some (r, s') \<Longrightarrow> inv_holds s'"
begin

lemma runs_kept: "inv_holds s \<Longrightarrow> runs step cs s = Some (rs, s') \<Longrightarrow> inv_holds s'"
proof (induction cs arbitrary: s rs)
  case (Cons c cs)
  from Cons.prems(2) obtain r s1 rs1 where c: "step c s = Some (r, s1)" "runs step cs s1 = Some (rs1, s')"
    by (auto split: option.splits)
  show ?case by (rule Cons.IH [OF kept [OF Cons.prems(1) c(1)] c(2)])
qed simp

lemma runs_prefix:
  assumes "inv_holds s" "runs step (cs @ ds) s = Some (rs, s')"
  shows "\<exists>rs1 s1 rs2. runs step cs s = Some (rs1, s1) \<and> inv_holds s1 \<and> runs step ds s1 = Some (rs2, s') \<and> rs = rs1 @ rs2"
  using assms runs_kept [OF assms(1)] by (auto simp: runs_append split: option.splits)

end

text \<open>Bits of words of 32 and 16 bits, without the side conditions on the length.\<close>

lemma bit_exp_u32: "i < 32 \<Longrightarrow> bit (2 ^ i :: u32) n \<longleftrightarrow> n = i"
  by (auto simp: bit_exp_iff)

lemma bit_exp_u16: "i < 16 \<Longrightarrow> bit (2 ^ i :: u16) n \<longleftrightarrow> n = i"
  by (auto simp: bit_exp_iff)

lemma bit_push_u32: "bit (push_bit m x) n \<longleftrightarrow> m \<le> n \<and> n < 32 \<and> bit x (n - m)" for x :: u32
  by (simp add: bit_push_bit_iff)

lemma bit_drop_u32: "bit (drop_bit m x) n \<longleftrightarrow> bit x (m + n)" for x :: u32
  by (simp add: bit_drop_bit_eq)

lemma bit_not_u32: "bit (NOT x) n \<longleftrightarrow> n < 32 \<and> \<not> bit x n" for x :: u32
  by (simp add: bit_not_iff)

lemma bit_ucast_u16: "bit (ucast x :: u16) n \<longleftrightarrow> n < 16 \<and> bit x n" for x :: u32
  by (simp add: bit_unsigned_iff)

lemma bit_ucast_u32: "bit (ucast x :: u32) n \<longleftrightarrow> n < 16 \<and> bit x n" for x :: u16
  by (auto simp add: bit_unsigned_iff dest: bit_imp_le_length)

lemmas u32_bits = bit_and_iff bit_or_iff bit_push_u32 bit_drop_u32 bit_not_u32 bit_ucast_u16 bit_ucast_u32

lemma sint_of_int_u32: "- (2 ^ 31) \<le> x \<Longrightarrow> x < 2 ^ 31 \<Longrightarrow> sint (word_of_int x :: u32) = x"
  by (simp add: signed_of_int signed_take_bit_int_eq_self)

end
