(* ===== verification/Map_Tables.thy ===== *)
theory Map_Tables
  imports Prelude
begin

text \<open>
  \<^verbatim>\<open>src/ibcs/map.c\<close>: the table-driven translation of flags, signal sets and numbers between a
  personality and Linux, and the byte-wise signal set operations of
  \<^verbatim>\<open>src/include/ibcs-us/linux26-compat/linux/signal.h\<close> it calls.

  An array argument is a function from the index to the element: C does not check the index.
  A \<open>sigset_t\<close> is its 64 bits, bit \<open>g\<close> being bit \<open>g AND 7\<close> of byte \<open>g >> 3\<close>; a write
  outside its 8 bytes is undefined and is \<open>None\<close>. A shift count is taken modulo 32, as the
  i386 shift instruction does.
\<close>

section \<open>Flags\<close>

function map_flags_loop :: "u16 \<Rightarrow> (nat \<Rightarrow> u16) \<Rightarrow> nat \<Rightarrow> u16 \<Rightarrow> u16 \<Rightarrow> u16" where
  "map_flags_loop f tab i m r =
     (if i < 16
      then map_flags_loop f tab (i + 1) (push_bit 1 m) (if f AND m \<noteq> 0 then r OR tab i else r)
      else r)"
  by pat_completeness auto
termination
  by (relation "measure (\<lambda>(f, tab, i, m, r). 16 - i)") auto

definition map_flags :: "u16 \<Rightarrow> (nat \<Rightarrow> u16) \<Rightarrow> u16" where
  "map_flags f tab = map_flags_loop f tab 0 1 0"

section \<open>Bit vectors\<close>

function map_bitvec_loop :: "u32 \<Rightarrow> (nat \<Rightarrow> u32) \<Rightarrow> nat \<Rightarrow> u32 \<Rightarrow> u32 \<Rightarrow> u32" where
  "map_bitvec_loop vec tab i m newvec =
     (if i \<le> 32
      then map_bitvec_loop vec tab (i + 1) (push_bit 1 m)
             (if vec AND m \<noteq> 0 \<and> tab i \<noteq> - 1 \<and> tab i \<noteq> 0
              then newvec OR push_bit (unat (tab i - 1) mod 32) 1 else newvec)
      else newvec)"
  by pat_completeness auto
termination
  by (relation "measure (\<lambda>(vec, tab, i, m, r). 33 - i)") auto

definition map_bitvec :: "u32 \<Rightarrow> (nat \<Rightarrow> u32) \<Rightarrow> u32" where
  "map_bitvec vec tab = map_bitvec_loop vec tab 1 1 0"

section \<open>Signal sets\<close>

definition sigemptyset :: u64 where
  "sigemptyset = 0"

definition sigaddset :: "u64 \<Rightarrow> u32 \<Rightarrow> u64 option" where
  "sigaddset s sig =
     (let g = sig - 1 in if g < 64 then Some (s OR push_bit (unat g) 1) else None)"

definition sigismember :: "u64 \<Rightarrow> u32 \<Rightarrow> bool" where
  "sigismember s sig = (let g = sig - 1 in g < 64 \<and> bit s (unat g))"

function map_sigvec_from_kernel_loop :: "u64 \<Rightarrow> (nat \<Rightarrow> u32) \<Rightarrow> nat \<Rightarrow> u32 \<Rightarrow> u32" where
  "map_sigvec_from_kernel_loop vec tab i newvec =
     (if i \<le> 32
      then map_sigvec_from_kernel_loop vec tab (i + 1)
             (if sigismember vec (of_nat i) \<and> tab i \<noteq> - 1 \<and> tab i \<noteq> 0
              then newvec OR push_bit (unat (tab i - 1) mod 32) 1 else newvec)
      else newvec)"
  by pat_completeness auto
termination
  by (relation "measure (\<lambda>(vec, tab, i, r). 33 - i)") auto

definition map_sigvec_from_kernel :: "u64 \<Rightarrow> (nat \<Rightarrow> u32) \<Rightarrow> u32" where
  "map_sigvec_from_kernel vec tab = map_sigvec_from_kernel_loop vec tab 1 0"

function map_sigvec_to_kernel_loop ::
  "u32 \<Rightarrow> (nat \<Rightarrow> u32) \<Rightarrow> nat \<Rightarrow> u32 \<Rightarrow> u64 \<Rightarrow> u64 option" where
  "map_sigvec_to_kernel_loop vec tab i m newvec =
     (if i \<le> 32
      then case (if vec AND m \<noteq> 0 \<and> tab i \<noteq> - 1 then sigaddset newvec (tab i) else Some newvec) of
             None \<Rightarrow> None
           | Some newvec' \<Rightarrow> map_sigvec_to_kernel_loop vec tab (i + 1) (push_bit 1 m) newvec'
      else Some newvec)"
  by pat_completeness auto
termination
  by (relation "measure (\<lambda>(vec, tab, i, m, r). 33 - i)") auto

definition map_sigvec_to_kernel :: "u32 \<Rightarrow> (nat \<Rightarrow> u32) \<Rightarrow> u64 option" where
  "map_sigvec_to_kernel vec tab = map_sigvec_to_kernel_loop vec tab 1 1 sigemptyset"

section \<open>Numbers\<close>

text \<open>
  The \<open>map\<close> member of a segment is a pointer to a byte vector or an integer stored in the
  pointer (\<open>Seg_Int 0\<close> is the null pointer). A table is the list of its segments, the last
  one with \<open>start = -1\<close>. \<open>None\<close> is a read past the end of the table or of a vector; a
  vector whose address would be returned as a number is \<open>None\<close> too.
\<close>

datatype seg_map = Seg_Int u32 | Seg_Vec "u8 list"

record map_segment =
  seg_start :: int
  seg_end :: int
  seg_map :: seg_map

fun map_value_loop :: "map_segment list \<Rightarrow> int \<Rightarrow> int \<Rightarrow> int option" where
  "map_value_loop [] val dflt = None"
| "map_value_loop (seg # segs) val dflt =
     (if seg_start seg = - 1 then Some dflt
      else if seg_start seg \<le> val \<and> val \<le> seg_end seg
      then (if seg_start seg = seg_end seg
            then (case seg_map seg of Seg_Int v \<Rightarrow> Some (sint v) | Seg_Vec _ \<Rightarrow> None)
            else (case seg_map seg of
                    Seg_Int p \<Rightarrow> (if p = 0 then Some val else None)
                  | Seg_Vec v \<Rightarrow>
                      (let k = nat (val - seg_start seg)
                       in if k < length v then Some (uint (v ! k)) else None)))
      else map_value_loop segs val dflt)"

definition map_value :: "map_segment list option \<Rightarrow> int \<Rightarrow> int \<Rightarrow> int option" where
  "map_value m val dflt = (case m of None \<Rightarrow> Some val | Some segs \<Rightarrow> map_value_loop segs val dflt)"


section \<open>Lemmas\<close>

declare map_flags_loop.simps [simp del]
  map_bitvec_loop.simps [simp del]
  map_sigvec_from_kernel_loop.simps [simp del]
  map_sigvec_to_kernel_loop.simps [simp del]

subsection \<open>Flags\<close>

lemma bit_map_flags_loop:
  "bit (map_flags_loop f tab i (2 ^ i) r) j
     \<longleftrightarrow> bit r j \<or> (\<exists>k. i \<le> k \<and> k < 16 \<and> bit f k \<and> bit (tab k) j)"
proof (induction "16 - i" arbitrary: i r)
  case 0
  then show ?case by (subst map_flags_loop.simps) auto
next
  case (Suc n)
  then have i: "i < 16" and n: "n = 16 - (i + 1)" by auto
  have step: "map_flags_loop f tab i (2 ^ i) r =
      map_flags_loop f tab (i + 1) (2 ^ (i + 1)) (if bit f i then r OR tab i else r)"
    using i by (subst map_flags_loop.simps) (simp add: bit_loop_simps mult.commute)
  show ?case
    unfolding step Suc.hyps(1) [OF n] using i
    by (subst ex_range_step [of i 16]) (auto simp: bit_or_iff)
qed

text \<open>
  \<open>map_flags\<close> is the union of the table entries of the flags that are set: bit \<open>j\<close> of the
  result is set exactly when some flag \<open>k\<close> of the argument is set whose entry has bit \<open>j\<close>.
\<close>

theorem map_flags_bits:
  "bit (map_flags f tab) j \<longleftrightarrow> (\<exists>k<16. bit f k \<and> bit (tab k) j)"
  using bit_map_flags_loop [of f tab 0 0 j] by (simp add: map_flags_def)

subsection \<open>Bit vectors\<close>

definition sig_entry :: "(nat \<Rightarrow> u32) \<Rightarrow> nat \<Rightarrow> nat \<Rightarrow> bool" where
  "sig_entry tab i j \<longleftrightarrow> tab i \<noteq> - 1 \<and> tab i \<noteq> 0 \<and> unat (tab i - 1) mod 32 = j"

lemma sig_entry_less: "sig_entry tab i j \<Longrightarrow> j < 32"
  by (auto simp: sig_entry_def)

lemma sig_entry_exact:
  assumes "tab i = of_nat k" "1 \<le> k" "k \<le> 32"
  shows "sig_entry tab i j \<longleftrightarrow> j = k - 1"
proof -
  have k: "unat (of_nat k :: u32) = k" "of_nat k - 1 = (of_nat (k - 1) :: u32)"
    "unat (of_nat (k - 1) :: u32) = k - 1"
    using assms by (simp_all add: unat_of_nat_u32 of_nat_minus_1 del: of_nat_diff)
  have "unat (of_nat k :: u32) \<noteq> unat (- 1 :: u32)" "unat (of_nat k :: u32) \<noteq> unat (0 :: u32)"
    using assms unfolding k(1) by (simp_all add: unsigned_minus_1_eq_mask mask_eq_exp_minus_1)
  then have "of_nat k \<noteq> (- 1 :: u32)" "of_nat k \<noteq> (0 :: u32)" by metis+
  with k assms show ?thesis by (auto simp: sig_entry_def)
qed

lemma bit_map_bitvec_loop:
  "1 \<le> i \<Longrightarrow> bit (map_bitvec_loop vec tab i (2 ^ (i - 1)) r) j
     \<longleftrightarrow> bit r j \<or> (\<exists>k. i \<le> k \<and> k < 33 \<and> bit vec (k - 1) \<and> sig_entry tab k j)"
proof (induction "33 - i" arbitrary: i r)
  case 0
  then show ?case by (subst map_bitvec_loop.simps) auto
next
  case (Suc n)
  then have i: "i < 33" and n: "n = 33 - (i + 1)" "1 \<le> i + 1" by auto
  let ?r = "if bit vec (i - 1) \<and> tab i \<noteq> - 1 \<and> tab i \<noteq> 0
            then r OR push_bit (unat (tab i - 1) mod 32) 1 else r"
  have two: "push_bit 1 (2 ^ (i - 1)) = (2 ^ i :: u32)"
    using Suc.prems by (cases i) simp_all
  have step: "map_bitvec_loop vec tab i (2 ^ (i - 1)) r
      = map_bitvec_loop vec tab (i + 1) (2 ^ (i + 1 - 1)) ?r"
    using i two by (subst map_bitvec_loop.simps) (simp add: bit_loop_simps)
  show ?case
    unfolding step Suc.hyps(1) [OF n] using i
    by (subst ex_range_step [of i 33]) (auto simp: bit_or_exp sig_entry_def)
qed

lemma bit_map_bitvec:
  "bit (map_bitvec vec tab) j
     \<longleftrightarrow> (\<exists>k. 1 \<le> k \<and> k < 33 \<and> bit vec (k - 1) \<and> sig_entry tab k j)"
  using bit_map_bitvec_loop [of 1 vec tab 0 j] by (simp add: map_bitvec_def)

subsection \<open>Signal sets\<close>

lemma sigismember_iff: "1 \<le> i \<Longrightarrow> i \<le> 32 \<Longrightarrow> sigismember s (of_nat i) \<longleftrightarrow> bit s (i - 1)"
proof -
  assume "1 \<le> i" "i \<le> 32"
  then have "of_nat i - 1 = (of_nat (i - 1) :: u32)" "unat (of_nat (i - 1) :: u32) = i - 1"
    by (simp_all add: of_nat_minus_1 unat_of_nat_u32 del: of_nat_diff)
  moreover have "i - 1 < 64" using \<open>i \<le> 32\<close> by simp
  ultimately show ?thesis by (simp add: sigismember_def word_less_nat_alt)
qed

lemma bit_map_sigvec_from_kernel_loop:
  "1 \<le> i \<Longrightarrow> bit (map_sigvec_from_kernel_loop vec tab i r) j
     \<longleftrightarrow> bit r j \<or> (\<exists>k. i \<le> k \<and> k < 33 \<and> bit vec (k - 1) \<and> sig_entry tab k j)"
proof (induction "33 - i" arbitrary: i r)
  case 0
  then show ?case by (subst map_sigvec_from_kernel_loop.simps) auto
next
  case (Suc n)
  then have i: "i < 33" and n: "n = 33 - (i + 1)" "1 \<le> i + 1" by auto
  let ?r = "if bit vec (i - 1) \<and> tab i \<noteq> - 1 \<and> tab i \<noteq> 0
            then r OR push_bit (unat (tab i - 1) mod 32) 1 else r"
  have step: "map_sigvec_from_kernel_loop vec tab i r
      = map_sigvec_from_kernel_loop vec tab (i + 1) ?r"
    using i Suc.prems by (subst map_sigvec_from_kernel_loop.simps) (simp add: sigismember_iff)
  show ?case
    unfolding step Suc.hyps(1) [OF n] using i
    by (subst ex_range_step [of i 33]) (auto simp: bit_or_exp sig_entry_def)
qed

lemma bit_map_sigvec_from_kernel:
  "bit (map_sigvec_from_kernel vec tab) j
     \<longleftrightarrow> (\<exists>k. 1 \<le> k \<and> k < 33 \<and> bit vec (k - 1) \<and> sig_entry tab k j)"
  using bit_map_sigvec_from_kernel_loop [of 1 vec tab 0 j]
  by (simp add: map_sigvec_from_kernel_def)


lemma sigaddset_SomeD:
  "sigaddset s k = Some s' \<Longrightarrow> bit s' g \<longleftrightarrow> bit s g \<or> unat (k - 1) = g"
  by (auto simp: sigaddset_def Let_def bit_or_exp word_less_nat_alt split: if_splits)

lemma sigaddset_None_iff: "sigaddset s k = None \<longleftrightarrow> 64 \<le> k - 1"
  by (auto simp: sigaddset_def Let_def not_less)

lemma map_sigvec_to_kernel_loop_Some:
  assumes "map_sigvec_to_kernel_loop vec tab i (2 ^ (i - 1)) r = Some s" "1 \<le> i"
  shows "bit s g \<longleftrightarrow>
    bit r g \<or> (\<exists>k. i \<le> k \<and> k < 33 \<and> bit vec (k - 1) \<and> tab k \<noteq> - 1 \<and> unat (tab k - 1) = g)"
  using assms
proof (induction "33 - i" arbitrary: i r)
  case 0
  then show ?case by (subst (asm) map_sigvec_to_kernel_loop.simps) auto
next
  case (Suc n)
  then have i: "i < 33" and n: "n = 33 - (i + 1)" "1 \<le> i + 1" by auto
  have two: "push_bit 1 (2 ^ (i - 1)) = (2 ^ i :: u32)"
    using Suc.prems by (cases i) simp_all
  from Suc.prems(1) i two obtain r' where
    r': "(if bit vec (i - 1) \<and> tab i \<noteq> - 1 then sigaddset r (tab i) else Some r) = Some r'"
    and rec: "map_sigvec_to_kernel_loop vec tab (i + 1) (2 ^ (i + 1 - 1)) r' = Some s"
    by (subst (asm) map_sigvec_to_kernel_loop.simps)
      (auto simp: bit_loop_simps split: option.splits if_splits)
  from r' have "bit r' g \<longleftrightarrow> bit r g \<or> (bit vec (i - 1) \<and> tab i \<noteq> - 1 \<and> unat (tab i - 1) = g)"
    by (auto simp: sigaddset_SomeD split: if_splits)
  with Suc.hyps(1) [OF n(1) rec n(2)] i show ?case
    by (subst ex_range_step [of i 33]) auto
qed

lemma map_sigvec_to_kernel_loop_defined:
  assumes "1 \<le> i" "\<And>k. i \<le> k \<Longrightarrow> k < 33 \<Longrightarrow> bit vec (k - 1) \<Longrightarrow> tab k - 1 < 64"
  shows "\<exists>s. map_sigvec_to_kernel_loop vec tab i (2 ^ (i - 1)) r = Some s"
  using assms
proof (induction "33 - i" arbitrary: i r)
  case 0
  then show ?case by (subst map_sigvec_to_kernel_loop.simps) auto
next
  case (Suc n)
  then have i: "i < 33" and n: "n = 33 - (i + 1)" "1 \<le> i + 1" by auto
  have two: "push_bit 1 (2 ^ (i - 1)) = (2 ^ (i + 1 - 1) :: u32)"
    using Suc.prems by (cases i) simp_all
  have rec: "\<exists>s. map_sigvec_to_kernel_loop vec tab (i + 1) (2 ^ (i + 1 - 1)) r' = Some s" for r'
    using Suc.hyps(1) [OF n] Suc.prems(2) by simp
  have "bit vec (i - 1) \<Longrightarrow> sigaddset r (tab i) \<noteq> None"
    using Suc.prems(2) [of i] i by (auto simp: sigaddset_None_iff)
  with rec i two show ?case
    by (subst map_sigvec_to_kernel_loop.simps)
      (auto simp: bit_loop_simps split: option.splits)
qed

subsection \<open>Round trips\<close>

text \<open>
  \<open>itab\<close> inverts \<open>tab\<close> on the members of \<open>vec\<close>: every member has an entry between 1 and 32
  that \<open>itab\<close> takes back to it.
\<close>

definition inverse_on :: "u32 \<Rightarrow> (nat \<Rightarrow> u32) \<Rightarrow> (nat \<Rightarrow> u32) \<Rightarrow> bool" where
  "inverse_on vec tab itab \<longleftrightarrow>
     (\<forall>i\<in>{1..32}. bit vec (i - 1) \<longrightarrow>
        (\<exists>k\<in>{1..32}. tab i = of_nat k \<and> itab k = of_nat i))"

lemma inverse_onE:
  assumes "inverse_on vec tab itab" "bit vec (i - 1)" "1 \<le> i" "i < 33"
  obtains k where "1 \<le> k" "k \<le> 32" "tab i = of_nat k" "itab k = of_nat i"
  using assms by (fastforce simp: inverse_on_def)

lemma sig_entry_roundtrip:
  assumes "inverse_on vec tab itab" "j < 32"
  shows "(\<exists>k. 1 \<le> k \<and> k < 33 \<and> (\<exists>i. 1 \<le> i \<and> i < 33 \<and> bit vec (i - 1) \<and> sig_entry tab i (k - 1))
            \<and> sig_entry itab k j) \<longleftrightarrow> bit vec j" (is "?L \<longleftrightarrow> _")
proof
  assume ?L
  then obtain k i where ki: "1 \<le> k" "1 \<le> i" "i < 33" "bit vec (i - 1)"
    "sig_entry tab i (k - 1)" "sig_entry itab k j"
    by blast
  with assms(1) obtain k' where k': "1 \<le> k'" "k' \<le> 32" "tab i = of_nat k'" "itab k' = of_nat i"
    by (auto elim!: inverse_onE [of vec tab itab i])
  with ki have "k - 1 = k' - 1" by (simp add: sig_entry_exact [of tab i k'])
  with ki k' have "k = k'" by simp
  with ki k' show "bit vec j" by (simp add: sig_entry_exact [of itab k' i])
next
  assume "bit vec j"
  with assms obtain k where k: "1 \<le> k" "k \<le> 32" "tab (j + 1) = of_nat k" "itab k = of_nat (j + 1)"
    by (auto elim!: inverse_onE [of vec tab itab "j + 1"])
  have "sig_entry tab (j + 1) (k - 1)"
    using k by (subst sig_entry_exact [of tab "j + 1" k]) simp_all
  moreover have "sig_entry itab k j"
    using k assms(2) by (subst sig_entry_exact [of itab k "j + 1"]) simp_all
  ultimately show ?L
    using k assms(2) \<open>bit vec j\<close> by (intro exI [of _ k] conjI exI [of _ "j + 1"]) simp_all
qed

text \<open>
  translating a bit vector through a table and then through a table that inverts it on the
  bits that are set gives the vector back.
\<close>

theorem map_bitvec_roundtrip:
  assumes "inverse_on vec tab itab"
  shows "map_bitvec (map_bitvec vec tab) itab = vec"
  using assms by (intro bit_word_eqI) (simp only: bit_map_bitvec sig_entry_roundtrip word_32_len)

theorem map_bitvec_roundtrip_witness:
  "inverse_on 1 (\<lambda>_. 7) (\<lambda>_. 1) \<and>
   map_bitvec (map_bitvec 1 (\<lambda>_. 7)) (\<lambda>_. 1) = 1"
proof -
  have "inverse_on 1 (\<lambda>_. 7) (\<lambda>_. 1)"
    by (auto simp: inverse_on_def bit_1_iff intro!: bexI [of _ 7])
  with map_bitvec_roundtrip [OF this] show ?thesis by blast
qed

text \<open>
  A personality's signal mask translated into a kernel signal set (\<open>map_sigvec_to_kernel\<close>, which then
  writes inside the set only) and back is unchanged when the two tables are inverse on its members.
\<close>

lemma map_sigvec_roundtrip:
  assumes "inverse_on vec tab itab"
  shows "\<exists>s. map_sigvec_to_kernel vec tab = Some s \<and> map_sigvec_from_kernel s itab = vec"
proof -
  have entry: "tab k - 1 < 64" "tab k \<noteq> - 1 \<and> unat (tab k - 1) = g \<longleftrightarrow> sig_entry tab k g"
    if k: "1 \<le> k" "k < 33" "bit vec (k - 1)" for k g
  proof -
    obtain k' where k': "1 \<le> k'" "k' \<le> 32" "tab k = of_nat k'"
      using inverse_onE [OF assms k(3,1,2)] by blast
    then have u: "unat (tab k - 1) = k' - 1"
      by (simp add: of_nat_minus_1 unat_of_nat_u32 del: of_nat_diff)
    with k' show "tab k - 1 < 64" by (simp add: word_less_nat_alt)
    from u k' show "tab k \<noteq> - 1 \<and> unat (tab k - 1) = g \<longleftrightarrow> sig_entry tab k g"
      using sig_entry_exact [of tab k k' "k' - 1"]
      by (auto simp: sig_entry_exact [of tab k k'] sig_entry_def)
  qed
  then obtain s where s: "map_sigvec_to_kernel vec tab = Some s"
    using map_sigvec_to_kernel_loop_defined [of 1 vec tab sigemptyset]
    by (auto simp: map_sigvec_to_kernel_def)
  then have "bit s g \<longleftrightarrow> (\<exists>k. 1 \<le> k \<and> k < 33 \<and> bit vec (k - 1) \<and> sig_entry tab k g)" for g
    using map_sigvec_to_kernel_loop_Some [of vec tab 1 sigemptyset s g] entry
    by (auto simp: map_sigvec_to_kernel_def sigemptyset_def)
  then have "map_sigvec_from_kernel s itab = vec"
    using assms
    by (intro bit_word_eqI) (simp only: bit_map_sigvec_from_kernel sig_entry_roundtrip word_32_len)
  with s show ?thesis by blast
qed

subsection \<open>Numbers\<close>

text \<open>
  A table is well formed when a segment with \<open>start = -1\<close> ends it and every segment before
  that can be read: a one-entry segment holds a number, a longer one holds the null pointer or
  a vector as long as the segment.
\<close>

definition segment_ok :: "map_segment \<Rightarrow> bool" where
  "segment_ok seg =
     (case seg_map seg of
        Seg_Int v \<Rightarrow> seg_start seg = seg_end seg \<or> v = 0
      | Seg_Vec v \<Rightarrow> seg_start seg \<noteq> seg_end seg \<and>
                      seg_end seg - seg_start seg < int (length v))"

fun map_table_ok :: "map_segment list \<Rightarrow> bool" where
  "map_table_ok [] = False"
| "map_table_ok (seg # segs) =
     (seg_start seg = - 1 \<or> segment_ok seg \<and> map_table_ok segs)"

definition in_segment :: "int \<Rightarrow> map_segment \<Rightarrow> bool" where
  "in_segment val seg \<longleftrightarrow> seg_start seg \<le> val \<and> val \<le> seg_end seg"

lemma map_value_loop_defined:
  "map_table_ok segs \<Longrightarrow> \<exists>r. map_value_loop segs val dflt = Some r"
  by (induction segs) (auto simp: segment_ok_def Let_def split: seg_map.splits)

lemma map_value_loop_unmapped:
  "map_table_ok segs \<Longrightarrow> \<forall>seg \<in> set segs. \<not> in_segment val seg \<Longrightarrow>
   map_value_loop segs val dflt = Some dflt"
  by (induction segs) (auto simp: in_segment_def)

text \<open>
  On a well-formed table \<open>map_value\<close> always returns a number (it reads inside the table and its
  vectors), and a number no segment contains gives the default.
\<close>

lemma map_value_total:
  assumes "map_table_ok segs"
  shows "(\<exists>r. map_value (Some segs) val dflt = Some r) \<and>
    ((\<forall>seg \<in> set segs. \<not> in_segment val seg) \<longrightarrow> map_value (Some segs) val dflt = Some dflt)"
  using assms map_value_loop_defined map_value_loop_unmapped by (simp add: map_value_def)

end
