(* ===== verification/Ring.thy ===== *)
theory Ring
  imports Main
begin

text \<open>
  Circular doubly linked lists, as the C code keeps them: a successor and a predecessor
  function. \<open>ring nxt prv ls\<close> says that following \<open>nxt\<close> from the first element of \<open>ls\<close> visits
  exactly \<open>ls\<close> and returns, and that \<open>prv\<close> goes the other way. The facts here are about the
  pointer updates that move one element to the end, and about walks along a successor function.
\<close>

section \<open>Neighbours in a list\<close>

fun links :: "'a list \<Rightarrow> ('a \<times> 'a) set" where
  "links (x # y # zs) = insert (x, y) (links (y # zs))"
| "links _ = {}"

lemma links_append:
  "xs \<noteq> [] \<Longrightarrow> ys \<noteq> [] \<Longrightarrow> links (xs @ ys) = links xs \<union> {(last xs, hd ys)} \<union> links ys"
  by (induction xs rule: links.induct) (auto simp: neq_Nil_conv)

lemma links_snoc: "xs \<noteq> [] \<Longrightarrow> links (xs @ [y]) = insert (last xs, y) (links xs)"
  by (simp add: links_append)

lemma links_Cons: "xs \<noteq> [] \<Longrightarrow> links (x # xs) = insert (x, hd xs) (links xs)"
  by (cases xs) auto

lemma links_subset: "(a, b) \<in> links xs \<Longrightarrow> a \<in> set (butlast xs) \<and> b \<in> set (tl xs)"
  by (induction xs rule: links.induct) (auto split: if_splits intro: list.set_sel)

lemma links_distinct:
  assumes "(a, b) \<in> links xs" "distinct xs"
  shows "a \<noteq> last xs" "b \<noteq> hd xs" "a \<in> set xs" "b \<in> set xs"
proof -
  from assms(1) have ab: "a \<in> set (butlast xs)" "b \<in> set (tl xs)" "xs \<noteq> []"
    using links_subset by fastforce+
  with assms(2) show "a \<noteq> last xs" "b \<noteq> hd xs"
    by (metis append_butlast_last_id distinct_append distinct_singleton disjoint_insert(1)
        list.simps(15) empty_set inf_commute insert_disjoint(2) list.set_intros(1),
        metis distinct.simps(2) list.collapse)
  from ab show "a \<in> set xs" "b \<in> set xs" by (auto dest: in_set_butlastD list.set_sel(2))
qed

section \<open>Rings\<close>

definition ring :: "('a \<Rightarrow> 'a) \<Rightarrow> ('a \<Rightarrow> 'a) \<Rightarrow> 'a list \<Rightarrow> bool" where
  "ring nxt prv ls \<longleftrightarrow> ls \<noteq> [] \<and> distinct ls \<and>
     (\<forall>(a, b) \<in> links (ls @ [hd ls]). nxt a = b \<and> prv b = a)"

lemma ring_links: "ring nxt prv ls \<Longrightarrow> (a, b) \<in> links (ls @ [hd ls]) \<Longrightarrow> nxt a = b \<and> prv b = a"
  by (auto simp: ring_def)

lemma ring_last:
  assumes "ring nxt prv ls"
  shows "nxt (last ls) = hd ls" "prv (hd ls) = last ls"
  using assms by (auto simp: ring_def links_snoc)

lemma ring_hd:
  assumes "ring nxt prv (x # ls)" "ls \<noteq> []"
  shows "nxt x = hd ls" "prv (hd ls) = x" "prv x = last ls"
  using assms by (auto simp: ring_def links_snoc links_Cons)

lemma ring_rotate: "ring nxt prv (xs @ ys) \<Longrightarrow> ring nxt prv (ys @ xs)"
  by (cases "xs = []"; cases "ys = []") (auto simp: ring_def links_append links_snoc ball_Un)

text \<open>Taking an element out of a ring: two pointer assignments.\<close>

lemma ring_remove_hd:
  assumes "ring nxt prv (x # ls)" "ls \<noteq> []"
  shows "ring (nxt(prv x := nxt x)) (prv(nxt x := prv x)) ls"
proof -
  have "distinct ls" and old: "\<forall>(a, b) \<in> links ls. nxt a = b \<and> prv b = a"
    using assms by (auto simp: ring_def links_snoc links_Cons)
  then show ?thesis
    using assms(2) ring_hd [OF assms] by (auto simp: ring_def links_snoc dest: links_distinct)
qed

lemma ring_remove:
  assumes "ring nxt prv (xs @ x # ys)" "xs @ ys \<noteq> []"
  shows "ring (nxt(prv x := nxt x)) (prv(nxt x := prv x)) (xs @ ys)"
proof -
  have "ring nxt prv (x # ys @ xs)" using ring_rotate [OF assms(1)] by simp
  then have "ring (nxt(prv x := nxt x)) (prv(nxt x := prv x)) (ys @ xs)"
    by (rule ring_remove_hd) (use assms in auto)
  then show ?thesis by (rule ring_rotate)
qed

text \<open>Putting an element at the end of a ring, before its first element.\<close>

lemma ring_snoc:
  assumes "ring nxt prv ls" "x \<notin> set ls" "f = hd ls"
  shows "ring (nxt(prv f := x, x := f)) (prv(x := prv f, f := x)) (ls @ [x])"
proof -
  have ls: "ls \<noteq> []" "distinct ls" "\<forall>(a, b) \<in> links ls. nxt a = b \<and> prv b = a" "prv f = last ls"
    using assms by (auto simp: ring_def links_snoc)
  then have "links ((ls @ [x]) @ [f]) = links ls \<union> {(last ls, x), (x, f)}"
    by (simp add: links_append insert_commute)
  moreover have "last ls \<noteq> x" "f \<noteq> x" using ls assms by auto
  ultimately show ?thesis
    using ls assms by (auto simp: ring_def dest: links_distinct)
qed

section \<open>Walks\<close>

inductive chain :: "('a \<Rightarrow> 'a) \<Rightarrow> 'a \<Rightarrow> 'a \<Rightarrow> bool" for f where
  chain_refl: "chain f a a"
| chain_step: "chain f a b \<Longrightarrow> chain f a (f b)"

lemma chain_funpow: "chain f a b \<longleftrightarrow> (\<exists>k. b = (f ^^ k) a)"
proof
  show "chain f a b \<Longrightarrow> \<exists>k. b = (f ^^ k) a"
  proof (induction rule: chain.induct)
    case (chain_step a b)
    then obtain k where "b = (f ^^ k) a" by blast
    then have "f b = (f ^^ Suc k) a" by simp
    then show ?case by blast
  qed (rule exI [of _ 0], simp)
  have "chain f a ((f ^^ k) a)" for k
    by (induction k) (auto intro: chain.intros)
  then show "\<exists>k. b = (f ^^ k) a \<Longrightarrow> chain f a b" by blast
qed

lemma chain_invariant: "chain f a b \<Longrightarrow> P a \<Longrightarrow> (\<And>x. P x \<Longrightarrow> P (f x)) \<Longrightarrow> P b"
  by (induction rule: chain.induct) auto

lemma chain_trans: "chain f a b \<Longrightarrow> chain f b c \<Longrightarrow> chain f a c"
  by (rotate_tac, induction rule: chain.induct) (auto intro: chain.intros)

text \<open>
  Splicing \<open>n\<close> into a chain after \<open>s\<close> keeps everything reachable that was, as long as the
  chain does not pass through \<open>n\<close> already.
\<close>

lemma chain_splice:
  assumes "chain f a b" "P a" "\<And>x. P x \<Longrightarrow> P (f x)" "\<not> P n"
  shows "chain (f(n := f s, s := n)) a b"
  using assms(1,2)
proof (induction rule: chain.induct)
  case (chain_refl a)
  show ?case by (rule chain.chain_refl)
next
  case (chain_step a b)
  let ?f = "f(n := f s, s := n)"
  have b: "P b" using chain_step assms(3) by (blast intro: chain_invariant)
  with assms(4) have "b \<noteq> n" by blast
  from chain_step have IH: "chain ?f a b" by blast
  show ?case
  proof (cases "b = s")
    case True
    with IH have "chain ?f a n" by (metis chain.chain_step fun_upd_same)
    with True \<open>b \<noteq> n\<close> show ?thesis by (metis chain.chain_step fun_upd_other fun_upd_same)
  next
    case False
    with IH \<open>b \<noteq> n\<close> show ?thesis by (metis chain.chain_step fun_upd_other)
  qed
qed

text \<open>A walk inside a finite set on which the successor is injective returns to its start.\<close>

lemma chain_returns:
  assumes "finite U" "a \<in> U" "\<And>x. x \<in> U \<Longrightarrow> f x \<in> U" "\<And>x. x \<in> U \<Longrightarrow> g (f x) = x"
  shows "\<exists>k>0. (f ^^ k) a = a"
proof -
  have inU: "(f ^^ k) a \<in> U" for k by (induction k) (auto simp: assms)
  then have "\<not> inj (\<lambda>k. (f ^^ k) a)"
    using assms(1) by (metis finite_subset image_subsetI infinite_UNIV_char_0 finite_imageD)
  then obtain i j where ij: "(f ^^ i) a = (f ^^ j) a" "i < j"
    by (metis (no_types) injI linorder_neqE_nat)
  have "(f ^^ k) a = (f ^^ (k + d)) a \<Longrightarrow> a = (f ^^ d) a" for k d
  proof (induction k)
    case (Suc k)
    then have "g (f ((f ^^ k) a)) = g (f ((f ^^ (k + d)) a))" by simp
    then have "(f ^^ k) a = (f ^^ (k + d)) a" using assms(4) inU by simp
    then show ?case by (rule Suc.IH)
  qed simp
  from this [of i "j - i"] ij show ?thesis by (intro exI [of _ "j - i"]) auto
qed

end
