(* ===== verification/Short_Inode.thy ===== *)
theory Short_Inode
  imports Prelude Ring
begin

text \<open>
  \<^verbatim>\<open>src/ibcs/short-inode.c\<close>: 32-bit inode numbers mapped onto 16-bit ones, for the personalities
  whose \<open>ino_t\<close> is a short.

  The table is an array of \<open>SHORT_INODE_MAX\<close> elements that starts as zeroed memory and whose
  elements are initialised when they are first touched. Every element is on one circular
  doubly linked list in least-recently-used order, which starts at \<open>short_inode_oldest\<close>; the
  used elements are also linked into circular hash chains. The table is a function from the
  element's index to the element (\<open>None\<close> is the null pointer), and the \<open>u_short\<close> links are
  natural numbers: the invariant keeps them below \<open>SHORT_INODE_MAX = 65533\<close>. The walk along a
  hash chain is a partial function, \<open>None\<close> being a walk that does not end. The semaphore and
  the trace output are not modelled: the operations run one at a time.
\<close>

section \<open>The table\<close>

record short_inode_element =
  ino :: u32
  lru_prev :: nat
  lru_next :: nat
  hash_prev :: nat
  hash_next :: nat

abbreviation (input) SHORT_INODE_UNMAPPED :: nat where
  "SHORT_INODE_UNMAPPED \<equiv> 2"

definition SHORT_INODE_MAX :: nat where
  "SHORT_INODE_MAX = 65536 - (SHORT_INODE_UNMAPPED + 1)"

definition SHORT_INODE_UNUSED :: u32 where
  "SHORT_INODE_UNUSED = - 1"

definition SHORT_INODE_IS_UNUSED :: "u32 \<Rightarrow> bool" where
  "SHORT_INODE_IS_UNUSED n \<longleftrightarrow> n = 0 \<or> n = SHORT_INODE_UNUSED"

type_synonym sitable = "nat \<Rightarrow> short_inode_element"

record short_inodes =
  short_inode_table :: "sitable option"
  short_inode_oldest :: nat

section \<open>Operations\<close>

definition short_inode_lazy_init :: "nat \<Rightarrow> sitable \<Rightarrow> sitable" where
  "short_inode_lazy_init entry tab =
     (if ino (tab entry) \<noteq> 0 then tab
      else tab(entry := (tab entry)
        \<lparr>ino := SHORT_INODE_UNUSED,
         lru_prev := (entry + SHORT_INODE_MAX - 1) mod SHORT_INODE_MAX,
         lru_next := (entry + 1) mod SHORT_INODE_MAX\<rparr>))"

definition short_inode_hashval :: "u32 \<Rightarrow> nat" where
  "short_inode_hashval i =
     (let h = (ucast i :: u16);
          h = (if of_nat SHORT_INODE_MAX < i then h XOR ucast (drop_bit 16 i) else h)
      in (unat h + SHORT_INODE_MAX - SHORT_INODE_UNMAPPED - 1) mod SHORT_INODE_MAX)"

definition short_inode_lru_join :: "nat \<Rightarrow> nat \<Rightarrow> sitable \<Rightarrow> sitable" where
  "short_inode_lru_join prev nxt tab =
     (let tab = short_inode_lazy_init prev tab;
          tab = short_inode_lazy_init nxt tab;
          tab = tab(prev := (tab prev)\<lparr>lru_next := nxt\<rparr>)
      in tab(nxt := (tab nxt)\<lparr>lru_prev := prev\<rparr>))"

definition short_inode_lru_free :: "nat \<Rightarrow> sitable \<times> nat \<Rightarrow> sitable \<times> nat" where
  "short_inode_lru_free i = (\<lambda>(tab, oldest).
     let oldest' = (if i = oldest then lru_next (tab i) else oldest)
     in (short_inode_lru_join (lru_prev (tab i)) (lru_next (tab i)) tab, oldest'))"

definition short_inode_hash_join :: "nat \<Rightarrow> nat \<Rightarrow> sitable \<Rightarrow> sitable" where
  "short_inode_hash_join prev nxt tab =
     (let tab = tab(prev := (tab prev)\<lparr>hash_next := nxt\<rparr>)
      in tab(nxt := (tab nxt)\<lparr>hash_prev := prev\<rparr>))"

definition short_inode_hash_free :: "nat \<Rightarrow> sitable \<Rightarrow> sitable" where
  "short_inode_hash_free i tab =
     (if SHORT_INODE_IS_UNUSED (ino (tab i)) then tab
      else short_inode_hash_join (hash_prev (tab i)) (hash_next (tab i)) tab)"

text \<open>The \<open>do ... while\<close> of \<open>short_inode_map\<close>: the element the walk from \<open>si\<close> stops at.\<close>

partial_function (option) short_inode_walk :: "sitable \<Rightarrow> nat \<Rightarrow> u32 \<Rightarrow> nat \<Rightarrow> nat option" where
  "short_inode_walk tab start i si =
     (let si' = hash_next (tab si)
      in if si' \<noteq> start \<and> ino (tab si') \<noteq> i then short_inode_walk tab start i si' else Some si')"

text \<open>The element for an inode: its hash slot, one of its hash chain, or the oldest.\<close>

definition short_inode_find :: "sitable \<Rightarrow> nat \<Rightarrow> u32 \<Rightarrow> (nat \<times> sitable) option" where
  "short_inode_find tab oldest i =
     (let si = short_inode_hashval i
      in if SHORT_INODE_IS_UNUSED (ino (tab si))
         then let tab = short_inode_lazy_init si tab;
                  tab = tab(si := (tab si)\<lparr>ino := i\<rparr>)
              in Some (si, short_inode_hash_join si si tab)
         else if ino (tab si) \<noteq> i
         then case short_inode_walk tab si i si of
                None \<Rightarrow> None
              | Some si \<Rightarrow>
                  if ino (tab si) \<noteq> i
                  then let new_node = oldest;
                           tab = short_inode_lazy_init new_node tab;
                           tab = short_inode_hash_free new_node tab;
                           tab = short_inode_hash_join new_node (hash_next (tab si)) tab;
                           tab = short_inode_hash_join si new_node tab
                       in Some (new_node, tab(new_node := (tab new_node)\<lparr>ino := i\<rparr>))
                  else Some (si, tab)
         else Some (si, tab))"

text \<open>Moving an element to the young end of the least-recently-used list.\<close>

definition short_inode_touch :: "nat \<Rightarrow> sitable \<times> nat \<Rightarrow> sitable \<times> nat" where
  "short_inode_touch si st =
     (let (tab, oldest) = short_inode_lru_free si st;
          tab = short_inode_lazy_init oldest tab;
          tab = short_inode_lru_join (lru_prev (tab oldest)) si tab
      in (short_inode_lru_join si oldest tab, oldest))"

definition short_inode_map :: "u32 \<Rightarrow> short_inodes \<Rightarrow> (u32 \<times> short_inodes) option" where
  "short_inode_map i s =
     (case short_inode_table s of
        None \<Rightarrow> Some (if i AND 0xffff \<noteq> 0 then i else - ENOENT, s)
      | Some tab \<Rightarrow>
          if i \<le> of_nat SHORT_INODE_UNMAPPED then Some (i, s)
          else case short_inode_find tab (short_inode_oldest s) i of
                 None \<Rightarrow> None
               | Some (si, tab) \<Rightarrow>
                   let (tab, oldest) = short_inode_touch si (tab, short_inode_oldest s)
                   in Some (of_nat si + of_nat SHORT_INODE_UNMAPPED + 1,
                            s\<lparr>short_inode_table := Some tab, short_inode_oldest := oldest\<rparr>))"

text \<open>\<open>ibcs_malloc\<close> gives zeroed memory here, as the comment in the source explains.\<close>

definition short_inode_construct :: "short_inodes \<Rightarrow> short_inodes" where
  "short_inode_construct s =
     s\<lparr>short_inode_table :=
         Some (\<lambda>_. \<lparr>ino = 0, lru_prev = 0, lru_next = 0, hash_prev = 0, hash_next = 0\<rparr>),
       short_inode_oldest := 0\<rparr>"

definition short_inode_destruct :: "short_inodes \<Rightarrow> short_inodes" where
  "short_inode_destruct s = s\<lparr>short_inode_table := None\<rparr>"


section \<open>What the table means\<close>

text \<open>
  An element the code has not touched behaves as if it were linked between its neighbours and
  unused. The views below read the table that way; \<open>short_inode_lazy_init\<close> changes none of them.
\<close>

definition si_owner :: "sitable \<Rightarrow> nat \<Rightarrow> u32 option" where
  "si_owner tab s = (if SHORT_INODE_IS_UNUSED (ino (tab s)) then None else Some (ino (tab s)))"

definition si_next :: "sitable \<Rightarrow> nat \<Rightarrow> nat" where
  "si_next tab s = (if ino (tab s) = 0 then (s + 1) mod SHORT_INODE_MAX else lru_next (tab s))"

definition si_prev :: "sitable \<Rightarrow> nat \<Rightarrow> nat" where
  "si_prev tab s = (if ino (tab s) = 0 then (s + SHORT_INODE_MAX - 1) mod SHORT_INODE_MAX
                    else lru_prev (tab s))"

abbreviation si_hnext :: "sitable \<Rightarrow> nat \<Rightarrow> nat" where
  "si_hnext tab \<equiv> \<lambda>s. hash_next (tab s)"

abbreviation si_hprev :: "sitable \<Rightarrow> nat \<Rightarrow> nat" where
  "si_hprev tab \<equiv> \<lambda>s. hash_prev (tab s)"

named_theorems si_views \<open>how each operation changes the views of the table\<close>

lemma lazy_init_views [si_views]:
  "si_owner (short_inode_lazy_init e tab) = si_owner tab"
  "si_next (short_inode_lazy_init e tab) = si_next tab"
  "si_prev (short_inode_lazy_init e tab) = si_prev tab"
  "hash_next (short_inode_lazy_init e tab s) = hash_next (tab s)"
  "hash_prev (short_inode_lazy_init e tab s) = hash_prev (tab s)"
  by (auto simp: short_inode_lazy_init_def si_owner_def si_next_def si_prev_def fun_eq_iff
      SHORT_INODE_IS_UNUSED_def SHORT_INODE_UNUSED_def)

lemma lazy_init_ino [si_views]:
  "ino (short_inode_lazy_init e tab s) =
     (if s = e \<and> ino (tab e) = 0 then SHORT_INODE_UNUSED else ino (tab s))"
  by (simp add: short_inode_lazy_init_def)

lemma SHORT_INODE_UNUSED_nonzero [simp]: "SHORT_INODE_UNUSED \<noteq> 0"
  by (simp add: SHORT_INODE_UNUSED_def)

lemma initialised_links:
  "ino (tab s) \<noteq> 0 \<Longrightarrow> lru_next (tab s) = si_next tab s"
  "ino (tab s) \<noteq> 0 \<Longrightarrow> lru_prev (tab s) = si_prev tab s"
  by (simp_all add: si_next_def si_prev_def)

lemma owned_initialised: "si_owner tab s = Some i \<Longrightarrow> ino (tab s) = i \<and> i \<noteq> 0"
  by (auto simp: si_owner_def SHORT_INODE_IS_UNUSED_def split: if_splits)

lemma lru_join_views [si_views]:
  "si_owner (short_inode_lru_join p n tab) = si_owner tab"
  "si_next (short_inode_lru_join p n tab) = (si_next tab)(p := n)"
  "si_prev (short_inode_lru_join p n tab) = (si_prev tab)(n := p)"
  "hash_next (short_inode_lru_join p n tab s) = hash_next (tab s)"
  "hash_prev (short_inode_lru_join p n tab s) = hash_prev (tab s)"
  "ino (short_inode_lru_join p n tab s) =
     (if (s = p \<or> s = n) \<and> ino (tab s) = 0 then SHORT_INODE_UNUSED else ino (tab s))"
  by (auto simp: short_inode_lru_join_def short_inode_lazy_init_def si_owner_def si_next_def
      si_prev_def fun_eq_iff SHORT_INODE_IS_UNUSED_def Let_def)

lemma hash_join_views [si_views]:
  "si_owner (short_inode_hash_join p n tab) = si_owner tab"
  "si_next (short_inode_hash_join p n tab) = si_next tab"
  "si_prev (short_inode_hash_join p n tab) = si_prev tab"
  "si_hnext (short_inode_hash_join p n tab) = (si_hnext tab)(p := n)"
  "si_hprev (short_inode_hash_join p n tab) = (si_hprev tab)(n := p)"
  "ino (short_inode_hash_join p n tab s) = ino (tab s)"
  by (auto simp: short_inode_hash_join_def si_owner_def si_next_def si_prev_def fun_eq_iff Let_def)

lemma set_ino_views [si_views]:
  assumes "ino (tab e) \<noteq> 0" "\<not> SHORT_INODE_IS_UNUSED i"
  shows "si_owner (tab(e := (tab e)\<lparr>ino := i\<rparr>)) = (si_owner tab)(e \<mapsto> i)"
    "si_next (tab(e := (tab e)\<lparr>ino := i\<rparr>)) = si_next tab"
    "si_prev (tab(e := (tab e)\<lparr>ino := i\<rparr>)) = si_prev tab"
  using assms by (auto simp: si_owner_def si_next_def si_prev_def fun_eq_iff
      SHORT_INODE_IS_UNUSED_def)

lemma set_ino_hash:
  "hash_next ((tab(e := (tab e)\<lparr>ino := i\<rparr>)) s) = hash_next (tab s)"
  "hash_prev ((tab(e := (tab e)\<lparr>ino := i\<rparr>)) s) = hash_prev (tab s)"
  by simp_all

section \<open>The invariant\<close>

text \<open>
  The least-recently-used list \<open>ls\<close> holds every index once, starts at the oldest one, and has
  the unused elements before the used ones.
\<close>

definition si_lru :: "sitable \<Rightarrow> nat \<Rightarrow> nat list \<Rightarrow> bool" where
  "si_lru tab oldest ls \<longleftrightarrow>
     ring (si_next tab) (si_prev tab) ls \<and> set ls = {..<SHORT_INODE_MAX} \<and> hd ls = oldest \<and>
     (\<exists>us vs. ls = us @ vs \<and> (\<forall>s\<in>set us. si_owner tab s = None) \<and>
              (\<forall>s\<in>set vs. si_owner tab s \<noteq> None))"

text \<open>
  The used elements form circular hash chains, no inode has two elements, and the element of
  an inode is on the chain that starts at its hash slot.
\<close>

definition si_hash :: "(nat \<Rightarrow> u32 option) \<Rightarrow> (nat \<Rightarrow> nat) \<Rightarrow> (nat \<Rightarrow> nat) \<Rightarrow> bool" where
  "si_hash owner hn hp \<longleftrightarrow>
     (\<forall>s\<in>dom owner. s < SHORT_INODE_MAX \<and> hn s \<in> dom owner \<and> hp s \<in> dom owner \<and>
        hp (hn s) = s \<and> hn (hp s) = s) \<and>
     inj_on owner (dom owner) \<and>
     (\<forall>s i. owner s = Some i \<longrightarrow>
        short_inode_hashval i \<in> dom owner \<and> chain hn (short_inode_hashval i) s)"

definition si_inv :: "short_inodes \<Rightarrow> bool" where
  "si_inv s \<longleftrightarrow>
     (\<exists>tab ls. short_inode_table s = Some tab \<and> si_lru tab (short_inode_oldest s) ls \<and>
        si_hash (si_owner tab) (si_hnext tab) (si_hprev tab))"


section \<open>The least-recently-used list\<close>

lemma short_inode_touch_views:
  fixes tab :: sitable
  assumes "ino (tab si) \<noteq> 0" "short_inode_touch si (tab, oldest) = (tab', oldest')"
  defines "nxt \<equiv> (si_next tab)(si_prev tab si := si_next tab si)"
    and "prv \<equiv> (si_prev tab)(si_next tab si := si_prev tab si)"
  shows "oldest' = (if si = oldest then si_next tab si else oldest)"
    "si_next tab' = nxt(prv oldest' := si, si := oldest')"
    "si_prev tab' = prv(si := prv oldest', oldest' := si)"
    "si_owner tab' = si_owner tab" "si_hnext tab' = si_hnext tab" "si_hprev tab' = si_hprev tab"
proof -
  let ?t1 = "short_inode_lru_join (si_prev tab si) (si_next tab si) tab"
  let ?t2 = "short_inode_lazy_init oldest' ?t1"
  let ?t3 = "short_inode_lru_join (si_prev ?t1 oldest') si ?t2"
  have l: "lru_next (tab si) = si_next tab si" "lru_prev (tab si) = si_prev tab si"
    using assms(1) by (simp_all add: initialised_links)
  have t2: "lru_prev (?t2 oldest') = si_prev ?t1 oldest'"
    by (subst initialised_links(2)) (simp_all add: si_views)
  then have *: "oldest' = (if si = oldest then si_next tab si else oldest)"
    "tab' = short_inode_lru_join si oldest' ?t3"
    using assms(2) l by (auto simp: short_inode_touch_def short_inode_lru_free_def Let_def
        split: if_splits)
  show "oldest' = (if si = oldest then si_next tab si else oldest)" by (rule *)
  show "si_next tab' = nxt(prv oldest' := si, si := oldest')"
    "si_prev tab' = prv(si := prv oldest', oldest' := si)"
    "si_owner tab' = si_owner tab" "si_hnext tab' = si_hnext tab" "si_hprev tab' = si_hprev tab"
    unfolding *(2) nxt_def prv_def by (simp_all only: si_views)
qed

lemma short_inode_touch_ring:
  assumes ring: "ring (si_next tab) (si_prev tab) ls" and ls: "hd ls = oldest" "si \<in> set ls" "2 \<le> length ls"
    and init: "ino (tab si) \<noteq> 0" and touch: "short_inode_touch si (tab, oldest) = (tab', oldest')"
  shows "ring (si_next tab') (si_prev tab') (remove1 si ls @ [si])"
    "hd (remove1 si ls @ [si]) = oldest'"
proof -
  from ls(2) obtain xs ys where xy: "ls = xs @ si # ys" "si \<notin> set xs"
    by (meson split_list_first)
  have d: "distinct ls" using ring by (simp add: ring_def)
  have rest: "remove1 si ls = xs @ ys" "xs @ ys \<noteq> []" "si \<notin> set (xs @ ys)"
    using xy d ls(3) by (auto simp: remove1_append)
  have old: "oldest' = hd (xs @ ys)"
  proof (cases "xs = []")
    case True
    then show ?thesis
      using short_inode_touch_views(1) [OF init touch] ring_hd(1) [of "si_next tab" "si_prev tab" si ys]
        ring rest xy ls(1) by simp
  next
    case False
    then have "si \<noteq> oldest" using xy ls(1) by (cases xs) auto
    then show ?thesis
      using short_inode_touch_views(1) [OF init touch] False xy ls(1) by simp
  qed
  have "ring ((si_next tab)(si_prev tab si := si_next tab si))
             ((si_prev tab)(si_next tab si := si_prev tab si)) (xs @ ys)"
    using ring_remove [OF _ rest(2)] ring xy by blast
  from ring_snoc [OF this rest(3) old] show "ring (si_next tab') (si_prev tab') (remove1 si ls @ [si])"
    unfolding short_inode_touch_views [OF init touch] rest .
  show "hd (remove1 si ls @ [si]) = oldest'"
    using old rest(2) unfolding rest(1) by (metis hd_append2)
qed

lemma remove1_move_used:
  assumes "distinct (us @ vs)" "\<forall>s\<in>set us. owner s = None" "\<forall>s\<in>set vs. owner s \<noteq> None"
  shows "\<exists>us' vs'. remove1 si (us @ vs) @ [si] = us' @ vs' \<and>
    (\<forall>s\<in>set us'. (owner(si \<mapsto> i)) s = None) \<and> (\<forall>s\<in>set vs'. (owner(si \<mapsto> i)) s \<noteq> None)"
proof -
  have "remove1 si (us @ vs) @ [si] = remove1 si us @ (remove1 si vs @ [si])"
    using assms(1) by (auto simp: remove1_append remove1_idem disjoint_iff)
  moreover have "\<forall>s\<in>set (remove1 si us). (owner(si \<mapsto> i)) s = None"
    using assms by auto
  moreover have "\<forall>s\<in>set (remove1 si vs @ [si]). (owner(si \<mapsto> i)) s \<noteq> None"
    using assms by auto
  ultimately show ?thesis by blast
qed

text \<open>
  Touching an element that has just got its owner keeps the least-recently-used list well
  formed and moves the element to its end.
\<close>

lemma si_lru_touch:
  assumes lru: "si_lru tab0 oldest ls" and si: "si < SHORT_INODE_MAX"
    and views: "si_next tab = si_next tab0" "si_prev tab = si_prev tab0"
      "si_owner tab = (si_owner tab0)(si \<mapsto> i)"
    and touch: "short_inode_touch si (tab, oldest) = (tab', oldest')"
  shows "si_lru tab' oldest' (remove1 si ls @ [si])"
proof -
  from lru obtain us vs where uv: "ls = us @ vs" "\<forall>s\<in>set us. si_owner tab0 s = None"
      "\<forall>s\<in>set vs. si_owner tab0 s \<noteq> None"
    and ring: "ring (si_next tab) (si_prev tab) ls" and set: "set ls = {..<SHORT_INODE_MAX}"
    and hd: "hd ls = oldest"
    by (auto simp: si_lru_def views)
  have d: "distinct ls" using ring by (simp add: ring_def)
  have "length ls = SHORT_INODE_MAX" using distinct_card [OF d] set by simp
  then have len: "2 \<le> length ls" by (simp add: SHORT_INODE_MAX_def)
  have init: "ino (tab si) \<noteq> 0" using owned_initialised [of tab si i] views(3) by simp
  have si': "si \<in> set ls" using set si by simp
  note r = short_inode_touch_ring [OF ring hd si' len init touch]
  have "si_owner tab' = (si_owner tab0)(si \<mapsto> i)"
    using short_inode_touch_views(4) [OF init touch] views(3) by simp
  moreover have "set (remove1 si ls @ [si]) = {..<SHORT_INODE_MAX}"
    using d set si' by auto
  ultimately show ?thesis
    using r remove1_move_used [of us vs "si_owner tab0" si i] uv d
    by (simp add: si_lru_def)
qed


section \<open>The hash chains\<close>

lemma short_inode_hashval_less: "short_inode_hashval i < SHORT_INODE_MAX"
  by (simp add: short_inode_hashval_def SHORT_INODE_MAX_def Let_def)

lemma si_hash_dom:
  assumes "si_hash owner hn hp" "s \<in> dom owner"
  shows "s < SHORT_INODE_MAX" "hn s \<in> dom owner" "hp s \<in> dom owner" "hp (hn s) = s" "hn (hp s) = s"
  using assms by (auto simp: si_hash_def)

lemma si_hash_inj: "si_hash owner hn hp \<Longrightarrow> owner s = Some i \<Longrightarrow> owner t = Some i \<Longrightarrow> s = t"
  unfolding si_hash_def inj_on_def by (metis domI)

lemma si_hash_chain:
  assumes "si_hash owner hn hp" "owner s = Some i"
  shows "short_inode_hashval i \<in> dom owner" "chain hn (short_inode_hashval i) s"
  using assms by (auto simp: si_hash_def)

lemma si_hash_finite: "si_hash owner hn hp \<Longrightarrow> finite (dom owner)"
  by (rule finite_subset [of _ "{..<SHORT_INODE_MAX}"]) (auto simp: si_hash_def)

lemma si_hash_funpow: "si_hash owner hn hp \<Longrightarrow> s \<in> dom owner \<Longrightarrow> (hn ^^ k) s \<in> dom owner"
  by (induction k) (auto dest: si_hash_dom)

subsection \<open>The walk\<close>

lemma short_inode_walk_funpow:
  assumes "0 < k" "(si_hnext tab ^^ k) s = start \<or> ino (tab ((si_hnext tab ^^ k) s)) = i"
    "\<And>j. 0 < j \<Longrightarrow> j < k \<Longrightarrow>
       (si_hnext tab ^^ j) s \<noteq> start \<and> ino (tab ((si_hnext tab ^^ j) s)) \<noteq> i"
  shows "short_inode_walk tab start i s = Some ((si_hnext tab ^^ k) s)"
  using assms
proof (induction k arbitrary: s)
  case (Suc k)
  show ?case
  proof (cases "k = 0")
    case True
    with Suc.prems show ?thesis by (subst short_inode_walk.simps) (auto simp: Let_def)
  next
    case False
    have "short_inode_walk tab start i (hash_next (tab s)) = Some ((si_hnext tab ^^ k) (hash_next (tab s)))"
    proof (rule Suc.IH)
      show "0 < k" using False by simp
      show "(si_hnext tab ^^ k) (hash_next (tab s)) = start
          \<or> ino (tab ((si_hnext tab ^^ k) (hash_next (tab s)))) = i"
        using Suc.prems(2) by (simp del: funpow.simps add: funpow_Suc_right)
      show "(si_hnext tab ^^ j) (hash_next (tab s)) \<noteq> start
          \<and> ino (tab ((si_hnext tab ^^ j) (hash_next (tab s)))) \<noteq> i" if "0 < j" "j < k" for j
        using Suc.prems(3) [of "Suc j"] that by (simp del: funpow.simps add: funpow_Suc_right)
    qed
    with Suc.prems(3) [of 1] False show ?thesis
      by (subst short_inode_walk.simps) (simp del: funpow.simps(2) add: Let_def funpow_Suc_right)
  qed
qed simp

text \<open>The walk along a well-formed chain ends: at its start or at the element of the inode.\<close>

lemma short_inode_walk_stops:
  assumes "si_hash (si_owner tab) (si_hnext tab) (si_hprev tab)" "s \<in> dom (si_owner tab)"
  obtains k where "0 < k" "short_inode_walk tab s i s = Some ((si_hnext tab ^^ k) s)"
    "(si_hnext tab ^^ k) s = s \<or> ino (tab ((si_hnext tab ^^ k) s)) = i"
    "\<And>j. 0 < j \<Longrightarrow> j < k \<Longrightarrow> (si_hnext tab ^^ j) s \<noteq> s \<and> ino (tab ((si_hnext tab ^^ j) s)) \<noteq> i"
proof -
  let ?stop = "\<lambda>k. 0 < k \<and> ((si_hnext tab ^^ k) s = s \<or> ino (tab ((si_hnext tab ^^ k) s)) = i)"
  have "\<exists>k>0. (si_hnext tab ^^ k) s = s"
    by (rule chain_returns [OF si_hash_finite [OF assms(1)] assms(2), where g = "si_hprev tab"])
      (use si_hash_dom [OF assms(1)] in auto)
  then have ex: "\<exists>k. ?stop k" by blast
  define k where "k = (LEAST k. ?stop k)"
  have k: "?stop k" unfolding k_def using ex by (rule LeastI_ex)
  have before: "\<not> ?stop j" if "j < k" for j using not_less_Least that unfolding k_def by blast
  show thesis
    by (rule that [of k]) (use k before short_inode_walk_funpow [of k tab s s i] in auto)
qed

lemma si_owner_ino: "s \<in> dom (si_owner tab) \<Longrightarrow> si_owner tab s = Some (ino (tab s))"
  by (auto simp: si_owner_def split: if_splits)

lemma short_inode_walk_found:
  assumes inv: "si_hash (si_owner tab) (si_hnext tab) (si_hprev tab)"
    and t: "si_owner tab t = Some i" and h: "h = short_inode_hashval i" "ino (tab h) \<noteq> i"
  shows "short_inode_walk tab h i h = Some t"
proof -
  have hd: "h \<in> dom (si_owner tab)" using si_hash_chain(1) [OF inv t] h by simp
  from short_inode_walk_stops [OF inv hd, of i] obtain k where k: "0 < k"
    "short_inode_walk tab h i h = Some ((si_hnext tab ^^ k) h)"
    "(si_hnext tab ^^ k) h = h \<or> ino (tab ((si_hnext tab ^^ k) h)) = i"
    "\<And>j. 0 < j \<Longrightarrow> j < k \<Longrightarrow> (si_hnext tab ^^ j) h \<noteq> h \<and> ino (tab ((si_hnext tab ^^ j) h)) \<noteq> i"
    by metis
  have "ino (tab ((si_hnext tab ^^ k) h)) = i"
  proof (rule ccontr)
    assume "ino (tab ((si_hnext tab ^^ k) h)) \<noteq> i"
    with k(3) have ret: "(si_hnext tab ^^ k) h = h" by blast
    from si_hash_chain(2) [OF inv t] h obtain m where m: "t = (si_hnext tab ^^ m) h"
      by (auto simp: chain_funpow)
    have "(si_hnext tab ^^ m) h = (si_hnext tab ^^ (m mod k)) h"
      using ret by (metis funpow_mod_eq)
    with m have "ino (tab ((si_hnext tab ^^ (m mod k)) h)) = i"
      using owned_initialised [OF t] by simp
    moreover have "m mod k < k" using k(1) by simp
    ultimately show False using k(4) [of "m mod k"] h(2) by (cases "m mod k = 0") auto
  qed
  then have "si_owner tab ((si_hnext tab ^^ k) h) = Some i"
    using si_owner_ino [OF si_hash_funpow [OF inv hd, of k]] by simp
  then have "(si_hnext tab ^^ k) h = t" using si_hash_inj [OF inv _ t] by blast
  with k(2) show ?thesis by simp
qed

lemma short_inode_walk_absent:
  assumes inv: "si_hash (si_owner tab) (si_hnext tab) (si_hprev tab)"
    and h: "h \<in> dom (si_owner tab)" and i: "Some i \<notin> range (si_owner tab)"
  shows "short_inode_walk tab h i h = Some h"
proof -
  from short_inode_walk_stops [OF inv h, of i] obtain k where k:
    "short_inode_walk tab h i h = Some ((si_hnext tab ^^ k) h)"
    "(si_hnext tab ^^ k) h = h \<or> ino (tab ((si_hnext tab ^^ k) h)) = i"
    by metis
  moreover have "ino (tab ((si_hnext tab ^^ k) h)) \<noteq> i"
    using si_owner_ino [OF si_hash_funpow [OF inv h, of k]] i by (metis rangeI)
  ultimately show ?thesis by simp
qed


subsection \<open>New elements\<close>

lemma si_hash_fresh:
  assumes "si_hash owner hn hp" "owner (short_inode_hashval i) = None"
  shows "Some i \<notin> range owner"
proof
  assume "Some i \<in> range owner"
  then obtain t where "owner t = Some i" by (metis imageE)
  from si_hash_chain(1) [OF assms(1) this] assms(2) show False by auto
qed

lemma inj_on_map_upd:
  assumes "inj_on owner (dom owner)" "Some i \<notin> range owner"
  shows "inj_on (owner(n \<mapsto> i)) (dom (owner(n \<mapsto> i)))"
proof (rule inj_onI)
  fix x y assume xy: "x \<in> dom (owner(n \<mapsto> i))" "y \<in> dom (owner(n \<mapsto> i))"
    and eq: "(owner(n \<mapsto> i)) x = (owner(n \<mapsto> i)) y"
  have "owner z \<noteq> Some i" for z using assms(2) by (metis rangeI)
  then show "x = y"
    using xy eq inj_onD [OF assms(1), of x y] by (cases "x = n"; cases "y = n") (auto simp: domIff)
qed

lemma chain_avoid:
  assumes inv: "si_hash owner hn hp" and c: "chain hn a b" "a \<in> dom owner" and n: "owner n = None"
  shows "chain (hn(n := m)) a b"
proof -
  have "chain (hn(n := m)) a b \<and> b \<in> dom owner" using c
  proof (induction rule: chain.induct)
    case (chain_step a b)
    then have b: "b \<in> dom owner" "chain (hn(n := m)) a b" by blast+
    with n have "(hn(n := m)) b = hn b" by auto
    with chain.chain_step [OF b(2)] si_hash_dom(2) [OF inv b(1)] show ?case by metis
  qed (auto intro: chain.intros)
  then show ?thesis by blast
qed

lemma si_hash_own_slot:
  assumes inv: "si_hash owner hn hp" and h: "h = short_inode_hashval i" "owner h = None"
  shows "si_hash (owner(h \<mapsto> i)) (hn(h := h)) (hp(h := h))"
proof -
  have links: "s < SHORT_INODE_MAX \<and> (hn(h := h)) s \<in> dom (owner(h \<mapsto> i)) \<and>
      (hp(h := h)) s \<in> dom (owner(h \<mapsto> i)) \<and> (hp(h := h)) ((hn(h := h)) s) = s \<and>
      (hn(h := h)) ((hp(h := h)) s) = s" if "s \<in> dom (owner(h \<mapsto> i))" for s
  proof (cases "s = h")
    case True
    then show ?thesis using short_inode_hashval_less [of i] h by simp
  next
    case False
    with that have s: "s \<in> dom owner" by (auto split: if_splits)
    note U = si_hash_dom [OF inv s]
    have "hn s \<noteq> h" "hp s \<noteq> h" using U(2,3) h(2) by auto
    with False U show ?thesis by auto
  qed
  have reach: "short_inode_hashval j \<in> dom (owner(h \<mapsto> i)) \<and> chain (hn(h := h)) (short_inode_hashval j) s"
    if "(owner(h \<mapsto> i)) s = Some j" for s j
  proof (cases "s = h")
    case True
    with that h show ?thesis by (auto intro: chain.intros)
  next
    case False
    with that have "owner s = Some j" by simp
    note c = si_hash_chain [OF inv this]
    with chain_avoid [OF inv c(2,1) h(2), of h] show ?thesis by auto
  qed
  have "inj_on (owner(h \<mapsto> i)) (dom (owner(h \<mapsto> i)))"
    using inv h si_hash_fresh [OF inv] by (intro inj_on_map_upd) (auto simp: si_hash_def)
  with links reach show ?thesis unfolding si_hash_def by blast
qed

lemma si_hash_splice:
  assumes inv: "si_hash owner hn hp" and h: "h = short_inode_hashval i" "h \<in> dom owner"
    and n: "owner n = None" "n < SHORT_INODE_MAX" and i: "Some i \<notin> range owner"
  shows "si_hash (owner(n \<mapsto> i)) (hn(n := hn h, h := n)) (hp(hn h := n, n := h))"
proof -
  let ?hn = "hn(n := hn h, h := n)" and ?hp = "hp(hn h := n, n := h)"
  note U = si_hash_dom [OF inv]
  have hn: "h \<noteq> n" using h n by auto
  have ne: "n \<noteq> s" "n \<noteq> hn s" "n \<noteq> hp s" if "s \<in> dom owner" for s
    using U [OF that] that n(1) by auto
  have nodup: "hn s = hn h \<longleftrightarrow> s = h" if "s \<in> dom owner" for s
    using U(4) [OF that] U(4) [OF h(2)] by metis
  have hp_h: "hp s = h \<longleftrightarrow> s = hn h" if "s \<in> dom owner" for s
    using U(5) [OF that] U(4) [OF h(2)] by metis
  have links: "s < SHORT_INODE_MAX \<and> ?hn s \<in> dom (owner(n \<mapsto> i)) \<and> ?hp s \<in> dom (owner(n \<mapsto> i)) \<and>
      ?hp (?hn s) = s \<and> ?hn (?hp s) = s" if "s \<in> dom (owner(n \<mapsto> i))" for s
  proof (cases "s = n")
    case True
    then show ?thesis using U [OF h(2)] h(2) hn n ne [OF h(2)] by auto
  next
    case False
    with that have s: "s \<in> dom owner" by (auto split: if_splits)
    then show ?thesis
      using U [OF s] U [OF h(2)] hn n ne [OF s] ne [OF h(2)] nodup [OF s] hp_h [OF s] False
      by auto
  qed
  have reach: "short_inode_hashval j \<in> dom (owner(n \<mapsto> i)) \<and> chain ?hn (short_inode_hashval j) s"
    if "(owner(n \<mapsto> i)) s = Some j" for s j
  proof (cases "s = n")
    case True
    with that have "j = i" by simp
    have "chain ?hn h (?hn h)" by (intro chain.intros)
    with True \<open>j = i\<close> h show ?thesis by (auto split: if_splits)
  next
    case False
    with that have s: "owner s = Some j" by simp
    have "chain ?hn (short_inode_hashval j) s"
      by (rule chain_splice [where P = "\<lambda>x. x \<in> dom owner"])
        (use si_hash_chain [OF inv s] U n(1) in auto)
    with si_hash_chain(1) [OF inv s] show ?thesis by auto
  qed
  have "inj_on (owner(n \<mapsto> i)) (dom (owner(n \<mapsto> i)))"
    using inv i by (intro inj_on_map_upd) (simp_all add: si_hash_def)
  with links reach show ?thesis unfolding si_hash_def by blast
qed


section \<open>Mapping an inode\<close>

lemma si_owner_None_iff: "si_owner tab s = None \<longleftrightarrow> SHORT_INODE_IS_UNUSED (ino (tab s))"
  by (simp add: si_owner_def)

text \<open>
  The element found for an inode: it belonged to the inode already or to nobody, it belongs to
  it now, and nothing else changed hands.
\<close>

lemma short_inode_find_spec:
  assumes inv: "si_hash (si_owner tab) (si_hnext tab) (si_hprev tab)"
    and i: "\<not> SHORT_INODE_IS_UNUSED i" and old: "oldest < SHORT_INODE_MAX"
    and room: "si_owner tab oldest = None \<or> Some i \<in> range (si_owner tab)"
  obtains si tab' where "short_inode_find tab oldest i = Some (si, tab')"
    "si < SHORT_INODE_MAX" "si_owner tab si = None \<or> si_owner tab si = Some i"
    "si_owner tab' = (si_owner tab)(si \<mapsto> i)"
    "si_next tab' = si_next tab" "si_prev tab' = si_prev tab"
    "si_hash (si_owner tab') (si_hnext tab') (si_hprev tab')"
proof -
  let ?h = "short_inode_hashval i"
  consider (slot) "si_owner tab ?h = None" | (found) t where "si_owner tab t = Some i" "?h \<in> dom (si_owner tab)"
    | (new) "?h \<in> dom (si_owner tab)" "Some i \<notin> range (si_owner tab)" "si_owner tab oldest = None"
    using room by (metis domIff imageE)
  then show thesis
  proof cases
    case slot
    let ?t1 = "short_inode_lazy_init ?h tab"
    let ?t2 = "?t1(?h := (?t1 ?h)\<lparr>ino := i\<rparr>)"
    let ?t3 = "short_inode_hash_join ?h ?h ?t2"
    have t1: "ino (?t1 ?h) \<noteq> 0" by (simp add: si_views)
    have "si_owner ?t3 = (si_owner tab)(?h \<mapsto> i)" "si_next ?t3 = si_next tab"
      "si_prev ?t3 = si_prev tab" "si_hnext ?t3 = (si_hnext tab)(?h := ?h)"
      "si_hprev ?t3 = (si_hprev tab)(?h := ?h)"
      by (simp_all only: hash_join_views set_ino_views [of ?t1 ?h, OF t1 i] set_ino_hash
          lazy_init_views)
    moreover have "short_inode_find tab oldest i = Some (?h, ?t3)"
      using slot by (simp add: short_inode_find_def Let_def si_owner_None_iff)
    ultimately show thesis
      using slot si_hash_own_slot [OF inv refl slot] short_inode_hashval_less
      by (intro that [of ?h ?t3]) simp_all
  next
    case (found t)
    have used: "\<not> SHORT_INODE_IS_UNUSED (ino (tab ?h))"
      using found(2) si_owner_None_iff [of tab ?h] by auto
    have "short_inode_find tab oldest i = Some (t, tab)"
      using used found short_inode_walk_found [OF inv found(1) refl] si_owner_ino [of ?h tab]
        owned_initialised [OF found(1)] si_hash_inj [OF inv found(1), of ?h]
      by (auto simp: short_inode_find_def Let_def si_owner_None_iff)
    with found si_hash_dom(1) [OF inv, of t] inv show thesis
      by (intro that [of t tab]) (auto simp: fun_upd_idem)
  next
    case new
    let ?t1 = "short_inode_lazy_init oldest tab"
    let ?t2 = "short_inode_hash_join oldest (hash_next (tab ?h)) ?t1"
    let ?t3 = "short_inode_hash_join ?h oldest ?t2"
    let ?t4 = "?t3(oldest := (?t3 oldest)\<lparr>ino := i\<rparr>)"
    have t3: "ino (?t3 oldest) \<noteq> 0" by (simp add: si_views)
    have "si_owner ?t4 = (si_owner tab)(oldest \<mapsto> i)" "si_next ?t4 = si_next tab"
      "si_prev ?t4 = si_prev tab"
      "si_hnext ?t4 = (si_hnext tab)(oldest := si_hnext tab ?h, ?h := oldest)"
      "si_hprev ?t4 = (si_hprev tab)(si_hnext tab ?h := oldest, oldest := ?h)"
      by (simp_all only: hash_join_views set_ino_views [of ?t3 oldest, OF t3 i] set_ino_hash
          lazy_init_views)
    moreover have "SHORT_INODE_IS_UNUSED (ino (?t1 oldest))"
      using new(3) unfolding si_owner_None_iff [symmetric] lazy_init_views .
    then have "short_inode_hash_free oldest ?t1 = ?t1" by (simp add: short_inode_hash_free_def)
    moreover have "\<not> SHORT_INODE_IS_UNUSED (ino (tab ?h))" "ino (tab ?h) \<noteq> i"
      using new(1) si_owner_None_iff [of tab ?h] apply auto[1]
      using new(2) si_owner_ino [OF new(1)] by (metis rangeI)
    ultimately show thesis
      using short_inode_walk_absent [OF inv new(1,2)] new old
        si_hash_splice [OF inv refl new(1,3) old new(2)]
      by (intro that [of oldest ?t4]) (simp_all add: short_inode_find_def Let_def si_views)
  qed
qed


text \<open>The 16-bit number of an element, and the inode a number stands for.\<close>

definition si_number :: "nat \<Rightarrow> u32" where
  "si_number si = of_nat si + of_nat SHORT_INODE_UNMAPPED + 1"

definition si_slot :: "u32 \<Rightarrow> nat" where
  "si_slot r = unat r - 3"

definition si_numbers :: "short_inodes \<Rightarrow> u32 \<Rightarrow> u32 option" where
  "si_numbers s r =
     (case short_inode_table s of
        None \<Rightarrow> None
      | Some tab \<Rightarrow> if 3 \<le> unat r then si_owner tab (si_slot r) else None)"

lemma unat_si_number: "si < SHORT_INODE_MAX \<Longrightarrow> unat (si_number si) = si + 3"
proof -
  assume "si < SHORT_INODE_MAX"
  then have "unat (of_nat (si + 3) :: u32) = si + 3"
    by (intro unat_of_nat_u32) (simp add: SHORT_INODE_MAX_def)
  then show ?thesis by (simp add: si_number_def add.commute)
qed

lemma si_slot_number: "si < SHORT_INODE_MAX \<Longrightarrow> si_slot (si_number si) = si"
  by (simp add: si_slot_def unat_si_number)

lemma si_number_slot: "3 \<le> unat r \<Longrightarrow> si_number (si_slot r) = r"
proof -
  assume "3 \<le> unat r"
  then have "of_nat (unat r - 3) + 3 = (of_nat (unat r) :: u32)"
    by (simp add: of_nat_diff)
  then show ?thesis by (simp add: si_number_def si_slot_def add.commute)
qed

lemma si_numbers_upd:
  assumes "si < SHORT_INODE_MAX" "short_inode_table s = Some tab" "short_inode_table s' = Some tab'"
    "si_owner tab' = (si_owner tab)(si \<mapsto> i)"
  shows "si_numbers s' = (si_numbers s)(si_number si \<mapsto> i)"
proof
  fix r
  have "r = si_number si \<longleftrightarrow> si_slot r = si" if "3 \<le> unat r"
    using si_number_slot [OF that] si_slot_number [OF assms(1)] by metis
  moreover have "3 \<le> unat (si_number si)" using unat_si_number [OF assms(1)] by simp
  ultimately show "si_numbers s' r = ((si_numbers s)(si_number si \<mapsto> i)) r"
    using assms by (auto simp: si_numbers_def)
qed

lemma si_numbers_dom:
  assumes "short_inode_table s = Some tab" "si_hash (si_owner tab) (si_hnext tab) (si_hprev tab)"
  shows "dom (si_numbers s) = si_number ` dom (si_owner tab)"
    "inj_on si_number (dom (si_owner tab))"
proof -
  show inj: "inj_on si_number (dom (si_owner tab))"
    by (intro inj_onI) (metis si_hash_dom(1) [OF assms(2)] si_slot_number)
  show "dom (si_numbers s) = si_number ` dom (si_owner tab)"
  proof
    show "dom (si_numbers s) \<subseteq> si_number ` dom (si_owner tab)"
      using assms(1) si_number_slot by (force simp: si_numbers_def split: if_splits)
    show "si_number ` dom (si_owner tab) \<subseteq> dom (si_numbers s)"
      using assms(1) si_slot_number unat_si_number si_hash_dom(1) [OF assms(2) domI]
      by (auto simp: si_numbers_def)
  qed
qed

text \<open>While an element is unused, the oldest one is.\<close>

lemma si_room:
  assumes "si_lru tab oldest ls" "si_hash (si_owner tab) (si_hnext tab) (si_hprev tab)"
    "card (dom (si_owner tab)) < SHORT_INODE_MAX"
  shows "si_owner tab oldest = None"
proof (rule ccontr)
  assume old: "si_owner tab oldest \<noteq> None"
  from assms(1) obtain us vs where uv: "ls = us @ vs" "\<forall>s\<in>set us. si_owner tab s = None"
    "\<forall>s\<in>set vs. si_owner tab s \<noteq> None" "hd ls = oldest" "set ls = {..<SHORT_INODE_MAX}"
    by (auto simp: si_lru_def)
  with old have "us = []" by (cases us) auto
  with uv have "{..<SHORT_INODE_MAX} \<subseteq> dom (si_owner tab)" by auto
  from card_mono [OF si_hash_finite [OF assms(2)] this] assms(3) show False by simp
qed

text \<open>
  One call of \<open>short_inode_map\<close> while there is room or the inode is known: it returns, the
  number was the inode's or nobody's, the element moves to the young end of the list, and the
  invariant holds again.
\<close>

lemma short_inode_map_step:
  assumes tab: "short_inode_table s = Some tab" and lru: "si_lru tab (short_inode_oldest s) ls"
    and hash: "si_hash (si_owner tab) (si_hnext tab) (si_hprev tab)"
    and i: "2 < i" "i \<noteq> - 1"
    and room: "card (dom (si_owner tab)) < SHORT_INODE_MAX \<or> Some i \<in> range (si_owner tab)"
  obtains si tab' s' where "short_inode_map i s = Some (si_number si, s')" "si < SHORT_INODE_MAX"
    "si_owner tab si = None \<or> si_owner tab si = Some i" "short_inode_table s' = Some tab'"
    "si_owner tab' = (si_owner tab)(si \<mapsto> i)"
    "si_lru tab' (short_inode_oldest s') (remove1 si ls @ [si])"
    "si_hash (si_owner tab') (si_hnext tab') (si_hprev tab')"
proof -
  let ?old = "short_inode_oldest s"
  have used: "\<not> SHORT_INODE_IS_UNUSED i"
    using i by (auto simp: SHORT_INODE_IS_UNUSED_def SHORT_INODE_UNUSED_def)
  have "?old < SHORT_INODE_MAX"
    using lru by (metis hd_in_set lessThan_iff ring_def si_lru_def)
  moreover have "si_owner tab ?old = None \<or> Some i \<in> range (si_owner tab)"
    using room si_room [OF lru hash] by blast
  ultimately obtain si tab1 where find: "short_inode_find tab ?old i = Some (si, tab1)"
    "si < SHORT_INODE_MAX" "si_owner tab si = None \<or> si_owner tab si = Some i"
    "si_owner tab1 = (si_owner tab)(si \<mapsto> i)" "si_next tab1 = si_next tab" "si_prev tab1 = si_prev tab"
    "si_hash (si_owner tab1) (si_hnext tab1) (si_hprev tab1)"
    using short_inode_find_spec [OF hash used] by metis
  obtain tab' old' where touch: "short_inode_touch si (tab1, ?old) = (tab', old')" by fastforce
  have init: "ino (tab1 si) \<noteq> 0" using owned_initialised [of tab1 si i] find(4) by simp
  note v = short_inode_touch_views(4-6) [OF init touch]
  let ?s' = "s\<lparr>short_inode_table := Some tab', short_inode_oldest := old'\<rparr>"
  have "short_inode_map i s = Some (si_number si, ?s')"
    using tab find(1) touch i(1) by (auto simp: short_inode_map_def si_number_def)
  moreover have "si_lru tab' old' (remove1 si ls @ [si])"
    by (rule si_lru_touch [OF lru find(2,5,6,4) touch])
  ultimately show thesis
    using find v by (intro that [of si ?s' tab']) simp_all
qed


section \<open>The contract\<close>

text \<open>
  What a caller relies on: a numbering that never changes the number of an inode it has
  numbered, nor gives a number twice, until \<open>cap\<close> inodes have been seen. The client's question
  is what a sequence of calls returns.
\<close>

fun number_all :: "(u32 \<Rightarrow> 's \<Rightarrow> (u32 \<times> 's) option) \<Rightarrow> u32 list \<Rightarrow> 's \<Rightarrow> (u32 list \<times> 's) option" where
  "number_all imap [] s = Some ([], s)"
| "number_all imap (i # ins) s =
     (case imap i s of
        None \<Rightarrow> None
      | Some (r, s') \<Rightarrow>
          (case number_all imap ins s' of None \<Rightarrow> None | Some (rs, s'') \<Rightarrow> Some (r # rs, s'')))"

locale inode_numbering =
  fixes imap :: "u32 \<Rightarrow> 's \<Rightarrow> (u32 \<times> 's) option"
    and inv :: "'s \<Rightarrow> bool"
    and nums :: "'s \<Rightarrow> u32 \<Rightarrow> u32 option"
    and cap :: nat
    and ok :: "u32 \<Rightarrow> bool"
  assumes nums_finite: "inv s \<Longrightarrow> finite (dom (nums s))"
    and nums_inj: "inv s \<Longrightarrow> inj_on (nums s) (dom (nums s))"
    and imap_step: "inv s \<Longrightarrow> ok i \<Longrightarrow> card (dom (nums s)) < cap \<or> i \<in> ran (nums s) \<Longrightarrow>
      \<exists>r s'. imap i s = Some (r, s') \<and> inv s' \<and> nums s' = (nums s)(r \<mapsto> i) \<and>
             (nums s r = None \<or> nums s r = Some i)"
begin

lemma card_ran: "inv s \<Longrightarrow> finite (ran (nums s)) \<and> card (ran (nums s)) = card (dom (nums s))"
proof -
  assume "inv s"
  then have "finite (dom (nums s))" "inj_on (nums s) (dom (nums s))"
    by (rule nums_finite, rule nums_inj)
  then have "inj_on (the \<circ> nums s) (dom (nums s))" "finite (dom (nums s))"
    by (auto intro!: inj_onI) (metis domI inj_onD)
  moreover have "ran (nums s) = (the \<circ> nums s) ` dom (nums s)"
    by (auto simp: ran_def image_iff) (metis domI option.sel)
  ultimately show ?thesis by (metis card_image finite_imageI)
qed

lemma number_all_stable:
  "inv s \<Longrightarrow> \<forall>i\<in>set ins. ok i \<Longrightarrow> card (ran (nums s) \<union> set ins) \<le> cap \<Longrightarrow>
   \<exists>rs s'. number_all imap ins s = Some (rs, s') \<and> inv s' \<and> nums s \<subseteq>\<^sub>m nums s' \<and>
           list_all2 (\<lambda>i r. nums s' r = Some i) ins rs"
proof (induction ins arbitrary: s)
  case Nil
  then show ?case by auto
next
  case (Cons i ins)
  have fin: "finite (ran (nums s))" "card (ran (nums s)) = card (dom (nums s))"
    using card_ran Cons.prems(1) by blast+
  have "card (dom (nums s)) < cap \<or> i \<in> ran (nums s)"
  proof (rule disjCI)
    assume "i \<notin> ran (nums s)"
    then have "card (ran (nums s)) < card (insert i (ran (nums s)))" using fin by simp
    also have "\<dots> \<le> card (ran (nums s) \<union> set (i # ins))"
      using fin by (intro card_mono) auto
    finally show "card (dom (nums s)) < cap" using Cons.prems(3) fin by simp
  qed
  with imap_step [OF Cons.prems(1), of i] Cons.prems(2) obtain r s1 where
    s1: "imap i s = Some (r, s1)" "inv s1"
    "nums s1 = (nums s)(r \<mapsto> i)" "nums s r = None \<or> nums s r = Some i"
    by auto
  have sub: "ran (nums s1) \<union> set ins \<subseteq> ran (nums s) \<union> set (i # ins)"
    using s1(3) by (auto simp: ran_def)
  then have "card (ran (nums s1) \<union> set ins) \<le> cap"
    using card_mono [OF _ sub] fin(1) Cons.prems(3) by (meson finite_Un finite_set le_trans)
  with Cons.IH [OF s1(2)] Cons.prems(2) obtain rs s' where s':
    "number_all imap ins s1 = Some (rs, s')" "inv s'" "nums s1 \<subseteq>\<^sub>m nums s'"
    "list_all2 (\<lambda>i r. nums s' r = Some i) ins rs" by auto
  have "nums s \<subseteq>\<^sub>m nums s1" using s1(3,4) by (auto simp: map_le_def)
  then have "nums s \<subseteq>\<^sub>m nums s'" using s'(3) by (rule map_le_trans)
  moreover have "nums s' r = Some i" using s'(3) s1(3) by (force simp: map_le_def)
  ultimately show ?case using s1(1) s' by auto
qed

lemma number_all_injective:
  assumes "inv s" "\<forall>i\<in>set ins. ok i" "card (ran (nums s) \<union> set ins) \<le> cap"
  obtains rs s' where "number_all imap ins s = Some (rs, s')" "inv s'" "length rs = length ins"
    "\<forall>j<length ins. nums s' (rs ! j) = Some (ins ! j)"
    "\<forall>j<length ins. \<forall>k<length ins. rs ! j = rs ! k \<longleftrightarrow> ins ! j = ins ! k"
proof -
  from number_all_stable [OF assms] obtain rs s' where r: "number_all imap ins s = Some (rs, s')" "inv s'"
    "list_all2 (\<lambda>i r. nums s' r = Some i) ins rs" by blast
  then have n: "length rs = length ins" "\<forall>j<length ins. nums s' (rs ! j) = Some (ins ! j)"
    by (auto simp: list_all2_conv_all_nth)
  have "rs ! j = rs ! k \<longleftrightarrow> ins ! j = ins ! k" if "j < length ins" "k < length ins" for j k
  proof -
    have "nums s' (rs ! j) = Some (ins ! j)" "nums s' (rs ! k) = Some (ins ! k)"
      using n(2) that by simp_all
    then show ?thesis using inj_onD [OF nums_inj [OF r(2)], of "rs ! j" "rs ! k"] by auto
  qed
  with r n show thesis by (intro that) auto
qed

end

lemma si_invE:
  assumes "si_inv s"
  obtains tab ls where "short_inode_table s = Some tab" "si_lru tab (short_inode_oldest s) ls"
    "si_hash (si_owner tab) (si_hnext tab) (si_hprev tab)"
  using assms by (auto simp: si_inv_def)

lemma si_numbers_number:
  "short_inode_table s = Some tab \<Longrightarrow> si < SHORT_INODE_MAX \<Longrightarrow> si_numbers s (si_number si) = si_owner tab si"
  by (simp add: si_numbers_def unat_si_number si_slot_number)

interpretation si: inode_numbering short_inode_map si_inv si_numbers SHORT_INODE_MAX "\<lambda>i. 2 < i \<and> i \<noteq> - 1"
proof unfold_locales
  fix s i assume inv: "si_inv s"
  from inv obtain tab ls where t: "short_inode_table s = Some tab" "si_lru tab (short_inode_oldest s) ls"
    "si_hash (si_owner tab) (si_hnext tab) (si_hprev tab)" by (rule si_invE)
  note d = si_numbers_dom [OF t(1,3)]
  show "finite (dom (si_numbers s))" using d(1) si_hash_finite [OF t(3)] by simp
  show "inj_on (si_numbers s) (dom (si_numbers s))"
  proof (rule inj_onI)
    fix r r' assume "r \<in> dom (si_numbers s)" "r' \<in> dom (si_numbers s)" "si_numbers s r = si_numbers s r'"
    then obtain x y where xy: "r = si_number x" "r' = si_number y" "x \<in> dom (si_owner tab)"
      "y \<in> dom (si_owner tab)" and eq: "si_numbers s (si_number x) = si_numbers s (si_number y)"
      unfolding d(1) by blast
    then have "si_owner tab x = si_owner tab y"
      using si_numbers_number [OF t(1)] si_hash_dom(1) [OF t(3)] by simp
    then have "x = y" using xy si_hash_inj [OF t(3)] by (metis domD)
    with xy show "r = r'" by simp
  qed
  assume i: "2 < i \<and> i \<noteq> - 1" and room: "card (dom (si_numbers s)) < SHORT_INODE_MAX \<or> i \<in> ran (si_numbers s)"
  have "card (dom (si_owner tab)) < SHORT_INODE_MAX \<or> Some i \<in> range (si_owner tab)"
    using room d t(1) by (auto simp: card_image ran_def si_numbers_def split: if_splits) (metis rangeI)
  then obtain si tab' s' where m: "short_inode_map i s = Some (si_number si, s')"
      "si < SHORT_INODE_MAX" "si_owner tab si = None \<or> si_owner tab si = Some i"
      "short_inode_table s' = Some tab'" "si_owner tab' = (si_owner tab)(si \<mapsto> i)"
    and inv': "si_lru tab' (short_inode_oldest s') (remove1 si ls @ [si])"
      "si_hash (si_owner tab') (si_hnext tab') (si_hprev tab')"
    by (rule short_inode_map_step [OF t conjunct1 [OF i] conjunct2 [OF i]])
  have "si_inv s'" using m(4) inv' unfolding si_inv_def by blast
  with m si_numbers_upd [OF m(2) t(1) m(4,5)] si_numbers_number [OF t(1) m(2)] show "\<exists>r s'. short_inode_map i s = Some (r, s') \<and> si_inv s' \<and> si_numbers s' = (si_numbers s)(r \<mapsto> i) \<and>
      (si_numbers s r = None \<or> si_numbers s r = Some i)"
    by auto
qed


section \<open>A fresh table\<close>

lemma links_upt: "links [a..<b] = {(k, Suc k) | k. a \<le> k \<and> Suc k < b}"
proof (induction b)
  case (Suc b)
  show ?case
  proof (cases "a < b")
    case True
    then have "links [a..<Suc b] = insert (b - 1, b) (links [a..<b])"
      by (simp add: links_snoc)
    with Suc True show ?thesis by (auto simp: less_Suc_eq)
  qed (auto simp: not_less le_Suc_eq)
qed simp

lemma ring_upt:
  assumes "0 < n"
  shows "ring (\<lambda>s. (s + 1) mod n) (\<lambda>s. (s + n - 1) mod n) [0..<n]"
proof -
  have "links ([0..<n] @ [hd [0..<n]]) = insert (n - 1, 0) (links [0..<n])"
    using assms by (subst links_snoc) simp_all
  then show ?thesis using assms by (auto simp: ring_def links_upt)
qed

lemma SHORT_INODE_MAX_pos: "0 < SHORT_INODE_MAX"
  by (simp add: SHORT_INODE_MAX_def)

lemma short_inode_construct_inv:
  "si_inv (short_inode_construct s)" "si_numbers (short_inode_construct s) = Map.empty"
proof -
  let ?tab = "\<lambda>_ :: nat. \<lparr>ino = 0, lru_prev = 0, lru_next = 0, hash_prev = 0, hash_next = 0\<rparr>"
  let ?ls = "[0..<SHORT_INODE_MAX]"
  have own: "si_owner ?tab = (\<lambda>_. None)"
    by (simp add: si_owner_def SHORT_INODE_IS_UNUSED_def fun_eq_iff)
  have "ring (si_next ?tab) (si_prev ?tab) ?ls"
    using ring_upt [OF SHORT_INODE_MAX_pos] by (simp add: si_next_def [abs_def] si_prev_def [abs_def])
  moreover have "hd ?ls = 0" using SHORT_INODE_MAX_pos by simp
  ultimately have "si_lru ?tab 0 ?ls"
    unfolding si_lru_def own by (auto intro: exI [of _ "[]"] simp: lessThan_atLeast0)
  moreover have "si_hash (si_owner ?tab) (si_hnext ?tab) (si_hprev ?tab)"
    by (simp add: own si_hash_def)
  ultimately show "si_inv (short_inode_construct s)"
    by (auto simp: si_inv_def short_inode_construct_def)
  show "si_numbers (short_inode_construct s) = Map.empty"
    by (simp add: fun_eq_iff si_numbers_def short_inode_construct_def own)
qed

lemma si_numbers_short:
  assumes "si_inv s" "q \<in> dom (si_numbers s)"
  shows "2 < unat q \<and> unat q < 2 ^ 16"
proof -
  from assms(1) obtain tab where tab: "short_inode_table s = Some tab"
    "si_hash (si_owner tab) (si_hnext tab) (si_hprev tab)" by (rule si_invE)
  obtain si where "q = si_number si" "si \<in> dom (si_owner tab)"
    using assms(2) unfolding si_numbers_dom [OF tab] by blast
  with si_hash_dom(1) [OF tab(2)] show ?thesis
    by (auto simp: unat_si_number SHORT_INODE_MAX_def)
qed

section \<open>Properties\<close>

text \<open>
  C7: from a fresh table, any sequence of \<open>short_inode_map\<close> calls on at most
  \<open>SHORT_INODE_MAX = 65533\<close> different inodes (above 2, and not the marker for unused elements)
  returns 16-bit numbers above 2, always the same one for the same inode and different ones for
  different inodes.
\<close>

theorem short_inode_map_stable:
  assumes "\<forall>i\<in>set ins. 2 < i \<and> i \<noteq> - 1" "card (set ins) \<le> SHORT_INODE_MAX"
  shows "\<exists>rs s'. number_all short_inode_map ins (short_inode_construct s) = Some (rs, s') \<and>
    length rs = length ins \<and> (\<forall>r\<in>set rs. 2 < unat r \<and> unat r < 2 ^ 16) \<and>
    (\<forall>j<length ins. \<forall>k<length ins. rs ! j = rs ! k \<longleftrightarrow> ins ! j = ins ! k)"
proof -
  note c = short_inode_construct_inv [of s]
  have "card (ran (si_numbers (short_inode_construct s)) \<union> set ins) \<le> SHORT_INODE_MAX"
    using assms(2) c(2) by simp
  from si.number_all_injective [OF c(1) assms(1) this] obtain rs s' where
    r: "number_all short_inode_map ins (short_inode_construct s) = Some (rs, s')" "si_inv s'"
    "length rs = length ins" "\<forall>j<length ins. si_numbers s' (rs ! j) = Some (ins ! j)"
    "\<forall>j<length ins. \<forall>k<length ins. rs ! j = rs ! k \<longleftrightarrow> ins ! j = ins ! k"
    by blast
  have "2 < unat q \<and> unat q < 2 ^ 16" if "q \<in> set rs" for q
    using that r(3,4) by (intro si_numbers_short [OF r(2)]) (auto simp: in_set_conv_nth)
  with r show ?thesis by blast
qed

theorem short_inode_map_stable_witness:
  "card (set [70000, 4, 70000 :: u32]) \<le> SHORT_INODE_MAX \<and>
   (\<exists>rs s'. number_all short_inode_map [70000, 4, 70000]
       (short_inode_construct \<lparr>short_inode_table = None, short_inode_oldest = 0\<rparr>) = Some (rs, s') \<and>
     length rs = 3 \<and> rs ! 0 = rs ! 2 \<and> rs ! 0 \<noteq> rs ! 1)"
proof -
  have h: "\<forall>i\<in>set [70000, 4, 70000 :: u32]. 2 < i \<and> i \<noteq> - 1"
    "card (set [70000, 4, 70000 :: u32]) \<le> SHORT_INODE_MAX"
    using card_length [of "[70000, 4, 70000 :: u32]"] by (simp_all add: SHORT_INODE_MAX_def)
  from short_inode_map_stable [OF h, of "\<lparr>short_inode_table = None, short_inode_oldest = 0\<rparr>"]
  obtain rs s' where r: "number_all short_inode_map [70000, 4, 70000]
       (short_inode_construct \<lparr>short_inode_table = None, short_inode_oldest = 0\<rparr>) = Some (rs, s')"
    "length rs = 3" "\<forall>j<3. \<forall>k<3. rs ! j = rs ! k \<longleftrightarrow> [70000, 4, 70000 :: u32] ! j = [70000, 4, 70000] ! k"
    by auto
  from r(3) [rule_format, of 0 2] r(3) [rule_format, of 0 1] have "rs ! 0 = rs ! 2" "rs ! 0 \<noteq> rs ! 1"
    by simp_all
  with r h show ?thesis by blast
qed




lemma short_inode_hashval_short:
  assumes "2 < unat i" "unat i < 2 ^ 16"
  shows "short_inode_hashval i = unat i - 3"
proof -
  have u: "unat (ucast i :: u16) = unat i"
    using assms(2) by (simp add: unsigned_ucast_eq take_bit_nat_eq_self)
  have "unat (drop_bit 16 i) = 0"
    using assms(2) by (simp add: drop_bit_eq_div unat_div_distrib)
  then have "drop_bit 16 i = 0" by (simp add: unat_eq_zero)
  then have "short_inode_hashval i = (unat i + 65530) mod 65533"
    by (simp add: short_inode_hashval_def SHORT_INODE_MAX_def Let_def u add.commute)
  also have "\<dots> = (unat i - 3 + 65533) mod 65533" using assms by (simp add: add.commute)
  also have "\<dots> = unat i - 3" unfolding mod_add_self2 using assms by (simp add: mod_less)
  finally show ?thesis .
qed

text \<open>
  an inode number that fits in 16 bits keeps its value, whether or not the table is full,
  unless its number has been given to another inode.
\<close>

theorem short_inode_map_identity:
  assumes "si_inv s" "2 < unat i" "unat i < 2 ^ 16" "si_numbers s i = None \<or> si_numbers s i = Some i"
  shows "\<exists>s'. short_inode_map i s = Some (i, s')"
proof -
  from assms(1) obtain tab where tab: "short_inode_table s = Some tab" by (rule si_invE)
  let ?si = "short_inode_hashval i"
  have h: "?si = si_slot i" using short_inode_hashval_short assms by (simp add: si_slot_def)
  then have num: "si_number ?si = i" using si_number_slot assms(2) by simp
  have "si_owner tab ?si = None \<or> si_owner tab ?si = Some i"
    using assms(2,4) tab h by (simp add: si_numbers_def)
  then obtain tab' where "short_inode_find tab (short_inode_oldest s) i = Some (?si, tab')"
    using owned_initialised [of tab ?si i]
    by (auto simp: short_inode_find_def Let_def si_owner_None_iff [symmetric])
  moreover have "\<not> i \<le> 2" using assms(2) by (simp add: word_le_nat_alt)
  ultimately show ?thesis
    using tab num by (auto simp: short_inode_map_def si_number_def split: prod.splits)
qed

theorem short_inode_map_identity_witness:
  "let s = short_inode_construct \<lparr>short_inode_table = None, short_inode_oldest = 0\<rparr>
   in si_inv s \<and> si_numbers s 40000 = None \<and> (\<exists>s'. short_inode_map 40000 s = Some (40000, s'))"
proof -
  let ?s = "short_inode_construct \<lparr>short_inode_table = None, short_inode_oldest = 0\<rparr>"
  have "si_inv ?s" "si_numbers ?s 40000 = None" by (simp_all add: short_inode_construct_inv)
  with short_inode_map_identity [of ?s 40000] show ?thesis by (simp add: Let_def)
qed

end
