(* ===== verification/Malloc.thy ===== *)
theory Malloc
  imports Prelude Ring
begin

text \<open>
  \<^verbatim>\<open>ibcs_malloc\<close> and \<^verbatim>\<open>ibcs_free\<close> of \<^verbatim>\<open>src/ibcs/ibcs-lib.c\<close>.

  Memory is counted in units of \<open>struct ibcs_malloc_hdr\<close>, one 4-byte pointer: an address is the
  byte address divided by 4, and the heap maps it to the header stored there. The low bit of the
  stored pointer, which no address of a header uses, is the field \<open>busy\<close>, so that
  \<open>IBCS_MALLOC_SET_BUSY\<close>, \<open>IBCS_MALLOC_CLR_BUSY\<close> and \<open>IBCS_MALLOC_IS_BUSY\<close> are updates and reads
  of that field. The space has \<open>2 ^ 30\<close> such units, and the address passed to \<open>brk\<close> wraps around
  there. The kernel's \<open>brk\<close> is the parameter \<open>sys_brk\<close>: it takes the kernel's state and
  the address asked for (0 asks for the current one) and gives the returned address (\<open>Inl\<close> is a
  negated errno) and the new state. The two loops may run forever, so they are partial functions
  and \<open>None\<close> is a call that does not return; \<open>Fatal\<close> is the exit in \<open>ibcs_fatal_syscall\<close>. The
  semaphore is not modelled: calls run one at a time.
\<close>

section \<open>Headers\<close>

record ibcs_malloc_hdr =
  hdr_next :: nat
  busy :: bool

type_synonym hmem = "nat \<Rightarrow> ibcs_malloc_hdr"

record malloc_state =
  hmem :: hmem
  ibcs_malloc_first :: nat
  ibcs_malloc_last :: nat
  ibcs_malloc_p :: nat

datatype 'a outcome = Return 'a | Fatal

type_synonym 'k brk_call = "'k \<Rightarrow> nat \<Rightarrow> (u32 + nat) \<times> 'k"

section \<open>Operations\<close>

text \<open>The request in headers, with the header of the block; \<open>size_t\<close> wraps around.\<close>

definition malloc_wanted :: "u32 \<Rightarrow> nat" where
  "malloc_wanted wanted = unat ((wanted + 4 - 1) div 4 + 1)"

text \<open>The difference of two header pointers, as a \<open>size_t\<close>.\<close>

definition hdr_diff :: "nat \<Rightarrow> nat \<Rightarrow> nat" where
  "hdr_diff q p = (if p \<le> q then q - p else 2 ^ 32 - (p - q))"

partial_function (option) malloc_coalesce :: "hmem \<Rightarrow> nat \<Rightarrow> hmem option" where
  "malloc_coalesce m p =
     (if busy (m (hdr_next (m p))) then Some m
      else malloc_coalesce (m(p := (m p)\<lparr>hdr_next := hdr_next (m (hdr_next (m p)))\<rparr>)) p)"

text \<open>
  The \<open>do ... while\<close> over the chain: the block that is large enough, or none when the scan is
  back at \<open>start\<close> (\<open>ibcs_malloc_p\<close>).
\<close>

partial_function (option) malloc_scan :: "nat \<Rightarrow> nat \<Rightarrow> hmem \<Rightarrow> nat \<Rightarrow> (nat option \<times> hmem) option" where
  "malloc_scan start wanted m p =
     Option.bind (if busy (m p) then Some m else malloc_coalesce m p) (\<lambda>m'.
       if \<not> busy (m p) \<and> wanted \<le> hdr_diff (hdr_next (m' p)) p then Some (Some p, m')
       else if hdr_next (m' p) = start then Some (None, m')
       else malloc_scan start wanted m' (hdr_next (m' p)))"

definition malloc_take :: "nat \<Rightarrow> nat \<Rightarrow> malloc_state \<Rightarrow> malloc_state" where
  "malloc_take wanted p h =
     (let m = hmem h;
          m = (if wanted < hdr_diff (hdr_next (m p)) p
               then (m(p + wanted := \<lparr>hdr_next = hdr_next (m p), busy = False\<rparr>))
                    (p := \<lparr>hdr_next = p + wanted, busy = False\<rparr>)
               else m)
      in h\<lparr>ibcs_malloc_p := hdr_next (m p), hmem := m(p := (m p)\<lparr>busy := True\<rparr>)\<rparr>)"

text \<open>Asking the kernel for more memory; \<open>p\<close> is the current break, or the error it gave.\<close>

definition malloc_grow ::
  "'k brk_call \<Rightarrow> nat \<Rightarrow> u32 + nat \<Rightarrow> malloc_state \<times> 'k \<Rightarrow> (nat outcome \<times> malloc_state \<times> 'k)" where
  "malloc_grow sys_brk wanted brk0 = (\<lambda>(h, k).
     case brk0 of
       Inl e \<Rightarrow> (Fatal, h, k)
     | Inr p \<Rightarrow>
         let p = (if ibcs_malloc_last h + 1 = p then ibcs_malloc_last h else p)
         in case sys_brk k ((p + wanted + 1) mod 2 ^ 30) of
              (Inl e, k) \<Rightarrow> (Fatal, h, k)
            | (Inr n, k) \<Rightarrow>
                let n = n - 1
                in if hdr_diff n p < wanted then (Fatal, h, k)
                   else let m = hmem h;
                            m = m(ibcs_malloc_last h := \<lparr>hdr_next = n, busy = True\<rparr>);
                            m = m(p := \<lparr>hdr_next = n, busy = True\<rparr>);
                            m = m(n := \<lparr>hdr_next = ibcs_malloc_first h, busy = True\<rparr>)
                        in (Return (p + 1), h\<lparr>hmem := m, ibcs_malloc_last := n\<rparr>, k))"

definition ibcs_malloc ::
  "'k brk_call \<Rightarrow> u32 \<Rightarrow> malloc_state \<times> 'k \<Rightarrow> (nat outcome \<times> malloc_state \<times> 'k) option" where
  "ibcs_malloc sys_brk bytes = (\<lambda>(h, k).
     let wanted = malloc_wanted bytes
     in if ibcs_malloc_p h = 0
        then let (r, k) = sys_brk k 0;
                 h = (case r of
                        Inl e \<Rightarrow> h
                      | Inr p \<Rightarrow> h\<lparr>ibcs_malloc_first := p, ibcs_malloc_last := p, ibcs_malloc_p := p\<rparr>)
             in Some (malloc_grow sys_brk wanted r (h, k))
        else case malloc_scan (ibcs_malloc_p h) wanted (hmem h) (ibcs_malloc_p h) of
               None \<Rightarrow> None
             | Some (Some p, m) \<Rightarrow> Some (Return (p + 1), malloc_take wanted p (h\<lparr>hmem := m\<rparr>), k)
             | Some (None, m) \<Rightarrow>
                 let (r, k) = sys_brk k 0
                 in Some (malloc_grow sys_brk wanted r (h\<lparr>hmem := m\<rparr>, k)))"

definition ibcs_free :: "nat \<Rightarrow> malloc_state \<Rightarrow> malloc_state" where
  "ibcs_free blk h =
     (let p = blk - 1
      in h\<lparr>hmem := (hmem h)(p := (hmem h p)\<lparr>busy := False\<rparr>), ibcs_malloc_p := p\<rparr>)"


section \<open>The chain of blocks\<close>

text \<open>
  \<open>heap_chain m bs\<close>: the headers in \<open>m\<close> link the addresses \<open>bs\<close>, in ascending order, into a
  ring, and the last one, the end marker, is busy.
\<close>

definition heap_chain :: "hmem \<Rightarrow> nat list \<Rightarrow> bool" where
  "heap_chain m bs \<longleftrightarrow> bs \<noteq> [] \<and> sorted_wrt (<) bs \<and>
     (\<forall>(a, b) \<in> links bs. hdr_next (m a) = b) \<and>
     hdr_next (m (last bs)) = hd bs \<and> busy (m (last bs))"

definition malloc_inv :: "malloc_state \<Rightarrow> nat list \<Rightarrow> bool" where
  "malloc_inv h bs \<longleftrightarrow> heap_chain (hmem h) bs \<and> 0 < hd bs \<and> hd bs = ibcs_malloc_first h \<and>
     last bs = ibcs_malloc_last h \<and> ibcs_malloc_p h \<in> set bs"

text \<open>
  Scanning only merges free blocks: no other word of memory changes, and every busy block stays
  in the chain.
\<close>

definition merges :: "hmem \<Rightarrow> nat list \<Rightarrow> hmem \<Rightarrow> nat list \<Rightarrow> bool" where
  "merges m bs m' bs' \<longleftrightarrow> heap_chain m' bs' \<and> set bs' \<subseteq> set bs \<and> hd bs' = hd bs \<and> last bs' = last bs \<and>
     (\<forall>b \<in> set bs. busy (m b) \<longrightarrow> b \<in> set bs') \<and>
     (\<forall>b. b \<notin> set bs \<or> busy (m b) \<longrightarrow> m' b = m b) \<and>
     (\<forall>b. busy (m' b) = busy (m b))"

lemma merges_refl: "heap_chain m bs \<Longrightarrow> merges m bs m bs"
  by (simp add: merges_def)

lemma merges_trans: "merges m bs m1 bs1 \<Longrightarrow> merges m1 bs1 m2 bs2 \<Longrightarrow> merges m bs m2 bs2"
  unfolding merges_def by (metis subset_trans subsetD)

lemma heap_chain_distinct: "heap_chain m bs \<Longrightarrow> distinct bs"
  by (auto simp: heap_chain_def strict_sorted_iff)

lemma heap_chain_next:
  "heap_chain m (xs @ p # y # ys) \<Longrightarrow> hdr_next (m p) = y \<and> p < y"
  by (cases "xs = []") (auto simp: heap_chain_def links_append sorted_wrt_append)

lemma heap_chain_last: "heap_chain m (xs @ [p]) \<Longrightarrow> hdr_next (m p) = hd (xs @ [p]) \<and> busy (m p)"
  by (auto simp: heap_chain_def)

lemma heap_chain_free_next:
  assumes "heap_chain m (xs @ p # ys)" "\<not> busy (m p)"
  obtains y ys' where "ys = y # ys'" "hdr_next (m p) = y" "p < y"
  using assms heap_chain_last [of m xs p] heap_chain_next [of m xs p] by (cases ys) auto

lemma heap_chain_merge:
  assumes "heap_chain m (xs @ p # y # z # zs)"
  shows "heap_chain (m(p := (m p)\<lparr>hdr_next := z\<rparr>)) (xs @ p # z # zs)"
proof -
  have d: "distinct (xs @ p # y # z # zs)" using assms by (rule heap_chain_distinct)
  have "last (z # zs) \<noteq> p" using d last_in_set [of "z # zs"] by auto
  moreover have "hd (xs @ p # z # zs) = hd (xs @ p # y # z # zs)" by (cases xs) auto
  moreover have "hdr_next ((m(p := (m p)\<lparr>hdr_next := z\<rparr>)) a) = b"
    if ab: "(a, b) \<in> links (xs @ p # z # zs)" for a b
  proof (cases "a = p")
    case True
    have "(p, b) \<notin> links (xs @ [p])" "(p, b) \<notin> links (z # zs)"
      using d links_distinct(1) [of p b "xs @ [p]"] links_distinct(3) [of p b "z # zs"] by auto
    then show ?thesis using True ab by (cases "xs = []") (auto simp: links_append)
  next
    case False
    then have "(a, b) \<in> links (xs @ p # y # z # zs)"
      using ab by (cases "xs = []") (auto simp: links_append)
    then show ?thesis using False assms by (auto simp: heap_chain_def)
  qed
  ultimately show ?thesis
    using assms by (auto simp: heap_chain_def sorted_wrt_append)
qed

lemma malloc_coalesce_spec:
  assumes "heap_chain m (xs @ p # ys)" "\<not> busy (m p)"
  shows "\<exists>fs q zs m'. malloc_coalesce m p = Some m' \<and> ys = fs @ q # zs \<and>
    (\<forall>f\<in>set fs. \<not> busy (m f)) \<and> busy (m q) \<and> m' = m(p := (m p)\<lparr>hdr_next := q\<rparr>) \<and>
    heap_chain m' (xs @ p # q # zs)"
  using assms
proof (induction ys arbitrary: m)
  case Nil
  then show ?case using heap_chain_last [of m xs p] by simp
next
  case (Cons y ys)
  note n = heap_chain_next [OF Cons.prems(1)]
  show ?case
  proof (cases "busy (m y)")
    case True
    then have "malloc_coalesce m p = Some m" using n by (subst malloc_coalesce.simps) simp
    moreover have "m(p := (m p)\<lparr>hdr_next := y\<rparr>) = m"
      using n by (cases "m p") (auto simp: fun_eq_iff)
    ultimately have "malloc_coalesce m p = Some m \<and> y # ys = [] @ y # ys \<and>
        (\<forall>f\<in>set []. \<not> busy (m f)) \<and> busy (m y) \<and> m = m(p := (m p)\<lparr>hdr_next := y\<rparr>) \<and>
        heap_chain m (xs @ p # y # ys)"
      using True Cons.prems(1) by simp
    then show ?thesis by blast
  next
    case False
    have "heap_chain m ((xs @ [p]) @ y # ys)" using Cons.prems(1) by simp
    then obtain z zs where ys: "ys = z # zs" "hdr_next (m y) = z" "y < z"
      using False by (rule heap_chain_free_next)
    let ?m = "m(p := (m p)\<lparr>hdr_next := z\<rparr>)"
    have "heap_chain ?m (xs @ p # ys)" using heap_chain_merge Cons.prems(1) ys by blast
    moreover have "\<not> busy (?m p)" using Cons.prems(2) by simp
    ultimately obtain fs q ws m' where r: "malloc_coalesce ?m p = Some m'" "ys = fs @ q # ws"
      "\<forall>f\<in>set fs. \<not> busy (?m f)" "busy (?m q)" "m' = ?m(p := (?m p)\<lparr>hdr_next := q\<rparr>)"
      "heap_chain m' (xs @ p # q # ws)"
      using Cons.IH by blast
    have "malloc_coalesce m p = malloc_coalesce ?m p"
      using n ys False by (subst malloc_coalesce.simps) simp
    moreover have "y \<noteq> p" using n by simp
    ultimately have "malloc_coalesce m p = Some m' \<and> y # ys = (y # fs) @ q # ws \<and>
        (\<forall>f\<in>set (y # fs). \<not> busy (m f)) \<and> busy (m q) \<and> m' = m(p := (m p)\<lparr>hdr_next := q\<rparr>) \<and>
        heap_chain m' (xs @ p # q # ws)"
      using r False by (auto split: if_splits)
    then show ?thesis by blast
  qed
qed

lemma malloc_coalesce_merges:
  assumes "heap_chain m (xs @ p # ys)" "\<not> busy (m p)"
  obtains fs q zs m' where "malloc_coalesce m p = Some m'" "ys = fs @ q # zs"
    "\<forall>f\<in>set fs. \<not> busy (m f)" "busy (m q)" "hdr_next (m' p) = q" "p < q"
    "merges m (xs @ p # ys) m' (xs @ p # q # zs)"
proof -
  from malloc_coalesce_spec [OF assms] obtain fs q zs m' where r: "malloc_coalesce m p = Some m'"
    "ys = fs @ q # zs" "\<forall>f\<in>set fs. \<not> busy (m f)" "busy (m q)" "m' = m(p := (m p)\<lparr>hdr_next := q\<rparr>)"
    "heap_chain m' (xs @ p # q # zs)" by blast
  have "hd (xs @ p # q # zs) = hd (xs @ p # ys)" by (cases xs) auto
  then have "merges m (xs @ p # ys) m' (xs @ p # q # zs)"
    unfolding merges_def using r assms(2) by (auto split: if_splits)
  with r heap_chain_next [OF r(6)] show thesis by (intro that) auto
qed


section \<open>The scan\<close>

text \<open>One iteration of the scan, on a chain that holds the block it looks at.\<close>

lemma malloc_scan_step:
  assumes chain: "heap_chain m bs" and p: "p \<in> set bs"
  obtains m' bs' where "(if busy (m p) then Some m else malloc_coalesce m p) = Some m'"
    "merges m bs m' bs'" "p \<in> set bs'" "hdr_next (m' p) \<in> set bs'"
    "\<not> busy (m p) \<longrightarrow> p < hdr_next (m' p)"
proof -
  from p obtain xs ys where bs: "bs = xs @ p # ys" by (meson split_list)
  show thesis
  proof (cases "busy (m p)")
    case True
    have "hdr_next (m p) \<in> set bs"
      using chain bs heap_chain_last [of m xs p] heap_chain_next [of m xs p]
      by (cases ys) (auto simp: hd_append split: if_splits)
    with True p merges_refl [OF chain] show thesis by (intro that [of m bs]) auto
  next
    case False
    with chain bs obtain q zs m' where r: "malloc_coalesce m p = Some m'" "hdr_next (m' p) = q" "p < q"
      "merges m bs m' (xs @ p # q # zs)"
      by (metis malloc_coalesce_merges)
    with False show thesis by (intro that [of m' "xs @ p # q # zs"]) auto
  qed
qed

text \<open>What a scan promises: it merged free blocks, and a block it found is free and large enough.\<close>

definition scanned :: "nat \<Rightarrow> nat \<Rightarrow> hmem \<Rightarrow> nat list \<Rightarrow> nat option \<times> hmem \<Rightarrow> bool" where
  "scanned start wanted m bs = (\<lambda>(r, m'). \<exists>bs'. merges m bs m' bs' \<and>
     (case r of None \<Rightarrow> start \<in> set bs'
      | Some q \<Rightarrow> q \<in> set bs' \<and> \<not> busy (m' q) \<and> q < hdr_next (m' q) \<and> wanted \<le> hdr_next (m' q) - q))"

lemma scanned_merges: "merges m bs m1 bs1 \<Longrightarrow> scanned start wanted m1 bs1 rm \<Longrightarrow> scanned start wanted m bs rm"
  unfolding scanned_def using merges_trans by (fastforce split: prod.splits)

lemma malloc_scan_body:
  assumes IH: "\<And>m p rm bs. scan m p = Some rm \<Longrightarrow> heap_chain m bs \<Longrightarrow> p \<in> set bs \<Longrightarrow> scanned start wanted m bs rm"
    and eq: "Option.bind (if busy (m p) then Some m else malloc_coalesce m p) (\<lambda>m'.
          if \<not> busy (m p) \<and> wanted \<le> hdr_diff (hdr_next (m' p)) p then Some (Some p, m')
          else if hdr_next (m' p) = start then Some (None, m')
          else scan m' (hdr_next (m' p))) = Some rm"
    and bs: "heap_chain m bs" "p \<in> set bs"
  shows "scanned start wanted m bs rm"
proof -
  obtain m1 bs1 where s: "(if busy (m p) then Some m else malloc_coalesce m p) = Some m1"
    "merges m bs m1 bs1" "p \<in> set bs1" "hdr_next (m1 p) \<in> set bs1"
    "\<not> busy (m p) \<longrightarrow> p < hdr_next (m1 p)"
    by (rule malloc_scan_step [OF bs])
  have b1: "busy (m1 p) = busy (m p)" "heap_chain m1 bs1" using s(2) by (auto simp: merges_def)
  have "(if \<not> busy (m p) \<and> wanted \<le> hdr_diff (hdr_next (m1 p)) p then Some (Some p, m1)
         else if hdr_next (m1 p) = start then Some (None, m1)
         else scan m1 (hdr_next (m1 p))) = Some rm"
    using eq unfolding s(1) by (simp only: Option.bind.simps)
  then consider (found) "\<not> busy (m p)" "wanted \<le> hdr_diff (hdr_next (m1 p)) p" "rm = (Some p, m1)"
    | (none) "rm = (None, m1)" "hdr_next (m1 p) = start" | (rec) "scan m1 (hdr_next (m1 p)) = Some rm"
    by (metis option.inject)
  then show ?thesis
  proof cases
    case found
    with s b1 show ?thesis by (auto simp: scanned_def hdr_diff_def intro!: exI [of _ bs1])
  next
    case none
    with s(2,4) show ?thesis by (auto simp: scanned_def)
  next
    case rec
    from IH [OF rec b1(2) s(4)] s(2) show ?thesis by (rule scanned_merges [rotated])
  qed
qed

lemma malloc_scan_sound:
  assumes ret: "malloc_scan start wanted m p = Some rm" and "heap_chain m bs" "p \<in> set bs"
  shows "scanned start wanted m bs rm"
proof -
  have "\<forall>bs. heap_chain m bs \<longrightarrow> p \<in> set bs \<longrightarrow> scanned start wanted m bs rm"
    by (rule malloc_scan.raw_induct [where
          P = "\<lambda>start wanted m p rm. \<forall>bs. heap_chain m bs \<longrightarrow> p \<in> set bs \<longrightarrow> scanned start wanted m bs rm",
          OF _ ret])
      (blast intro: malloc_scan_body)
  with assms(2,3) show ?thesis by blast
qed


subsection \<open>Termination\<close>

text \<open>
  The scan ends when it is back at the block it started from. Going up the chain towards
  \<open>start\<close> it gets there unless merging swallows \<open>start\<close>, which takes a free block right
  before a free \<open>start\<close>.
\<close>

lemma malloc_scan_stop:
  assumes "(if busy (m p) then Some m else malloc_coalesce m p) = Some m'"
    "hdr_next (m' p) = start \<or> (\<exists>rm. malloc_scan start wanted m' (hdr_next (m' p)) = Some rm)"
  shows "\<exists>rm. malloc_scan start wanted m p = Some rm"
  using assms by (subst malloc_scan.simps) auto

lemma malloc_scan_up_returns:
  "heap_chain m (xs @ p # ps @ start # ys) \<Longrightarrow> busy (m (last (p # ps))) \<or> busy (m start) \<Longrightarrow>
   \<exists>rm. malloc_scan start wanted m p = Some rm"
proof (induction "length ps" arbitrary: xs p ps m rule: less_induct)
  case less
  show ?case
  proof (cases "busy (m p)")
    case True
    show ?thesis
    proof (cases ps)
      case Nil
      with less.prems(1) have "hdr_next (m p) = start" using heap_chain_next [of m xs p] by simp
      with True show ?thesis by (intro malloc_scan_stop [of m p m]) auto
    next
      case (Cons p' ps')
      with less.prems(1) have n: "hdr_next (m p) = p'" using heap_chain_next [of m xs p] by simp
      have "\<exists>rm. malloc_scan start wanted m p' = Some rm"
        by (rule less.hyps [of ps' m "xs @ [p]"]) (use less.prems Cons in auto)
      with True n show ?thesis by (intro malloc_scan_stop [of m p m]) auto
    qed
  next
    case False
    from malloc_coalesce_merges [OF less.prems(1) False] obtain fs q zs m' where
      c: "malloc_coalesce m p = Some m'" "ps @ start # ys = fs @ q # zs" "\<forall>f\<in>set fs. \<not> busy (m f)"
      "busy (m q)" "hdr_next (m' p) = q" "merges m (xs @ p # ps @ start # ys) m' (xs @ p # q # zs)"
      by metis
    have chain: "heap_chain m' (xs @ p # q # zs)" and b: "\<forall>b. busy (m' b) = busy (m b)"
      using c(6) by (auto simp: merges_def)
    from c(2) consider (here) "ps = fs" "start = q" | (before) ps' where "ps = fs @ q # ps'" "zs = ps' @ start # ys"
      | (after) us where "fs = ps @ start # us"
      by (auto simp: append_eq_append_conv2 append_eq_Cons_conv Cons_eq_append_conv)
    then have "q = start \<or> (\<exists>rm. malloc_scan start wanted m' q = Some rm)"
    proof cases
      case before
      have "\<exists>rm. malloc_scan start wanted m' q = Some rm"
        by (rule less.hyps [of ps' m' "xs @ [p]"]) (use before chain less.prems(2) b in auto)
      then show ?thesis ..
    next
      case after
      with c(3) False less.prems(2) show ?thesis by (auto split: if_splits dest: bspec [OF _ last_in_set])
    qed auto
    with c(1,5) False show ?thesis by (intro malloc_scan_stop [of m p m']) auto
  qed
qed

lemma malloc_scan_down_returns:
  assumes "heap_chain m (xs @ us @ p # ps)" "hd (us @ [p]) = start"
    "xs = [] \<or> busy (m (last xs)) \<or> busy (m start)"
  shows "\<exists>rm. malloc_scan start wanted m p = Some rm"
  using assms
proof (induction "length ps" arbitrary: us p ps m rule: less_induct)
  case less
  have top: "\<exists>rm. malloc_scan start wanted m p = Some rm"
    if "hdr_next (m p) = hd (xs @ us @ [p])" "ps = []" "busy (m p)"
  proof (cases xs)
    case Nil
    with that less.prems(2) show ?thesis by (intro malloc_scan_stop [of m p m]) auto
  next
    case (Cons x xs')
    obtain ys where ys: "us @ [p] = start # ys" using less.prems(2) by (cases us) auto
    have "\<exists>rm. malloc_scan start wanted m x = Some rm"
      by (rule malloc_scan_up_returns [of m "[]" x xs' start ys])
        (use less.prems Cons that(2) ys in auto)
    with Cons that show ?thesis by (intro malloc_scan_stop [of m p m]) auto
  qed
  show ?case
  proof (cases "busy (m p)")
    case True
    show ?thesis
    proof (cases ps)
      case Nil
      then show ?thesis using top True heap_chain_last [of m "xs @ us" p] less.prems(1) by simp
    next
      case (Cons q ps')
      have "hdr_next (m p) = q" using heap_chain_next [of m "xs @ us" p q ps'] less.prems(1) Cons by simp
      moreover have "\<exists>rm. malloc_scan start wanted m q = Some rm"
        by (rule less.hyps [of ps' m "us @ [p]"]) (use less.prems Cons in \<open>auto simp: hd_append split: if_splits\<close>)
      ultimately show ?thesis using True by (intro malloc_scan_stop [of m p m]) auto
    qed
  next
    case False
    have ch: "heap_chain m ((xs @ us) @ p # ps)" using less.prems(1) by simp
    from malloc_coalesce_merges [OF ch False] obtain fs q zs m' where
      c: "malloc_coalesce m p = Some m'" "ps = fs @ q # zs" "hdr_next (m' p) = q"
      "merges m ((xs @ us) @ p # ps) m' ((xs @ us) @ p # q # zs)"
      by metis
    have "\<exists>rm. malloc_scan start wanted m' q = Some rm"
      by (rule less.hyps [of zs m' "us @ [p]"])
        (use c less.prems in \<open>auto simp: merges_def hd_append split: if_splits\<close>)
    with c(1,3) False show ?thesis by (intro malloc_scan_stop [of m p m']) auto
  qed
qed


section \<open>Allocated memory\<close>

text \<open>The words of the busy blocks, their headers included; the end marker has none.\<close>

definition allocated :: "hmem \<Rightarrow> nat list \<Rightarrow> nat set" where
  "allocated m bs = (\<Union>b \<in> {b \<in> set bs. b \<noteq> last bs \<and> busy (m b)}. {b..<hdr_next (m b)})"

lemma heap_chain_le_last:
  assumes "heap_chain m bs" "b \<in> set bs"
  shows "b \<le> last bs"
proof -
  obtain ys l where bs: "bs = ys @ [l]" using assms(2) by (cases bs rule: rev_cases) auto
  then have "\<forall>y\<in>set ys. y < l" using assms(1) by (simp add: heap_chain_def sorted_wrt_append)
  with assms(2) bs show ?thesis by auto
qed

lemma heap_chain_next_le:
  assumes "heap_chain m bs" "b \<in> set bs" "c \<in> set bs" "b < c"
  shows "hdr_next (m b) \<in> set bs" "b < hdr_next (m b)" "hdr_next (m b) \<le> c"
proof -
  from assms(2) obtain xs ys where bs: "bs = xs @ b # ys" by (meson split_list)
  have s: "sorted_wrt (<) (xs @ b # ys)" using assms(1) bs by (simp add: heap_chain_def)
  with assms(3,4) bs have c: "c \<in> set ys" by (auto simp: sorted_wrt_append)
  then obtain y ys' where y: "ys = y # ys'" by (cases ys) auto
  note n = heap_chain_next [of m xs b y ys']
  from n y bs assms(1) show "hdr_next (m b) \<in> set bs" "b < hdr_next (m b)" by auto
  from n y bs assms(1) c s show "hdr_next (m b) \<le> c" by (auto simp: sorted_wrt_append)
qed

lemma heap_chain_next_not_last:
  assumes "heap_chain m bs" "b \<in> set bs" "b \<noteq> last bs"
  shows "hdr_next (m b) \<in> set bs" "b < hdr_next (m b)" "hdr_next (m b) \<le> last bs"
proof -
  have "last bs \<in> set bs" using assms by (auto simp: heap_chain_def)
  moreover have "b < last bs" using heap_chain_le_last [OF assms(1,2)] assms(3) by simp
  ultimately show "hdr_next (m b) \<in> set bs" "b < hdr_next (m b)" "hdr_next (m b) \<le> last bs"
    using heap_chain_next_le [OF assms(1,2)] by blast+
qed

text \<open>Blocks do not overlap, and no header lies inside a block.\<close>

lemma blocks_disjoint:
  assumes "heap_chain m bs" "b \<in> set bs" "b \<noteq> last bs" "c \<in> set bs" "c \<noteq> last bs" "b \<noteq> c"
  shows "{b..<hdr_next (m b)} \<inter> {c..<hdr_next (m c)} = {}"
  using heap_chain_next_le(3) [OF assms(1,2,4)] heap_chain_next_le(3) [OF assms(1,4,2)] assms(6)
  by (cases "b < c") auto

lemma allocated_header:
  assumes "heap_chain m bs" "a \<in> allocated m bs" "a \<in> set bs"
  shows "busy (m a) \<and> a \<noteq> last bs"
proof -
  from assms(2) obtain b where b: "b \<in> set bs" "b \<noteq> last bs" "busy (m b)" "b \<le> a" "a < hdr_next (m b)"
    by (auto simp: allocated_def)
  have "a = b" using heap_chain_next_le(3) [OF assms(1) b(1) assms(3)] b(4,5) by (cases "b < a") auto
  with b show ?thesis by simp
qed

lemma allocated_le_last: "heap_chain m bs \<Longrightarrow> a \<in> allocated m bs \<Longrightarrow> a < last bs"
  using heap_chain_next_not_last by (fastforce simp: allocated_def)

lemma merges_allocated:
  assumes "heap_chain m bs" "merges m bs m' bs'"
  shows "allocated m' bs' = allocated m bs" "a \<in> allocated m bs \<Longrightarrow> m' a = m a"
proof -
  have "{b \<in> set bs'. b \<noteq> last bs' \<and> busy (m' b)} = {b \<in> set bs. b \<noteq> last bs \<and> busy (m b)}"
    using assms(2) by (auto simp: merges_def)
  then show "allocated m' bs' = allocated m bs"
    using assms(2) by (auto simp: allocated_def merges_def)
  show "m' a = m a" if "a \<in> allocated m bs"
    using assms(2) allocated_header [OF assms(1) that] by (auto simp: merges_def)
qed

lemma free_not_allocated:
  assumes "heap_chain m bs" "p \<in> set bs" "\<not> busy (m p)" "p \<le> a" "a < hdr_next (m p)"
  shows "a \<notin> allocated m bs"
proof
  assume "a \<in> allocated m bs"
  then obtain b where b: "b \<in> set bs" "b \<noteq> last bs" "busy (m b)" "b \<le> a" "a < hdr_next (m b)"
    by (auto simp: allocated_def)
  have "p \<noteq> last bs" using assms(1,3) by (auto simp: heap_chain_def)
  from blocks_disjoint [OF assms(1) b(1,2) assms(2) this] b assms show False by force
qed

section \<open>Taking a block\<close>

lemma heap_chain_set_busy:
  "heap_chain m bs \<Longrightarrow> b \<noteq> last bs \<or> f \<Longrightarrow> heap_chain (m(b := (m b)\<lparr>busy := f\<rparr>)) bs"
  by (auto simp: heap_chain_def)

lemma heap_chain_split:
  assumes "heap_chain m (xs @ p # q # zs)" "p < z" "z < q"
  shows "heap_chain ((m(z := \<lparr>hdr_next = q, busy = False\<rparr>))(p := \<lparr>hdr_next = z, busy = False\<rparr>))
    (xs @ p # z # q # zs)" (is "heap_chain ?m _")
proof -
  have s: "sorted_wrt (<) (xs @ p # z # q # zs)"
    using assms by (fastforce simp: heap_chain_def sorted_wrt_append)
  then have d: "distinct (xs @ p # z # q # zs)" by (metis strict_sorted_iff)
  have "hdr_next (?m a) = b" if ab: "(a, b) \<in> links (xs @ p # z # q # zs)" for a b
  proof -
    consider "a = p" "b = z" | "a = z" "b = q" | (old) "(a, b) \<in> links (xs @ [p]) \<union> links (q # zs)"
      using ab by (cases "xs = []") (auto simp: links_append links_snoc)
    then show ?thesis
    proof cases
      case old
      then have "a \<noteq> p" "a \<noteq> z"
        using d links_distinct(1,3) [of a b "xs @ [p]"] links_distinct(3) [of a b "q # zs"] by auto
      moreover have "(a, b) \<in> links (xs @ p # q # zs)"
        using old by (cases "xs = []") (auto simp: links_append links_snoc)
      ultimately show ?thesis using assms(1) by (auto simp: heap_chain_def)
    qed (use d in auto)
  qed
  moreover have "last (q # zs) \<noteq> p" "last (q # zs) \<noteq> z"
    using d last_in_set [of "q # zs"] by auto
  moreover have "hd (xs @ p # z # q # zs) = hd (xs @ p # q # zs)" by (cases xs) auto
  ultimately show ?thesis
    using assms(1) s unfolding heap_chain_def by auto
qed


lemma malloc_wanted_pos: "0 < malloc_wanted bytes"
proof -
  have "unat (bytes + 4 - 1) < 2 ^ LENGTH(32)" by (rule unsigned_less)
  then have "unat ((bytes + 4 - 1) div 4) < 2 ^ 32 - 1"
    unfolding unat_div_distrib by (simp add: div_less_iff_less_mult)
  then have "unat ((bytes + 4 - 1) div 4 + 1) = unat ((bytes + 4 - 1) div 4) + 1"
    by (subst unat_add_lem [THEN iffD1]) simp_all
  then show ?thesis by (simp add: malloc_wanted_def)
qed

text \<open>What an allocation does to the heap: the block \<open>{p..<q}\<close> joins the allocated words.\<close>

definition allocates :: "hmem \<Rightarrow> nat list \<Rightarrow> nat \<Rightarrow> nat \<Rightarrow> hmem \<Rightarrow> nat list \<Rightarrow> bool" where
  "allocates m bs p q m' bs' \<longleftrightarrow> p \<in> set bs' \<and> p \<noteq> last bs' \<and> busy (m' p) \<and> hdr_next (m' p) = q \<and>
     allocated m' bs' = allocated m bs \<union> {p..<q} \<and> allocated m bs \<inter> {p..<q} = {} \<and>
     (\<forall>a \<in> allocated m bs. m' a = m a)"

lemma allocates_blocks:
  assumes chain: "heap_chain m' bs'" and p: "p \<in> set bs'" "p \<noteq> last bs'" "busy (m' p)" "hdr_next (m' p) = q"
    and blocks: "{b \<in> set bs'. b \<noteq> last bs' \<and> busy (m' b)} = insert p {b \<in> set bs. b \<noteq> last bs \<and> busy (m b)}"
    and frame: "\<And>b. b \<in> set bs \<Longrightarrow> b \<noteq> last bs \<Longrightarrow> busy (m b) \<Longrightarrow> b \<noteq> p \<and> m' b = m b"
    and same: "\<And>a. a \<in> allocated m bs \<Longrightarrow> a \<notin> set bs \<Longrightarrow> m' a = m a"
    and old: "heap_chain m bs \<or> bs = []"
  shows "allocates m bs p q m' bs'"
proof -
  have "allocated m' bs' = {p..<q} \<union> (\<Union>b \<in> {b \<in> set bs. b \<noteq> last bs \<and> busy (m b)}. {b..<hdr_next (m' b)})"
    unfolding allocated_def blocks using p(4) by simp
  also have "(\<Union>b \<in> {b \<in> set bs. b \<noteq> last bs \<and> busy (m b)}. {b..<hdr_next (m' b)}) = allocated m bs"
    unfolding allocated_def using frame by (intro SUP_cong) auto
  finally have "allocated m' bs' = allocated m bs \<union> {p..<q}" by auto
  moreover have "allocated m bs \<inter> {p..<q} = {}"
  proof -
    have "{b..<hdr_next (m b)} \<inter> {p..<q} = {}" if b: "b \<in> set bs" "b \<noteq> last bs" "busy (m b)" for b
    proof -
      have "b \<in> set bs' \<and> b \<noteq> last bs'" using b blocks by blast
      then show ?thesis using blocks_disjoint [OF chain, of b p] p frame [OF b] by auto
    qed
    then show ?thesis unfolding allocated_def by blast
  qed
  moreover have "m' a = m a" if "a \<in> allocated m bs" for a
    using that same frame allocated_header [of m bs a] old
    by (cases "a \<in> set bs") (auto simp: allocated_def)
  ultimately show ?thesis using p by (simp add: allocates_def)
qed

lemma malloc_take_spec:
  assumes chain: "heap_chain (hmem h) bs" and p: "p \<in> set bs" "\<not> busy (hmem h p)"
    and w: "0 < wanted" "wanted \<le> hdr_next (hmem h p) - p"
  obtains bs' where "heap_chain (hmem (malloc_take wanted p h)) bs'" "hd bs' = hd bs" "last bs' = last bs"
    "ibcs_malloc_p (malloc_take wanted p h) \<in> set bs'"
    "allocates (hmem h) bs p (p + wanted) (hmem (malloc_take wanted p h)) bs'"
proof -
  from p obtain xs ys where bs0: "bs = xs @ p # ys" by (meson split_list)
  with chain p obtain q zs where q: "ys = q # zs" "hdr_next (hmem h p) = q" "p < q"
    by (metis heap_chain_free_next)
  have d: "distinct bs" using chain by (rule heap_chain_distinct)
  let ?z = "p + wanted"
  show thesis
  proof (cases "?z = q")
    case True
    let ?m = "(hmem h)(p := (hmem h p)\<lparr>busy := True\<rparr>)"
    have t: "malloc_take wanted p h = h\<lparr>ibcs_malloc_p := q, hmem := ?m\<rparr>"
      using True q by (simp add: malloc_take_def hdr_diff_def Let_def)
    have c: "heap_chain ?m bs" using chain by (rule heap_chain_set_busy) simp
    have "p \<noteq> last bs" using d bs0 q by (auto dest: last_in_set split: if_splits)
    then have "allocates (hmem h) bs p q ?m bs"
      by (intro allocates_blocks [OF c]) (use p q chain in auto)
    with t c True bs0 q show thesis by (intro that [of bs]) auto
  next
    case False
    let ?m = "((hmem h)(?z := \<lparr>hdr_next = q, busy = False\<rparr>))(p := \<lparr>hdr_next = ?z, busy = False\<rparr>)"
    let ?m' = "?m(p := (?m p)\<lparr>busy := True\<rparr>)" and ?bs = "xs @ p # ?z # q # zs"
    have z: "p < ?z" "?z < q" using w q False by auto
    have t: "malloc_take wanted p h = h\<lparr>ibcs_malloc_p := ?z, hmem := ?m'\<rparr>"
      using z q by (simp add: malloc_take_def hdr_diff_def Let_def)
    have c: "heap_chain ?m ?bs"
      by (rule heap_chain_split) (use chain bs0 q z in auto)
    then have c': "heap_chain ?m' ?bs" by (rule heap_chain_set_busy) simp
    have d': "distinct ?bs" using c by (rule heap_chain_distinct)
    have zn: "?z \<notin> set bs"
      using heap_chain_next_le(3) [OF chain p(1), of ?z] q z by auto
    have lst: "last ?bs = last bs" "hd ?bs = hd bs" using bs0 q by (cases xs; simp)+
    have "p \<noteq> last bs" using d bs0 q by (auto dest: last_in_set split: if_splits)
    have "allocates (hmem h) bs p ?z ?m' ?bs"
    proof (rule allocates_blocks [OF c'])
      have "busy (?m' b) \<longleftrightarrow> b = p \<or> b \<noteq> ?z \<and> busy (hmem h b)" for b by simp
      moreover have "set ?bs = insert ?z (set bs)" using bs0 q by auto
      ultimately show "{b \<in> set ?bs. b \<noteq> last ?bs \<and> busy (?m' b)}
          = insert p {b \<in> set bs. b \<noteq> last bs \<and> busy (hmem h b)}"
        unfolding lst(1) using zn p(1) \<open>p \<noteq> last bs\<close> by auto
      show "b \<noteq> p \<and> ?m' b = hmem h b" if "b \<in> set bs" "busy (hmem h b)" for b
        using that p(2) zn by auto
      have "?z \<notin> allocated (hmem h) bs" "p \<notin> allocated (hmem h) bs"
        using free_not_allocated [OF chain p] q z by auto
      then show "?m' a = hmem h a" if "a \<in> allocated (hmem h) bs" for a
        using that by auto
      show "p \<noteq> last ?bs" using lst \<open>p \<noteq> last bs\<close> by simp
    qed (use chain in auto)
    with t c' lst show thesis by (intro that [of ?bs]) auto
  qed
qed


section \<open>Growing the heap\<close>

text \<open>
  What the allocator relies on from the kernel (\<^verbatim>\<open>brk(2)\<close> as the raw system call): asking for
  address 0 reports the current break and changes nothing; asking for a higher address either
  moves the break there or leaves it and returns the old one or an error.
\<close>

definition brk_spec :: "'k brk_call \<Rightarrow> ('k \<Rightarrow> nat) \<Rightarrow> bool" where
  "brk_spec sys_brk cur \<longleftrightarrow>
     (\<forall>k. 0 < cur k \<and> sys_brk k 0 = (Inr (cur k), k)) \<and>
     (\<forall>k a r k'. cur k \<le> a \<longrightarrow> sys_brk k a = (r, k') \<longrightarrow>
        r = Inr a \<and> cur k' = a \<or> (r = Inr (cur k) \<or> isl r) \<and> cur k' = cur k)"

text \<open>
  The heap between calls: not yet set up, or a chain that ends in the word below the break, which
  nobody else moves.
\<close>

definition malloc_ok :: "('k \<Rightarrow> nat) \<Rightarrow> malloc_state \<times> 'k \<Rightarrow> nat list \<Rightarrow> bool" where
  "malloc_ok cur = (\<lambda>(h, k) bs. if bs = [] then ibcs_malloc_p h = 0
     else malloc_inv h bs \<and> last bs + 1 = cur k)"

lemma heap_chain_snoc:
  assumes "heap_chain m bs" "last bs < n"
  shows "heap_chain (m(last bs := \<lparr>hdr_next = n, busy = True\<rparr>, n := \<lparr>hdr_next = hd bs, busy = True\<rparr>)) (bs @ [n])"
    (is "heap_chain ?m _")
proof -
  have ne: "bs \<noteq> []" and s: "sorted_wrt (<) bs" using assms(1) by (auto simp: heap_chain_def)
  have le: "b \<le> last bs" if "b \<in> set bs" for b using heap_chain_le_last [OF assms(1) that] .
  have "hdr_next (?m a) = b" if ab: "(a, b) \<in> links (bs @ [n])" for a b
  proof -
    consider "a = last bs" "b = n" | (old) "(a, b) \<in> links bs"
      using ab ne by (auto simp: links_append)
    then show ?thesis
    proof cases
      case old
      have "a \<noteq> last bs" "a \<in> set bs"
        using links_distinct [OF old heap_chain_distinct [OF assms(1)]] by blast+
      moreover have "a \<noteq> n" using le [OF \<open>a \<in> set bs\<close>] assms(2) by simp
      ultimately show ?thesis using old assms(1) by (auto simp: heap_chain_def)
    qed (use assms(2) in auto)
  qed
  moreover have "sorted_wrt (<) (bs @ [n])" using s le assms(2) by (fastforce simp: sorted_wrt_append)
  ultimately show ?thesis using ne by (auto simp: heap_chain_def hd_append)
qed

text \<open>The allocated words of an untouched end: extending the chain hands out exactly the new block.\<close>

lemma heap_chain_snoc_allocates:
  assumes "heap_chain m bs" "last bs < n"
  shows "allocates m bs (last bs) n
    (m(last bs := \<lparr>hdr_next = n, busy = True\<rparr>, n := \<lparr>hdr_next = hd bs, busy = True\<rparr>)) (bs @ [n])"
proof (rule allocates_blocks [OF heap_chain_snoc [OF assms]])
  have ne: "bs \<noteq> []" using assms(1) by (auto simp: heap_chain_def)
  have lt: "b < n" if "b \<in> set bs" for b using heap_chain_le_last [OF assms(1) that] assms(2) by simp
  show "last bs \<in> set (bs @ [n])" using ne by simp
  show "last bs \<noteq> last (bs @ [n])" using assms(2) by simp
  show "{b \<in> set (bs @ [n]). b \<noteq> last (bs @ [n]) \<and>
      busy ((m(last bs := \<lparr>hdr_next = n, busy = True\<rparr>, n := \<lparr>hdr_next = hd bs, busy = True\<rparr>)) b)} =
    insert (last bs) {b \<in> set bs. b \<noteq> last bs \<and> busy (m b)}"
    using ne assms(2) less_irrefl [of n] by (auto dest: lt)
qed (use assms heap_chain_le_last [OF assms(1)] allocated_le_last [OF assms(1)] in fastforce)+

lemma malloc_grow_cases:
  assumes "malloc_grow sys_brk wanted (Inr p) (h, k) = (Return blk, h', k')"
  obtains q n where "q = (if ibcs_malloc_last h + 1 = p then ibcs_malloc_last h else p)"
    "sys_brk k ((q + wanted + 1) mod 2 ^ 30) = (Inr n, k')" "wanted \<le> hdr_diff (n - 1) q" "blk = q + 1"
    "h' = h\<lparr>hmem := (hmem h)(ibcs_malloc_last h := \<lparr>hdr_next = n - 1, busy = True\<rparr>,
              q := \<lparr>hdr_next = n - 1, busy = True\<rparr>,
              n - 1 := \<lparr>hdr_next = ibcs_malloc_first h, busy = True\<rparr>), ibcs_malloc_last := n - 1\<rparr>"
  using assms by (auto simp: malloc_grow_def Let_def split: prod.splits sum.splits if_splits)

lemma brk_spec_move:
  assumes "brk_spec sys_brk cur" "q + wanted + 1 < 2 ^ 30" "cur k = q \<and> cur k < cur k' \<or> cur k = q + 1" "0 < wanted"
    "sys_brk k ((q + wanted + 1) mod 2 ^ 30) = (Inr n, k')" "wanted \<le> hdr_diff (n - 1) q"
  shows "n = q + wanted + 1 \<and> cur k' = n"
proof -
  have "(q + wanted + 1) mod 2 ^ 30 = q + wanted + 1" using assms(2) by simp
  then have "sys_brk k (q + wanted + 1) = (Inr n, k')" "cur k \<le> q + wanted + 1" using assms(3,5) by auto
  then have "n = q + wanted + 1 \<and> cur k' = n \<or> n = cur k \<and> cur k' = cur k"
    using assms(1) unfolding brk_spec_def by fastforce
  moreover have "0 < cur k" using assms(1) by (simp add: brk_spec_def)
  ultimately show ?thesis
    using assms(3,4,6) by (auto simp: hdr_diff_def split: if_splits)
qed


section \<open>The contract\<close>

lemma malloc_grow_first:
  assumes brk: "brk_spec sys_brk cur" and room: "cur k + wanted + 1 < 2 ^ 30" and w: "0 < wanted"
    and h: "ibcs_malloc_first h = cur k" "ibcs_malloc_last h = cur k" "ibcs_malloc_p h = cur k"
    and r: "malloc_grow sys_brk wanted (Inr (cur k)) (h, k) = (Return blk, h', k')"
    and moved: "cur k < cur k'"
  shows "\<exists>bs'. malloc_ok cur (h', k') bs' \<and> bs' \<noteq> [] \<and> allocates m [] (blk - 1) (blk - 1 + wanted) (hmem h') bs'"
proof -
  from r obtain n where n: "sys_brk k ((cur k + wanted + 1) mod 2 ^ 30) = (Inr n, k')"
    "wanted \<le> hdr_diff (n - 1) (cur k)" "blk = cur k + 1"
    "h' = h\<lparr>hmem := (hmem h)(cur k := \<lparr>hdr_next = n - 1, busy = True\<rparr>,
              n - 1 := \<lparr>hdr_next = cur k, busy = True\<rparr>), ibcs_malloc_last := n - 1\<rparr>"
    by (rule malloc_grow_cases) (auto simp: h)
  have nn: "n = cur k + wanted + 1" "cur k' = n"
    using brk_spec_move [OF brk room _ w n(1,2)] moved by auto
  have "0 < cur k" using brk by (simp add: brk_spec_def)
  then have "malloc_ok cur (h', k') [cur k, cur k + wanted]"
    using n nn w h by (auto simp: malloc_ok_def malloc_inv_def heap_chain_def)
  moreover have "allocates m [] (blk - 1) (blk - 1 + wanted) (hmem h') [cur k, cur k + wanted]"
    using n nn w by (auto simp: allocates_def allocated_def)
  ultimately show ?thesis by blast
qed

lemma malloc_grow_more:
  assumes brk: "brk_spec sys_brk cur" and room: "cur k + wanted < 2 ^ 30" and w: "0 < wanted"
    and inv: "malloc_inv h bs" and last: "last bs + 1 = cur k"
    and r: "malloc_grow sys_brk wanted (Inr (cur k)) (h, k) = (Return blk, h', k')"
  shows "\<exists>bs'. malloc_ok cur (h', k') bs' \<and> bs' \<noteq> [] \<and>
    allocates (hmem h) bs (blk - 1) (blk - 1 + wanted) (hmem h') bs'"
proof -
  have chain: "heap_chain (hmem h) bs" and hl: "last bs = ibcs_malloc_last h" "hd bs = ibcs_malloc_first h"
    using inv by (auto simp: malloc_inv_def)
  from r obtain n where n: "sys_brk k ((last bs + wanted + 1) mod 2 ^ 30) = (Inr n, k')"
    "wanted \<le> hdr_diff (n - 1) (last bs)" "blk = last bs + 1"
    "h' = h\<lparr>hmem := (hmem h)(last bs := \<lparr>hdr_next = n - 1, busy = True\<rparr>,
              n - 1 := \<lparr>hdr_next = hd bs, busy = True\<rparr>), ibcs_malloc_last := n - 1\<rparr>"
    by (rule malloc_grow_cases) (auto simp: hl last [symmetric])
  have nn: "n = last bs + wanted + 1" "cur k' = n"
    using brk_spec_move [OF brk _ _ w n(1,2)] room last by auto
  have lt: "last bs < last bs + wanted" using w by simp
  have "malloc_ok cur (h', k') (bs @ [last bs + wanted])"
    using heap_chain_snoc [OF chain lt] inv n nn
    by (auto simp: malloc_ok_def malloc_inv_def hd_append)
  moreover have "allocates (hmem h) bs (blk - 1) (blk - 1 + wanted) (hmem h') (bs @ [last bs + wanted])"
    using heap_chain_snoc_allocates [OF chain lt] n nn by simp
  ultimately show ?thesis by blast
qed

lemma malloc_grow_error: "malloc_grow sys_brk wanted (Inl e) (h, k) = (Fatal, h, k)"
  by (simp add: malloc_grow_def)

lemma brk_spec_0: "brk_spec sys_brk cur \<Longrightarrow> sys_brk k 0 = (Inr (cur k), k)"
  by (simp add: brk_spec_def)

lemma allocates_merged:
  assumes "heap_chain m bs" "merges m bs m1 bs1" "allocates m1 bs1 p q m' bs'"
  shows "allocates m bs p q m' bs'"
  using assms(3) merges_allocated [OF assms(1,2)] by (auto simp: allocates_def)

lemma ibcs_malloc_again:
  assumes brk: "brk_spec sys_brk cur" and ok: "malloc_ok cur (h, k) bs" and ne: "bs \<noteq> []"
    and room: "cur k + malloc_wanted bytes + 1 < 2 ^ 30"
    and ret: "ibcs_malloc sys_brk bytes (h, k) = Some (Return blk, h', k')"
  shows "\<exists>bs'. malloc_ok cur (h', k') bs' \<and> bs' \<noteq> [] \<and>
    allocates (hmem h) bs (blk - 1) (blk - 1 + malloc_wanted bytes) (hmem h') bs'"
proof -
  note w = malloc_wanted_pos [of bytes]
  have inv: "malloc_inv h bs" and lst: "last bs + 1 = cur k" using ok ne by (auto simp: malloc_ok_def)
  have chain: "heap_chain (hmem h) bs" and p: "ibcs_malloc_p h \<in> set bs" using inv by (auto simp: malloc_inv_def)
  have p0: "0 < ibcs_malloc_p h"
    using inv p by (cases bs) (fastforce simp: malloc_inv_def heap_chain_def)+
  then obtain r m where scan: "malloc_scan (ibcs_malloc_p h) (malloc_wanted bytes) (hmem h) (ibcs_malloc_p h) = Some (r, m)"
    using ret by (auto simp: ibcs_malloc_def Let_def split: option.splits)
  from malloc_scan_sound [OF scan chain p] obtain bs1 where bs1: "merges (hmem h) bs m bs1"
    "case r of None \<Rightarrow> ibcs_malloc_p h \<in> set bs1 | Some q \<Rightarrow> q \<in> set bs1 \<and> \<not> busy (m q) \<and> q < hdr_next (m q) \<and> malloc_wanted bytes \<le> hdr_next (m q) - q"
    by (auto simp: scanned_def)
  show ?thesis
  proof (cases r)
    case None
    have inv1: "malloc_inv (h\<lparr>hmem := m\<rparr>) bs1" "last bs1 = last bs"
      using inv bs1 None by (auto simp: malloc_inv_def merges_def)
    have g: "malloc_grow sys_brk (malloc_wanted bytes) (Inr (cur k)) (h\<lparr>hmem := m\<rparr>, k) = (Return blk, h', k')"
      using ret scan None p0 by (simp add: ibcs_malloc_def brk_spec_0 [OF brk])
    from malloc_grow_more [OF brk _ w inv1(1) _ g] inv1(2) lst room
    show ?thesis using allocates_merged [OF chain bs1(1)] by auto
  next
    case (Some q)
    have eq: "blk = q + 1" "h' = malloc_take (malloc_wanted bytes) q (h\<lparr>hmem := m\<rparr>)" "k' = k"
      using ret scan Some p0 by (auto simp: ibcs_malloc_def)
    have c1: "heap_chain (hmem (h\<lparr>hmem := m\<rparr>)) bs1" using bs1(1) by (simp add: merges_def)
    obtain bs' where b: "heap_chain (hmem h') bs'" "hd bs' = hd bs1" "last bs' = last bs1"
      "ibcs_malloc_p h' \<in> set bs'" "allocates m bs1 q (q + malloc_wanted bytes) (hmem h') bs'"
      by (rule malloc_take_spec [OF c1, of q "malloc_wanted bytes"]) (use bs1(2) Some w eq in auto)
    have "ibcs_malloc_first h' = ibcs_malloc_first h" "ibcs_malloc_last h' = ibcs_malloc_last h"
      unfolding eq by (simp_all add: malloc_take_def Let_def)
    then have "malloc_ok cur (h', k') bs'"
      using b inv bs1(1) lst eq(3) by (auto simp: malloc_ok_def malloc_inv_def merges_def heap_chain_def)
    with b eq(1) show ?thesis using allocates_merged [OF chain bs1(1)] by (auto simp: heap_chain_def)
  qed
qed

text \<open>
  C22: a call of \<open>ibcs_malloc\<close> that returns hands out a block of \<open>malloc_wanted bytes\<close> words, its
  header first, that overlaps no allocated word; no allocated word changes, and the heap is a
  well-formed chain again. (The break must be able to hold the request without wrapping around
  the address space, and the very first call must have moved it.)
\<close>

theorem ibcs_malloc_fresh:
  assumes brk: "brk_spec sys_brk cur" and ok: "malloc_ok cur (h, k) bs"
    and room: "cur k + malloc_wanted bytes + 1 < 2 ^ 30"
    and ret: "ibcs_malloc sys_brk bytes (h, k) = Some (Return blk, h', k')"
    and moved: "bs = [] \<longrightarrow> cur k < cur k'"
  shows "\<exists>bs'. malloc_ok cur (h', k') bs' \<and> bs' \<noteq> [] \<and>
    allocates (hmem h) bs (blk - 1) (blk - 1 + malloc_wanted bytes) (hmem h') bs'"
proof (cases "bs = []")
  case True
  note w = malloc_wanted_pos [of bytes]
  with ok ret have "malloc_grow sys_brk (malloc_wanted bytes) (Inr (cur k))
      (h\<lparr>ibcs_malloc_first := cur k, ibcs_malloc_last := cur k, ibcs_malloc_p := cur k\<rparr>, k) = (Return blk, h', k')"
    using True by (simp add: malloc_ok_def ibcs_malloc_def brk_spec_0 [OF brk])
  from malloc_grow_first [OF brk room w _ _ _ this] moved True show ?thesis by simp
next
  case False
  with brk ok show ?thesis using room ret by (rule ibcs_malloc_again)
qed

text \<open>A break to run the allocator on: it grants every request.\<close>

definition demo_brk :: "nat brk_call" where
  "demo_brk k a = (if a \<le> k then (Inr (k + 1), k) else (Inr a, a - 1))"

definition malloc_start :: malloc_state where
  "malloc_start = \<lparr>hmem = (\<lambda>_. \<lparr>hdr_next = 0, busy = False\<rparr>), ibcs_malloc_first = 0,
     ibcs_malloc_last = 0, ibcs_malloc_p = 0\<rparr>"

lemma demo_brk_spec: "brk_spec demo_brk Suc"
  by (auto simp: brk_spec_def demo_brk_def split: if_splits)

lemma malloc_ok_start: "malloc_ok cur (malloc_start, k) []"
  by (simp add: malloc_ok_def malloc_start_def)

theorem ibcs_malloc_fresh_witness:
  "\<exists>h' k' bs'. ibcs_malloc demo_brk 5 (malloc_start, 0) = Some (Return 2, h', k') \<and>
     malloc_ok Suc (h', k') bs' \<and> allocates (hmem malloc_start) [] 1 4 (hmem h') bs'"
proof -
  obtain h' k' where r: "ibcs_malloc demo_brk 5 (malloc_start, 0) = Some (Return 2, h', k')" "k' = 4"
    by (simp add: ibcs_malloc_def malloc_start_def demo_brk_def malloc_grow_def malloc_wanted_def hdr_diff_def)
  have "malloc_wanted 5 = 3" by (simp add: malloc_wanted_def)
  then show ?thesis
    using ibcs_malloc_fresh [OF demo_brk_spec malloc_ok_start [of Suc 0] _ r(1)] r by auto
qed

text \<open>
  C23: \<open>ibcs_free\<close> of an allocated block gives back exactly the words of that block; the heap
  stays a well-formed chain and no other header changes.
\<close>

theorem ibcs_free_block:
  assumes ok: "malloc_ok cur (h, k) bs" and b: "blk - 1 \<in> set bs" "blk - 1 \<noteq> last bs" "busy (hmem h (blk - 1))"
  shows "malloc_ok cur (ibcs_free blk h, k) bs \<and>
    allocated (hmem (ibcs_free blk h)) bs = allocated (hmem h) bs - {blk - 1..<hdr_next (hmem h (blk - 1))} \<and>
    (\<forall>a. a \<noteq> blk - 1 \<longrightarrow> hmem (ibcs_free blk h) a = hmem h a)"
proof -
  let ?p = "blk - 1"
  have ne: "bs \<noteq> []" using b(1) by auto
  have chain: "heap_chain (hmem h) bs" using ok ne by (simp add: malloc_ok_def malloc_inv_def)
  have f: "hmem (ibcs_free blk h) = (hmem h)(?p := (hmem h ?p)\<lparr>busy := False\<rparr>)" "ibcs_malloc_p (ibcs_free blk h) = ?p"
    by (simp_all add: ibcs_free_def Let_def)
  have "malloc_inv (ibcs_free blk h) bs"
    using ok ne b heap_chain_set_busy [OF chain, of ?p False]
    by (auto simp: malloc_ok_def malloc_inv_def ibcs_free_def Let_def)
  then have "malloc_ok cur (ibcs_free blk h, k) bs" using ok ne by (simp add: malloc_ok_def)
  moreover have "allocated (hmem (ibcs_free blk h)) bs = (\<Union>c \<in> {c \<in> set bs. c \<noteq> last bs \<and> busy (hmem h c)} - {?p}. {c..<hdr_next (hmem h c)})"
    unfolding f allocated_def by (intro SUP_cong) auto
  moreover have "\<dots> = allocated (hmem h) bs - {?p..<hdr_next (hmem h ?p)}"
    using blocks_disjoint [OF chain _ _ b(1,2)] b unfolding allocated_def by (simp add: UN_iff set_eq_iff) blast
  ultimately show ?thesis by (simp add: f)
qed


theorem ibcs_free_block_witness:
  "malloc_ok Suc (ibcs_free 2 \<lparr>hmem = (\<lambda>_. \<lparr>hdr_next = 1, busy = True\<rparr>)(1 := \<lparr>hdr_next = 4, busy = True\<rparr>),
       ibcs_malloc_first = 1, ibcs_malloc_last = 4, ibcs_malloc_p = 1\<rparr>, 4) [1, 4]"
  using ibcs_free_block [where blk = 2 and bs = "[1, 4]" and k = 4 and cur = Suc and
      h = "\<lparr>hmem = (\<lambda>_. \<lparr>hdr_next = 1, busy = True\<rparr>)(1 := \<lparr>hdr_next = 4, busy = True\<rparr>),
       ibcs_malloc_first = 1, ibcs_malloc_last = 4, ibcs_malloc_p = 1\<rparr>"]
  by (simp add: malloc_ok_def malloc_inv_def heap_chain_def)

text \<open>
  C24: a call of \<open>ibcs_malloc\<close> returns (or exits with a message), unless the search starts at a
  free block whose neighbour below is free too.
\<close>

theorem ibcs_malloc_returns:
  assumes ok: "malloc_ok cur (h, k) bs"
    and nb: "bs \<noteq> [] \<longrightarrow> busy (hmem h (ibcs_malloc_p h)) \<or>
      (\<forall>b \<in> set bs. b < ibcs_malloc_p h \<longrightarrow> hdr_next (hmem h b) = ibcs_malloc_p h \<longrightarrow> busy (hmem h b))"
  shows "\<exists>r. ibcs_malloc sys_brk bytes (h, k) = Some r"
proof (cases "bs = []")
  case True
  with ok show ?thesis by (simp add: malloc_ok_def ibcs_malloc_def Let_def split_def del: split_paired_Ex)
next
  case False
  have chain: "heap_chain (hmem h) bs" and p: "ibcs_malloc_p h \<in> set bs"
    using ok False by (auto simp: malloc_ok_def malloc_inv_def)
  from p obtain xs ys where bs: "bs = xs @ ibcs_malloc_p h # ys" by (meson split_list)
  have "xs = [] \<or> busy (hmem h (last xs)) \<or> busy (hmem h (ibcs_malloc_p h))"
  proof (cases xs rule: rev_cases)
    case (snoc us u)
    then have "hdr_next (hmem h u) = ibcs_malloc_p h \<and> u < ibcs_malloc_p h"
      using heap_chain_next [of "hmem h" us u "ibcs_malloc_p h" ys] chain bs by simp
    with nb False snoc bs show ?thesis by auto
  qed simp
  then have "\<exists>rm. malloc_scan (ibcs_malloc_p h) (malloc_wanted bytes) (hmem h) (ibcs_malloc_p h) = Some rm"
    by (intro malloc_scan_down_returns [of "hmem h" xs "[]" "ibcs_malloc_p h" ys]) (use chain bs in auto)
  then obtain rm where "malloc_scan (ibcs_malloc_p h) (malloc_wanted bytes) (hmem h) (ibcs_malloc_p h) = Some rm" ..
  then show ?thesis
    by (cases rm; cases "fst rm") (auto simp: ibcs_malloc_def Let_def split_def simp del: split_paired_Ex)
qed

theorem ibcs_malloc_returns_witness:
  "\<exists>r. ibcs_malloc demo_brk 100 (\<lparr>hmem = (\<lambda>_. \<lparr>hdr_next = 1, busy = True\<rparr>)(1 := \<lparr>hdr_next = 4, busy = False\<rparr>),
       ibcs_malloc_first = 1, ibcs_malloc_last = 4, ibcs_malloc_p = 1\<rparr>, 4) = Some r"
  by (rule ibcs_malloc_returns [where bs = "[1, 4]" and cur = Suc])
    (simp_all add: malloc_ok_def malloc_inv_def heap_chain_def)

section \<open>A search that does not end\<close>

text \<open>
  When merging has swallowed the block the search started from, no block of the chain is that
  block any more; if none of the merged blocks is large enough the search goes round forever.
\<close>

lemma malloc_scan_lost:
  assumes "heap_chain m bs" "start \<notin> set bs" "p \<in> set bs"
    and "\<forall>b \<in> set bs. \<not> busy (m b) \<longrightarrow> busy (m (hdr_next (m b))) \<and> hdr_diff (hdr_next (m b)) b < wanted"
  shows "malloc_scan start wanted m p = None"
proof (rule ccontr)
  assume "malloc_scan start wanted m p \<noteq> None"
  then obtain rm where ret: "malloc_scan start wanted m p = Some rm" by blast
  have closed: "hdr_next (m q) \<in> set bs" if "q \<in> set bs" for q
    using heap_chain_next_not_last(1) [OF assms(1) that] assms(1)
    by (cases "q = last bs") (auto simp: heap_chain_def)
  have same: "(if busy (m q) then Some m else malloc_coalesce m q) = Some m" if "q \<in> set bs" for q
    using assms(4) that by (auto simp: malloc_coalesce.simps)
  let ?P = "\<lambda>start' wanted' m' p' rm :: nat option \<times> hmem. start' = start \<longrightarrow> wanted' = wanted \<longrightarrow> m' = m \<longrightarrow> p' \<notin> set bs"
  have "?P start wanted m p rm"
  proof (rule malloc_scan.raw_induct [where P = ?P, OF _ ret])
    fix scan and start' wanted' m' q rm
    assume IH: "\<And>s w m1 p rm. scan s w m1 p = Some rm \<Longrightarrow> ?P s w m1 p rm"
      and eq: "Option.bind (if busy (m' q) then Some m' else malloc_coalesce m' q) (\<lambda>m1.
         if \<not> busy (m' q) \<and> wanted' \<le> hdr_diff (hdr_next (m1 q)) q then Some (Some q, m1)
         else if hdr_next (m1 q) = start' then Some (None, m1)
         else scan start' wanted' m1 (hdr_next (m1 q))) = Some rm"
    show "?P start' wanted' m' q rm"
    proof (intro impI notI)
      assume a: "start' = start" "wanted' = wanted" "m' = m" "q \<in> set bs"
      have "\<not> (\<not> busy (m q) \<and> wanted \<le> hdr_diff (hdr_next (m q)) q)" using assms(4) a(4) by fastforce
      moreover have "hdr_next (m q) \<noteq> start" using closed [OF a(4)] assms(2) by blast
      ultimately have "scan start wanted m (hdr_next (m q)) = Some rm"
        using eq unfolding a(1-3) same [OF a(4)] by (simp split: if_splits)
      with IH closed [OF a(4)] show False by blast
    qed
  qed
  with assms(3) show False by simp
qed

text \<open>The heap after allocating two one-word blocks and freeing them in that order.\<close>

definition two_freed :: "(malloc_state \<times> nat) option" where
  "two_freed = Option.bind (ibcs_malloc demo_brk 1 (malloc_start, 0)) (\<lambda>(r1, s).
     Option.bind (ibcs_malloc demo_brk 1 s) (\<lambda>(r2, h, k).
       case (r1, r2) of (Return b1, Return b2) \<Rightarrow> Some (ibcs_free b2 (ibcs_free b1 h), k) | _ \<Rightarrow> None))"

lemma two_freed_eq:
  "two_freed = Some (\<lparr>hmem = (\<lambda>_. \<lparr>hdr_next = 0, busy = False\<rparr>)
      (1 := \<lparr>hdr_next = 3, busy = False\<rparr>, 3 := \<lparr>hdr_next = 5, busy = False\<rparr>, 5 := \<lparr>hdr_next = 1, busy = True\<rparr>),
      ibcs_malloc_first = 1, ibcs_malloc_last = 5, ibcs_malloc_p = 3\<rparr>, 5)"
  by (simp add: two_freed_def ibcs_malloc_def malloc_scan.simps malloc_start_def demo_brk_def
      malloc_grow_def malloc_wanted_def hdr_diff_def ibcs_free_def Let_def fun_upd_twist)

text \<open>
  after \<open>malloc(1)\<close>, \<open>malloc(1)\<close> and freeing the first and then the second block, a call of
  \<open>malloc(16)\<close> never returns: the search starts at the second block, which is merged into the
  first on the way round, so the search never meets its starting point again.
\<close>

theorem ibcs_malloc_hangs: "\<exists>s. two_freed = Some s \<and> ibcs_malloc demo_brk 16 s = None"
proof -
  let ?m = "(\<lambda>_. \<lparr>hdr_next = 0, busy = False\<rparr>)
      (1 := \<lparr>hdr_next = 3, busy = False\<rparr>, 3 := \<lparr>hdr_next = 5, busy = False\<rparr>, 5 := \<lparr>hdr_next = 1, busy = True\<rparr>) :: hmem"
  let ?m' = "?m(1 := \<lparr>hdr_next = 5, busy = False\<rparr>)"
  have "malloc_scan 3 5 ?m' 1 = None"
    by (rule malloc_scan_lost [of _ "[1, 5]"]) (auto simp: heap_chain_def hdr_diff_def)
  moreover have "malloc_scan 3 5 ?m' 5 = malloc_scan 3 5 ?m' 1"
    by (subst malloc_scan.simps) simp
  moreover have "malloc_coalesce ?m 1 = Some ?m'"
    by (subst malloc_coalesce.simps, subst malloc_coalesce.simps) (simp add: fun_upd_twist)
  then have "malloc_scan 3 5 ?m 1 = malloc_scan 3 5 ?m' 5"
    by (subst malloc_scan.simps) (simp add: hdr_diff_def)
  moreover have "malloc_scan 3 5 ?m 5 = malloc_scan 3 5 ?m 1"
    by (subst malloc_scan.simps) simp
  moreover have "malloc_coalesce ?m 3 = Some ?m" by (subst malloc_coalesce.simps) simp
  then have "malloc_scan 3 5 ?m 3 = malloc_scan 3 5 ?m 5"
    by (subst malloc_scan.simps) (simp add: hdr_diff_def)
  ultimately have "malloc_scan 3 5 ?m 3 = None" by simp
  moreover have "malloc_wanted 16 = 5" by (simp add: malloc_wanted_def)
  ultimately show ?thesis by (simp add: two_freed_eq ibcs_malloc_def)
qed

end
