(* ===== verification/Cstring.thy ===== *)
theory Cstring
  imports Prelude "HOL-Library.Sublist"
begin

text \<open>
  The C library functions that \<^verbatim>\<open>src/ibcs/ibcs-lib.c\<close> defines for itself.

  A pointer that is only read is the list of the bytes from it to the end of its object;
  advancing the pointer drops the head, and reading the empty list, which C leaves undefined, is
  the result \<open>None\<close>. A returned pointer is the offset from the argument, so \<open>Some None\<close> is the
  null pointer. Functions that write take the memory as one list of bytes with the positions of
  destination and source in it, so that overlapping arguments are covered. A \<open>char\<close> is signed on
  the i386: comparisons of bytes use \<open>sint\<close>.
\<close>

section \<open>Functions that read\<close>

fun memchr :: "u8 list \<Rightarrow> u8 \<Rightarrow> nat \<Rightarrow> nat option option" where
  "memchr cs cb 0 = Some None"
| "memchr [] cb (Suc c) = None"
| "memchr (x # cs) cb (Suc c) =
     (if x = cb then Some (Some 0) else map_option (map_option Suc) (memchr cs cb c))"

fun memcmp :: "u8 list \<Rightarrow> u8 list \<Rightarrow> nat \<Rightarrow> int option" where
  "memcmp cs1 cs2 0 = Some 0"
| "memcmp (x # cs1) (y # cs2) (Suc c) =
     (let ret = uint x - uint y in if ret = 0 then memcmp cs1 cs2 c else Some ret)"
| "memcmp cs1 cs2 (Suc c) = None"

definition to_upper :: "u8 \<Rightarrow> u8" where
  "to_upper x = (if sint x < 97 \<or> 122 < sint x then x else x - (97 - 65))"

fun strcasecmp :: "u8 list \<Rightarrow> u8 list \<Rightarrow> int option" where
  "strcasecmp (x # c1) (y # c2) =
     (let ret = sint (to_upper x) - sint (to_upper y)
      in if ret = 0 \<and> x \<noteq> 0 \<and> y \<noteq> 0 then strcasecmp c1 c2 else Some ret)"
| "strcasecmp _ _ = None"

fun strchr :: "u8 list \<Rightarrow> u8 \<Rightarrow> nat option option" where
  "strchr [] cb = None"
| "strchr (x # s) cb =
     (if x = cb then Some (Some 0)
      else if x = 0 then Some None
      else map_option (map_option Suc) (strchr s cb))"

fun strcmp :: "u8 list \<Rightarrow> u8 list \<Rightarrow> int option" where
  "strcmp (x # c1) (y # c2) =
     (let ret = sint x - sint y in if ret = 0 \<and> x \<noteq> 0 \<and> y \<noteq> 0 then strcmp c1 c2 else Some ret)"
| "strcmp _ _ = None"

definition strlen :: "u8 list \<Rightarrow> nat option" where
  "strlen s = Option.bind (strchr s 0) id"

fun strncasecmp_loop :: "u8 list \<Rightarrow> u8 list \<Rightarrow> nat \<Rightarrow> int option" where
  "strncasecmp_loop (x # c1) (y # c2) c =
     (let ret = sint (to_upper x) - sint (to_upper y)
      in if ret = 0 \<and> x \<noteq> 0 \<and> y \<noteq> 0 \<and> c - 1 \<noteq> 0 then strncasecmp_loop c1 c2 (c - 1) else Some ret)"
| "strncasecmp_loop _ _ _ = None"

definition strncasecmp :: "u8 list \<Rightarrow> u8 list \<Rightarrow> nat \<Rightarrow> int option" where
  "strncasecmp c1 c2 c = (if c = 0 then Some 0 else strncasecmp_loop c1 c2 c)"

fun strncmp_loop :: "u8 list \<Rightarrow> u8 list \<Rightarrow> nat \<Rightarrow> int option" where
  "strncmp_loop (x # c1) (y # c2) c =
     (let ret = sint x - sint y
      in if ret = 0 \<and> x \<noteq> 0 \<and> y \<noteq> 0 \<and> c - 1 \<noteq> 0 then strncmp_loop c1 c2 (c - 1) else Some ret)"
| "strncmp_loop _ _ _ = None"

definition strncmp :: "u8 list \<Rightarrow> u8 list \<Rightarrow> nat \<Rightarrow> int option" where
  "strncmp c1 c2 c = (if c = 0 then Some 0 else strncmp_loop c1 c2 c)"

fun strrchr_loop :: "u8 list \<Rightarrow> u8 \<Rightarrow> nat \<Rightarrow> nat option \<Rightarrow> nat option option" where
  "strrchr_loop [] cb i r = None"
| "strrchr_loop (x # s) cb i r =
     (let r = (if x = cb then Some i else r) in if x = 0 then Some r else strrchr_loop s cb (i + 1) r)"

definition strrchr :: "u8 list \<Rightarrow> u8 \<Rightarrow> nat option option" where
  "strrchr s cb = strrchr_loop s cb 0 None"

text \<open>The inner loop of \<open>strstr\<close>: did it stop at the end of the needle?\<close>

fun strstr_match :: "u8 list \<Rightarrow> u8 list \<Rightarrow> bool option" where
  "strstr_match (y # n) (x # s) = (if y = x \<and> y \<noteq> 0 then strstr_match n s else Some (y = 0))"
| "strstr_match _ _ = None"

fun strstr :: "u8 list \<Rightarrow> u8 list \<Rightarrow> nat option option" where
  "strstr [] n = None"
| "strstr (x # s) n =
     (if x = 0 then Some None
      else Option.bind (strstr_match n (x # s)) (\<lambda>found.
        if found then Some (Some 0) else map_option (map_option Suc) (strstr s n)))"

section \<open>Functions that write\<close>

fun memcpy_loop :: "u8 list \<Rightarrow> nat \<Rightarrow> nat \<Rightarrow> nat \<Rightarrow> u8 list option" where
  "memcpy_loop mem cd cs 0 = Some mem"
| "memcpy_loop mem cd cs (Suc c) =
     (if cd < length mem \<and> cs < length mem then memcpy_loop (mem[cd := mem ! cs]) (cd + 1) (cs + 1) c
      else None)"

definition memcpy :: "u8 list \<Rightarrow> nat \<Rightarrow> nat \<Rightarrow> nat \<Rightarrow> (nat \<times> u8 list) option" where
  "memcpy mem d s c = map_option (Pair d) (memcpy_loop mem d s c)"

definition mempcpy :: "u8 list \<Rightarrow> nat \<Rightarrow> nat \<Rightarrow> nat \<Rightarrow> (nat \<times> u8 list) option" where
  "mempcpy mem d s c = map_option (Pair (d + c)) (memcpy_loop mem d s c)"

fun memset :: "u8 list \<Rightarrow> nat \<Rightarrow> u8 \<Rightarrow> nat \<Rightarrow> u8 list option" where
  "memset mem cd cb 0 = Some mem"
| "memset mem cd cb (Suc c) = (if cd < length mem then memset (mem[cd := cb]) (cd + 1) cb c else None)"

text \<open>
  \<open>strcpy\<close> and \<open>strncpy\<close> copy byte by byte up to and including the NUL; \<open>strncpy\<close> stops after
  \<open>c\<close> bytes and does not pad. Each step is checked against the end of memory.
\<close>

function strcpy :: "u8 list \<Rightarrow> nat \<Rightarrow> nat \<Rightarrow> u8 list option" where
  "strcpy mem d s =
     (if d < length mem \<and> s < length mem
      then if mem ! s = 0 then Some (mem[d := mem ! s]) else strcpy (mem[d := mem ! s]) (d + 1) (s + 1)
      else None)"
  by auto
termination by (relation "measure (\<lambda>(mem, d, s). length mem - s)") auto

fun strncpy :: "u8 list \<Rightarrow> nat \<Rightarrow> nat \<Rightarrow> nat \<Rightarrow> u8 list option" where
  "strncpy mem d s 0 = Some mem"
| "strncpy mem d s (Suc c) =
     (if d < length mem \<and> s < length mem
      then if mem ! s = 0 then Some (mem[d := mem ! s]) else strncpy (mem[d := mem ! s]) (d + 1) (s + 1) c
      else None)"

definition strcat :: "u8 list \<Rightarrow> nat \<Rightarrow> nat \<Rightarrow> u8 list option" where
  "strcat mem c1 c2 = Option.bind (strlen (drop c1 mem)) (\<lambda>l. strcpy mem (c1 + l) c2)"

definition strncat :: "u8 list \<Rightarrow> nat \<Rightarrow> nat \<Rightarrow> nat \<Rightarrow> u8 list option" where
  "strncat mem c1 c2 c = Option.bind (strlen (drop c1 mem)) (\<lambda>l.
     if l < c then strncpy mem (c1 + l) c2 (c - l) else Some mem)"

declare strcpy.simps [simp del]

section \<open>C strings\<close>

definition terminated :: "u8 list \<Rightarrow> bool" where
  "terminated s \<longleftrightarrow> 0 \<in> set s"

definition cstr :: "u8 list \<Rightarrow> u8 list" where
  "cstr s = takeWhile (\<lambda>x. x \<noteq> 0) s"

lemma terminated_simps [simp]: "\<not> terminated []" "terminated (x # s) \<longleftrightarrow> x = 0 \<or> terminated s"
  by (auto simp: terminated_def)

lemma cstr_simps [simp]: "cstr [] = []" "cstr (x # s) = (if x = 0 then [] else x # cstr s)"
  by (simp_all add: cstr_def)

lemma cstr_split: "terminated s \<Longrightarrow> \<exists>rest. s = cstr s @ 0 # rest"
  by (induction s) auto

lemma cstr_nonzero: "0 \<notin> set (cstr s)"
  by (induction s) auto

lemma cstr_append: "0 \<notin> set xs \<Longrightarrow> cstr (xs @ 0 # ys) = xs \<and> terminated (xs @ 0 # ys)"
  by (induction xs) (auto simp: terminated_def)

lemma cstr_take: "cstr (take c s) = take c (cstr s)"
  by (induction s arbitrary: c) (auto simp: take_Cons' )

lemma cstr_take_length:
  assumes "take c s = take c t" "c \<le> length (cstr s)"
  shows "c \<le> length (cstr t)"
proof -
  have "length (take c (cstr s)) = length (take c (cstr t))" using assms(1) by (metis cstr_take)
  with assms(2) show ?thesis by simp
qed

text \<open>A write behind the terminating NUL does not touch the string.\<close>

lemma cstr_update: "terminated s \<Longrightarrow> length (cstr s) < j \<Longrightarrow> cstr (s[j := v]) = cstr s \<and> terminated (s[j := v])"
  by (induction s arbitrary: j) (auto split: if_splits nat.splits)

lemma strchr_zero: "terminated s \<Longrightarrow> strchr s 0 = Some (Some (length (cstr s)))"
  by (induction s) auto

lemma strlen_cstr: "terminated s \<Longrightarrow> strlen s = Some (length (cstr s))"
  by (simp add: strlen_def strchr_zero)

lemma strlen_undefined: "\<not> terminated s \<Longrightarrow> strlen s = None"
proof -
  have "\<not> terminated s \<Longrightarrow> strchr s 0 = None" by (induction s) auto
  then show "\<not> terminated s \<Longrightarrow> strlen s = None" by (simp add: strlen_def)
qed


section \<open>Comparing\<close>

lemma sint_eq_iff: "sint x = sint y \<longleftrightarrow> x = y" for x y :: u8
  using signed_word_eqI [of x y] by auto

lemma sint_zero_iff: "sint x = 0 \<longleftrightarrow> x = 0" "0 = sint x \<longleftrightarrow> x = 0" for x :: u8
  using signed_word_eqI [of x 0] by auto

lemma sint_not_less: "\<not> sint y < sint x \<longleftrightarrow> x = y \<or> sint x < sint y" for x y :: u8
  using sint_eq_iff [of x y] by auto

lemma sint_not_neg: "\<not> sint x < 0 \<longleftrightarrow> x = 0 \<or> 0 < sint x" for x :: u8
  using sint_zero_iff [of x] by auto

text \<open>
  on NUL-terminated strings \<open>strcmp\<close> always stops inside them; its result is 0 exactly for
  equal strings, and negative exactly when the first string precedes the second in the
  lexicographic order of signed characters (the NUL included, so that a character above 0x7f
  comes before the end of the string).
\<close>

theorem strcmp_order:
  assumes "terminated s" "terminated t"
  shows "\<exists>r. strcmp s t = Some r \<and> (r = 0 \<longleftrightarrow> cstr s = cstr t) \<and>
    (r < 0 \<longleftrightarrow> ord_class.lexordp (map sint (cstr s @ [0])) (map sint (cstr t @ [0])))"
  using assms
  by (induction s t rule: strcmp.induct)
    (auto simp: Let_def sint_eq_iff sint_zero_iff sint_not_neg sint_not_less)

theorem strcmp_order_witness:
  "\<exists>r. strcmp [97, 98, 0, 1] [97, 99, 0] = Some r \<and> r < 0"
  using strcmp_order [of "[97, 98, 0, 1]" "[97, 99, 0]"] by simp

lemma strncmp_loop_eq:
  "terminated s \<Longrightarrow> terminated t \<Longrightarrow> 0 < c \<Longrightarrow>
   \<exists>r. strncmp_loop s t c = Some r \<and> (r = 0 \<longleftrightarrow> take c (cstr s) = take c (cstr t))"
  by (induction s t c rule: strncmp_loop.induct)
    (auto simp: Let_def sint_eq_iff sint_zero_iff take_Cons')

lemma strncmp_eq:
  "terminated s \<Longrightarrow> terminated t \<Longrightarrow>
   \<exists>r. strncmp s t c = Some r \<and> (r = 0 \<longleftrightarrow> take c (cstr s) = take c (cstr t))"
  using strncmp_loop_eq [of s t c] by (auto simp: strncmp_def)

lemma memcmp_eq:
  "c \<le> length s \<Longrightarrow> c \<le> length t \<Longrightarrow> \<exists>r. memcmp s t c = Some r \<and> (r = 0 \<longleftrightarrow> take c s = take c t)"
  by (induction s t c rule: memcmp.induct) (auto simp: Let_def unsigned_word_eqI)

lemma to_upper_zero: "to_upper x = 0 \<longleftrightarrow> x = 0"
proof -
  have "x = 32 \<Longrightarrow> sint x < 97" by simp
  then show ?thesis by (auto simp: to_upper_def)
qed

lemma to_upper_0: "to_upper 0 = 0" "0 = to_upper x \<longleftrightarrow> x = 0"
  using to_upper_zero [of 0] to_upper_zero [of x] by auto

lemma strcasecmp_eq:
  "terminated s \<Longrightarrow> terminated t \<Longrightarrow>
   \<exists>r. strcasecmp s t = Some r \<and> (r = 0 \<longleftrightarrow> map to_upper (cstr s) = map to_upper (cstr t))"
  by (induction s t rule: strcasecmp.induct)
    (auto simp: Let_def sint_eq_iff to_upper_zero to_upper_0)

section \<open>Searching\<close>

lemma strchr_first:
  "terminated s \<Longrightarrow> cb \<noteq> 0 \<Longrightarrow> strchr s cb =
     Some (if cb \<in> set (cstr s) then Some (length (takeWhile (\<lambda>x. x \<noteq> cb) (cstr s))) else None)"
  by (induction s) auto

lemma memchr_first:
  "c \<le> length s \<Longrightarrow> memchr s cb c =
     Some (if cb \<in> set (take c s) then Some (length (takeWhile (\<lambda>x. x \<noteq> cb) (take c s))) else None)"
  by (induction s cb c rule: memchr.induct) auto

lemma strstr_match_prefix:
  "terminated s \<Longrightarrow> terminated n \<Longrightarrow> strstr_match n s = Some (prefix (cstr n) (cstr s))"
  by (induction n s rule: strstr_match.induct) auto

lemma strstr_finds:
  assumes "terminated s" "terminated n" "cstr n \<noteq> []"
  shows "\<exists>r. strstr s n = Some r \<and>
    (case r of Some i \<Rightarrow> prefix (cstr n) (drop i (cstr s)) \<and> (\<forall>j<i. \<not> prefix (cstr n) (drop j (cstr s)))
     | None \<Rightarrow> \<not> sublist (cstr n) (cstr s))"
  using assms(1)
proof (induction s)
  case (Cons x s)
  show ?case
  proof (cases "x = 0")
    case True
    with assms(3) show ?thesis by simp
  next
    case False
    with Cons obtain r where r: "strstr s n = Some r"
      "case r of Some i \<Rightarrow> prefix (cstr n) (drop i (cstr s)) \<and> (\<forall>j<i. \<not> prefix (cstr n) (drop j (cstr s)))
       | None \<Rightarrow> \<not> sublist (cstr n) (cstr s)" by auto
    have m: "strstr_match n (x # s) = Some (prefix (cstr n) (cstr (x # s)))"
      using strstr_match_prefix [OF Cons.prems assms(2)] .
    show ?thesis
    proof (cases "prefix (cstr n) (cstr (x # s))")
      case True
      with False m show ?thesis by simp
    next
      case np: False
      with False m r show ?thesis
        by (auto simp: sublist_Cons_right less_Suc_eq_0_disj split: option.splits)
    qed
  qed
qed simp

text \<open>
  on NUL-terminated strings \<open>strstr\<close> returns the first position of a non-empty haystack at
  which the needle occurs, and null when it occurs nowhere.
\<close>

theorem strstr_first:
  assumes "terminated s" "terminated n" "cstr n \<noteq> []"
  shows "\<exists>r. strstr s n = Some r \<and>
    (case r of Some i \<Rightarrow> prefix (cstr n) (drop i (cstr s)) \<and> (\<forall>j<i. \<not> prefix (cstr n) (drop j (cstr s)))
     | None \<Rightarrow> \<not> sublist (cstr n) (cstr s))"
  using assms by (rule strstr_finds)

theorem strstr_first_witness:
  "\<exists>r. strstr [97, 97, 98, 0] [97, 98, 0, 5] = Some r \<and> r \<noteq> None"
  using strstr_first [of "[97, 97, 98, 0]" "[97, 98, 0, 5]"] by (auto split: option.splits)

text \<open>
  The empty needle is found in every string except the empty one, where the loop body never runs.
\<close>

lemma strstr_empty: "cstr n = [] \<Longrightarrow> terminated n \<Longrightarrow> terminated s \<Longrightarrow>
  strstr s n = Some (if cstr s = [] then None else Some 0)"
  using strstr_match_prefix [of s n] by (cases s) auto

lemma strrchr_loop_last:
  "terminated s \<Longrightarrow> cb \<noteq> 0 \<Longrightarrow> strrchr_loop s cb i r = Some (if cb \<in> set (cstr s)
     then Some (i + length (cstr s) - 1 - length (takeWhile (\<lambda>x. x \<noteq> cb) (rev (cstr s)))) else r)"
proof (induction s arbitrary: i r)
  case (Cons x s)
  have "cb \<in> set (cstr s) \<Longrightarrow> takeWhile (\<lambda>x. x \<noteq> cb) (rev (cstr s) @ [x]) = takeWhile (\<lambda>x. x \<noteq> cb) (rev (cstr s))"
    by (simp add: takeWhile_append1)
  moreover have "cb \<notin> set (cstr s) \<Longrightarrow> takeWhile (\<lambda>x. x \<noteq> cb) (rev (cstr s)) = rev (cstr s)"
    by (auto simp: takeWhile_eq_all_conv)
  ultimately show ?case using Cons by (auto simp: Let_def takeWhile_append)
qed simp

lemma strrchr_last:
  "terminated s \<Longrightarrow> cb \<noteq> 0 \<Longrightarrow> strrchr s cb = Some (if cb \<in> set (cstr s)
     then Some (length (cstr s) - 1 - length (takeWhile (\<lambda>x. x \<noteq> cb) (rev (cstr s)))) else None)"
  by (simp add: strrchr_def strrchr_loop_last)

section \<open>Copying\<close>

lemma memcpy_loop_copies:
  "d + c \<le> length mem \<Longrightarrow> s + c \<le> length mem \<Longrightarrow> d \<le> s \<or> s + c \<le> d \<Longrightarrow>
   memcpy_loop mem d s c = Some (take d mem @ take c (drop s mem) @ drop (d + c) mem)"
proof (induction c arbitrary: mem d s)
  case (Suc c)
  let ?m = "mem[d := mem ! s]"
  have "memcpy_loop ?m (d + 1) (s + 1) c =
      Some (take (d + 1) ?m @ take c (drop (s + 1) ?m) @ drop (d + 1 + c) ?m)"
    using Suc.prems by (intro Suc.IH) auto
  moreover have "take (d + 1) ?m = take d mem @ [mem ! s]"
    using Suc.prems by (simp add: take_Suc_conv_app_nth)
  moreover have "take c (drop (s + 1) ?m) = take c (drop (s + 1) mem)"
    using Suc.prems by (cases "d \<le> s") (auto simp: drop_update_swap take_update_cancel)
  moreover have "take (Suc c) (drop s mem) = mem ! s # take c (drop (s + 1) mem)"
    using Suc.prems Cons_nth_drop_Suc [of s mem, symmetric] by simp
  ultimately show ?case using Suc.prems by simp
qed simp

text \<open>
  \<open>memcpy\<close> copies \<open>c\<close> bytes and leaves the rest of memory alone, also when the regions
  overlap and the destination lies below the source: the loop goes up. (\<^verbatim>\<open>inode_to_path\<close> of
  \<^verbatim>\<open>src/ibcs/linux26-compat.c\<close> shifts its buffer down with it.)
\<close>

theorem memcpy_copies:
  assumes "d + c \<le> length mem" "s + c \<le> length mem" "d \<le> s \<or> s + c \<le> d"
  shows "memcpy mem d s c = Some (d, take d mem @ take c (drop s mem) @ drop (d + c) mem)"
  using memcpy_loop_copies [OF assms] by (simp add: memcpy_def)

theorem memcpy_copies_witness: "memcpy [1, 2, 3, 4, 5] 0 1 3 = Some (0, [2, 3, 4, 4, 5])"
  using memcpy_copies [of 0 3 "[1, 2, 3, 4, 5]" 1] by simp

lemma memset_fills:
  "d + c \<le> length mem \<Longrightarrow> memset mem d cb c = Some (take d mem @ replicate c cb @ drop (d + c) mem)"
proof (induction c arbitrary: mem d)
  case (Suc c)
  have "memset (mem[d := cb]) (d + 1) cb c =
      Some (take (d + 1) (mem[d := cb]) @ replicate c cb @ drop (d + 1 + c) (mem[d := cb]))"
    using Suc.prems by (intro Suc.IH) auto
  with Suc.prems show ?case by (simp add: take_Suc_conv_app_nth)
qed simp

lemma strcpy_memcpy:
  "terminated (drop s mem) \<Longrightarrow> d + length (cstr (drop s mem)) < length mem \<Longrightarrow>
   d \<le> s \<or> s + length (cstr (drop s mem)) < d \<Longrightarrow>
   strcpy mem d s = memcpy_loop mem d s (Suc (length (cstr (drop s mem))))"
proof (induction "length (cstr (drop s mem))" arbitrary: mem d s)
  case 0
  then have s: "s < length mem" by (metis drop_eq_Nil not_less terminated_simps(1))
  then have "mem ! s = 0" using 0 Cons_nth_drop_Suc [OF s, symmetric] by (auto split: if_splits)
  with 0 s show ?case by (subst strcpy.simps) simp
next
  case (Suc k)
  have s: "s < length mem" using Suc.prems(1) by (metis drop_eq_Nil not_less terminated_simps(1))
  have d: "drop s mem = mem ! s # drop (s + 1) mem" using Cons_nth_drop_Suc [OF s] by simp
  with Suc.hyps(2) have nz: "mem ! s \<noteq> 0" by auto
  let ?m = "mem[d := mem ! s]"
  have len: "length (cstr (drop (s + 1) mem)) = k" "terminated (drop (s + 1) mem)"
    using Suc.hyps(2) Suc.prems(1) d nz by auto
  have same: "cstr (drop (s + 1) ?m) = cstr (drop (s + 1) mem) \<and> terminated (drop (s + 1) ?m)"
  proof (cases "d \<le> s")
    case False
    have "k < d - (s + 1)" using False Suc.prems(3) Suc.hyps(2) by simp
    moreover have "drop (s + 1) ?m = (drop (s + 1) mem)[d - (s + 1) := mem ! s]"
      using False by (simp add: drop_update_swap)
    ultimately show ?thesis using cstr_update [OF len(2), of "d - (s + 1)" "mem ! s"] len(1) by simp
  qed (use len in simp)
  have "strcpy ?m (d + 1) (s + 1) = memcpy_loop ?m (d + 1) (s + 1) (Suc (length (cstr (drop (s + 1) ?m))))"
  proof (rule Suc.hyps(1))
    show "k = length (cstr (drop (s + 1) ?m))" "terminated (drop (s + 1) ?m)" using same len by simp_all
    show "d + 1 + length (cstr (drop (s + 1) ?m)) < length ?m" using same len Suc.prems(2) Suc.hyps(2) by simp
    show "d + 1 \<le> s + 1 \<or> s + 1 + length (cstr (drop (s + 1) ?m)) < d + 1"
      using same len Suc.prems(3) Suc.hyps(2) by auto
  qed
  moreover have "strcpy mem d s = strcpy ?m (d + 1) (s + 1)"
    using Suc.prems(2) s nz by (subst strcpy.simps) simp
  ultimately show ?case using same len Suc.hyps(2) [symmetric] Suc.prems(2) s by simp
qed

lemma strncpy_memcpy:
  "length (cstr (drop s mem)) \<ge> c \<Longrightarrow> d + c \<le> length mem \<Longrightarrow> d \<le> s \<or> s + c \<le> d \<Longrightarrow>
   strncpy mem d s c = memcpy_loop mem d s c"
proof (induction c arbitrary: mem d s)
  case (Suc c)
  have s: "s < length mem" using Suc.prems(1) by (cases "s < length mem") auto
  have d: "drop s mem = mem ! s # drop (s + 1) mem" using Cons_nth_drop_Suc [OF s] by simp
  with Suc.prems(1) have nz: "mem ! s \<noteq> 0" and len: "c \<le> length (cstr (drop (s + 1) mem))"
    by (auto split: if_splits)
  let ?m = "mem[d := mem ! s]"
  have "take c (drop (s + 1) ?m) = take c (drop (s + 1) mem)"
    using Suc.prems(3) by (cases "d \<le> s") (auto simp: drop_update_swap take_update_cancel)
  then have "c \<le> length (cstr (drop (s + 1) ?m))"
    using len by (rule cstr_take_length [OF sym])
  then have "strncpy ?m (d + 1) (s + 1) c = memcpy_loop ?m (d + 1) (s + 1) c"
    using Suc.prems by (intro Suc.IH) auto
  with s nz Suc.prems show ?case by simp
qed simp

text \<open>
  \<open>strcat\<close> appends the second string, its NUL included, to the first when the memory behind
  the first can hold it and the two do not overlap.
\<close>

theorem strcat_appends:
  assumes t: "terminated (drop c1 mem)" "terminated (drop c2 mem)"
    and fit: "c1 + length (cstr (drop c1 mem)) + length (cstr (drop c2 mem)) < length mem"
    and apart: "c2 + length (cstr (drop c2 mem)) < c1 + length (cstr (drop c1 mem)) \<or>
      c1 + length (cstr (drop c1 mem)) \<le> c2"
  shows "\<exists>mem'. strcat mem c1 c2 = Some mem' \<and> length mem' = length mem \<and> take c1 mem' = take c1 mem \<and>
    terminated (drop c1 mem') \<and> cstr (drop c1 mem') = cstr (drop c1 mem) @ cstr (drop c2 mem)"
proof -
  let ?l = "length (cstr (drop c1 mem))" and ?n = "length (cstr (drop c2 mem))"
  obtain r1 where r1: "drop c1 mem = cstr (drop c1 mem) @ 0 # r1" using cstr_split t(1) by blast
  obtain r2 where r2: "drop c2 mem = cstr (drop c2 mem) @ 0 # r2" using cstr_split t(2) by blast
  have c2: "c2 + ?n < length mem"
    using arg_cong [OF r2, of length] by simp
  have "strcat mem c1 c2 = memcpy_loop mem (c1 + ?l) c2 (Suc ?n)"
    unfolding strcat_def strlen_cstr [OF t(1)] using strcpy_memcpy [OF t(2)] fit apart by auto
  also have "\<dots> = Some (take (c1 + ?l) mem @ take (Suc ?n) (drop c2 mem) @ drop (c1 + ?l + Suc ?n) mem)"
    using fit apart c2 by (intro memcpy_loop_copies) auto
  also have "take (Suc ?n) (drop c2 mem) = cstr (drop c2 mem) @ [0]" by (subst r2) simp
  finally have m: "strcat mem c1 c2 =
      Some (take (c1 + ?l) mem @ (cstr (drop c2 mem) @ [0]) @ drop (c1 + ?l + Suc ?n) mem)" .
  have "take ?l (drop c1 mem) = cstr (drop c1 mem)" by (subst r1) simp
  then have "drop c1 (take (c1 + ?l) mem) = cstr (drop c1 mem)" by (simp add: drop_take)
  moreover have "c1 \<le> length mem" using fit by simp
  ultimately show ?thesis using m fit
    cstr_append [of "cstr (drop c1 mem) @ cstr (drop c2 mem)" "drop (c1 + ?l + Suc ?n) mem"]
    by (auto simp: cstr_nonzero)
qed

theorem strcat_appends_witness:
  "\<exists>mem'. strcat [65, 0, 9, 9, 66, 67, 0] 0 4 = Some mem' \<and> cstr mem' = [65, 66, 67]"
  using strcat_appends [of 0 "[65, 0, 9, 9, 66, 67, 0]" 4] by auto

end
