(* ===== verification/Fmt.thy ===== *)
theory Fmt
  imports Cstring "HOL-Library.Monad_Syntax"
begin

text \<open>
  Formatted output of \<^verbatim>\<open>src/ibcs/ibcs-lib.c\<close>: \<open>ibcs_vfmt\<close>, \<open>ibcs_vwritef\<close> and the fatal error
  messages built on them.

  The format and the string arguments are byte lists read from their start, as in \<open>Cstring\<close>; a
  read past their end is \<open>None\<close>. The variable arguments are a list of typed values, and taking one
  of the wrong type, or one too many, is \<open>None\<close>, as is an overflow of the local \<open>buf[20]\<close> or of
  a field width. Output is the list of bytes stored through \<open>out\<close> so far; \<open>null\<close> says that \<open>out\<close>
  is the null pointer, through which nothing is stored.
\<close>

section \<open>Formatting\<close>

datatype va_arg = Arg32 u32 | Arg64 u64 | ArgStr "u8 list"

definition deref :: "u8 list \<Rightarrow> u8 option" where
  "deref p = (case p of [] \<Rightarrow> None | x # _ \<Rightarrow> Some x)"

fun va_u32 :: "va_arg list \<Rightarrow> (u32 \<times> va_arg list) option" where
  "va_u32 (Arg32 n # args) = Some (n, args)"
| "va_u32 _ = None"

fun va_u64 :: "va_arg list \<Rightarrow> (u64 \<times> va_arg list) option" where
  "va_u64 (Arg64 n # args) = Some (n, args)"
| "va_u64 _ = None"

fun va_str :: "va_arg list \<Rightarrow> (u8 list \<times> va_arg list) option" where
  "va_str (ArgStr s # args) = Some (s, args)"
| "va_str _ = None"

definition is_digit8 :: "u8 \<Rightarrow> bool" where
  "is_digit8 x \<longleftrightarrow> 48 \<le> sint x \<and> sint x \<le> 57"

text \<open>A run of decimal digits, added to the width read so far (a signed 32-bit \<open>int\<close>).\<close>

fun vfmt_width :: "nat \<Rightarrow> u8 list \<Rightarrow> (nat \<times> u8 list) option" where
  "vfmt_width w [] = None"
| "vfmt_width w (x # f) =
     (if is_digit8 x
      then let w = w * 10 + (unat x - 48) in if w < 2 ^ 31 then vfmt_width w f else None
      else Some (w, x # f))"

fun vfmt_longs :: "nat \<Rightarrow> u8 list \<Rightarrow> (nat \<times> u8 list) option" where
  "vfmt_longs is_long [] = None"
| "vfmt_longs is_long (x # f) =
     (if x = 108 \<and> is_long < 0x200 then vfmt_longs (is_long + 0x100) f else Some (is_long, x # f))"

text \<open>The digits of a number, most significant first; at least one.\<close>

fun digits :: "nat \<Rightarrow> nat \<Rightarrow> nat list" where
  "digits base n = (if base \<le> 1 \<or> n < base then [n] else digits base (n div base) @ [n mod base])"

declare digits.simps [simp del]

definition fits_buf :: "u8 list \<Rightarrow> u8 list option" where
  "fits_buf b = (if length b \<le> 20 then Some b else None)"

definition fmt_dec :: "bool \<Rightarrow> u32 \<Rightarrow> u8 list" where
  "fmt_dec is_d n =
     (let minus = is_d \<and> sint n < 0;
          n = (if minus then - n else n);
          b = map (\<lambda>d. 48 + of_nat d) (digits 10 (unat n))
      in if minus then 45 # b else b)"

definition fmt_oct :: "u64 \<Rightarrow> u8 list" where
  "fmt_oct n = map (\<lambda>d. of_nat d + 48) (digits 8 (unat n))"

definition fmt_hex :: "bool \<Rightarrow> u64 \<Rightarrow> u8 list" where
  "fmt_hex is_x n =
     map (\<lambda>h. of_nat h + (if h < 10 then 48 else (if is_x then 97 else 65) - 10)) (digits 16 (unat n))"

definition va_long :: "nat \<Rightarrow> va_arg list \<Rightarrow> (u64 \<times> va_arg list) option" where
  "va_long is_long args =
     (if is_long \<le> 0x100 then map_option (\<lambda>(n, args). (ucast n, args)) (va_u32 args) else va_u64 args)"

text \<open>
  The \<open>switch\<close> on the conversion character \<open>c = *f\<close>: the formatted text, the format pointer
  afterwards and the remaining arguments. \<open>fmt\<close> points to the percent sign.
\<close>

definition vfmt_switch ::
  "u8 list \<Rightarrow> u8 list \<Rightarrow> nat \<Rightarrow> va_arg list \<Rightarrow> (u8 list \<times> u8 list \<times> va_arg list) option" where
  "vfmt_switch fmt f is_long args = do {
     c \<leftarrow> deref f;
     if c = 99 \<and> is_long = 0 then do {
       (n, args) \<leftarrow> va_u32 args;
       Some ([ucast n], f, args)
     } else if (c = 100 \<or> c = 117) \<and> is_long \<le> 0x100 then do {
       (n, args) \<leftarrow> va_u32 args;
       b \<leftarrow> fits_buf (fmt_dec (c = 100) n);
       Some (b, tl f, args)
     } else if c = 111 then do {
       (n, args) \<leftarrow> va_long is_long args;
       b \<leftarrow> fits_buf (fmt_oct n);
       Some (b, tl f, args)
     } else if c = 115 \<and> is_long = 0 then do {
       (b, args) \<leftarrow> va_str args;
       l \<leftarrow> strlen b;
       Some (take l b, tl f, args)
     } else if c = 112 \<and> is_long = 0 \<or> c = 120 \<or> c = 88 then do {
       (n, args) \<leftarrow> va_long is_long args;
       b \<leftarrow> fits_buf (fmt_hex (c = 120) n);
       Some (b, tl f, args)
     } else if c = 0 \<and> is_long = 0 then
       Some (take (length fmt - length f) fmt, f, args)
     else
       Some (take (length fmt - length (tl f)) fmt, tl f, args)
   }"

text \<open>A directive after its percent sign: flags, widths, length modifiers, conversion.\<close>

record directive =
  left_justify :: bool
  min_width :: nat
  pad_char :: u8
  formatted :: "u8 list"

definition vfmt_min :: "u8 list \<Rightarrow> (nat \<times> u8 \<times> u8 list) option" where
  "vfmt_min f = do {
     c \<leftarrow> deref f;
     if is_digit8 c then do {
       (w, f) \<leftarrow> vfmt_width 0 f;
       Some (w, if c = 48 then 48 else 32, f)
     } else Some (0, 32, f)
   }"

definition vfmt_max :: "u8 list \<Rightarrow> (nat \<times> u8 list) option" where
  "vfmt_max f = do {
     c \<leftarrow> deref f;
     if c = 46 then vfmt_width 0 (tl f) else Some (999999999, f)
   }"

definition vfmt_directive ::
  "u8 list \<Rightarrow> va_arg list \<Rightarrow> (directive \<times> u8 list \<times> va_arg list) option" where
  "vfmt_directive fmt args = do {
     c \<leftarrow> deref (tl fmt);
     let left = (c = 45);
     (w, pad, f) \<leftarrow> vfmt_min (if left then tl (tl fmt) else tl fmt);
     (max_width, f) \<leftarrow> vfmt_max f;
     (is_long, f) \<leftarrow> vfmt_longs 0 f;
     (b, f, args) \<leftarrow> vfmt_switch fmt f is_long args;
     Some (\<lparr>left_justify = left, min_width = w, pad_char = pad, formatted = take max_width b\<rparr>, f, args)
   }"

text \<open>Storing bytes through \<open>out\<close>, at most \<open>size\<close> of them.\<close>

definition vfmt_put :: "bool \<Rightarrow> u8 list \<Rightarrow> u8 list \<times> nat \<Rightarrow> u8 list \<times> nat" where
  "vfmt_put null b = (\<lambda>(out, sz).
     let fitted_size = (if sz < length b then sz else length b)
     in (if null then out else out @ take fitted_size b, sz - fitted_size))"

definition vfmt_emit :: "bool \<Rightarrow> directive \<Rightarrow> u8 list \<times> nat \<Rightarrow> u8 list \<times> nat" where
  "vfmt_emit null d =
     (let padding = replicate (min_width d - length (formatted d)) (pad_char d)
      in if left_justify d then vfmt_put null padding \<circ> vfmt_put null (formatted d)
         else vfmt_put null (formatted d) \<circ> vfmt_put null padding)"

text \<open>The loop over the format.\<close>

partial_function (option) vfmt_loop ::
  "bool \<Rightarrow> u8 list \<Rightarrow> va_arg list \<Rightarrow> u8 list \<times> nat \<Rightarrow> (u8 list \<times> nat) option" where
  "vfmt_loop null fmt args st =
     (if snd st = 0 then Some st
      else Option.bind (deref fmt) (\<lambda>c. if c = 0 then Some st
      else Option.bind (strchr fmt 37) (\<lambda>pct.
        Option.bind (case pct of Some i \<Rightarrow> Some i | None \<Rightarrow> strlen fmt) (\<lambda>i.
          let f = drop i fmt;
              st = (if i = 0 then st else vfmt_put null (take i fmt) st)
          in Option.bind (if snd st = 0 then Some 0 else deref f) (\<lambda>c.
             if snd st = 0 \<or> c \<noteq> 37 then vfmt_loop null f args st
             else Option.bind (vfmt_directive f args) (\<lambda>(d, f', args').
                    vfmt_loop null f' args' (vfmt_emit null d st)))))))"

definition ibcs_vfmt ::
  "bool \<Rightarrow> nat \<Rightarrow> u8 list \<Rightarrow> va_arg list \<Rightarrow> (nat \<times> u8 list) option" where
  "ibcs_vfmt null sz fmt args =
     (let sz = (if null \<and> sz = 0 then 2 ^ 31 - 1 else sz)
      in if sz \<le> 1 then Some (0, [])
         else map_option (\<lambda>(out, left). (sz - left, if null then out else out @ [0]))
                (vfmt_loop null fmt args ([], sz - 1)))"

definition ibcs_fmt ::
  "bool \<Rightarrow> nat \<Rightarrow> u8 list \<Rightarrow> va_arg list \<Rightarrow> (nat \<times> u8 list) option" where
  "ibcs_fmt null sz fmt args = ibcs_vfmt null sz fmt args"

section \<open>Writing\<close>

text \<open>
  The bytes handed to \<open>write\<close>: the first pass measures, the second fills the buffer of that
  size, and \<open>n - 1\<close> bytes (a \<open>size_t\<close>) of it are written. \<open>sys_write\<close> is the kernel.
\<close>

definition ibcs_vwritef ::
  "(nat \<Rightarrow> u8 list \<Rightarrow> 'k \<Rightarrow> u32 \<times> 'k) \<Rightarrow> nat \<Rightarrow> u8 list \<Rightarrow> va_arg list \<Rightarrow> 'k \<Rightarrow> (u32 \<times> 'k) option" where
  "ibcs_vwritef sys_write fd fmt args k = do {
     (n, _) \<leftarrow> ibcs_vfmt True 0 fmt args;
     (n, buffer) \<leftarrow> ibcs_vfmt False n fmt args;
     let len = (if n = 0 then 2 ^ 32 - 1 else n - 1);
     if len \<le> length buffer then Some (sys_write fd (take len buffer) k) else None
   }"

definition ibcs_writef ::
  "(nat \<Rightarrow> u8 list \<Rightarrow> 'k \<Rightarrow> u32 \<times> 'k) \<Rightarrow> nat \<Rightarrow> u8 list \<Rightarrow> va_arg list \<Rightarrow> 'k \<Rightarrow> (u32 \<times> 'k) option" where
  "ibcs_writef sys_write fd fmt args k = ibcs_vwritef sys_write fd fmt args k"


section \<open>Fatal errors\<close>

definition bytes :: "string \<Rightarrow> u8 list" where
  "bytes s = map of_char s"

text \<open>The descriptions, by error number; the array has one element more than its largest index.\<close>

definition ibcs_errno_desc :: "(nat \<times> string) list" where
  "ibcs_errno_desc =
    [(0, ''Success''),
     (1, ''Operation not permitted''),
     (2, ''No such file or directory''),
     (3, ''No such process''),
     (4, ''Interrupted system call''),
     (5, ''Input/output error''),
     (6, ''No such device or address''),
     (7, ''Argument list too long''),
     (8, ''Exec format error''),
     (9, ''Bad file descriptor''),
     (10, ''No child processes''),
     (35, ''Resource deadlock avoided''),
     (12, ''Cannot allocate memory''),
     (13, ''Permission denied''),
     (14, ''Bad address''),
     (15, ''Block device required''),
     (16, ''Device or resource busy''),
     (17, ''File exists''),
     (18, ''Invalid cross-device link''),
     (19, ''No such device''),
     (20, ''Not a directory''),
     (21, ''Is a directory''),
     (22, ''Invalid argument''),
     (24, ''Too many open files''),
     (23, ''Too many open files in system''),
     (25, ''Inappropriate ioctl for device''),
     (26, ''Text file busy''),
     (27, ''File too large''),
     (28, ''No space left on device''),
     (29, ''Illegal seek''),
     (30, ''Read-only file system''),
     (31, ''Too many links''),
     (32, ''Broken pipe''),
     (33, ''Numerical argument out of domain''),
     (34, ''Numerical result out of range''),
     (11, ''Resource temporarily unavailable''),
     (115, ''Operation now in progress''),
     (114, ''Operation already in progress''),
     (88, ''Socket operation on non-socket''),
     (90, ''Message too long''),
     (91, ''Protocol wrong type for socket''),
     (92, ''Protocol not available''),
     (93, ''Protocol not supported''),
     (94, ''Socket type not supported''),
     (95, ''Operation not supported''),
     (96, ''Protocol family not supported''),
     (97, ''Address family not supported by protocol''),
     (98, ''Address already in use''),
     (99, ''Cannot assign requested address''),
     (100, ''Network is down''),
     (101, ''Network is unreachable''),
     (102, ''Network dropped connection on reset''),
     (103, ''Software caused connection abort''),
     (104, ''Connection reset by peer''),
     (105, ''No buffer space available''),
     (106, ''Transport endpoint is already connected''),
     (107, ''Transport endpoint is not connected''),
     (89, ''Destination address required''),
     (108, ''Cannot send after transport endpoint shutdown''),
     (109, ''Too many references: cannot splice''),
     (110, ''Connection timed out''),
     (111, ''Connection refused''),
     (40, ''Too many levels of symbolic links''),
     (36, ''File name too long''),
     (112, ''Host is down''),
     (113, ''No route to host''),
     (39, ''Directory not empty''),
     (87, ''Too many users''),
     (122, ''Disk quota exceeded''),
     (116, ''Stale file handle''),
     (66, ''Object is remote''),
     (37, ''No locks available''),
     (38, ''Function not implemented''),
     (84, ''Invalid or incomplete multibyte or wide character''),
     (74, ''Bad message''),
     (43, ''Identifier removed''),
     (72, ''Multihop attempted''),
     (61, ''No data available''),
     (67, ''Link has been severed''),
     (42, ''No message of desired type''),
     (63, ''Out of streams resources''),
     (60, ''Device not a stream''),
     (75, ''Value too large for defined data type''),
     (71, ''Protocol error''),
     (62, ''Timer expired''),
     (125, ''Operation canceled''),
     (130, ''Owner died''),
     (131, ''State not recoverable''),
     (85, ''Interrupted system call should be restarted''),
     (44, ''Channel number out of range''),
     (45, ''Level 2 not synchronized''),
     (46, ''Level 3 halted''),
     (47, ''Level 3 reset''),
     (48, ''Link number out of range''),
     (49, ''Protocol driver not attached''),
     (50, ''No CSI structure available''),
     (51, ''Level 2 halted''),
     (52, ''Invalid exchange''),
     (53, ''Invalid request descriptor''),
     (54, ''Exchange full''),
     (55, ''No anode''),
     (56, ''Invalid request code''),
     (57, ''Invalid slot''),
     (59, ''Bad font file format''),
     (64, ''Machine is not on the network''),
     (65, ''Package not installed''),
     (68, ''Advertise error''),
     (69, ''Srmount error''),
     (70, ''Communication error on send''),
     (73, ''RFS specific error''),
     (76, ''Name not unique on network''),
     (77, ''File descriptor in bad state''),
     (78, ''Remote address changed''),
     (79, ''Can not access a needed shared library''),
     (80, ''Accessing a corrupted shared library''),
     (81, ''.lib section in a.out corrupted''),
     (82, ''Attempting to link in too many shared libraries''),
     (83, ''Cannot exec a shared library directly''),
     (86, ''Streams pipe error''),
     (117, ''Structure needs cleaning''),
     (118, ''Not a XENIX named type file''),
     (119, ''No XENIX semaphores available''),
     (120, ''Is a named type file''),
     (121, ''Remote I/O error''),
     (123, ''No medium found''),
     (124, ''Wrong medium type''),
     (126, ''Required key not available''),
     (127, ''Key has expired''),
     (128, ''Key has been revoked''),
     (129, ''Key was rejected by service''),
     (132, ''Operation not possible due to RF-kill''),
     (133, ''Memory page has hardware error'')]"

definition ibcs_fatal ::
  "(nat \<Rightarrow> u8 list \<Rightarrow> 'k \<Rightarrow> u32 \<times> 'k) \<Rightarrow> u8 list \<Rightarrow> va_arg list \<Rightarrow> 'k \<Rightarrow> 'k option" where
  "ibcs_fatal sys_write message args k = do {
     (_, k) \<leftarrow> ibcs_vwritef sys_write 2 message args k;
     (_, k) \<leftarrow> ibcs_writef sys_write 2 (bytes [CHR 0x0A] @ [0]) [] k;
     Some k
   }"

text \<open>
  The process exits with status 1 after these writes. \<open>errno\<close> is compared as an unsigned number,
  so that a negative one is unknown too.
\<close>

definition ibcs_fatal_syscall ::
  "(nat \<Rightarrow> u8 list \<Rightarrow> 'k \<Rightarrow> u32 \<times> 'k) \<Rightarrow> u32 \<Rightarrow> u8 list \<Rightarrow> va_arg list \<Rightarrow> 'k \<Rightarrow> 'k option" where
  "ibcs_fatal_syscall sys_write retval message args k = do {
     let errno = - retval;
     (_, k) \<leftarrow> ibcs_vwritef sys_write 2 message args k;
     (_, k) \<leftarrow> (case map_of ibcs_errno_desc (unat errno) of
         None \<Rightarrow> ibcs_writef sys_write 2 (bytes '': Unknown error %d.'' @ [10, 0]) [Arg32 errno] k
       | Some desc \<Rightarrow> ibcs_writef sys_write 2 (bytes '': %s.'' @ [10, 0]) [ArgStr (bytes desc @ [0])] k);
     Some k
   }"

section \<open>The text of a format\<close>

text \<open>
  The reference: the whole text a format stands for, character by character, with no buffer and no
  size limit.
\<close>

definition directive_text :: "directive \<Rightarrow> u8 list" where
  "directive_text d =
     (let padding = replicate (min_width d - length (formatted d)) (pad_char d)
      in if left_justify d then formatted d @ padding else padding @ formatted d)"

partial_function (option) vfmt_text :: "u8 list \<Rightarrow> va_arg list \<Rightarrow> u8 list option" where
  "vfmt_text fmt args =
     (case fmt of
        [] \<Rightarrow> None
      | c # f \<Rightarrow>
          if c = 0 then Some []
          else if c \<noteq> 37 then Option.bind (vfmt_text f args) (\<lambda>T. Some (c # T))
          else Option.bind (vfmt_directive fmt args) (\<lambda>(d, f, args).
                 Option.bind (vfmt_text f args) (\<lambda>T. Some (directive_text d @ T))))"

lemma vfmt_put_eq:
  "vfmt_put null b (out, n) = (if null then out else out @ take n b, n - length b)"
  by (simp add: vfmt_put_def Let_def)

lemma vfmt_emit_eq:
  "vfmt_emit null d (out, n) = (if null then out else out @ take n (directive_text d), n - length (directive_text d))"
  by (simp add: vfmt_emit_def directive_text_def Let_def vfmt_put_eq)

lemma vfmt_width_length: "vfmt_width w f = Some (w', f') \<Longrightarrow> length f' \<le> length f"
  by (induction w f rule: vfmt_width.induct) (auto simp: Let_def split: if_splits)

lemma vfmt_longs_length: "vfmt_longs l f = Some (l', f') \<Longrightarrow> length f' \<le> length f"
  by (induction l f rule: vfmt_longs.induct) (auto split: if_splits)

lemma vfmt_switch_length: "vfmt_switch fmt f l args = Some (b, f', args') \<Longrightarrow> length f' \<le> length f"
  by (auto simp: vfmt_switch_def bind_eq_Some_conv split: if_splits)

lemma vfmt_min_length: "vfmt_min f = Some (w, pad, f') \<Longrightarrow> length f' \<le> length f"
  by (auto simp: vfmt_min_def bind_eq_Some_conv split: if_splits dest: vfmt_width_length)

lemma vfmt_max_length: "vfmt_max f = Some (w, f') \<Longrightarrow> length f' \<le> length f"
  by (auto simp: vfmt_max_def bind_eq_Some_conv split: if_splits dest!: vfmt_width_length)

lemma vfmt_directive_length:
  assumes "vfmt_directive fmt args = Some (d, f', args')"
  shows "length f' < length fmt"
proof -
  from assms obtain c :: u8 and w pad f1 m f2 l f3 b where
    r: "vfmt_min (if c = 45 then tl (tl fmt) else tl fmt) = Some (w, pad, f1)" "vfmt_max f1 = Some (m, f2)"
    "vfmt_longs 0 f2 = Some (l, f3)" "vfmt_switch fmt f3 l args = Some (b, f', args')"
    by (auto simp: vfmt_directive_def bind_eq_Some_conv Let_def)
  have "fmt \<noteq> []" using assms by (auto simp: vfmt_directive_def deref_def)
  moreover have "length f' \<le> length (if c = 45 then tl (tl fmt) else tl fmt)"
    using vfmt_min_length [OF r(1)] vfmt_max_length [OF r(2)] vfmt_longs_length [OF r(3)]
      vfmt_switch_length [OF r(4)] by linarith
  ultimately show ?thesis by (cases fmt) (auto split: if_splits)
qed

text \<open>The literal text up to the next directive, found by \<open>strchr\<close>.\<close>

lemma vfmt_text_literal:
  assumes "vfmt_text fmt args = Some T"
  obtains pct i c T' where "strchr fmt 37 = Some pct"
    "(case pct of Some i \<Rightarrow> Some i | None \<Rightarrow> strlen fmt) = Some i" "deref (drop i fmt) = Some c"
    "c = 37 \<or> c = 0" "vfmt_text (drop i fmt) args = Some T'" "T = take i fmt @ T'"
proof -
  have "\<exists>pct i c T'. strchr fmt 37 = Some pct \<and>
    (case pct of Some i \<Rightarrow> Some i | None \<Rightarrow> strlen fmt) = Some i \<and> deref (drop i fmt) = Some c \<and>
    (c = 37 \<or> c = 0) \<and> vfmt_text (drop i fmt) args = Some T' \<and> T = take i fmt @ T'"
    using assms
  proof (induction fmt arbitrary: T)
    case Nil
    then show ?case by (simp add: vfmt_text.simps)
  next
    case (Cons x f)
    consider "x = 0" | "x = 37" | (lit) "x \<noteq> 0" "x \<noteq> 37" by blast
    then show ?case
    proof cases
      case lit
      with Cons.prems obtain T1 where T1: "vfmt_text f args = Some T1" "T = x # T1"
        by (subst (asm) vfmt_text.simps) (auto simp: bind_eq_Some_conv)
      from Cons.IH [OF T1(1)] obtain pct i c T' where r: "strchr f 37 = Some pct"
        "(case pct of Some i \<Rightarrow> Some i | None \<Rightarrow> strlen f) = Some i" "deref (drop i f) = Some c"
        "c = 37 \<or> c = 0" "vfmt_text (drop i f) args = Some T'" "T1 = take i f @ T'" by blast
      have "(case map_option Suc pct of Some i \<Rightarrow> Some i | None \<Rightarrow> strlen (x # f)) = Some (Suc i)"
        using r(2) lit(1) by (auto simp: strlen_def bind_eq_Some_conv split: option.splits)
      moreover have "strchr (x # f) 37 = Some (map_option Suc pct)" using lit r(1) by simp
      moreover have "deref (drop (Suc i) (x # f)) = Some c" "vfmt_text (drop (Suc i) (x # f)) args = Some T'"
        "T = take (Suc i) (x # f) @ T'" using r T1(2) by simp_all
      ultimately show ?thesis using r(4) by blast
    qed (use Cons.prems in \<open>auto simp: deref_def strlen_def\<close>)
  qed
  then show thesis using that by blast
qed

text \<open>The loop stores the text of the format, cut off where the buffer ends.\<close>

lemma vfmt_loop_text:
  "vfmt_text fmt args = Some T \<Longrightarrow>
   vfmt_loop null fmt args (out, n) = Some (if null then out else out @ take n T, n - length T)"
proof (induction "length fmt" arbitrary: fmt args T out n rule: less_induct)
  case less
  from vfmt_text_literal [OF less.prems] obtain pct i c T' where
    l: "strchr fmt 37 = Some pct" "(case pct of Some i \<Rightarrow> Some i | None \<Rightarrow> strlen fmt) = Some i"
    "deref (drop i fmt) = Some c" "c = 37 \<or> c = 0" "vfmt_text (drop i fmt) args = Some T'" "T = take i fmt @ T'"
    by metis
  show ?case
  proof (cases "n = 0 \<or> deref fmt = Some 0")
    case True
    then have "n = 0 \<or> T = []" using less.prems by (subst (asm) vfmt_text.simps) (auto simp: deref_def split: list.splits)
    with True show ?thesis by (subst vfmt_loop.simps) auto
  next
    case False
    have il: "i < length fmt" using l(3) by (cases "i < length fmt") (auto simp: deref_def)
    then obtain c0 where c0: "deref fmt = Some c0" "c0 \<noteq> 0" using False by (cases fmt) (auto simp: deref_def)
    let ?st = "(if null then out else out @ take n (take i fmt), n - i)"
    have loop: "vfmt_loop null fmt args (out, n) =
      (if n - i = 0 \<or> c \<noteq> 37 then vfmt_loop null (drop i fmt) args ?st
       else Option.bind (vfmt_directive (drop i fmt) args) (\<lambda>(d, f', args').
              vfmt_loop null f' args' (vfmt_emit null d ?st)))"
      using False c0 l(1,2,3) il by (subst vfmt_loop.simps) (auto simp: Let_def vfmt_put_eq)
    have len: "length T = i + length T'" using l(6) il by simp
    show ?thesis
    proof (cases "n - i = 0 \<or> c \<noteq> 37")
      case True
      have "0 < i" using True False l(3,4) by (cases i) auto
      then have "length (drop i fmt) < length fmt" using il by simp
      from less.hyps [OF this l(5)] loop True len il l(6) show ?thesis by auto
    next
      case step: False
      then obtain f where f: "drop i fmt = 37 # f" using l(3,4) by (auto simp: deref_def split: list.splits)
      with l(5) obtain d f' args' T2 where d: "vfmt_directive (drop i fmt) args = Some (d, f', args')"
        "vfmt_text f' args' = Some T2" "T' = directive_text d @ T2"
        by (subst (asm) vfmt_text.simps) (auto simp: bind_eq_Some_conv)
      have "length f' < length fmt" using vfmt_directive_length [OF d(1)] by simp
      from less.hyps [OF this d(2)] loop step d(1,3) len il l(6) show ?thesis
        by (simp add: vfmt_emit_eq)
    qed
  qed
qed

lemma ibcs_vfmt_text:
  assumes "vfmt_text fmt args = Some T" "1 < sz"
  shows "ibcs_vfmt False sz fmt args = Some (min sz (length T + 1), take (sz - 1) T @ [0])"
    "ibcs_vfmt True sz fmt args = Some (min sz (length T + 1), [])"
  using vfmt_loop_text [OF assms(1)] assms(2) by (auto simp: ibcs_vfmt_def Let_def min_def)

text \<open>
  C37: \<open>ibcs_vfmt\<close> stores the text of the format up to \<open>size - 1\<close> bytes of it and a NUL, never
  more than \<open>size\<close> bytes, and returns the number of bytes stored; without a buffer it returns the
  number it would have stored.
\<close>

theorem ibcs_vfmt_truncates:
  assumes "vfmt_text fmt args = Some T" "1 < sz"
  shows "ibcs_vfmt False sz fmt args = Some (min sz (length T + 1), take (sz - 1) T @ [0]) \<and>
    ibcs_vfmt True sz fmt args = Some (min sz (length T + 1), [])"
  using ibcs_vfmt_text [OF assms] by simp

text \<open>Text of a few formats, for the examples below.\<close>

definition fmt_example :: "u8 list" where
  "fmt_example = [61, 37, 48, 52, 120, 33, 0]"

lemmas vfmt_eval = vfmt_directive_def deref_def vfmt_min_def vfmt_max_def is_digit8_def vfmt_switch_def
  va_long_def fits_buf_def fmt_dec_def fmt_hex_def fmt_oct_def digits.simps Let_def directive_text_def

lemma vfmt_text_steps:
  "vfmt_text (0 # f) args = Some []"
  "c \<noteq> 0 \<Longrightarrow> c \<noteq> 37 \<Longrightarrow> vfmt_text (c # f) args = Option.bind (vfmt_text f args) (\<lambda>T. Some (c # T))"
  "vfmt_directive (37 # f) args = Some (d, f', args') \<Longrightarrow>
   vfmt_text (37 # f) args = Option.bind (vfmt_text f' args') (\<lambda>T. Some (directive_text d @ T))"
  by (subst vfmt_text.simps, simp)+

lemma fmt_example_text: "vfmt_text fmt_example [Arg32 0x1f] = Some [61, 48, 48, 49, 102, 33]"
proof -
  have "vfmt_directive [37, 48, 52, 120, 33, 0] [Arg32 0x1f] =
      Some (\<lparr>left_justify = False, min_width = 4, pad_char = 48, formatted = [49, 102]\<rparr>, [33, 0], [])"
    by (simp add: vfmt_eval)
  note d = vfmt_text_steps(3) [OF this]
  have "vfmt_text [33, 0] [] = Some [33]"
    by (subst vfmt_text_steps(2)) (simp_all add: vfmt_text_steps(1))
  with d have "vfmt_text [37, 48, 52, 120, 33, 0] [Arg32 0x1f] = Some [48, 48, 49, 102, 33]"
    by (simp add: directive_text_def eval_nat_numeral)
  then show ?thesis unfolding fmt_example_def by (subst vfmt_text_steps(2)) simp_all
qed

theorem ibcs_vfmt_truncates_witness:
  "ibcs_vfmt False 4 fmt_example [Arg32 0x1f] = Some (4, [61, 48, 48, 0])"
  using ibcs_vfmt_truncates [OF fmt_example_text, of 4] by simp

lemma ibcs_vwritef_text:
  assumes "vfmt_text fmt args = Some T" "T \<noteq> []" "length T < 2 ^ 31 - 2"
  shows "ibcs_vwritef sys_write fd fmt args k = Some (sys_write fd T k)"
proof -
  have "ibcs_vfmt True 0 fmt args = ibcs_vfmt True (2 ^ 31 - 1) fmt args" by (simp add: ibcs_vfmt_def)
  then have "ibcs_vfmt True 0 fmt args = Some (length T + 1, [])"
    using ibcs_vfmt_text(2) [OF assms(1), of "2 ^ 31 - 1"] assms(3) by simp
  moreover have "ibcs_vfmt False (length T + 1) fmt args = Some (length T + 1, T @ [0])"
    using ibcs_vfmt_text(1) [OF assms(1), of "length T + 1"] assms(2) by simp
  ultimately show ?thesis by (simp add: ibcs_vwritef_def)
qed

text \<open>
  \<open>ibcs_vwritef\<close>, which formats twice to size its buffer, hands the whole text of the format to
  \<open>write\<close>, provided the text is not empty and shorter than \<open>2 ^ 31 - 2\<close> bytes.
\<close>

theorem ibcs_vwritef_complete:
  assumes "vfmt_text fmt args = Some T" "T \<noteq> []" "length T < 2 ^ 31 - 2"
  shows "ibcs_vwritef sys_write fd fmt args k = Some (sys_write fd T k)"
  using assms by (rule ibcs_vwritef_text)

theorem ibcs_vwritef_complete_witness:
  "ibcs_vwritef (\<lambda>fd b k. (of_nat (length b), k @ b)) 2 fmt_example [Arg32 0x1f] [] =
     Some (6, [61, 48, 48, 49, 102, 33])"
  using ibcs_vwritef_complete [OF fmt_example_text, of "\<lambda>fd b k. (of_nat (length b), k @ b)" 2 "[]"] by simp

text \<open>
  a format whose text is empty (a directive for an empty string, say) makes \<open>ibcs_vwritef\<close>
  fail: the second pass is given one byte, stores nothing and returns 0, and \<open>write\<close> is called
  with a length of \<open>2 ^ 32 - 1\<close> on a buffer of one byte.
\<close>

theorem ibcs_vwritef_empty:
  assumes "vfmt_text fmt args = Some []"
  shows "ibcs_vwritef sys_write fd fmt args k = None"
proof -
  have "ibcs_vfmt True 0 fmt args = ibcs_vfmt True (2 ^ 31 - 1) fmt args" by (simp add: ibcs_vfmt_def)
  then have "ibcs_vfmt True 0 fmt args = Some (1, [])"
    using ibcs_vfmt_text(2) [OF assms(1), of "2 ^ 31 - 1"] by simp
  moreover have "ibcs_vfmt False 1 fmt args = Some (0, [])" by (simp add: ibcs_vfmt_def)
  ultimately show ?thesis by (simp add: ibcs_vwritef_def)
qed

theorem ibcs_vwritef_empty_witness:
  "ibcs_vwritef (\<lambda>fd b k. (of_nat (length b), k @ b)) 2 [0] [] [] = None"
  by (rule ibcs_vwritef_empty) (rule vfmt_text_steps)

section \<open>Numbers\<close>

fun digits_value :: "nat \<Rightarrow> nat list \<Rightarrow> nat" where
  "digits_value base ds = foldl (\<lambda>v d. v * base + d) 0 ds"

lemma digits_value_digits: "1 < base \<Longrightarrow> digits_value base (digits base n) = n \<and> (\<forall>d \<in> set (digits base n). d < base)"
proof (induction base n rule: digits.induct)
  case (1 base n)
  then show ?case by (cases "n < base") (simp_all add: digits.simps [of base n])
qed

lemma digits_length: "1 < base \<Longrightarrow> n < base ^ k \<Longrightarrow> 0 < k \<Longrightarrow> length (digits base n) \<le> k"
proof (induction base n arbitrary: k rule: digits.induct)
  case (1 base n)
  show ?case
  proof (cases "n < base")
    case True
    then show ?thesis using 1 by (subst digits.simps) simp
  next
    case False
    then have "1 < k" using 1(3,4) by (cases "k = 1") auto
    then obtain j where "k = Suc j" by (cases k) auto
    then have "n div base < base ^ (k - 1)"
      using 1(2,3) by (simp add: div_less_iff_less_mult mult.commute)
    with 1 False \<open>1 < k\<close> have "length (digits base (n div base)) \<le> k - 1" by simp
    then show ?thesis using \<open>1 < k\<close> False 1(2) by (subst digits.simps) simp
  qed
qed

definition dec_value :: "u8 list \<Rightarrow> int" where
  "dec_value b = (if b \<noteq> [] \<and> hd b = 45 then - int (digits_value 10 (map (\<lambda>x. unat (x - 48)) (tl b)))
     else int (digits_value 10 (map (\<lambda>x. unat (x - 48)) b)))"

definition hex_value :: "u8 list \<Rightarrow> nat" where
  "hex_value b = digits_value 16 (map (\<lambda>x. unat (if x < 97 then x - 48 else x - 87)) b)"

lemma dec_digit: "d < 10 \<Longrightarrow> unat ((48 + of_nat d :: u8) - 48) = d" "d < 10 \<Longrightarrow> (48 + of_nat d :: u8) \<noteq> 45"
proof -
  assume d: "d < 10"
  then show "unat ((48 + of_nat d :: u8) - 48) = d" by (simp add: unat_of_nat)
  from d have "unat (48 + of_nat d :: u8) = 48 + d" by (simp add: unat_word_ariths unat_of_nat)
  then have "unat (48 + of_nat d :: u8) \<noteq> unat (45 :: u8)" by simp
  then show "(48 + of_nat d :: u8) \<noteq> 45" by (rule contrapos_nn) (rule arg_cong)
qed

lemma small_digits: "1 < base \<Longrightarrow> base \<le> 256 \<Longrightarrow> map (\<lambda>d. unat (of_nat d :: u8)) (digits base n) = digits base n"
  using digits_value_digits [of base n] by (intro map_idI) (auto simp: unat_of_nat)

lemma digits_nonempty: "digits base n \<noteq> []"
  by (subst digits.simps) simp

lemma unat_neg_sint: "sint n < 0 \<Longrightarrow> int (unat (- n)) = - sint n" for n :: u32
proof -
  assume neg: "sint n < 0"
  have "- n = word_of_int (- sint n)" by simp
  then have "uint (- n) = take_bit 32 (- sint n)" by (metis uint_word_of_int_eq word_32_len)
  moreover have "- sint n < 2 ^ 32" using sint_ge [of n] by simp
  ultimately show ?thesis using neg by (simp add: take_bit_int_eq_self)
qed

lemma unat_nonneg_sint: "\<not> sint n < 0 \<Longrightarrow> int (unat n) = sint n" for n :: u32
proof -
  assume "\<not> sint n < 0"
  moreover have "n = word_of_int (sint n)" by simp
  then have "uint n = take_bit 32 (sint n)" by (metis uint_word_of_int_eq word_32_len)
  moreover have "sint n < 2 ^ 32" using sint_lt [of n] by simp
  ultimately show ?thesis by (simp add: take_bit_int_eq_self)
qed

lemma fmt_dec_value: "dec_value (fmt_dec True n) = sint n"
proof (cases "sint n < 0")
  case True
  then show ?thesis
    using unat_neg_sint [OF True] digits_value_digits [of 10 "unat (- n)"]
    by (simp add: fmt_dec_def dec_value_def small_digits Let_def comp_def)
next
  case False
  have "hd (digits 10 (unat n)) < 10"
    using digits_value_digits [of 10 "unat n"] digits_nonempty [of 10 "unat n"] by (auto dest: hd_in_set)
  then have "hd (map (\<lambda>d. 48 + of_nat d :: u8) (digits 10 (unat n))) \<noteq> 45"
    using dec_digit(2) digits_nonempty by (simp add: hd_map)
  with unat_nonneg_sint [OF False] digits_value_digits [of 10 "unat n"] digits_nonempty [of 10 "unat n"]
  show ?thesis using False
    by (simp add: fmt_dec_def dec_value_def small_digits Let_def comp_def)
qed

lemma fmt_hex_value: "hex_value (fmt_hex True m) = unat m"
proof -
  have "unat (let x = of_nat h + (if h < 10 then 48 else 97 - 10) :: u8 in if x < 97 then x - 48 else x - 87) = h"
    if h: "h < 16" for h :: nat
  proof (cases "h < 10")
    case True
    then have "unat (of_nat h + 48 :: u8) = h + 48" by (simp add: unat_word_ariths unat_of_nat)
    then have "(of_nat h + 48 :: u8) < 97" using True by (simp add: word_less_nat_alt)
    with True show ?thesis by (simp add: unat_of_nat)
  next
    case False
    then have "unat (of_nat h + 87 :: u8) = h + 87" using h by (simp add: unat_word_ariths unat_of_nat)
    then have "\<not> (of_nat h + 87 :: u8) < 97" using False by (simp add: word_less_nat_alt)
    with False h show ?thesis by (simp add: unat_of_nat)
  qed
  note hex = this [unfolded Let_def]
  have "map (\<lambda>x. unat (if x < 97 then x - 48 else x - 87)) (fmt_hex True m) = digits 16 (unat m)"
    unfolding fmt_hex_def map_map if_True comp_def
    by (rule map_idI, rule hex) (use digits_value_digits [of 16 "unat m"] in simp)
  then show ?thesis
    using digits_value_digits [of 16 "unat m"] by (simp only: hex_value_def)
qed

text \<open>
  the text of \<open>%d\<close> is the signed decimal of its argument and that of \<open>%lx\<close> the lower case
  hexadecimal, both within \<open>buf[20]\<close>.
\<close>

theorem fmt_numbers:
  "dec_value (fmt_dec True n) = sint n \<and> fits_buf (fmt_dec True n) \<noteq> None \<and>
   hex_value (fmt_hex True m) = unat m \<and> fits_buf (fmt_hex True m) \<noteq> None"
proof -
  have "length (digits 10 (unat k)) \<le> 10" for k :: u32
    using unsigned_less [of k, where ?'a = nat] by (intro digits_length) auto
  from this [of n] this [of "- n"] have "length (fmt_dec True n) \<le> 20"
    by (simp add: fmt_dec_def Let_def)
  moreover have "length (digits 16 (unat m)) \<le> 16"
    using unsigned_less [of m, where ?'a = nat] by (intro digits_length) auto
  ultimately show ?thesis using fmt_dec_value fmt_hex_value by (simp add: fits_buf_def fmt_hex_def)
qed

section \<open>Error messages\<close>

lemma vfmt_text_string:
  assumes "vfmt_text f args = Some T" "0 \<notin> set b" "length b \<le> 999999999"
  shows "vfmt_text (37 # 115 # f) (ArgStr (b @ [0]) # args) = Some (b @ T)"
proof -
  have "vfmt_directive (37 # 115 # f) (ArgStr (b @ [0]) # args) =
      Some (\<lparr>left_justify = False, min_width = 0, pad_char = 32, formatted = b\<rparr>, f, args)"
    using strlen_cstr [of "b @ [0]"] cstr_append [OF assms(2), of "[]"] assms(3) by (simp add: vfmt_eval)
  from vfmt_text_steps(3) [OF this] assms(1) show ?thesis by (simp add: directive_text_def)
qed

lemma vfmt_text_lit: "vfmt_text f args = Some T \<Longrightarrow> 0 \<notin> set b \<Longrightarrow> 37 \<notin> set b \<Longrightarrow> vfmt_text (b @ f) args = Some (b @ T)"
  by (induction b) (simp_all add: vfmt_text_steps(2))

lemma vfmt_text_percent_c:
  "vfmt_text (99 # f) args = Some T \<Longrightarrow> vfmt_text (37 # 99 # f) (Arg32 n # args) = Some (ucast n # T)"
  by (subst vfmt_text_steps(3) [where d = "\<lparr>left_justify = False, min_width = 0, pad_char = 32, formatted = [ucast n]\<rparr>"
        and f' = "99 # f" and args' = args])
    (simp_all add: vfmt_eval)

lemma bytes_zero: "0 \<in> set (bytes s) \<longleftrightarrow> CHR 0x00 \<in> set s"
proof -
  have "(of_char c :: u8) = 0 \<longleftrightarrow> c = CHR 0x00" for c
    by (cases c) (auto simp: of_char_Char)
  then show ?thesis by (auto simp: bytes_def image_iff)
qed

lemma ibcs_errno_desc_strings:
  "list_all (\<lambda>(n, s). list_all (\<lambda>c. c \<noteq> CHR 0x00) s \<and> length s < 100) ibcs_errno_desc"
  by code_simp

text \<open>
  a system call error ends with the caller's message followed by the description of the error
  number when the table has one: both writes contain exactly that text.
\<close>

theorem ibcs_fatal_syscall_message:
  assumes m: "vfmt_text message args = Some T" "T \<noteq> []" "length T < 2 ^ 31 - 2"
    and d: "map_of ibcs_errno_desc (unat (- retval)) = Some desc"
  shows "ibcs_fatal_syscall (\<lambda>fd b k. (r, k @ b)) retval message args k =
    Some (k @ T @ bytes '': '' @ bytes desc @ bytes ''.'' @ [10])"
proof -
  have "(unat (- retval), desc) \<in> set ibcs_errno_desc" using d by (rule map_of_SomeD)
  then have "CHR 0x00 \<notin> set desc" "length desc < 100"
    using ibcs_errno_desc_strings by (auto simp: list_all_iff)
  then have z: "0 \<notin> set (bytes desc)" "length (bytes desc) < 100"
    unfolding bytes_zero by (simp_all add: bytes_def)
  let ?T = "bytes '': '' @ bytes desc @ bytes ''.'' @ [10]"
  have "vfmt_text [46, 10, 0] [] = Some [46, 10]"
    using vfmt_text_lit [OF vfmt_text_steps(1), of "[46, 10]" "[]" "[]"] by simp
  then have "vfmt_text (37 # 115 # [46, 10, 0]) [ArgStr (bytes desc @ [0])] = Some (bytes desc @ [46, 10])"
    using z by (intro vfmt_text_string) simp_all
  from vfmt_text_lit [OF this, of "[58, 32]"]
  have "vfmt_text (bytes '': %s.'' @ [10, 0]) [ArgStr (bytes desc @ [0])] = Some ?T"
    by (simp add: bytes_def)
  then have "ibcs_writef (\<lambda>fd b k. (r, k @ b)) 2 (bytes '': %s.'' @ [10, 0]) [ArgStr (bytes desc @ [0])] (k @ T) = Some (r, k @ T @ ?T)"
    unfolding ibcs_writef_def
    by (subst ibcs_vwritef_text [where T = ?T]) (use z in \<open>simp_all add: bytes_def\<close>)
  moreover have "ibcs_vwritef (\<lambda>fd b k. (r, k @ b)) 2 message args k = Some (r, k @ T)"
    using ibcs_vwritef_text [OF m] .
  ultimately show ?thesis using d by (simp add: ibcs_fatal_syscall_def Let_def)
qed

theorem ibcs_fatal_syscall_message_witness:
  "ibcs_fatal_syscall (\<lambda>fd b k. (0, k @ b)) (- 2) [98, 114, 107, 0] [] [] =
     Some (bytes ''brk: No such file or directory.'' @ [10])"
proof -
  have "vfmt_text [98, 114, 107, 0] [] = Some [98, 114, 107]"
    using vfmt_text_lit [OF vfmt_text_steps(1), of "[98, 114, 107]" "[]" "[]"] by simp
  moreover have "map_of ibcs_errno_desc (unat (- (- 2 :: u32))) = Some ''No such file or directory''"
    by (simp add: ibcs_errno_desc_def)
  ultimately show ?thesis
    using ibcs_fatal_syscall_message [of "[98, 114, 107, 0]" "[]" "[98, 114, 107]" "- 2" "''No such file or directory''" 0 "[]"]
    by (simp add: bytes_def)
qed

end
