(* ===== verification/Filemap.thy ===== *)
theory Filemap
  imports Cstring
begin

text \<open>
  The \<open>--map\<close> option, \<^verbatim>\<open>src/ibcs/filemap.c\<close>: path normalisation and the mapping of path names by
  the entries of the map file.

  A source path is the list of its bytes without the terminating NUL; a read at the end of the
  list is the NUL (the code never reads behind it). The part of \<open>dst\<close> written so far is a list
  \<open>out\<close>: \<open>d - dst\<close> is its length, \<open>d[-i]\<close> counts from its end, moving \<open>d\<close> back drops from its end,
  and what the code leaves behind \<open>d\<close> is never read. The system call \<open>getcwd\<close> is the parameter
  \<open>sys_getcwd\<close>, from the buffer size to an error or the bytes of the directory name.
\<close>

section \<open>Path normalisation\<close>

definition at :: "u8 list \<Rightarrow> nat \<Rightarrow> u8" where
  "at s i = (if i < length s then s ! i else 0)"

definition before_end :: "u8 list \<Rightarrow> nat \<Rightarrow> u8" where
  "before_end out i = out ! (length out - i)"

text \<open>Copying one file name component, up to and including the slash.\<close>

fun normalise_copy :: "nat \<Rightarrow> u8 list \<Rightarrow> u8 list \<Rightarrow> u32 + u8 list \<times> u8 list" where
  "normalise_copy dst_size out [] = Inr (out, [])"
| "normalise_copy dst_size out (x # s) =
     (if dst_size \<le> length out + 1 then Inl (- ENAMETOOLONG)
      else if x = 47 then Inr (out @ [x], s)
      else normalise_copy dst_size (out @ [x]) s)"

text \<open>Erasing the last component: \<open>for (d -= 1; d > dst && d[-1] != '/'; d -= 1)\<close>.\<close>

function normalise_erase :: "u8 list \<Rightarrow> u8 list" where
  "normalise_erase out =
     (if out \<noteq> [] \<and> before_end out 1 \<noteq> 47 then normalise_erase (butlast out) else out)"
  by auto
termination by (relation "measure length") auto

declare normalise_erase.simps [simp del]

definition normalise_keep_dotdot :: "u8 list \<Rightarrow> bool" where
  "normalise_keep_dotdot out \<longleftrightarrow> out = [] \<or>
     (length out = 3 \<and> before_end out 2 = 46 \<and> before_end out 3 = 46) \<or>
     (4 \<le> length out \<and> before_end out 2 = 46 \<and> before_end out 3 = 46 \<and> before_end out 4 = 47)"

lemma normalise_copy_length: "normalise_copy n out s = Inr (out', s') \<Longrightarrow> length s' \<le> length s - 1"
  by (induction n out s rule: normalise_copy.induct) (auto split: if_splits)

function normalise_loop :: "nat \<Rightarrow> u8 list \<Rightarrow> u8 list \<Rightarrow> u32 + u8 list" where
  "normalise_loop dst_size out s =
     (if s = [] then Inr out
      else if at s 0 = 47 then normalise_loop dst_size out (drop 1 s)
      else if at s 0 = 46 \<and> at s 1 = 47 then normalise_loop dst_size out (drop 2 s)
      else if at s 0 = 46 \<and> at s 1 = 0 then normalise_loop dst_size out (drop 1 s)
      else if at s 0 = 46 \<and> at s 1 = 46 \<and> (at s 2 = 47 \<or> at s 2 = 0) then
        let s' = drop (if at s 2 = 0 then 2 else 3) s
        in if normalise_keep_dotdot out
           then if dst_size \<le> length out + 3 then Inl (- ENAMETOOLONG)
                else normalise_loop dst_size (out @ [at s 0, at s 1] @ (if at s 2 \<noteq> 0 then [47] else [])) s'
           else normalise_loop dst_size (if length out \<noteq> 1 then normalise_erase (butlast out) else out) s'
      else case normalise_copy dst_size out s of
             Inl e \<Rightarrow> Inl e
           | Inr (out, s) \<Rightarrow> normalise_loop dst_size out s)"
  by pat_completeness auto
termination
proof (relation "measure (\<lambda>(n, out, s). length s)")
  fix n :: nat and out s out' s' :: "u8 list" and q
  assume "s \<noteq> []" "normalise_copy n out s = Inr q" "(out', s') = q"
  then show "((n, out', s'), n, out, s) \<in> measure (\<lambda>(n, out, s). length s)"
    using normalise_copy_length [of n out s out' s'] by (cases s) auto
qed auto

declare normalise_loop.simps [simp del]

definition normalise_start :: "(nat \<Rightarrow> u32 + u8 list) \<Rightarrow> nat \<Rightarrow> u8 list \<Rightarrow> bool \<Rightarrow> u32 + u8 list \<times> u8 list" where
  "normalise_start sys_getcwd dst_size src is_abs =
     (if at src 0 = 47 then Inr ([47], drop 1 src)
      else if is_abs then
        case sys_getcwd dst_size of
          Inl e \<Rightarrow> Inl e
        | Inr cwd \<Rightarrow> if dst_size \<le> length cwd + 2 then Inl (- ENAMETOOLONG) else Inr (cwd @ [47], src)
      else Inr ([], src))"

definition normalise_finish :: "u8 list \<Rightarrow> u8 list" where
  "normalise_finish out =
     (if out = [] then [46]
      else if length out \<noteq> 1 \<and> before_end out 1 = 47 then butlast out
      else out)"

text \<open>The bytes stored in \<open>dst\<close>, the NUL included; the returned length is their number.\<close>

definition normalise_path :: "(nat \<Rightarrow> u32 + u8 list) \<Rightarrow> nat \<Rightarrow> u8 list \<Rightarrow> bool \<Rightarrow> u32 + u8 list" where
  "normalise_path sys_getcwd dst_size src is_abs =
     (case normalise_start sys_getcwd dst_size src is_abs of
        Inl e \<Rightarrow> Inl e
      | Inr (out, s) \<Rightarrow>
          case normalise_loop dst_size out s of
            Inl e \<Rightarrow> Inl e
          | Inr out \<Rightarrow> Inr (normalise_finish out @ [0]))"


section \<open>The path a name stands for\<close>

text \<open>
  The specification: the components of a path, read from left to right on a stack; empty
  components and \<open>.\<close> are dropped and \<open>..\<close> removes the top component (at the root it does nothing).
\<close>

fun components :: "u8 list \<Rightarrow> u8 list list" where
  "components [] = [[]]"
| "components (x # s) =
     (if x = 47 then [] # components s else (x # hd (components s)) # tl (components s))"

definition walk :: "u8 list \<Rightarrow> u8 list list \<Rightarrow> u8 list list" where
  "walk c stack = (if c = [] \<or> c = [46] then stack else if c = [46, 46] then tl stack else c # stack)"

definition canonical :: "u8 list list \<Rightarrow> u8 list" where
  "canonical stack = (if stack = [] then [47] else concat (map (\<lambda>c. 47 # c) (rev stack)))"

text \<open>The same stack as the loop keeps it in \<open>out\<close>: every component with its slash behind it.\<close>

definition as_out :: "u8 list list \<Rightarrow> u8 list" where
  "as_out stack = 47 # concat (map (\<lambda>c. c @ [47]) (rev stack))"

definition names :: "u8 list list \<Rightarrow> bool" where
  "names stack \<longleftrightarrow> (\<forall>c \<in> set stack. c \<noteq> [] \<and> c \<noteq> [46] \<and> c \<noteq> [46, 46] \<and> 47 \<notin> set c)"

lemma components_nonempty [simp]: "components s \<noteq> []"
  by (induction s) auto

lemma components_append: "47 \<notin> set c \<Longrightarrow> components (c @ 47 # s) = c # components s"
  by (induction c) auto

lemma components_single: "47 \<notin> set c \<Longrightarrow> components c = [c]"
  by (induction c) auto

lemma as_out_simps:
  "as_out [] = [47]" "as_out (c # stack) = as_out stack @ c @ [47]"
  by (simp_all add: as_out_def)

lemma as_out_nonempty: "as_out stack \<noteq> []"
  by (simp add: as_out_def)

lemma as_out_last: "last (as_out stack) = 47"
  by (cases stack) (simp_all add: as_out_simps)

lemma as_out_canonical: "stack \<noteq> [] \<Longrightarrow> as_out stack = canonical stack @ [47]"
proof (induction stack)
  case (Cons c stack)
  then show ?case by (cases "stack = []") (simp_all add: canonical_def as_out_simps)
qed simp

lemma before_end_1: "out \<noteq> [] \<Longrightarrow> before_end out 1 = last out"
  by (simp add: before_end_def last_conv_nth)

lemma canonical_nonempty: "canonical stack \<noteq> []"
  by (simp add: canonical_def)

lemma normalise_finish_snoc: "out \<noteq> [] \<Longrightarrow> normalise_finish (out @ [x]) = (if x = 47 then out else out @ [x])"
  by (simp add: normalise_finish_def before_end_def nth_append)

lemma normalise_finish_as_out: "normalise_finish (as_out stack) = canonical stack"
  by (cases "stack = []")
    (simp_all add: as_out_canonical normalise_finish_snoc canonical_nonempty, simp add: normalise_finish_def canonical_def as_out_def)

lemma normalise_erase_name:
  "47 \<notin> set c \<Longrightarrow> out = [] \<or> last out = 47 \<Longrightarrow> normalise_erase (out @ c) = out"
proof (induction c rule: rev_induct)
  case Nil
  then show ?case by (subst normalise_erase.simps) (auto simp: before_end_1 [simplified])
next
  case (snoc x c)
  then show ?case by (subst normalise_erase.simps) (simp add: before_end_def nth_append butlast_append)
qed


lemma names_simps: "names []" "names (c # stack) \<longleftrightarrow> c \<noteq> [] \<and> c \<noteq> [46] \<and> c \<noteq> [46, 46] \<and> 47 \<notin> set c \<and> names stack"
  by (auto simp: names_def)

lemma names_tl: "names stack \<Longrightarrow> names (tl stack)"
  by (cases stack) (auto simp: names_simps)

lemma keep_dotdot_as_out: "names stack \<Longrightarrow> \<not> normalise_keep_dotdot (as_out stack)"
proof (cases stack)
  case (Cons c st)
  assume n: "names stack"
  show ?thesis
  proof
    assume k: "normalise_keep_dotdot (as_out stack)"
    let ?out = "as_out stack"
    have l: "?out = as_out st @ c @ [47]" using Cons by (simp add: as_out_simps)
    obtain z where z: "as_out st = z @ [47]" using as_out_last [of st] as_out_nonempty [of st]
      by (metis append_butlast_last_id)
    from n Cons have c: "c \<noteq> []" "c \<noteq> [46]" "c \<noteq> [46, 46]" "47 \<notin> set c" by (auto simp: names_simps)
    from k l have e: "before_end ?out 2 = 46 \<and> before_end ?out 3 = 46 \<and> (length ?out = 3 \<or> before_end ?out 4 = 47)"
      by (auto simp: normalise_keep_dotdot_def)
    obtain c' x where cx: "c = c' @ [x]" using c(1) by (metis append_butlast_last_id)
    have x: "x = 46" using e unfolding l cx by (simp add: before_end_def nth_append)
    show False
    proof (cases c' rule: rev_cases)
      case Nil
      with c(2) cx x show False by simp
    next
      case (snoc c'' y)
      then have y: "y = 46" using e unfolding l cx by (simp add: before_end_def nth_append)
      show False
      proof (cases c'' rule: rev_cases)
        case Nil
        with c(3) cx x y snoc show False by simp
      next
        case (snoc c3 w)
        with e cx l \<open>c' = c'' @ [y]\<close> z have "w = 47" by (auto simp: before_end_def nth_append)
        with c(4) cx snoc \<open>c' = c'' @ [y]\<close> show False by simp
      qed
    qed
  qed
qed (simp add: as_out_simps normalise_keep_dotdot_def)

lemma erase_as_out:
  "names stack \<Longrightarrow> (if length (as_out stack) \<noteq> 1 then normalise_erase (butlast (as_out stack)) else as_out stack)
     = as_out (tl stack)"
proof (cases stack)
  case (Cons c st)
  assume "names stack"
  then have "normalise_erase (as_out st @ c) = as_out st"
    using Cons by (intro normalise_erase_name) (auto simp: names_simps as_out_last)
  then show ?thesis using Cons as_out_nonempty [of st] by (simp add: as_out_simps butlast_append)
qed (simp add: as_out_simps)

lemma normalise_copy_spec:
  "normalise_copy n out s = Inr (out', s') \<Longrightarrow>
   (if 47 \<in> set s then out' = out @ takeWhile (\<lambda>x. x \<noteq> 47) s @ [47] \<and> s = takeWhile (\<lambda>x. x \<noteq> 47) s @ 47 # s'
    else out' = out @ s \<and> s' = [])"
  by (induction n out s rule: normalise_copy.induct) (auto split: if_splits)

lemma normalise_copy_fits:
  "length out + length s + 1 < n \<Longrightarrow>
   \<exists>out' s'. normalise_copy n out s = Inr (out', s') \<and> length out' + length s' = length out + length s"
  by (induction n out s rule: normalise_copy.induct) auto

lemma normalise_copy_bound: "normalise_copy n out s = Inr (out', s') \<Longrightarrow> length out < n \<Longrightarrow> length out' < n"
  by (induction n out s rule: normalise_copy.induct) (auto split: if_splits)

lemma first_name:
  assumes "s \<noteq> []" "at s 0 \<noteq> 47" "\<not> (at s 0 = 46 \<and> at s 1 = 47)" "\<not> (at s 0 = 46 \<and> at s 1 = 0)"
    "\<not> (at s 0 = 46 \<and> at s 1 = 46 \<and> (at s 2 = 47 \<or> at s 2 = 0))"
  shows "takeWhile (\<lambda>x. x \<noteq> 47) s \<notin> {[], [46], [46, 46]}"
proof -
  obtain a s1 where s: "s = a # s1" using assms(1) by (cases s) auto
  show ?thesis
  proof (cases s1)
    case Nil
    with s assms show ?thesis by (auto simp: at_def)
  next
    case (Cons b s2)
    with s assms show ?thesis by (cases s2) (auto simp: at_def split: if_splits)
  qed
qed

lemma walk_simps: "walk [] st = st" "walk [46] st = st" "walk [46, 46] st = tl st"
  "c \<notin> {[], [46], [46, 46]} \<Longrightarrow> walk c st = c # st"
  by (auto simp: walk_def)

lemma components_dot: "at s 0 = 46 \<Longrightarrow> at s 1 = 47 \<Longrightarrow> components s = [46] # components (drop 2 s)"
  by (cases s; cases "tl s") (auto simp: at_def split: if_splits)

lemma components_dot_end: "0 \<notin> set s \<Longrightarrow> at s 0 = 46 \<Longrightarrow> at s 1 = 0 \<Longrightarrow> s = [46]"
  by (cases s; cases "tl s") (auto simp: at_def split: if_splits)

lemma components_dotdot:
  assumes "0 \<notin> set s" "at s 0 = 46" "at s 1 = 46" "at s 2 = 47 \<or> at s 2 = 0"
  shows "(at s 2 = 0 \<and> s = [46, 46]) \<or> (at s 2 = 47 \<and> components s = [46, 46] # components (drop 3 s))"
proof -
  obtain a s1 where s: "s = a # s1" using assms(2) by (cases s) (auto simp: at_def)
  then obtain b s2 where s1: "s1 = b # s2" using assms(3) by (cases s1) (auto simp: at_def)
  show ?thesis
    using assms s s1 by (cases s2) (auto simp: at_def split: if_splits)
qed

lemma in_set_drop: "0 \<notin> set s \<Longrightarrow> 0 \<notin> set (drop n s)"
  by (meson in_set_dropD)

lemma normalise_loop_Nil: "normalise_loop n out [] = Inr out"
  by (simp add: normalise_loop.simps)

text \<open>Copying a name pushes it: either its slash follows, or it is the last component.\<close>

lemma normalise_copy_push:
  assumes st: "names st" and s: "0 \<notin> set s" and c: "takeWhile (\<lambda>x. x \<noteq> 47) s \<notin> {[], [46], [46, 46]}" (is "?c \<notin> _")
    and copy: "normalise_copy n (as_out st) s = Inr (out1, s1)"
  shows "names (?c # st) \<and> length s1 < length s \<and> 0 \<notin> set s1 \<and>
    (out1 = as_out (?c # st) \<and> components s = ?c # components s1 \<or>
     s1 = [] \<and> components s = [?c] \<and> normalise_finish out1 = canonical (?c # st))"
proof -
  have n47: "47 \<notin> set ?c" using set_takeWhileD by fastforce
  show ?thesis
  proof (cases "47 \<in> set s")
    case True
    with normalise_copy_spec [OF copy] have k: "out1 = as_out (?c # st)" "s = ?c @ 47 # s1"
      by (simp_all add: as_out_simps)
    moreover have "components s = ?c # components s1" by (subst k(2)) (rule components_append [OF n47])
    moreover have "length s = length ?c + 1 + length s1" "set s = set ?c \<union> {47} \<union> set s1"
      by (subst k(2), simp)+
    ultimately show ?thesis using st s c n47 by (auto simp: names_simps)
  next
    case False
    then have "?c = s" by (auto simp: takeWhile_eq_all_conv)
    moreover from False normalise_copy_spec [OF copy] have o: "out1 = as_out st @ s" "s1 = []" by simp_all
    moreover obtain s0 x where sx: "s = s0 @ [x]" using c \<open>?c = s\<close> by (metis append_butlast_last_id insertI1)
    ultimately have "normalise_finish out1 = as_out st @ s"
      using False normalise_finish_snoc [of "as_out st @ s0" x] as_out_nonempty by auto
    moreover have "canonical (s # st) @ [47] = as_out st @ s @ [47]"
      using as_out_canonical [of "s # st"] by (simp add: as_out_simps)
    ultimately show ?thesis
      using c \<open>?c = s\<close> components_single [OF False] st o sx False n47 by (simp add: names_simps)
  qed
qed

lemma normalise_loop_walk:
  "names st \<Longrightarrow> 0 \<notin> set s \<Longrightarrow> normalise_loop n (as_out st) s = Inr out \<Longrightarrow>
   normalise_finish out = canonical (fold walk (components s) st)"
proof (induction "length s" arbitrary: s st rule: less_induct)
  case less
  note loop = less.prems(3) [unfolded normalise_loop.simps [of n "as_out st" s]]
  have IH: "normalise_finish out = canonical (fold walk (components s') st')"
    if "length s' < length s" "names st'" "0 \<notin> set s'" "normalise_loop n (as_out st') s' = Inr out" for s' st'
    using less.hyps that by blast
  consider (nil) "s = []" | (slash) "s \<noteq> []" "at s 0 = 47" | (dot) "at s 0 = 46" "at s 1 = 47"
    | (dot_end) "at s 0 = 46" "at s 1 = 0" | (dotdot) "at s 0 = 46" "at s 1 = 46" "at s 2 = 47 \<or> at s 2 = 0"
    | (name) "s \<noteq> []" "at s 0 \<noteq> 47" "\<not> (at s 0 = 46 \<and> at s 1 = 47)" "\<not> (at s 0 = 46 \<and> at s 1 = 0)"
        "\<not> (at s 0 = 46 \<and> at s 1 = 46 \<and> (at s 2 = 47 \<or> at s 2 = 0))"
    by blast
  then show ?case
  proof cases
    case nil
    with loop show ?thesis by (auto simp: walk_simps normalise_finish_as_out)
  next
    case slash
    then obtain s' where s': "s = 47 # s'" by (cases s) (auto simp: at_def)
    with IH [of s' st] loop less.prems(1,2) slash show ?thesis by (simp add: walk_simps at_def)
  next
    case dot
    then have "s \<noteq> []" by (auto simp: at_def)
    with IH [of "drop 2 s" st] loop less.prems(1,2) dot show ?thesis
      by (simp add: walk_simps components_dot in_set_drop)
  next
    case dot_end
    with less.prems(2) have s: "s = [46]" by (rule components_dot_end)
    with loop have "normalise_loop n (as_out st) [] = Inr out" by (simp add: at_def)
    from IH [OF _ _ _ this] s less.prems(1) show ?thesis by (simp add: walk_simps)
  next
    case dotdot
    let ?s' = "drop (if at s 2 = 0 then 2 else 3) s"
    have ne: "s \<noteq> []" using dotdot(1) by (auto simp: at_def)
    then have "normalise_loop n (as_out (tl st)) ?s' = Inr out"
      using loop dotdot keep_dotdot_as_out [OF less.prems(1)] erase_as_out [OF less.prems(1)]
      by (simp add: Let_def)
    from IH [OF _ names_tl [OF less.prems(1)] _ this] ne less.prems(2)
    have "normalise_finish out = canonical (fold walk (components ?s') (tl st))" by (simp add: in_set_drop)
    with components_dotdot [OF less.prems(2) dotdot] show ?thesis by (auto simp: walk_simps)
  next
    case name
    then have c: "takeWhile (\<lambda>x. x \<noteq> 47) s \<notin> {[], [46], [46, 46]}" (is "?c \<notin> _") by (rule first_name)
    have "normalise_loop n (as_out st) s = (case normalise_copy n (as_out st) s of
        Inl e \<Rightarrow> Inl e | Inr (out, s) \<Rightarrow> normalise_loop n out s)"
      by (subst normalise_loop.simps) (simp only: name if_False simp_thms)
    with less.prems(3) obtain out1 s1 where r: "normalise_copy n (as_out st) s = Inr (out1, s1)"
      "normalise_loop n out1 s1 = Inr out" by (auto split: sum.splits)
    from normalise_copy_push [OF less.prems(1,2) c r(1)] r(2) IH [of s1 "?c # st"] walk_simps(4) [OF c, of st]
    show ?thesis by (auto simp: normalise_loop_Nil)
  qed
qed


subsection \<open>Sizes\<close>

lemma normalise_erase_length: "length (normalise_erase out) \<le> length out"
  by (induction out rule: normalise_erase.induct) (subst normalise_erase.simps, auto)

text \<open>One iteration fails, or goes on with a shorter source and an \<open>out\<close> that stays in bounds.\<close>

lemma normalise_loop_step:
  assumes "s \<noteq> []"
  shows "(\<exists>e. normalise_loop n out s = Inl e \<and> \<not> length out + length s + 1 < n) \<or>
    (\<exists>out1 s1. normalise_loop n out s = normalise_loop n out1 s1 \<and> length s1 < length s \<and>
       (length out < n \<longrightarrow> length out1 < n) \<and>
       (length out + length s + 1 < n \<longrightarrow> length out1 + length s1 + 1 < n))"
    (is "?err \<or> (\<exists>out1 s1. ?ok out1 s1)")
proof -
  note loop = normalise_loop.simps [of n out s]
  consider (slash) "at s 0 = 47" | (dot) "at s 0 = 46" "at s 1 = 47" | (dot_end) "at s 0 = 46" "at s 1 = 0"
    | (dotdot) "at s 0 = 46" "at s 1 = 46" "at s 2 = 47 \<or> at s 2 = 0"
    | (name) "s \<noteq> []" "at s 0 \<noteq> 47" "\<not> (at s 0 = 46 \<and> at s 1 = 47)" "\<not> (at s 0 = 46 \<and> at s 1 = 0)"
        "\<not> (at s 0 = 46 \<and> at s 1 = 46 \<and> (at s 2 = 47 \<or> at s 2 = 0))"
    using assms by blast
  then show ?thesis
  proof cases
    case slash
    with assms loop have "?ok out (drop 1 s)" by auto
    then show ?thesis by blast
  next
    case dot
    with assms loop have "?ok out (drop 2 s)" by auto
    then show ?thesis by blast
  next
    case dot_end
    with assms loop have "?ok out (drop 1 s)" by auto
    then show ?thesis by blast
  next
    case dotdot
    let ?s' = "drop (if at s 2 = 0 then 2 else 3) s"
    let ?o = "out @ [at s 0, at s 1] @ (if at s 2 \<noteq> 0 then [47] else [])"
    have ls: "2 \<le> length s" "at s 2 = 47 \<longrightarrow> 3 \<le> length s" using dotdot by (auto simp: at_def split: if_splits)
    consider (e) "normalise_keep_dotdot out" "n \<le> length out + 3" | (k) "normalise_keep_dotdot out" "\<not> n \<le> length out + 3"
      | (d) "\<not> normalise_keep_dotdot out" by blast
    then show ?thesis
    proof cases
      case e
      with dotdot loop assms have "normalise_loop n out s = Inl (- ENAMETOOLONG)" by (simp add: Let_def)
      with e ls show ?thesis by auto
    next
      case k
      with dotdot loop assms have "normalise_loop n out s = normalise_loop n ?o ?s'" by (simp add: Let_def)
      with k ls dotdot(3) have "?ok ?o ?s'" by auto
      then show ?thesis by blast
    next
      case d
      let ?o' = "if length out \<noteq> 1 then normalise_erase (butlast out) else out"
      have "length ?o' \<le> length out" using normalise_erase_length [of "butlast out"] by auto
      moreover from d dotdot loop assms have "normalise_loop n out s = normalise_loop n ?o' ?s'" by (simp add: Let_def)
      ultimately have "?ok ?o' ?s'" using assms by auto
      then show ?thesis by blast
    qed
  next
    case name
    have eq: "normalise_loop n out s = (case normalise_copy n out s of
        Inl e \<Rightarrow> Inl e | Inr (out, s) \<Rightarrow> normalise_loop n out s)"
      by (subst normalise_loop.simps) (simp only: name if_False simp_thms)
    show ?thesis
    proof (cases "normalise_copy n out s")
      case (Inl e)
      with eq normalise_copy_fits [of out s n] show ?thesis by auto
    next
      case (Inr p)
      then obtain out1 s1 where p: "normalise_copy n out s = Inr (out1, s1)" by (cases p) auto
      have "?ok out1 s1"
        using eq p normalise_copy_bound [OF p] normalise_copy_length [OF p] normalise_copy_fits [of out s n] assms
        by (cases s) auto
      then show ?thesis by blast
    qed
  qed
qed

lemma normalise_loop_bound: "length out < n \<Longrightarrow> normalise_loop n out s = Inr out' \<Longrightarrow> length out' < n"
proof (induction "length s" arbitrary: out s rule: less_induct)
  case less
  show ?case
  proof (cases "s = []")
    case False
    with normalise_loop_step [of s n out] less.prems obtain out1 s1 where
      "normalise_loop n out1 s1 = Inr out'" "length s1 < length s" "length out1 < n" by auto
    then show ?thesis by (intro less.hyps [of s1 out1])
  qed (use less.prems in \<open>simp add: normalise_loop_Nil\<close>)
qed

lemma normalise_loop_fits: "length out + length s + 1 < n \<Longrightarrow> \<exists>out'. normalise_loop n out s = Inr out'"
proof (induction "length s" arbitrary: out s rule: less_induct)
  case less
  show ?case
  proof (cases "s = []")
    case False
    with normalise_loop_step [of s n out] less.prems obtain out1 s1 where
      "normalise_loop n out s = normalise_loop n out1 s1" "length s1 < length s" "length out1 + length s1 + 1 < n"
      by auto
    then show ?thesis using less.hyps [of s1 out1] by simp
  qed (simp add: normalise_loop_Nil)
qed

lemma normalise_path_from_root:
  assumes "at src 0 = 47" "0 \<notin> set src" "length src + 1 < dst_size"
  shows "normalise_path sys_getcwd dst_size src is_abs = Inr (canonical (fold walk (components src) []) @ [0])"
proof -
  from assms(1) obtain s where s: "src = 47 # s" by (cases src) (auto simp: at_def)
  obtain out where out: "normalise_loop dst_size (as_out []) s = Inr out"
    using normalise_loop_fits [of "as_out []" s dst_size] assms(3) s by (auto simp: as_out_simps)
  then have "normalise_finish out = canonical (fold walk (components s) [])"
    using assms(2) s by (intro normalise_loop_walk) (auto simp: names_simps)
  with out s show ?thesis
    by (simp add: normalise_path_def normalise_start_def at_def as_out_simps walk_simps)
qed

text \<open>
  C26: a path of at most \<open>dst_size - 2\<close> bytes that starts with a slash is normalised to the path its
  components lead to from the root: repeated slashes and \<open>.\<close> disappear and \<open>..\<close> removes the
  component before it.
\<close>

theorem normalise_path_absolute:
  assumes "at src 0 = 47" "0 \<notin> set src" "length src + 1 < dst_size"
  shows "normalise_path sys_getcwd dst_size src is_abs = Inr (canonical (fold walk (components src) []) @ [0])"
  using assms by (rule normalise_path_from_root)

theorem normalise_path_absolute_witness:
  "normalise_path (\<lambda>_. Inl 0) 20 [47, 97, 47, 46, 46, 47, 47, 98, 47, 46] False = Inr [47, 98, 0]"
  using normalise_path_absolute [of "[47, 97, 47, 46, 46, 47, 47, 98, 47, 46]" 20 "\<lambda>_. Inl 0" False]
  by (simp add: at_def walk_def canonical_def)

text \<open>
  a relative path is read from the current directory in the same way when the directory name
  is a normalised path other than the root and both together fit.
\<close>

theorem normalise_path_relative:
  assumes "at src 0 \<noteq> 47" "0 \<notin> set src" "sys_getcwd dst_size = Inr (canonical st)" "st \<noteq> []" "names st"
    "length (canonical st) + length src + 2 < dst_size"
  shows "normalise_path sys_getcwd dst_size src True = Inr (canonical (fold walk (components src) st) @ [0])"
proof -
  note cwd = as_out_canonical [OF assms(4)]
  obtain out where out: "normalise_loop dst_size (as_out st) src = Inr out"
    using normalise_loop_fits [of "as_out st" src dst_size] assms(6) cwd by auto
  then have "normalise_finish out = canonical (fold walk (components src) st)"
    using assms(2,5) by (intro normalise_loop_walk) auto
  with out assms(1,3,6) cwd show ?thesis by (simp add: normalise_path_def normalise_start_def)
qed

theorem normalise_path_relative_witness:
  "normalise_path (\<lambda>_. Inr [47, 97]) 20 [46, 46, 47, 98] True = Inr [47, 98, 0]"
  using normalise_path_relative [of "[46, 46, 47, 98]" "\<lambda>_. Inr [47, 97]" 20 "[[97]]"]
  by (simp add: at_def walk_def canonical_def names_def)

lemma normalise_path_length:
  assumes "2 \<le> dst_size" "normalise_path sys_getcwd dst_size src is_abs = Inr r"
  shows "2 \<le> length r \<and> length r \<le> dst_size \<and> last r = 0"
proof -
  from assms(2) obtain out s out' where o: "normalise_start sys_getcwd dst_size src is_abs = Inr (out, s)"
    "normalise_loop dst_size out s = Inr out'" "r = normalise_finish out' @ [0]"
    by (auto simp: normalise_path_def split: sum.splits)
  have "length out < dst_size"
    using o(1) assms(1) by (auto simp: normalise_start_def split: if_splits sum.splits)
  then have "length out' < dst_size" using o(2) by (rule normalise_loop_bound)
  with assms(1) o(3) show ?thesis by (cases out') (auto simp: normalise_finish_def neq_Nil_conv)
qed

text \<open>
  C38: whatever the path and the current directory, the bytes stored in \<open>dst\<close>, the NUL included, are
  at least two and never more than \<open>dst_size\<close> when that is at least 2.
\<close>

theorem normalise_path_bounded:
  assumes "2 \<le> dst_size" "normalise_path sys_getcwd dst_size src is_abs = Inr r"
  shows "2 \<le> length r \<and> length r \<le> dst_size \<and> last r = 0"
  using assms by (rule normalise_path_length)

theorem normalise_path_bounded_witness:
  "\<exists>r. normalise_path (\<lambda>_. Inl 0) 4 [47, 97, 47] False = Inr r \<and> length r \<le> 4"
proof -
  have "normalise_path (\<lambda>_. Inl 0) 4 [47, 97, 47] False = Inr [47, 97, 0]" by code_simp
  with normalise_path_bounded [of 4 "\<lambda>_. Inl 0" "[47, 97, 47]" False "[47, 97, 0]"] show ?thesis by simp
qed

text \<open>
  in the root directory a relative path is normalised to a path with two leading slashes,
  which no entry of a map file matches.
\<close>

theorem normalise_path_root_cwd: "normalise_path (\<lambda>_. Inr [47]) 20 [97] True = Inr [47, 47, 97, 0]"
  by code_simp

section \<open>Mapping\<close>

text \<open>
  An entry of the map: the C chains \<open>struct filemap\<close> objects by offsets inside the buffer that
  holds the file; the model has them as a list of the two strings each entry points to, without
  their NULs. No entries is the null pointer \<open>filemap\<close>.
\<close>

record filemap =
  from_path :: "u8 list"
  to_path :: "u8 list"

text \<open>\<open>for (d = dst; *c && *c == *d; c += 1, d += 1)\<close>: what is left of the two strings.\<close>

fun filemap_match :: "u8 list \<Rightarrow> u8 list \<Rightarrow> u8 list \<times> u8 list" where
  "filemap_match (x # c) (y # d) = (if x = y then filemap_match c d else (x # c, y # d))"
| "filemap_match c d = (c, d)"

fun filemap_find :: "filemap list \<Rightarrow> u8 list \<Rightarrow> filemap option" where
  "filemap_find [] path = None"
| "filemap_find (ent # maps) path =
     (let (c, d) = filemap_match (from_path ent) path
      in if at c 0 = at d 0 then Some ent
         else if c = [] \<and> before_end (from_path ent) 1 = 47 then Some ent
         else filemap_find maps path)"

text \<open>\<open>for (; d >= end; d -= 1) d[pad] = *d\<close>; a write behind the buffer is \<open>None\<close>.\<close>

fun filemap_shift_up :: "u8 list \<Rightarrow> nat \<Rightarrow> nat \<Rightarrow> nat \<Rightarrow> u8 list option" where
  "filemap_shift_up buf stop pad d =
     (if d < stop then Some buf
      else if length buf \<le> d + pad then None
      else let buf = buf[d + pad := buf ! d]
           in if d = 0 then Some buf else filemap_shift_up buf stop pad (d - 1))"

declare filemap_shift_up.simps [simp del]

text \<open>\<open>for (d = dst + to_len; (*d = d[pad]) != 0; d += 1)\<close>.\<close>

function filemap_shift_down :: "u8 list \<Rightarrow> nat \<Rightarrow> nat \<Rightarrow> u8 list option" where
  "filemap_shift_down buf pad d =
     (if length buf \<le> d + pad then None
      else if buf ! (d + pad) = 0 then Some (buf[d := buf ! (d + pad)])
      else filemap_shift_down (buf[d := buf ! (d + pad)]) pad (d + 1))"
  by auto
termination by (relation "measure (\<lambda>(buf, pad, d). length buf - (d + pad))") auto

declare filemap_shift_down.simps [simp del]

definition store :: "u8 list \<Rightarrow> u8 list \<Rightarrow> u8 list option" where
  "store buf b = (if length b \<le> length buf then Some (b @ drop (length b) buf) else None)"

text \<open>
  \<open>dst\<close> is a buffer of \<open>dst_size\<close> bytes. The result is the returned number with the buffer, \<open>None\<close>
  for a write outside of it. (After a path that cannot be normalised the C buffer holds the part
  of it that fits; the caller does not use it.)
\<close>

definition filemap_translate :: "filemap \<Rightarrow> u8 list \<Rightarrow> (u32 \<times> u8 list) option" where
  "filemap_translate ent dst =
     (let from_len = length (from_path ent); to_len = length (to_path ent);
          finish = (\<lambda>dst. map_option (\<lambda>l. (of_nat l + 1, dst)) (strlen dst))
      in if before_end (from_path ent) 1 \<noteq> 47
         then Option.bind (store dst (to_path ent @ [0])) finish
         else if from_len < to_len
         then Option.bind (strlen dst) (\<lambda>d.
                if length dst < d + (to_len - from_len) + 1 then Some (- ENAMETOOLONG, dst)
                else Option.bind (filemap_shift_up dst from_len (to_len - from_len) d) (\<lambda>dst.
                     Option.bind (store dst (to_path ent)) finish))
         else if to_len < from_len
         then Option.bind (filemap_shift_down dst (from_len - to_len) to_len) (\<lambda>dst.
                Option.bind (store dst (to_path ent)) finish)
         else Option.bind (store dst (to_path ent)) finish)"

definition filemap_map ::
  "(nat \<Rightarrow> u32 + u8 list) \<Rightarrow> filemap list \<Rightarrow> u8 list \<Rightarrow> u8 list \<Rightarrow> (u32 \<times> u8 list) option" where
  "filemap_map sys_getcwd maps dst path =
     (case normalise_path sys_getcwd (length dst) path True of
        Inl e \<Rightarrow> Some (0, dst)
      | Inr r \<Rightarrow>
          Option.bind (store dst r) (\<lambda>dst.
            case filemap_find maps (cstr r) of
              None \<Rightarrow> Some (0, dst)
            | Some ent \<Rightarrow> filemap_translate ent dst))"


text \<open>The mapping of a normalised path, as the documentation of the map file states it.\<close>

definition applies :: "filemap \<Rightarrow> u8 list \<Rightarrow> bool" where
  "applies ent path \<longleftrightarrow> from_path ent = path \<or> (last (from_path ent) = 47 \<and> prefix (from_path ent) path)"

definition mapped :: "filemap \<Rightarrow> u8 list \<Rightarrow> u8 list" where
  "mapped ent path = (if last (from_path ent) = 47 then to_path ent @ drop (length (from_path ent)) path
     else to_path ent)"

definition entry_ok :: "filemap \<Rightarrow> bool" where
  "entry_ok ent \<longleftrightarrow> from_path ent \<noteq> [] \<and> 0 \<notin> set (from_path ent) \<and> 0 \<notin> set (to_path ent)"

lemma filemap_match_eq:
  "filemap_match c d = (c', d') \<Longrightarrow> \<exists>p. c = p @ c' \<and> d = p @ d' \<and> (c' = [] \<or> d' = [] \<or> hd c' \<noteq> hd d')"
proof (induction c d rule: filemap_match.induct)
  case (1 x c y d)
  show ?case
  proof (cases "x = y")
    case True
    with 1 obtain p where "c = p @ c'" "d = p @ d'" "c' = [] \<or> d' = [] \<or> hd c' \<noteq> hd d'" by auto
    with True show ?thesis by (intro exI [of _ "x # p"]) simp
  qed (use 1 in auto)
qed auto

lemma filemap_find_first:
  "list_all entry_ok maps \<Longrightarrow> 0 \<notin> set path \<Longrightarrow> filemap_find maps path = find (\<lambda>ent. applies ent path) maps"
proof (induction maps)
  case (Cons ent maps)
  obtain c d where cd: "filemap_match (from_path ent) path = (c, d)" by fastforce
  with filemap_match_eq [of "from_path ent" path] obtain p where p: "from_path ent = p @ c" "path = p @ d"
    "c = [] \<or> d = [] \<or> hd c \<noteq> hd d" by blast
  have ok: "from_path ent \<noteq> []" "0 \<notin> set c" "0 \<notin> set d" using Cons.prems p by (auto simp: entry_ok_def)
  then have "at c 0 = at d 0 \<longleftrightarrow> from_path ent = path"
    using p by (cases c; cases d) (auto simp: at_def)
  moreover have "c = [] \<longleftrightarrow> prefix (from_path ent) path"
    using p by (cases c; cases d) auto
  ultimately show ?case
    using Cons cd before_end_1 [OF ok(1)] by (auto simp: applies_def)
qed simp


text \<open>The two shifts move the tail of the path, its NUL included.\<close>

lemma filemap_shift_up_moves:
  "d + pad < length buf \<Longrightarrow> stop \<le> d + 1 \<Longrightarrow> filemap_shift_up buf stop pad d =
     Some (take (stop + pad) buf @ take (d + 1 - stop) (drop stop buf) @ drop (d + 1 + pad) buf)"
proof (induction buf stop pad d rule: filemap_shift_up.induct)
  case (1 buf stop pad d)
  show ?case
  proof (cases "d < stop")
    case True
    with 1(3) have "d + 1 = stop" by simp
    with True show ?thesis by (subst filemap_shift_up.simps) auto
  next
    case False
    let ?b = "buf[d + pad := buf ! d]"
    have low: "take (stop + pad) ?b = take (stop + pad) buf" using False by simp
    have high: "drop (d + pad) ?b = buf ! d # drop (d + pad + 1) buf"
      using 1(2) by (simp add: drop_update_swap flip: Cons_nth_drop_Suc)
    have mid: "take (d - stop) (drop stop ?b) = take (d - stop) (drop stop buf)"
      using False by (simp add: drop_update_swap)
    have snoc: "take (d + 1 - stop) (drop stop buf) = take (d - stop) (drop stop buf) @ [buf ! d]"
      using False 1(2) by (simp add: Suc_diff_le take_Suc_conv_app_nth)
    show ?thesis
    proof (cases "d = 0")
      case True
      have "?b = take pad ?b @ drop pad ?b" by (rule append_take_drop_id [symmetric])
      moreover have "stop = 0" using True False by simp
      ultimately have "?b = take pad buf @ buf ! 0 # drop (pad + 1) buf" using True low high by simp
      then show ?thesis using True 1(2) \<open>stop = 0\<close> snoc by (subst filemap_shift_up.simps) simp
    next
      case d0: False
      then have "filemap_shift_up ?b stop pad (d - 1) = Some (take (stop + pad) ?b @
          take (d - 1 + 1 - stop) (drop stop ?b) @ drop (d - 1 + 1 + pad) ?b)"
        using False 1 by simp
      moreover have "filemap_shift_up buf stop pad d = filemap_shift_up ?b stop pad (d - 1)"
        using False d0 1(2) by (subst filemap_shift_up.simps) simp
      ultimately show ?thesis using d0 low mid high snoc by simp
    qed
  qed
qed

lemma filemap_shift_down_strcpy: "0 < pad \<Longrightarrow> filemap_shift_down buf pad d = strcpy buf d (d + pad)"
proof (induction buf pad d rule: filemap_shift_down.induct)
  case (1 buf pad d)
  then show ?case
    by (subst filemap_shift_down.simps, subst strcpy.simps) (auto simp: ac_simps)
qed

lemma filemap_shift_down_moves:
  assumes "buf = pre @ b @ 0 # rest" "0 \<notin> set b" "d + pad = length pre" "0 < pad"
  shows "\<exists>rest'. filemap_shift_down buf pad d = Some (take d buf @ b @ 0 # rest')"
proof -
  have t: "cstr (drop (d + pad) buf) = b" "terminated (drop (d + pad) buf)"
    using assms cstr_append [OF assms(2), of rest] by simp_all
  have "strcpy buf d (d + pad) = memcpy_loop buf d (d + pad) (Suc (length b))"
    using strcpy_memcpy [OF t(2), of d] assms t(1) by simp
  also have "\<dots> = Some (take d buf @ take (Suc (length b)) (drop (d + pad) buf) @ drop (d + Suc (length b)) buf)"
    using assms by (intro memcpy_loop_copies) auto
  finally show ?thesis using assms filemap_shift_down_strcpy [OF assms(4)] by simp
qed

lemma strlen_append: "0 \<notin> set b \<Longrightarrow> strlen (b @ 0 # rest) = Some (length b)"
  using cstr_append [of b rest] strlen_cstr by simp

text \<open>Replacing the prefix \<open>from\<close> of the path in the buffer by \<open>to\<close>.\<close>

lemma filemap_translate_dir:
  assumes ok: "entry_ok ent" "last (from_path ent) = 47" and path: "path = from_path ent @ t" "0 \<notin> set path"
    and dst: "dst = path @ 0 # rest" and fit: "length (to_path ent @ t) < length dst"
  shows "\<exists>rest'. filemap_translate ent dst = Some (of_nat (length (to_path ent @ t)) + 1, to_path ent @ t @ 0 # rest')"
proof -
  let ?f = "from_path ent" and ?to = "to_path ent"
  let ?fin = "\<lambda>dst. map_option (\<lambda>l. (of_nat l + 1, dst)) (strlen dst)"
  have be: "before_end ?f 1 = 47" using ok before_end_1 by (simp add: entry_ok_def)
  have z: "0 \<notin> set (?to @ t)" using ok path by (auto simp: entry_ok_def)
  have fin: "Option.bind (store dst' ?to) ?fin = Some (of_nat (length (?to @ t)) + 1, ?to @ t @ 0 # r')"
    if "dst' = pre @ t @ 0 # r'" "length pre = length ?to" for dst' pre r'
    using that strlen_append [OF z, of r'] by (simp add: store_def)
  consider (up) "length ?f < length ?to" | (down) "length ?to < length ?f" | (same) "length ?to = length ?f" by linarith
  then show ?thesis
  proof cases
    case up
    let ?pad = "length ?to - length ?f"
    let ?dst = "take (length ?f + ?pad) dst @ take (length path + 1 - length ?f) (drop (length ?f) dst) @ drop (length path + 1 + ?pad) dst"
    have s: "strlen dst = Some (length path)" unfolding dst using path(2) by (rule strlen_append)
    have room: "length path + ?pad < length dst" using fit path up by simp
    have sh: "filemap_shift_up dst (length ?f) ?pad (length path) = Some ?dst"
      using room path by (intro filemap_shift_up_moves) auto
    have "take (length path + 1 - length ?f) (drop (length ?f) dst) = t @ [0]" using dst path by simp
    then have e: "?dst = take (length ?f + ?pad) dst @ t @ 0 # drop (length path + 1 + ?pad) dst" by simp
    have "length (take (length ?f + ?pad) dst) = length ?to" using up room path by simp
    from fin [OF e this] show ?thesis
      using be up s sh room by (auto simp: filemap_translate_def Let_def)
  next
    case down
    let ?pad = "length ?f - length ?to"
    obtain rest' where sh: "filemap_shift_down dst ?pad (length ?to) = Some (take (length ?to) dst @ t @ 0 # rest')"
      using filemap_shift_down_moves [of dst ?f t rest "length ?to" ?pad] dst path down by auto
    have "length (take (length ?to) dst) = length ?to" using down dst path by simp
    from fin [OF refl this] show ?thesis
      using be down sh by (auto simp: filemap_translate_def Let_def)
  next
    case same
    have e: "dst = ?f @ t @ 0 # rest" using dst path by simp
    from fin [OF e] same show ?thesis using be by (auto simp: filemap_translate_def Let_def)
  qed
qed

lemma components_subset: "c \<in> set (components s) \<Longrightarrow> set c \<subseteq> set s"
proof (induction s arbitrary: c)
  case (Cons x s)
  obtain c0 cs where cs: "components s = c0 # cs" by (cases "components s") auto
  then have "set c0 \<subseteq> set s" "\<forall>d \<in> set cs. set d \<subseteq> set s" using Cons.IH by auto
  with Cons.prems cs show ?case by (auto split: if_splits)
qed simp

lemma fold_walk_subset: "c \<in> set (fold walk cs st) \<Longrightarrow> c \<in> set cs \<union> set st"
proof (induction cs arbitrary: st)
  case (Cons a cs)
  have "set (walk a st) \<subseteq> insert a (set st)" by (cases st) (auto simp: walk_def)
  with Cons.IH [of "walk a st"] Cons.prems show ?case by auto
qed simp

lemma canonical_nonzero:
  assumes "0 \<notin> set src"
  shows "0 \<notin> set (canonical (fold walk (components src) []))"
proof
  assume "0 \<in> set (canonical (fold walk (components src) []))"
  then obtain c where "c \<in> set (fold walk (components src) [])" "0 \<in> set c"
    by (auto simp: canonical_def split: if_splits)
  with fold_walk_subset [of c "components src" "[]"] components_subset [of c src] assms show False by auto
qed

lemma filemap_translate_file:
  assumes "entry_ok ent" "last (from_path ent) \<noteq> 47" "length (to_path ent) < length dst"
  shows "\<exists>rest. filemap_translate ent dst = Some (of_nat (length (to_path ent)) + 1, to_path ent @ 0 # rest)"
  using assms before_end_1 [of "from_path ent"] strlen_append [of "to_path ent"]
  by (auto simp: filemap_translate_def entry_ok_def store_def)



end
