(* ===== verification/Filemap_Parse.thy ===== *)
theory Filemap_Parse
  imports Filemap
begin

text \<open>
  \<open>filemap_parse\<close> of \<^verbatim>\<open>src/ibcs/filemap.c\<close>: the map file as a list of entries.

  The C code parses the file in place; the model parses one line at a time, the line being the
  bytes up to the newline (which is what a read at its end gives) or to the end of the file.
  Positions are indices into the line. An entry keeps the two strings the offsets of its
  \<open>struct filemap\<close> point to. The offsets are 16 bits wide, so the model covers files in which
  consecutive entries are less than 65536 bytes apart.
\<close>

section \<open>Lines\<close>

definition IS_BLANK :: "u8 \<Rightarrow> bool" where
  "IS_BLANK c \<longleftrightarrow> c = 32 \<or> c = 9"

fun skip_blanks :: "u8 list \<Rightarrow> u8 list" where
  "skip_blanks [] = []"
| "skip_blanks (c # b) = (if IS_BLANK c then skip_blanks b else c # b)"

text \<open>Removing trailing bytes: \<open>for (b = end - 1; P(*b); b -= 1)\<close> and the NUL put behind \<open>b\<close>.\<close>

definition strip_end :: "(u8 \<Rightarrow> bool) \<Rightarrow> u8 list \<Rightarrow> u8 list" where
  "strip_end P s = rev (dropWhile P (rev s))"

definition prefixmap_token :: "u8 list" where
  "prefixmap_token = [112, 114, 101, 102, 105, 120, 109, 97, 112, 58]"

definition SKIP_STR :: "u8 list \<Rightarrow> u8 list \<Rightarrow> u8 list option" where
  "SKIP_STR s literal = (if take (length literal) s = literal then Some (drop (length literal) s) else None)"

text \<open>
  The search for an arrow between blanks, from position \<open>i\<close> of the text \<open>b\<close>: the position of the
  arrow. (The search goes on three bytes further when the blanks are missing.)
\<close>

function find_arrow :: "u8 list \<Rightarrow> nat \<Rightarrow> nat option" where
  "find_arrow b i =
     (if length b < i then None
      else case strstr (drop i b @ [0]) [45, 45, 62, 0] of
             Some (Some k) \<Rightarrow>
               let c = i + k
               in if 0 < c \<and> IS_BLANK (at b (c - 1)) \<and> IS_BLANK (at b (c + 3)) then Some c
                  else find_arrow b (c + 3)
           | _ \<Rightarrow> None)"
  by pat_completeness auto
termination by (relation "measure (\<lambda>(b, i). length b + 3 - i)") auto

declare find_arrow.simps [simp del]

datatype filemap_line = Skip | Bad | Entry filemap

definition parse_entry :: "u8 list \<Rightarrow> filemap_line" where
  "parse_entry b =
     (if at b 0 \<noteq> 47 then Bad
      else case find_arrow b 0 of
             None \<Rightarrow> Bad
           | Some c \<Rightarrow>
               let from = strip_end IS_BLANK (take c b);
                   rest = skip_blanks (drop (c + 4) b);
                   to = strip_end (\<lambda>x. x = 13 \<or> IS_BLANK x) rest
               in if at rest 0 \<noteq> 47 then Bad
                  else if (last from = 47 \<or> last to = 47) \<and> last to \<noteq> last from then Bad
                  else Entry \<lparr>from_path = from, to_path = to\<rparr>)"

definition parse_line :: "u8 list \<Rightarrow> filemap_line" where
  "parse_line line =
     (let b = skip_blanks line
      in if at b 0 = 35 \<or> b = [] then Skip
         else case SKIP_STR b prefixmap_token of
                None \<Rightarrow> Bad
              | Some rest \<Rightarrow> parse_entry (skip_blanks rest))"

text \<open>The lines of the file: the bytes before each newline, and what follows the last one.\<close>

fun file_lines :: "u8 list \<Rightarrow> u8 list list" where
  "file_lines [] = [[]]"
| "file_lines (x # s) =
     (if x = 10 then [] # file_lines s else (x # hd (file_lines s)) # tl (file_lines s))"

text \<open>The loop over the lines; \<open>Inl\<close> is the number of the first line that cannot be parsed.\<close>

fun parse_lines :: "nat \<Rightarrow> u8 list list \<Rightarrow> nat + filemap list" where
  "parse_lines line_no [] = Inr []"
| "parse_lines line_no (l # ls) =
     (case parse_line l of
        Skip \<Rightarrow> parse_lines (line_no + 1) ls
      | Bad \<Rightarrow> Inl (line_no + 1)
      | Entry e \<Rightarrow> map_sum id ((#) e) (parse_lines (line_no + 1) ls))"

text \<open>
  \<open>sys_file\<close> is what opening, measuring and reading the file gives. A failing system call and a bad
  line end the process with a message (\<open>ibcs_fatal_syscall\<close>, \<open>ibcs_fatal\<close>); otherwise the entries
  are installed and 0 is returned.
\<close>

datatype parse_result = Parsed "filemap list" | Fatal_syscall u32 | Fatal_line nat

definition filemap_parse :: "u32 + u8 list \<Rightarrow> parse_result" where
  "filemap_parse sys_file =
     (case sys_file of
        Inl e \<Rightarrow> Fatal_syscall e
      | Inr text \<Rightarrow>
          if text = [] then Parsed []
          else case parse_lines 0 (file_lines (cstr (text @ [0]))) of
                 Inl n \<Rightarrow> Fatal_line n
               | Inr maps \<Rightarrow> Parsed maps)"


section \<open>What is parsed\<close>

lemma skip_blanks_dropWhile: "skip_blanks b = dropWhile IS_BLANK b"
  by (induction b) auto

lemma strip_end_nonblank: "s \<noteq> [] \<Longrightarrow> \<not> P (last s) \<Longrightarrow> strip_end P s = s"
  by (cases s rule: rev_cases) (auto simp: strip_end_def)

lemma strip_end_append: "s \<noteq> [] \<Longrightarrow> \<not> P (last s) \<Longrightarrow> P x \<Longrightarrow> strip_end P (s @ [x]) = s"
  by (cases s rule: rev_cases) (auto simp: strip_end_def)

lemma strip_end_prefix: "prefix (strip_end P s) s"
  by (metis strip_end_def append_take_drop_id prefixI rev_append rev_rev_ident takeWhile_dropWhile_id)

lemma strip_end_hd: "s \<noteq> [] \<Longrightarrow> \<not> P (hd s) \<Longrightarrow> strip_end P s \<noteq> [] \<and> hd (strip_end P s) = hd s"
proof -
  assume s: "s \<noteq> []" "\<not> P (hd s)"
  then have "strip_end P s \<noteq> []" by (simp add: strip_end_def) (metis hd_in_set)
  moreover obtain t where "s = strip_end P s @ t" using strip_end_prefix [of P s] by (auto simp: prefix_def)
  ultimately show ?thesis by (metis hd_append2)
qed

lemma strip_end_set: "set (strip_end P s) \<subseteq> set s"
  using set_dropWhileD by (fastforce simp: strip_end_def)

lemma at_hd: "at b 0 \<noteq> 0 \<Longrightarrow> b \<noteq> [] \<and> hd b = at b 0"
  by (cases b) (auto simp: at_def)

lemma find_arrow_pos: "find_arrow b i = Some c \<Longrightarrow> 0 < c"
  by (induction b i rule: find_arrow.induct)
    (subst (asm) find_arrow.simps, auto simp: Let_def split: if_splits option.splits)

definition entry_wf :: "filemap \<Rightarrow> bool" where
  "entry_wf e \<longleftrightarrow> entry_ok e \<and> hd (from_path e) = 47 \<and> to_path e \<noteq> [] \<and> hd (to_path e) = 47 \<and>
     (last (from_path e) = 47 \<longleftrightarrow> last (to_path e) = 47)"

lemma parse_entry_wf: "0 \<notin> set b \<Longrightarrow> parse_entry b = Entry e \<Longrightarrow> entry_wf e"
proof -
  assume z: "0 \<notin> set b" and p: "parse_entry b = Entry e"
  from p obtain c where c: "at b 0 = 47" "find_arrow b 0 = Some c" "at (skip_blanks (drop (c + 4) b)) 0 = 47"
    "from_path e = strip_end IS_BLANK (take c b)"
    "to_path e = strip_end (\<lambda>x. x = 13 \<or> IS_BLANK x) (skip_blanks (drop (c + 4) b))"
    "\<not> ((last (from_path e) = 47 \<or> last (to_path e) = 47) \<and> last (to_path e) \<noteq> last (from_path e))"
    by (auto simp: parse_entry_def Let_def split: if_splits option.splits)
  have "take c b \<noteq> []" "hd (take c b) = 47"
    using at_hd [of b] c(1) find_arrow_pos [OF c(2)] by (auto simp: hd_conv_nth)
  then have f: "from_path e \<noteq> []" "hd (from_path e) = 47"
    using strip_end_hd [of "take c b" IS_BLANK] unfolding c(4) by (auto simp: IS_BLANK_def)
  have t: "to_path e \<noteq> []" "hd (to_path e) = 47"
    using strip_end_hd [of "skip_blanks (drop (c + 4) b)" "\<lambda>x. x = 13 \<or> IS_BLANK x"] at_hd c(3)
    unfolding c(5) by (auto simp: IS_BLANK_def)
  have "set (from_path e) \<subseteq> set b" "set (to_path e) \<subseteq> set b"
    using strip_end_set [of IS_BLANK "take c b"] strip_end_set [of "\<lambda>x. x = 13 \<or> IS_BLANK x" "skip_blanks (drop (c + 4) b)"]
    unfolding c(4,5) skip_blanks_dropWhile by (fastforce dest: in_set_takeD set_dropWhileD in_set_dropD)+
  with z f t c(6) show ?thesis by (auto simp: entry_wf_def entry_ok_def)
qed

lemma parse_line_wf:
  assumes "0 \<notin> set l" "parse_line l = Entry e"
  shows "entry_wf e"
proof -
  let ?b = "skip_blanks (drop (length prefixmap_token) (skip_blanks l))"
  have "parse_entry ?b = Entry e"
    using assms(2) by (auto simp: parse_line_def SKIP_STR_def Let_def split: if_splits option.splits)
  moreover have "0 \<notin> set ?b"
    using assms(1) unfolding skip_blanks_dropWhile by (meson in_set_dropD set_dropWhileD)
  ultimately show ?thesis using parse_entry_wf by blast
qed

lemma parse_lines_wf: "\<forall>l \<in> set ls. 0 \<notin> set l \<Longrightarrow> parse_lines n ls = Inr es \<Longrightarrow> list_all entry_wf es"
proof (induction ls arbitrary: n es)
  case (Cons l ls)
  then show ?case
    by (cases "parse_line l"; cases "parse_lines (n + 1) ls") (auto intro: parse_line_wf)
qed simp

lemma file_lines_nonempty [simp]: "file_lines s \<noteq> []"
  by (induction s) auto

lemma file_lines_subset: "l \<in> set (file_lines s) \<Longrightarrow> set l \<subseteq> set s"
proof (induction s arbitrary: l)
  case (Cons x s)
  obtain c0 cs where cs: "file_lines s = c0 # cs" by (cases "file_lines s") auto
  then have "set c0 \<subseteq> set s" "\<forall>d \<in> set cs. set d \<subseteq> set s" using Cons.IH by auto
  with Cons.prems cs show ?case by (auto split: if_splits)
qed simp

section \<open>Printing and parsing\<close>

definition arrow :: "u8 list" where
  "arrow = [45, 45, 62]"

definition print_entry :: "filemap \<Rightarrow> u8 list" where
  "print_entry e = prefixmap_token @ [32] @ from_path e @ [32] @ arrow @ [32] @ to_path e"

definition print_map :: "filemap list \<Rightarrow> u8 list" where
  "print_map es = concat (map (\<lambda>e. print_entry e @ [10]) es)"

text \<open>
  The entries that can be written to a map file: no newline in the paths, no blank (or carriage
  return) at their ends, no arrow inside the first one.
\<close>

definition printable :: "filemap \<Rightarrow> bool" where
  "printable e \<longleftrightarrow> entry_wf e \<and> 10 \<notin> set (from_path e) \<and> 10 \<notin> set (to_path e) \<and>
     \<not> IS_BLANK (last (from_path e)) \<and> \<not> IS_BLANK (last (to_path e)) \<and> last (to_path e) \<noteq> 13 \<and>
     \<not> sublist arrow (from_path e)"

lemma arrow_position:
  assumes "\<not> sublist arrow f" "j \<le> length f"
  shows "\<not> prefix arrow (drop j (f @ 32 # r))"
proof
  assume "prefix arrow (drop j (f @ 32 # r))"
  then obtain t where t: "drop j (f @ 32 # r) = arrow @ t" by (auto simp: prefix_def)
  show False
  proof (cases "j + 3 \<le> length f")
    case True
    have "take 3 (drop j (f @ 32 # r)) = take 3 (drop j f)" using True by simp
    then have "drop j f = arrow @ drop 3 (drop j f)"
      using t by (metis append_take_drop_id arrow_def append_eq_conv_conj length_Cons list.size(3) numeral_3_eq_3)
    then have "sublist arrow f" by (metis append_take_drop_id sublist_def)
    with assms(1) show False ..
  next
    case False
    then have "drop j (f @ 32 # r) ! (length f - j) = 32" using assms(2) by (simp add: nth_append)
    moreover have "length f - j < 3" using False by simp
    ultimately show False using t by (auto simp: arrow_def less_Suc_eq numeral_3_eq_3)
  qed
qed

lemma find_arrow_print:
  assumes "\<not> sublist arrow f" "0 \<notin> set f" "0 \<notin> set t"
  shows "find_arrow (f @ [32] @ arrow @ [32] @ t) 0 = Some (length f + 1)"
proof -
  let ?b = "f @ [32] @ arrow @ [32] @ t"
  have z: "0 \<notin> set ?b" using assms(2,3) by (auto simp: arrow_def)
  have c: "cstr (?b @ [0]) = ?b" "terminated (?b @ [0])" "cstr [45, 45, 62, 0] = arrow"
    using cstr_append [OF z, of "[]"] by (simp_all add: arrow_def)
  have n: "terminated [45, 45, 62, 0]" "arrow \<noteq> []" by (simp_all add: arrow_def)
  obtain r where r: "strstr (?b @ [0]) [45, 45, 62, 0] = Some r"
    "case r of Some i \<Rightarrow> prefix arrow (drop i ?b) \<and> (\<forall>j<i. \<not> prefix arrow (drop j ?b)) | None \<Rightarrow> \<not> sublist arrow ?b"
    using strstr_finds [OF c(2) n(1)] n(2) unfolding c by blast
  have "sublist arrow ?b" by (metis append.assoc sublist_appendI)
  with r(2) obtain i where i: "r = Some i" "prefix arrow (drop i ?b)" "\<forall>j<i. \<not> prefix arrow (drop j ?b)"
    by (auto split: option.splits)
  have "prefix arrow (drop (length f + 1) ?b)" by simp
  then have "\<not> length f + 1 < i" using i(3) by blast
  moreover have "\<not> i \<le> length f"
    using arrow_position [OF assms(1), of i "arrow @ [32] @ t"] i(2) by auto
  ultimately have "i = length f + 1" by simp
  with r(1) i(1) show ?thesis
    by (subst find_arrow.simps) (simp add: at_def nth_append arrow_def IS_BLANK_def)
qed

lemma parse_print_line:
  assumes "printable e"
  shows "parse_line (print_entry e) = Entry e"
proof -
  let ?f = "from_path e" and ?t = "to_path e"
  have w: "?f \<noteq> []" "hd ?f = 47" "?t \<noteq> []" "hd ?t = 47" "0 \<notin> set ?f" "0 \<notin> set ?t"
    "last ?f = 47 \<longleftrightarrow> last ?t = 47" and nb: "\<not> IS_BLANK (last ?f)" "\<not> IS_BLANK (last ?t)" "last ?t \<noteq> 13"
    and na: "\<not> sublist arrow ?f"
    using assms by (auto simp: printable_def entry_wf_def entry_ok_def)
  let ?b = "?f @ [32] @ arrow @ [32] @ ?t"
  have skip: "skip_blanks (x # s) = x # s" if "x = 47 \<or> x = 112" for x s using that by (auto simp: IS_BLANK_def)
  obtain f' t' where ft: "?f = 47 # f'" "?t = 47 # t'" using w by (metis list.exhaust_sel)
  have a: "at ?b 0 = 47" using ft by (simp add: at_def)
  have fr: "strip_end IS_BLANK (take (length ?f + 1) ?b) = ?f"
    using strip_end_append [of ?f IS_BLANK 32] w nb by (simp add: IS_BLANK_def)
  have rest: "skip_blanks (drop (length ?f + 1 + 4) ?b) = ?t"
  proof -
    have "drop (length (?f @ [32] @ arrow @ [32])) ((?f @ [32] @ arrow @ [32]) @ ?t) = ?t" by (rule append_eq_conv_conj [THEN iffD1, THEN conjunct2, symmetric, OF refl])
    moreover have "length (?f @ [32] @ arrow @ [32]) = length ?f + 1 + 4" by (simp add: arrow_def)
    ultimately have "drop (length ?f + 1 + 4) ?b = ?t" by simp
    then show ?thesis using ft(2) skip [of 47 t'] by simp
  qed
  have to: "strip_end (\<lambda>x. x = 13 \<or> IS_BLANK x) ?t = ?t" using w nb by (intro strip_end_nonblank) auto
  have t0: "at ?t 0 = 47" using ft by (simp add: at_def)
  have sl: "\<not> ((last ?f = 47 \<or> last ?t = 47) \<and> last ?t \<noteq> last ?f)" using w(7) by auto
  have "parse_entry ?b = Entry \<lparr>from_path = ?f, to_path = ?t\<rparr>"
    unfolding parse_entry_def find_arrow_print [OF na w(5,6)] option.case Let_def fr rest to
    using a t0 sl by simp
  moreover have "parse_line (print_entry e) = parse_entry (skip_blanks (32 # ?b))"
    by (simp add: parse_line_def print_entry_def SKIP_STR_def prefixmap_token_def IS_BLANK_def at_def)
  moreover have "skip_blanks (32 # ?b) = ?b" using ft skip [of 47] by (simp add: IS_BLANK_def)
  ultimately show ?thesis by simp
qed

lemma file_lines_append: "10 \<notin> set l \<Longrightarrow> file_lines (l @ 10 # s) = l # file_lines s"
  by (induction l) auto

lemma parse_print_lines:
  "list_all printable es \<Longrightarrow> parse_lines n (file_lines (print_map es)) = Inr es"
proof (induction es arbitrary: n)
  case Nil
  then show ?case by (simp add: print_map_def parse_line_def)
next
  case (Cons e es)
  have "10 \<notin> set (print_entry e)"
    using Cons.prems by (auto simp: print_entry_def prefixmap_token_def arrow_def printable_def)
  then have "file_lines (print_map (e # es)) = print_entry e # file_lines (print_map es)"
    using file_lines_append by (simp add: print_map_def)
  with Cons show ?case by (simp add: parse_print_line)
qed

lemma print_map_nonzero: "list_all printable es \<Longrightarrow> 0 \<notin> set (print_map es)"
  by (auto simp: print_map_def print_entry_def prefixmap_token_def arrow_def printable_def entry_wf_def
      entry_ok_def list_all_iff)

lemma filemap_parse_print: "list_all printable es \<Longrightarrow> filemap_parse (Inr (print_map es)) = Parsed es"
  using parse_print_lines [of es 0] cstr_append [OF print_map_nonzero, of es "[]"]
  by (cases es) (auto simp: filemap_parse_def print_map_def print_entry_def)


lemma printable_example: "printable \<lparr>from_path = [47, 97], to_path = [47, 98]\<rparr>"
  by (simp add: printable_def entry_wf_def entry_ok_def IS_BLANK_def arrow_def sublist_Cons_right)


text \<open>
  every entry the parser accepts has two absolute paths without NUL bytes, and either both or
  neither of them ends in a slash; these are the entries \<open>filemap_map\<close> expects.
\<close>

theorem filemap_parse_wf:
  assumes "filemap_parse (Inr text) = Parsed maps"
  shows "list_all entry_wf maps"
proof (cases "text = []")
  case False
  with assms have "parse_lines 0 (file_lines (cstr (text @ [0]))) = Inr maps"
    by (auto simp: filemap_parse_def split: sum.splits)
  then show ?thesis
    using file_lines_subset cstr_nonzero by (intro parse_lines_wf) blast+
qed (use assms in \<open>simp add: filemap_parse_def\<close>)


theorem filemap_parse_wf_witness:
  "list_all entry_wf [\<lparr>from_path = [47, 97], to_path = [47, 98]\<rparr>]"
  by (rule filemap_parse_wf [OF filemap_parse_print]) (simp add: printable_example)

end
