(* ===== verification/Brk.thy ===== *)
theory Brk
  imports Prelude
begin

text \<open>
  The heap of the emulated program: the \<open>brk\<close> emulation of \<^verbatim>\<open>src/ibcs/linux26-compat.c\<close> and the
  \<open>mmap\<close> helpers of \<^verbatim>\<open>src/include/ibcs-us/linux26-compat/linux/mm.h\<close> and \<^verbatim>\<open>src/ibcs/sysent.c\<close>
  that decide where it lies.

  The heap is one anonymous mapping, resized with \<open>mremap\<close>. The system calls \<open>mmap2\<close> and \<open>mremap\<close>
  are parameters: functions of the kernel state \<open>'k\<close> that give the returned word and the new
  state. Addresses and lengths are 32-bit words and wrap around.
\<close>

section \<open>Pages\<close>

definition PAGE_SIZE :: u32 where
  "PAGE_SIZE = 4096"

definition PAGE_MASK :: u32 where
  "PAGE_MASK = NOT (PAGE_SIZE - 1)"

definition PAGE_ALIGN :: "u32 \<Rightarrow> u32" where
  "PAGE_ALIGN x = (x + PAGE_SIZE - 1) AND PAGE_MASK"

section \<open>Operations\<close>

record mm_struct =
  brk :: u32
  ibcs_brk_mmap_addr :: u32
  ibcs_brk_mmap_max :: u32
  ibcs_brk_mmap_min :: u32
  ibcs_bss_mmap_addr :: u32
  ibcs_bss_mmap_len :: u32
  ibcs_high_mmap_addr :: u32
  ibcs_high_mmap_len :: u32

record mmap_args =
  mm_addr :: u32
  mm_len :: u32
  mm_prot :: u32
  mm_flags :: u32
  mm_fd :: "u32 option"
  mm_pgoff :: u32

type_synonym 'k mmap_call = "mmap_args \<Rightarrow> 'k \<Rightarrow> u32 \<times> 'k"
type_synonym 'k mremap_call = "u32 \<Rightarrow> u32 \<Rightarrow> u32 \<Rightarrow> 'k \<Rightarrow> u32 \<times> 'k"

definition PROT_READ :: u32 where "PROT_READ = 1"
definition PROT_WRITE :: u32 where "PROT_WRITE = 2"
definition PROT_EXEC :: u32 where "PROT_EXEC = 4"
definition MAP_PRIVATE :: u32 where "MAP_PRIVATE = 0x02"
definition MAP_FIXED :: u32 where "MAP_FIXED = 0x10"
definition MAP_ANONYMOUS :: u32 where "MAP_ANONYMOUS = 0x20"
definition MAP_32BIT :: u32 where "MAP_32BIT = 0x40"
definition MAP_DENYWRITE :: u32 where "MAP_DENYWRITE = 0x800"

definition do_mmap_pgoff ::
  "'k mmap_call \<Rightarrow> u32 option \<Rightarrow> u32 \<Rightarrow> u32 \<Rightarrow> u32 \<Rightarrow> u32 \<Rightarrow> u32 \<Rightarrow> 'k \<Rightarrow> u32 \<times> 'k" where
  "do_mmap_pgoff sys_mmap2 file addr len prot flag pgoff =
     sys_mmap2 \<lparr>mm_addr = addr, mm_len = len, mm_prot = prot,
       mm_flags = (if file = None then flag OR MAP_ANONYMOUS else flag), mm_fd = file, mm_pgoff = pgoff\<rparr>"

definition do_mmap ::
  "'k mmap_call \<Rightarrow> u32 option \<Rightarrow> u32 \<Rightarrow> u32 \<Rightarrow> u32 \<Rightarrow> u32 \<Rightarrow> u32 \<Rightarrow> 'k \<Rightarrow> u32 \<times> 'k" where
  "do_mmap sys_mmap2 file addr len prot flag offset k =
     (if offset + PAGE_ALIGN len < offset \<or> offset AND NOT PAGE_MASK \<noteq> 0 then (- EINVAL, k)
      else do_mmap_pgoff sys_mmap2 file addr len prot flag (drop_bit 12 offset) k)"

text \<open>
  The loaders map the program through \<open>binfmt_mmap\<close>, which makes code writable (so that system
  calls can be patched) and remembers the highest mapping and the highest one without a file.
\<close>

definition binfmt_mmap ::
  "'k mmap_call \<Rightarrow> u32 option \<Rightarrow> u32 \<Rightarrow> u32 \<Rightarrow> u32 \<Rightarrow> u32 \<Rightarrow> u32 \<Rightarrow> mm_struct \<times> 'k \<Rightarrow> u32 \<times> mm_struct \<times> 'k" where
  "binfmt_mmap sys_mmap2 file addr len prot flag offset = (\<lambda>(mm, k).
     let patch = prot AND PROT_EXEC \<noteq> 0 \<and> (prot AND PROT_READ = 0 \<or> prot AND PROT_WRITE = 0);
         mmap_prot = (if patch then prot OR PROT_READ OR PROT_WRITE else prot);
         mmap_flag = (if patch then flag AND NOT MAP_DENYWRITE else flag);
         (result, k) = do_mmap sys_mmap2 file addr len mmap_prot mmap_flag offset k
     in if IBCS_IS_ERR result then (result, mm, k)
        else let mm = (if file = None \<and> ibcs_bss_mmap_addr mm < result
                       then mm\<lparr>ibcs_bss_mmap_addr := result, ibcs_bss_mmap_len := len\<rparr> else mm);
                 mm = (if ibcs_high_mmap_addr mm < result
                       then mm\<lparr>ibcs_high_mmap_addr := result, ibcs_high_mmap_len := len\<rparr> else mm)
             in (result, mm, k))"

text \<open>The boolean results say whether the messages of the two \<open>printk\<close> calls are issued.\<close>

definition init_brk :: "'k mmap_call \<Rightarrow> mm_struct \<times> 'k \<Rightarrow> (bool \<times> bool) \<times> mm_struct \<times> 'k" where
  "init_brk sys_mmap2 = (\<lambda>(mm, k).
     let (failed, mm, k) =
       (if 0 < ibcs_high_mmap_len mm \<and> ibcs_bss_mmap_addr mm = ibcs_high_mmap_addr mm
        then (False,
              mm\<lparr>ibcs_brk_mmap_addr := ibcs_bss_mmap_addr mm AND PAGE_MASK,
                 ibcs_brk_mmap_max := PAGE_ALIGN (ibcs_bss_mmap_addr mm + ibcs_bss_mmap_len mm),
                 ibcs_brk_mmap_min := brk mm\<rparr>, k)
        else let addr = PAGE_ALIGN (brk mm);
                 (new_addr, k) = do_mmap sys_mmap2 None addr PAGE_SIZE
                   (PROT_READ OR PROT_WRITE OR PROT_EXEC)
                   (MAP_PRIVATE OR MAP_ANONYMOUS OR MAP_FIXED OR MAP_32BIT) 0 k
             in if IBCS_IS_ERR new_addr then (True, mm, k)
                else (False,
                      mm\<lparr>ibcs_brk_mmap_addr := new_addr, ibcs_brk_mmap_max := new_addr + PAGE_SIZE,
                         ibcs_brk_mmap_min := new_addr\<rparr>, k))
     in ((failed, brk mm < ibcs_brk_mmap_min mm \<or> ibcs_brk_mmap_max mm \<le> brk mm), mm, k))"

definition do_brk :: "'k mremap_call \<Rightarrow> u32 \<Rightarrow> u32 \<Rightarrow> mm_struct \<times> 'k \<Rightarrow> u32 \<times> mm_struct \<times> 'k" where
  "do_brk sys_mremap addr len = (\<lambda>(mm, k).
     let new_brk_end = PAGE_ALIGN (addr + len)
     in if new_brk_end \<noteq> ibcs_brk_mmap_max mm then
          if new_brk_end < ibcs_brk_mmap_min mm then (- ENOMEM, mm, k)
          else let new_brk_end =
                     (if new_brk_end = ibcs_brk_mmap_min mm then PAGE_ALIGN (ibcs_brk_mmap_min mm + 1)
                      else new_brk_end);
                   (new_addr, k) = sys_mremap (ibcs_brk_mmap_addr mm)
                     (ibcs_brk_mmap_max mm - ibcs_brk_mmap_addr mm) (new_brk_end - ibcs_brk_mmap_addr mm) k
               in if IBCS_IS_ERR addr then (new_addr, mm, k)
                  else (addr, mm\<lparr>ibcs_brk_mmap_max := new_brk_end\<rparr>, k)
        else (addr, mm, k))"

definition linux26_brk :: "'k mremap_call \<Rightarrow> u32 \<Rightarrow> mm_struct \<times> 'k \<Rightarrow> u32 \<times> mm_struct \<times> 'k" where
  "linux26_brk sys_mremap new_brk = (\<lambda>(mm, k).
     if new_brk < ibcs_brk_mmap_min mm then (- ENOMEM, mm, k)
     else let new_brk_page = PAGE_ALIGN new_brk;
              old_brk_page = PAGE_ALIGN (brk mm);
              (retval, mm, k) =
                (if new_brk_page \<noteq> old_brk_page
                 then do_brk sys_mremap old_brk_page (new_brk_page - old_brk_page) (mm, k)
                 else (0, mm, k))
          in if IBCS_IS_ERR retval then (retval, mm, k)
             else (new_brk, mm\<lparr>brk := new_brk\<rparr>, k))"

section \<open>Page arithmetic\<close>

lemma and_not_mask: "x AND NOT (mask n) = push_bit n (drop_bit n x)" for x :: "'a::len word"
  by (rule bit_word_eqI) (auto simp: bit_simps)

lemma PAGE_ALIGN_alt: "PAGE_ALIGN x = push_bit 12 (drop_bit 12 (x + 4095))"
proof -
  have m: "PAGE_MASK = NOT (mask 12)" by (simp add: PAGE_MASK_def PAGE_SIZE_def mask_eq_exp_minus_1)
  have a: "x + PAGE_SIZE - 1 = x + 4095" by (simp add: PAGE_SIZE_def)
  show ?thesis unfolding PAGE_ALIGN_def m a by (rule and_not_mask)
qed

lemma unat_push_drop: "unat (push_bit 12 (drop_bit 12 x)) = unat x div 4096 * 4096" for x :: u32
proof -
  have "unat x < 2 ^ 32" using unsigned_less [of x, where ?'a = nat] by simp
  then have "unat x div 4096 * 4096 < 2 ^ 32"
    by (meson div_times_less_eq_dividend le_less_trans)
  then show ?thesis
    by (simp add: push_bit_eq_mult drop_bit_eq_div unat_word_ariths unat_div)
qed

lemma unat_PAGE_ALIGN:
  "unat (PAGE_ALIGN x) = (if unat x + 4095 < 2 ^ 32 then (unat x + 4095) div 4096 * 4096 else 0)"
proof -
  have b: "unat x < 2 ^ 32" using unsigned_less [of x, where ?'a = nat] by simp
  have "unat (x + 4095) = (unat x + 4095) mod 2 ^ 32" by (simp add: unat_word_ariths)
  moreover have "(unat x + 4095) mod 2 ^ 32 = unat x + 4095 - 2 ^ 32" if "\<not> unat x + 4095 < 2 ^ 32"
    using that b by (simp add: mod_if)
  ultimately show ?thesis using b by (auto simp: PAGE_ALIGN_alt unat_push_drop)
qed


lemma PAGE_ALIGN_ge: "unat x + 4095 < 2 ^ 32 \<Longrightarrow> x \<le> PAGE_ALIGN x"
  unfolding word_le_nat_alt unat_PAGE_ALIGN by simp

lemma PAGE_ALIGN_next:
  assumes "unat x + 4096 < 2 ^ 32"
  shows "x \<le> PAGE_ALIGN (x + 1)"
proof -
  have "unat (x + 1) = unat x + 1" using assms by (simp add: unat_word_ariths)
  then show ?thesis using assms by (simp add: word_le_nat_alt unat_PAGE_ALIGN)
qed

lemma PAGE_ALIGN_idem: "PAGE_ALIGN (PAGE_ALIGN x) = PAGE_ALIGN x"
proof -
  have "(unat x + 4095) div 4096 < 1048576" if "unat x + 4095 < 2 ^ 32"
    using that by (simp add: less_mult_imp_div_less)
  then show ?thesis unfolding word_unat_eq_iff unat_PAGE_ALIGN by auto
qed

section \<open>The heap is backed by memory\<close>

text \<open>
  The documented behaviour of \<open>mremap\<close> the emulation relies on, and a kernel in which it always
  succeeds: \<open>heap k\<close> is the address and the length of the mapping that holds the heap.
\<close>

definition mremap_spec :: "'k mremap_call \<Rightarrow> ('k \<Rightarrow> u32 \<times> u32) \<Rightarrow> bool" where
  "mremap_spec sys_mremap heap \<longleftrightarrow> (\<forall>addr old new k r k'. heap k = (addr, old) \<longrightarrow>
     sys_mremap addr old new k = (r, k') \<longrightarrow>
       (IBCS_IS_ERR r \<and> heap k' = heap k) \<or> (r = addr \<and> heap k' = (addr, new)))"

definition mremap_succeeds :: "'k mremap_call \<Rightarrow> bool" where
  "mremap_succeeds sys_mremap \<longleftrightarrow> (\<forall>addr old new k. \<not> IBCS_IS_ERR (fst (sys_mremap addr old new k)))"

text \<open>
  The break lies in the mapping: above its lower limit and not behind the last page of it. (The
  last two pages of the address space are never part of the heap.)
\<close>

definition brk_inv :: "('k \<Rightarrow> u32 \<times> u32) \<Rightarrow> mm_struct \<times> 'k \<Rightarrow> bool" where
  "brk_inv heap = (\<lambda>(mm, k).
     heap k = (ibcs_brk_mmap_addr mm, ibcs_brk_mmap_max mm - ibcs_brk_mmap_addr mm) \<and>
     ibcs_brk_mmap_min mm \<le> brk mm \<and> unat (brk mm) + 8192 < 2 ^ 32 \<and>
     PAGE_ALIGN (brk mm) \<le> ibcs_brk_mmap_max mm)"

lemma do_brk_eq:
  assumes "\<not> IBCS_IS_ERR addr" "PAGE_ALIGN (addr + len) = p" "ibcs_brk_mmap_min mm \<le> p"
    "mremap_spec sys_mremap heap" "mremap_succeeds sys_mremap" "unat (ibcs_brk_mmap_min mm) + 4096 < 2 ^ 32"
    "heap k = (ibcs_brk_mmap_addr mm, ibcs_brk_mmap_max mm - ibcs_brk_mmap_addr mm)"
  shows "\<exists>q k'. do_brk sys_mremap addr len (mm, k) = (addr, mm\<lparr>ibcs_brk_mmap_max := q\<rparr>, k') \<and> p \<le> q \<and>
    heap k' = (ibcs_brk_mmap_addr mm, q - ibcs_brk_mmap_addr mm)"
proof (cases "p = ibcs_brk_mmap_max mm")
  case True
  then show ?thesis using assms by (auto simp: do_brk_def Let_def)
next
  case False
  let ?q = "if p = ibcs_brk_mmap_min mm then PAGE_ALIGN (ibcs_brk_mmap_min mm + 1) else p"
  obtain r k' where r: "sys_mremap (ibcs_brk_mmap_addr mm) (ibcs_brk_mmap_max mm - ibcs_brk_mmap_addr mm)
      (?q - ibcs_brk_mmap_addr mm) k = (r, k')" by fastforce
  have "\<not> IBCS_IS_ERR r" using assms(5) r unfolding mremap_succeeds_def by (metis fst_conv)
  then have h: "heap k' = (ibcs_brk_mmap_addr mm, ?q - ibcs_brk_mmap_addr mm)"
    using assms(4,7) r unfolding mremap_spec_def by blast
  have q: "p \<le> ?q" using PAGE_ALIGN_next [OF assms(6)] by auto
  have "\<not> p < ibcs_brk_mmap_min mm" using assms(3) by simp
  then have "do_brk sys_mremap addr len (mm, k) = (addr, mm\<lparr>ibcs_brk_mmap_max := ?q\<rparr>, k')"
    using False assms(1,2) r by (simp add: do_brk_def Let_def)
  with h q show ?thesis by blast
qed

lemma PAGE_ALIGN_not_err: "unat x + 8192 < 2 ^ 32 \<Longrightarrow> \<not> IBCS_IS_ERR (PAGE_ALIGN x)"
  by (simp add: IBCS_IS_ERR_iff unat_PAGE_ALIGN)

lemma linux26_brk_eq:
  assumes "ibcs_brk_mmap_min mm \<le> new_brk" "PAGE_ALIGN new_brk \<noteq> PAGE_ALIGN (brk mm)"
    "do_brk sys_mremap (PAGE_ALIGN (brk mm)) (PAGE_ALIGN new_brk - PAGE_ALIGN (brk mm)) (mm, k) = (r, mm', k')"
    "\<not> IBCS_IS_ERR r"
  shows "linux26_brk sys_mremap new_brk (mm, k) = (new_brk, mm'\<lparr>brk := new_brk\<rparr>, k')"
  using assms leD [OF assms(1)] by (simp add: linux26_brk_def Let_def)

text \<open>
  C30: as long as \<open>mremap\<close> succeeds, moving the break to an address above the lower limit returns
  that address, and the mapping covers the new break: the invariant holds again.
\<close>

theorem linux26_brk_moves:
  assumes inv: "brk_inv heap (mm, k)" and spec: "mremap_spec sys_mremap heap" "mremap_succeeds sys_mremap"
    and new: "ibcs_brk_mmap_min mm \<le> new_brk" "unat new_brk + 8192 < 2 ^ 32"
  shows "\<exists>mm' k'. linux26_brk sys_mremap new_brk (mm, k) = (new_brk, mm', k') \<and> brk mm' = new_brk \<and>
    ibcs_brk_mmap_min mm' = ibcs_brk_mmap_min mm \<and> brk_inv heap (mm', k')"
proof -
  have i: "heap k = (ibcs_brk_mmap_addr mm, ibcs_brk_mmap_max mm - ibcs_brk_mmap_addr mm)"
    "ibcs_brk_mmap_min mm \<le> brk mm" "unat (brk mm) + 8192 < 2 ^ 32" "PAGE_ALIGN (brk mm) \<le> ibcs_brk_mmap_max mm"
    using inv by (auto simp: brk_inv_def)
  let ?old = "PAGE_ALIGN (brk mm)" and ?new = "PAGE_ALIGN new_brk"
  show ?thesis
  proof (cases "?new = ?old")
    case True
    then have "linux26_brk sys_mremap new_brk (mm, k) = (new_brk, mm\<lparr>brk := new_brk\<rparr>, k)"
      using leD [OF new(1)] by (simp add: linux26_brk_def IBCS_IS_ERR_def)
    moreover have "brk_inv heap (mm\<lparr>brk := new_brk\<rparr>, k)" using i new True by (simp add: brk_inv_def)
    ultimately show ?thesis by simp
  next
    case False
    have n: "new_brk \<le> ?new" using new(2) by (intro PAGE_ALIGN_ge) simp
    have "\<exists>q k'. do_brk sys_mremap ?old (?new - ?old) (mm, k) = (?old, mm\<lparr>ibcs_brk_mmap_max := q\<rparr>, k') \<and>
        ?new \<le> q \<and> heap k' = (ibcs_brk_mmap_addr mm, q - ibcs_brk_mmap_addr mm)"
    proof (rule do_brk_eq [OF PAGE_ALIGN_not_err [OF i(3)] _ _ spec _ i(1)])
      show "PAGE_ALIGN (?old + (?new - ?old)) = ?new" by (simp add: PAGE_ALIGN_idem)
      show "ibcs_brk_mmap_min mm \<le> ?new" using new(1) n by simp
      show "unat (ibcs_brk_mmap_min mm) + 4096 < 2 ^ 32" using i(2,3) by (simp add: word_le_nat_alt)
    qed
    then obtain q k' where q: "do_brk sys_mremap ?old (?new - ?old) (mm, k) = (?old, mm\<lparr>ibcs_brk_mmap_max := q\<rparr>, k')"
      "?new \<le> q" "heap k' = (ibcs_brk_mmap_addr mm, q - ibcs_brk_mmap_addr mm)" by blast
    have "linux26_brk sys_mremap new_brk (mm, k) = (new_brk, mm\<lparr>ibcs_brk_mmap_max := q, brk := new_brk\<rparr>, k')"
      using linux26_brk_eq [OF new(1) False q(1) PAGE_ALIGN_not_err [OF i(3)]] by simp
    moreover have "brk_inv heap (mm\<lparr>ibcs_brk_mmap_max := q, brk := new_brk\<rparr>, k')"
      using q new by (simp add: brk_inv_def)
    ultimately show ?thesis by simp
  qed
qed

definition brk_example :: mm_struct where
  "brk_example = \<lparr>brk = 0x5010, ibcs_brk_mmap_addr = 0x5000, ibcs_brk_mmap_max = 0x6000,
     ibcs_brk_mmap_min = 0x5000, ibcs_bss_mmap_addr = 0x5000, ibcs_bss_mmap_len = 0x1000,
     ibcs_high_mmap_addr = 0x5000, ibcs_high_mmap_len = 0x1000\<rparr>"

lemma brk_example_inv: "brk_inv (Pair 0x5000) (brk_example, 0x1000 :: u32)"
  by (simp add: brk_inv_def brk_example_def PAGE_ALIGN_def PAGE_SIZE_def PAGE_MASK_def)

theorem linux26_brk_moves_witness:
  "\<exists>mm' k'. linux26_brk (\<lambda>addr old new k. (0x5000, new)) 0x9001 (brk_example, 0x1000) = (0x9001, mm', k') \<and>
     brk mm' = 0x9001"
proof -
  have "mremap_spec (\<lambda>addr old new k. (0x5000, new)) (Pair 0x5000)" by (simp add: mremap_spec_def)
  moreover have "mremap_succeeds (\<lambda>addr old new k. (0x5000, new))"
    by (simp add: mremap_succeeds_def IBCS_IS_ERR_def)
  ultimately show ?thesis
    using linux26_brk_moves [where heap = "Pair 0x5000" and mm = brk_example and k = "0x1000" and new_brk = "0x9001" and sys_mremap = "\<lambda>addr old new k. (0x5000, new)"]
      brk_example_inv by (auto simp: brk_example_def)
qed

text \<open>
  a failure of \<open>mremap\<close> goes unnoticed: \<open>do_brk\<close> tests the old break instead of the result, so
  the break moves although the mapping did not.
\<close>

theorem linux26_brk_unnoticed:
  assumes inv: "brk_inv heap (mm, k)" and new: "ibcs_brk_mmap_max mm < PAGE_ALIGN new_brk"
    "unat new_brk + 8192 < 2 ^ 32" "ibcs_brk_mmap_min mm \<le> new_brk"
    and fail: "\<And>addr old new. sys_mremap addr old new k = (- ENOMEM, k)"
  shows "\<exists>mm'. linux26_brk sys_mremap new_brk (mm, k) = (new_brk, mm', k) \<and> brk mm' = new_brk \<and> \<not> brk_inv heap (mm', k)"
proof -
  have i: "heap k = (ibcs_brk_mmap_addr mm, ibcs_brk_mmap_max mm - ibcs_brk_mmap_addr mm)"
    "unat (brk mm) + 8192 < 2 ^ 32" "PAGE_ALIGN (brk mm) \<le> ibcs_brk_mmap_max mm"
    using inv by (auto simp: brk_inv_def)
  let ?old = "PAGE_ALIGN (brk mm)" and ?new = "PAGE_ALIGN new_brk"
  let ?q = "if ?new = ibcs_brk_mmap_min mm then PAGE_ALIGN (ibcs_brk_mmap_min mm + 1) else ?new"
  have "new_brk \<le> ?new" using new(2) by (intro PAGE_ALIGN_ge) simp
  then have nl: "\<not> ?new < ibcs_brk_mmap_min mm" "?new \<noteq> ibcs_brk_mmap_max mm" using new by auto
  have "do_brk sys_mremap ?old (?new - ?old) (mm, k) = (?old, mm\<lparr>ibcs_brk_mmap_max := ?q\<rparr>, k)"
    using nl PAGE_ALIGN_not_err [OF i(2)] fail by (simp add: do_brk_def Let_def PAGE_ALIGN_idem)
  then have "linux26_brk sys_mremap new_brk (mm, k) = (new_brk, mm\<lparr>ibcs_brk_mmap_max := ?q, brk := new_brk\<rparr>, k)"
    using linux26_brk_eq [OF new(3) _ _ PAGE_ALIGN_not_err [OF i(2)]] i(3) new(1) by fastforce
  moreover have "unat (ibcs_brk_mmap_min mm) + 4096 < 2 ^ 32" using new(2,3) by (simp add: word_le_nat_alt)
  then have "?new \<le> ?q" using PAGE_ALIGN_next by auto
  then have "ibcs_brk_mmap_max mm \<noteq> ?q" using new(1) by auto
  then have "\<not> brk_inv heap (mm\<lparr>ibcs_brk_mmap_max := ?q, brk := new_brk\<rparr>, k)"
    using i(1) by (simp add: brk_inv_def)
  ultimately show ?thesis by auto
qed

theorem linux26_brk_unnoticed_witness:
  "\<exists>mm'. linux26_brk (\<lambda>addr old new k. (- ENOMEM, k)) 0x9001 (brk_example, 0x1000 :: u32) = (0x9001, mm', 0x1000) \<and>
     \<not> brk_inv (Pair 0x5000) (mm', 0x1000)"
proof -
  have "ibcs_brk_mmap_max brk_example < PAGE_ALIGN 0x9001" "ibcs_brk_mmap_min brk_example \<le> 0x9001"
    by (simp_all add: brk_example_def PAGE_ALIGN_def PAGE_SIZE_def PAGE_MASK_def)
  from linux26_brk_unnoticed [OF brk_example_inv this(1) _ this(2), of "\<lambda>addr old new k. (- ENOMEM, k)"]
  show ?thesis by auto
qed

end
