(* ===== verification/Exec_Domain.thy ===== *)
theory Exec_Domain
  imports Prelude
begin

text \<open>
  The registry of execution domains of \<^verbatim>\<open>src/ibcs/linux26-compat.c\<close>: the personalities (SCO,
  Xenix, ...) register a domain each, and \<open>set_personality\<close> selects one by its number.

  Domains are objects in a store, linked by their \<open>next\<close> pointers; a pointer is a number and
  \<open>None\<close> the null pointer. The loops over the list are partial functions: \<open>None\<close> is a walk that
  does not end, which happens on a cyclic list only.
\<close>

section \<open>Operations\<close>

record exec_domain =
  pers_low :: u8
  pers_high :: u8
  next_domain :: "nat option"

record domains =
  store :: "nat \<Rightarrow> exec_domain"
  exec_domains :: "nat option"

text \<open>The macro \<open>personality\<close>: the low byte of a personality is its number.\<close>

definition personality :: "u32 \<Rightarrow> u32" where
  "personality pers = pers AND 0xff"

partial_function (option) lookup_loop :: "(nat \<Rightarrow> exec_domain) \<Rightarrow> u32 \<Rightarrow> nat option \<Rightarrow> nat option option" where
  "lookup_loop st pers ep =
     (case ep of
        None \<Rightarrow> Some None
      | Some e \<Rightarrow>
          if ucast (pers_low (st e)) \<le> pers \<and> pers \<le> ucast (pers_high (st e)) then Some (Some e)
          else lookup_loop st pers (next_domain (st e)))"

definition lookup_exec_domain :: "u32 \<Rightarrow> domains \<Rightarrow> nat option option" where
  "lookup_exec_domain pers d = lookup_loop (store d) (personality pers) (exec_domains d)"

partial_function (option) registered_loop :: "(nat \<Rightarrow> exec_domain) \<Rightarrow> nat \<Rightarrow> nat option \<Rightarrow> bool option" where
  "registered_loop st ep tmp =
     (case tmp of
        None \<Rightarrow> Some False
      | Some t \<Rightarrow> if t = ep then Some True else registered_loop st ep (next_domain (st t)))"

definition register_exec_domain :: "nat option \<Rightarrow> domains \<Rightarrow> (u32 \<times> domains) option" where
  "register_exec_domain ep d =
     (case ep of
        None \<Rightarrow> Some (- EINVAL, d)
      | Some e \<Rightarrow>
          if next_domain (store d e) \<noteq> None then Some (- EBUSY, d)
          else case registered_loop (store d) e (exec_domains d) of
                 None \<Rightarrow> None
               | Some True \<Rightarrow> Some (- EBUSY, d)
               | Some False \<Rightarrow>
                   Some (0, \<lparr>store = (store d)(e := (store d e)\<lparr>next_domain := exec_domains d\<rparr>),
                             exec_domains = Some e\<rparr>))"

text \<open>
  \<open>epp\<close> is the address of a pointer: the head of the list, or the \<open>next\<close> of the domain \<open>p\<close>.
\<close>

definition deref_epp :: "domains \<Rightarrow> nat option \<Rightarrow> nat option" where
  "deref_epp d epp = (case epp of None \<Rightarrow> exec_domains d | Some p \<Rightarrow> next_domain (store d p))"

definition set_epp :: "nat option \<Rightarrow> nat option \<Rightarrow> domains \<Rightarrow> domains" where
  "set_epp epp v d = (case epp of
       None \<Rightarrow> d\<lparr>exec_domains := v\<rparr>
     | Some p \<Rightarrow> d\<lparr>store := (store d)(p := (store d p)\<lparr>next_domain := v\<rparr>)\<rparr>)"

partial_function (option) unregister_loop :: "domains \<Rightarrow> nat \<Rightarrow> nat option \<Rightarrow> (u32 \<times> domains) option" where
  "unregister_loop d ep epp =
     (case deref_epp d epp of
        None \<Rightarrow> Some (- EINVAL, d)
      | Some t \<Rightarrow>
          if t = ep then
            let d = set_epp epp (next_domain (store d ep)) d
            in Some (0, d\<lparr>store := (store d)(ep := (store d ep)\<lparr>next_domain := None\<rparr>)\<rparr>)
          else unregister_loop d ep (Some t))"

definition unregister_exec_domain :: "nat \<Rightarrow> domains \<Rightarrow> (u32 \<times> domains) option" where
  "unregister_exec_domain ep d = unregister_loop d ep None"

record task_personality =
  exec_domain :: "nat option"
  task_personality :: u32

definition set_personality :: "u32 \<Rightarrow> domains \<Rightarrow> (u32 \<times> task_personality) option" where
  "set_personality pers d =
     map_option (\<lambda>e. (0, \<lparr>exec_domain = e, task_personality = pers\<rparr>)) (lookup_exec_domain pers d)"

section \<open>The list of domains\<close>

fun seg :: "(nat \<Rightarrow> exec_domain) \<Rightarrow> nat option \<Rightarrow> nat list \<Rightarrow> bool" where
  "seg st p [] \<longleftrightarrow> p = None"
| "seg st p (x # xs) \<longleftrightarrow> p = Some x \<and> seg st (next_domain (st x)) xs"

text \<open>The registered domains, most recent first; domains that are not in the list have no \<open>next\<close>.\<close>

definition domains_ok :: "domains \<Rightarrow> nat list \<Rightarrow> bool" where
  "domains_ok d xs \<longleftrightarrow> seg (store d) (exec_domains d) xs \<and> distinct xs \<and>
     (\<forall>e. e \<notin> set xs \<longrightarrow> next_domain (store d e) = None)"

definition covers :: "(nat \<Rightarrow> exec_domain) \<Rightarrow> u32 \<Rightarrow> nat \<Rightarrow> bool" where
  "covers st pers e \<longleftrightarrow> ucast (pers_low (st e)) \<le> pers \<and> pers \<le> ucast (pers_high (st e))"

lemma lookup_loop_seg: "seg st p xs \<Longrightarrow> lookup_loop st pers p = Some (find (covers st pers) xs)"
  by (induction xs arbitrary: p) (subst lookup_loop.simps, auto simp: covers_def)+

lemma registered_loop_seg: "seg st p xs \<Longrightarrow> registered_loop st e p = Some (e \<in> set xs)"
  by (induction xs arbitrary: p) (subst registered_loop.simps, auto)+

lemma seg_update: "seg st p xs \<Longrightarrow> e \<notin> set xs \<Longrightarrow> seg (st(e := v)) p xs"
  by (induction xs arbitrary: p) auto

lemma seg_next: "seg st p (ys @ x # zs) \<Longrightarrow> seg st (next_domain (st x)) zs"
  by (induction ys arbitrary: p) auto

text \<open>Unlinking the domain behind \<open>ys\<close>.\<close>

lemma seg_unlink:
  assumes "seg st p (ys @ x # zs)" "distinct (ys @ x # zs)" "ys \<noteq> []"
  shows "seg (st(last ys := (st (last ys))\<lparr>next_domain := next_domain (st x)\<rparr>)) p (ys @ zs)"
  using assms
proof (induction ys arbitrary: p)
  case (Cons y ys)
  show ?case
  proof (cases "ys = []")
    case True
    let ?st = "st(y := (st y)\<lparr>next_domain := next_domain (st x)\<rparr>)"
    have "seg ?st (next_domain (st x)) zs" using Cons.prems True by (intro seg_update) auto
    then show ?thesis using Cons.prems True by (simp add: fun_upd_def)
  next
    case False
    with Cons show ?thesis by (auto simp: last_in_set)
  qed
qed simp

lemma deref_epp_seg:
  "seg (store d) (exec_domains d) (ys @ zs) \<Longrightarrow>
   deref_epp d (if ys = [] then None else Some (last ys)) = (if zs = [] then None else Some (hd zs))"
proof (cases "ys = []")
  case True
  assume "seg (store d) (exec_domains d) (ys @ zs)"
  with True show ?thesis by (cases zs) (auto simp: deref_epp_def)
next
  case False
  assume s: "seg (store d) (exec_domains d) (ys @ zs)"
  from False have "ys @ zs = butlast ys @ last ys # zs" by simp
  with s have "seg (store d) (next_domain (store d (last ys))) zs" by (metis seg_next)
  with False show ?thesis by (cases zs) (auto simp: deref_epp_def)
qed

lemma unregister_loop_miss:
  "seg (store d) (exec_domains d) (ys @ zs) \<Longrightarrow> e \<notin> set zs \<Longrightarrow>
   unregister_loop d e (if ys = [] then None else Some (last ys)) = Some (- EINVAL, d)"
proof (induction zs arbitrary: ys)
  case Nil
  then show ?case using deref_epp_seg [of d ys "[]"] by (subst unregister_loop.simps) simp
next
  case (Cons z zs)
  have "unregister_loop d e (Some z) = Some (- EINVAL, d)"
    using Cons.IH [of "ys @ [z]"] Cons.prems by simp
  then show ?case
    using deref_epp_seg [OF Cons.prems(1)] Cons.prems(2) by (subst unregister_loop.simps) simp
qed

lemma unregister_loop_hit:
  "seg (store d) (exec_domains d) (ys @ zs) \<Longrightarrow> e \<in> set zs \<Longrightarrow> distinct (ys @ zs) \<Longrightarrow>
   \<exists>d'. unregister_loop d e (if ys = [] then None else Some (last ys)) = Some (0, d') \<and>
     seg (store d') (exec_domains d') (ys @ remove1 e zs) \<and>
     (\<forall>x. pers_low (store d' x) = pers_low (store d x) \<and> pers_high (store d' x) = pers_high (store d x)) \<and>
     (\<forall>x. x \<notin> set (ys @ remove1 e zs) \<longrightarrow> next_domain (store d' x) = (if x = e then None else next_domain (store d x)))"
proof (induction zs arbitrary: ys)
  case (Cons z zs)
  note der = deref_epp_seg [OF Cons.prems(1)]
  show ?case
  proof (cases "z = e")
    case False
    then obtain d' where d': "unregister_loop d e (Some z) = Some (0, d')"
      "seg (store d') (exec_domains d') (ys @ z # remove1 e zs)"
      "\<forall>x. pers_low (store d' x) = pers_low (store d x) \<and> pers_high (store d' x) = pers_high (store d x)"
      "\<forall>x. x \<notin> set (ys @ z # remove1 e zs) \<longrightarrow> next_domain (store d' x) = (if x = e then None else next_domain (store d x))"
      using Cons.IH [of "ys @ [z]"] Cons.prems by auto
    with False der show ?thesis by (subst unregister_loop.simps) auto
  next
    case True
    let ?epp = "if ys = [] then None else Some (last ys)"
    let ?d = "set_epp ?epp (next_domain (store d e)) d"
    let ?d' = "?d\<lparr>store := (store ?d)(e := (store ?d e)\<lparr>next_domain := None\<rparr>)\<rparr>"
    have "seg (store ?d) (exec_domains ?d) (ys @ zs)"
      using Cons.prems True seg_unlink [of "store d" "exec_domains d" ys e zs]
      by (cases "ys = []") (auto simp: set_epp_def)
    then have "seg (store ?d') (exec_domains ?d') (ys @ zs)"
      using Cons.prems(3) True by (auto intro!: seg_update)
    moreover have "unregister_loop d e ?epp = Some (0, ?d')"
      using der True by (subst unregister_loop.simps) (simp add: Let_def)
    moreover have "last ys \<in> set ys" if "ys \<noteq> []" using that by simp
    then have "\<forall>x. x \<notin> set (ys @ zs) \<longrightarrow> next_domain (store ?d' x) = (if x = e then None else next_domain (store d x))"
      "\<forall>x. pers_low (store ?d' x) = pers_low (store d x) \<and> pers_high (store ?d' x) = pers_high (store d x)"
      by (auto simp: set_epp_def split: option.splits)
    ultimately show ?thesis using True by auto
  qed
qed simp

section \<open>The registry as an interface\<close>

text \<open>
  What a personality relies on: registering puts a domain in front, unregistering takes it out,
  neither changes what the domains cover, and a lookup finds the first domain that covers.
\<close>

locale domain_registry =
  fixes ok :: "'r \<Rightarrow> nat list \<Rightarrow> bool"
    and register :: "nat \<Rightarrow> 'r \<Rightarrow> (u32 \<times> 'r) option"
    and unregister :: "nat \<Rightarrow> 'r \<Rightarrow> (u32 \<times> 'r) option"
    and lookup :: "u32 \<Rightarrow> 'r \<Rightarrow> nat option option"
    and sel :: "'r \<Rightarrow> u32 \<Rightarrow> nat \<Rightarrow> bool"
  assumes register_ok: "ok r xs \<Longrightarrow> e \<notin> set xs \<Longrightarrow>
      \<exists>r'. register e r = Some (0, r') \<and> ok r' (e # xs) \<and> sel r' = sel r"
    and register_busy: "ok r xs \<Longrightarrow> e \<in> set xs \<Longrightarrow> register e r = Some (- EBUSY, r)"
    and unregister_ok: "ok r xs \<Longrightarrow> e \<in> set xs \<Longrightarrow>
      \<exists>r'. unregister e r = Some (0, r') \<and> ok r' (remove1 e xs) \<and> sel r' = sel r"
    and unregister_missing: "ok r xs \<Longrightarrow> e \<notin> set xs \<Longrightarrow> unregister e r = Some (- EINVAL, r)"
    and lookup_ok: "ok r xs \<Longrightarrow> lookup p r = Some (find (sel r p) xs)"
begin

lemma lookup_registered:
  assumes "ok r xs" "e \<notin> set xs"
  shows "\<exists>r'. register e r = Some (0, r') \<and>
    (\<forall>p. lookup p r' = (if sel r p e then Some (Some e) else lookup p r))"
proof -
  from register_ok [OF assms] obtain r' where r': "register e r = Some (0, r')" "ok r' (e # xs)" "sel r' = sel r"
    by blast
  with lookup_ok [OF r'(2)] lookup_ok [OF assms(1)] show ?thesis by auto
qed

lemma register_unregister:
  assumes "ok r xs" "e \<notin> set xs"
  shows "\<exists>r1 r2. register e r = Some (0, r1) \<and> unregister e r1 = Some (0, r2) \<and> ok r2 xs \<and>
    (\<forall>p. lookup p r2 = lookup p r)"
proof -
  from register_ok [OF assms] obtain r1 where r1: "register e r = Some (0, r1)" "ok r1 (e # xs)" "sel r1 = sel r"
    by blast
  from unregister_ok [OF r1(2), of e] obtain r2 where r2: "unregister e r1 = Some (0, r2)" "ok r2 xs" "sel r2 = sel r1"
    by auto
  with r1 lookup_ok [OF r2(2)] lookup_ok [OF assms(1)] show ?thesis by auto
qed

end

definition selects :: "domains \<Rightarrow> u32 \<Rightarrow> nat \<Rightarrow> bool" where
  "selects d pers e = covers (store d) (personality pers) e"

lemma selects_eq:
  "\<forall>x. pers_low (store d' x) = pers_low (store d x) \<and> pers_high (store d' x) = pers_high (store d x) \<Longrightarrow>
   selects d' = selects d"
  by (auto simp: selects_def covers_def fun_eq_iff)

interpretation dr: domain_registry domains_ok "\<lambda>e. register_exec_domain (Some e)"
  unregister_exec_domain lookup_exec_domain selects
proof
  fix d xs e p
  assume ok: "domains_ok d xs"
  then have s: "seg (store d) (exec_domains d) xs" "distinct xs"
    "\<forall>e. e \<notin> set xs \<longrightarrow> next_domain (store d e) = None" by (auto simp: domains_ok_def)
  show "lookup_exec_domain p d = Some (find (selects d p) xs)"
    unfolding lookup_exec_domain_def lookup_loop_seg [OF s(1)] by (simp add: selects_def [abs_def])
  show "register_exec_domain (Some e) d = Some (- EBUSY, d)" if "e \<in> set xs"
    using that registered_loop_seg [OF s(1), of e] by (simp add: register_exec_domain_def)
  show "\<exists>d'. register_exec_domain (Some e) d = Some (0, d') \<and> domains_ok d' (e # xs) \<and> selects d' = selects d"
    if e: "e \<notin> set xs"
  proof -
    let ?d = "\<lparr>store = (store d)(e := (store d e)\<lparr>next_domain := exec_domains d\<rparr>), exec_domains = Some e\<rparr>"
    have "register_exec_domain (Some e) d = Some (0, ?d)"
      using e s(3) registered_loop_seg [OF s(1), of e] by (simp add: register_exec_domain_def)
    moreover have "domains_ok ?d (e # xs)" using s e by (simp add: domains_ok_def seg_update)
    moreover have "selects ?d = selects d" by (rule selects_eq) simp
    ultimately show ?thesis by blast
  qed
  show "unregister_exec_domain e d = Some (- EINVAL, d)" if "e \<notin> set xs"
    using unregister_loop_miss [of d "[]" xs e] s that by (simp add: unregister_exec_domain_def)
  show "\<exists>d'. unregister_exec_domain e d = Some (0, d') \<and> domains_ok d' (remove1 e xs) \<and> selects d' = selects d"
    if e: "e \<in> set xs"
  proof -
    from unregister_loop_hit [of d "[]" xs e] s e obtain d' where d': "unregister_exec_domain e d = Some (0, d')"
      "seg (store d') (exec_domains d') (remove1 e xs)"
      "\<forall>x. pers_low (store d' x) = pers_low (store d x) \<and> pers_high (store d' x) = pers_high (store d x)"
      "\<forall>x. x \<notin> set (remove1 e xs) \<longrightarrow> next_domain (store d' x) = (if x = e then None else next_domain (store d x))"
      by (auto simp: unregister_exec_domain_def)
    moreover have "domains_ok d' (remove1 e xs)"
      using d'(2,4) s(2,3) by (auto simp: domains_ok_def)
    ultimately show ?thesis using selects_eq by blast
  qed
qed


lemma personality_low_byte: "personality p = ucast (ucast p :: u8)"
proof -
  have m: "(0xff :: u32) = mask 8" by (simp add: mask_eq_exp_minus_1)
  show ?thesis unfolding personality_def m by (rule bit_word_eqI) (auto simp: bit_simps)
qed

lemma ucast_u8_le: "(ucast a :: u32) \<le> ucast b \<longleftrightarrow> a \<le> b" for a b :: u8
proof -
  have "unat (ucast x :: u32) = unat x" for x :: u8
    using unsigned_less [of x, where ?'a = nat] by (simp add: unsigned_ucast_eq take_bit_nat_eq_self)
  then show ?thesis by (simp add: word_le_nat_alt)
qed

text \<open>
  \<open>set_personality\<close> after registering a domain selects it for every personality in its range
  and the domain selected before for every other one.
\<close>

theorem set_personality_registered:
  assumes "domains_ok d xs" "e \<notin> set xs"
  shows "\<exists>d'. register_exec_domain (Some e) d = Some (0, d') \<and>
    (\<forall>p. set_personality p d' =
      (if pers_low (store d e) \<le> ucast p \<and> ucast p \<le> pers_high (store d e)
       then Some (0, \<lparr>exec_domain = Some e, task_personality = p\<rparr>) else set_personality p d))"
proof -
  have "covers (store d) (personality p) e \<longleftrightarrow> pers_low (store d e) \<le> ucast p \<and> ucast p \<le> pers_high (store d e)" for p
    by (simp add: covers_def personality_low_byte ucast_u8_le)
  then show ?thesis using dr.lookup_registered [OF assms] by (auto simp: set_personality_def selects_def)
qed

definition domains_example :: domains where
  "domains_example = \<lparr>store = (\<lambda>e. \<lparr>pers_low = of_nat e, pers_high = of_nat e + 1, next_domain = None\<rparr>), exec_domains = None\<rparr>"

lemma domains_example_ok: "domains_ok domains_example []"
  by (simp add: domains_ok_def domains_example_def)


theorem set_personality_registered_witness:
  "\<exists>d'. register_exec_domain (Some 5) domains_example = Some (0, d') \<and>
     set_personality 0x4000006 d' = Some (0, \<lparr>exec_domain = Some 5, task_personality = 0x4000006\<rparr>)"
  using set_personality_registered [OF domains_example_ok, of 5]
  by (auto simp: domains_example_def dest: spec [of _ "0x4000006"])

end
