(* ===== verification/Chrdev.thy ===== *)
theory Chrdev
  imports Cstring
begin

text \<open>
  The table of emulated character devices, \<open>chrdev_list\<close> of \<^verbatim>\<open>src/ibcs/linux26-compat.c\<close>.

  The table has five slots; a slot with major number 0 is free. Names are pointers to
  NUL-terminated strings (\<open>None\<close> is the null pointer, which \<open>strcmp\<close> must not be given: the
  result \<open>None\<close> of an operation is that crash); \<open>chrdev_fops\<close> is a pointer too. The
  \<open>linux26_chrdev_open\<close> function of a driver is the parameter \<open>drv_open\<close>: it maps the driver, the
  name behind \<^verbatim>\<open>/dev/\<close>, the mode and the flags to a device number or a negated errno.
\<close>

record linux26_chrdev =
  chrdev_major :: u32
  chrdev_name :: "u8 list option"
  chrdev_fops :: "nat option"

definition chrdev_free :: linux26_chrdev where
  "chrdev_free = \<lparr>chrdev_major = 0, chrdev_name = None, chrdev_fops = None\<rparr>"

definition chrdev_list_size :: nat where
  "chrdev_list_size = 5"

definition name_eq :: "u8 list option \<Rightarrow> u8 list \<Rightarrow> bool option" where
  "name_eq slot name = Option.bind slot (\<lambda>s. map_option (\<lambda>r. r = 0) (strcmp s name))"

text \<open>
  The loop from the last slot down: \<open>Inl\<close> is an early return, \<open>Inr\<close> the free slot with the lowest
  index, if there is one.
\<close>

fun register_chrdev_loop ::
  "linux26_chrdev list \<Rightarrow> u32 \<Rightarrow> u8 list \<Rightarrow> nat \<Rightarrow> nat option \<Rightarrow> (u32 + nat option) option" where
  "register_chrdev_loop t major name 0 slot = Some (Inr slot)"
| "register_chrdev_loop t major name (Suc i) slot =
     (if chrdev_major (t ! i) = 0 then register_chrdev_loop t major name i (Some i)
      else if chrdev_major (t ! i) = major then Some (Inl (- EEXIST))
      else Option.bind (name_eq (chrdev_name (t ! i)) name) (\<lambda>same.
             if same then Some (Inl (- EEXIST)) else register_chrdev_loop t major name i slot))"

definition register_chrdev ::
  "u32 \<Rightarrow> u8 list \<Rightarrow> nat \<Rightarrow> linux26_chrdev list \<Rightarrow> (u32 \<times> linux26_chrdev list) option" where
  "register_chrdev major name fops t =
     Option.bind (register_chrdev_loop t major name (length t) None) (\<lambda>r.
       Some (case r of
               Inl e \<Rightarrow> (e, t)
             | Inr None \<Rightarrow> (- ENOMEM, t)
             | Inr (Some i) \<Rightarrow>
                 (0, t[i := \<lparr>chrdev_major = major, chrdev_name = Some name, chrdev_fops = Some fops\<rparr>])))"

fun unregister_chrdev_loop :: "u32 \<Rightarrow> u8 list \<Rightarrow> nat \<Rightarrow> linux26_chrdev list \<Rightarrow> linux26_chrdev list option" where
  "unregister_chrdev_loop major name 0 t = Some t"
| "unregister_chrdev_loop major name (Suc i) t =
     (if chrdev_major (t ! i) = major then unregister_chrdev_loop major name i (t[i := chrdev_free])
      else Option.bind (name_eq (chrdev_name (t ! i)) name) (\<lambda>same.
             unregister_chrdev_loop major name i (if same then t[i := chrdev_free] else t)))"

definition unregister_chrdev :: "u32 \<Rightarrow> u8 list \<Rightarrow> linux26_chrdev list \<Rightarrow> linux26_chrdev list option" where
  "unregister_chrdev major name t = unregister_chrdev_loop major name (length t) t"

fun find_chrdev_loop ::
  "(nat \<Rightarrow> u8 list \<Rightarrow> u32 \<Rightarrow> u32 \<Rightarrow> u32) \<Rightarrow> u8 list \<Rightarrow> u32 \<Rightarrow> u32 \<Rightarrow> linux26_chrdev list \<Rightarrow>
   nat \<Rightarrow> u32 \<times> nat option" where
  "find_chrdev_loop drv_open path mode flags [] i = (- ENOENT, None)"
| "find_chrdev_loop drv_open path mode flags (c # t) i =
     (case chrdev_fops c of
        None \<Rightarrow> find_chrdev_loop drv_open path mode flags t (i + 1)
      | Some fops \<Rightarrow>
          let rdev = drv_open fops (drop 5 path) mode flags
          in if IBCS_IS_ERR rdev then find_chrdev_loop drv_open path mode flags t (i + 1)
             else (rdev, Some i))"

text \<open>The result is the device number with the slot found (stored through \<open>chrdev\<close>).\<close>

definition find_chrdev ::
  "(nat \<Rightarrow> u8 list \<Rightarrow> u32 \<Rightarrow> u32 \<Rightarrow> u32) \<Rightarrow> u8 list \<Rightarrow> u32 \<Rightarrow> u32 \<Rightarrow> linux26_chrdev list \<Rightarrow>
   (u32 \<times> nat option) option" where
  "find_chrdev drv_open path mode flags t =
     Option.bind (strncmp [47, 100, 101, 118, 47, 0] path 5) (\<lambda>r.
       Some (if r = 0 then find_chrdev_loop drv_open path mode flags t 0 else (- ENOENT, None)))"

section \<open>Registered devices\<close>

definition slot_ok :: "linux26_chrdev \<Rightarrow> bool" where
  "slot_ok c \<longleftrightarrow> c = chrdev_free \<or>
     (chrdev_major c \<noteq> 0 \<and> chrdev_fops c \<noteq> None \<and> (\<exists>n. chrdev_name c = Some n \<and> terminated n))"

definition in_use :: "linux26_chrdev \<Rightarrow> bool" where
  "in_use c \<longleftrightarrow> chrdev_major c \<noteq> 0"

definition clashes :: "u32 \<Rightarrow> u8 list \<Rightarrow> linux26_chrdev \<Rightarrow> bool" where
  "clashes major name c \<longleftrightarrow> in_use c \<and> (chrdev_major c = major \<or> cstr (the (chrdev_name c)) = cstr name)"

lemma strcmp_zero: "terminated s \<Longrightarrow> terminated t \<Longrightarrow> \<exists>r. strcmp s t = Some r \<and> (r = 0 \<longleftrightarrow> cstr s = cstr t)"
  by (induction s t rule: strcmp.induct) (auto simp: Let_def sint_eq_iff sint_zero_iff)

lemma name_eq_cstr: "terminated s \<Longrightarrow> terminated n \<Longrightarrow> name_eq (Some s) n = Some (cstr s = cstr n)"
  using strcmp_zero [of s n] by (auto simp: name_eq_def)

lemma slot_name: "slot_ok c \<Longrightarrow> chrdev_major c \<noteq> 0 \<Longrightarrow> \<exists>n. chrdev_name c = Some n \<and> terminated n"
  by (auto simp: slot_ok_def chrdev_free_def)

lemma register_chrdev_loop_spec:
  assumes "\<forall>c \<in> set t. slot_ok c" "terminated name" "i \<le> length t"
  shows "register_chrdev_loop t major name i slot = Some
    (if \<exists>j<i. clashes major name (t ! j) then Inl (- EEXIST)
     else Inr (if \<exists>j<i. \<not> in_use (t ! j) then Some (LEAST j. \<not> in_use (t ! j)) else slot))"
  using assms(3)
proof (induction i arbitrary: slot)
  case (Suc i)
  have ok: "slot_ok (t ! i)" using assms(1) Suc.prems by simp
  show ?case
  proof (cases "in_use (t ! i)")
    case False
    then have "\<not> clashes major name (t ! i)" by (simp add: clashes_def)
    moreover have "(LEAST j. \<not> in_use (t ! j)) = i" if "\<forall>j<i. in_use (t ! j)"
      using False that by (intro Least_equality) (auto simp: not_less)
    ultimately show ?thesis using Suc False by (auto simp: in_use_def less_Suc_eq)
  next
    case True
    then obtain n where n: "chrdev_name (t ! i) = Some n" "terminated n"
      using slot_name [OF ok] by (auto simp: in_use_def)
    with True Suc name_eq_cstr [OF n(2) assms(2)] show ?thesis
      by (auto simp: in_use_def clashes_def less_Suc_eq)
  qed
qed simp

text \<open>
  \<open>register_chrdev\<close> refuses a major number or a name that is in use, reports a full table, and
  otherwise fills the first free slot and changes no other.
\<close>

theorem register_chrdev_outcome:
  assumes "\<forall>c \<in> set t. slot_ok c" "terminated name" "major \<noteq> 0"
  shows "\<exists>r t'. register_chrdev major name fops t = Some (r, t') \<and> (\<forall>c \<in> set t'. slot_ok c) \<and>
    (if \<exists>c \<in> set t. clashes major name c then r = - EEXIST \<and> t' = t
     else if \<forall>c \<in> set t. in_use c then r = - ENOMEM \<and> t' = t
     else \<exists>i < length t. r = 0 \<and> \<not> in_use (t ! i) \<and> (\<forall>j<i. in_use (t ! j)) \<and>
       t' = t[i := \<lparr>chrdev_major = major, chrdev_name = Some name, chrdev_fops = Some fops\<rparr>])"
proof -
  note loop = register_chrdev_loop_spec [OF assms(1,2) le_refl, of major None]
  have ex: "(\<exists>j<length t. P (t ! j)) \<longleftrightarrow> (\<exists>c \<in> set t. P c)" for P
    using nth_mem [of _ t] by (auto simp: in_set_conv_nth)
  show ?thesis
  proof (cases "(\<exists>c \<in> set t. clashes major name c) \<or> (\<forall>c \<in> set t. in_use c)")
    case True
    then show ?thesis using loop assms(1) unfolding ex by (auto simp: register_chrdev_def)
  next
    case False
    let ?i = "LEAST j. \<not> in_use (t ! j)"
    let ?c = "\<lparr>chrdev_major = major, chrdev_name = Some name, chrdev_fops = Some fops\<rparr>"
    obtain j where j: "j < length t" "\<not> in_use (t ! j)" using False by (auto simp: in_set_conv_nth)
    have i: "\<not> in_use (t ! ?i)" using j(2) by (rule LeastI)
    have il: "?i < length t" using Least_le [of "\<lambda>j. \<not> in_use (t ! j)", OF j(2)] j(1) by simp
    have below: "\<forall>k < ?i. in_use (t ! k)" using not_less_Least by blast
    have reg: "register_chrdev major name fops t = Some (0, t[?i := ?c])"
      using loop False j unfolding ex [of "clashes major name"] by (auto simp: register_chrdev_def)
    have ok: "\<forall>c \<in> set (t[?i := ?c]). slot_ok c"
      using assms set_update_subset_insert [of t ?i ?c] by (auto simp: slot_ok_def)
    have "\<exists>i < length t. \<not> in_use (t ! i) \<and> (\<forall>j<i. in_use (t ! j)) \<and> t[?i := ?c] = t[i := ?c]"
      using i il below by blast
    with reg ok False show ?thesis by simp
  qed
qed

theorem register_chrdev_outcome_witness:
  "\<exists>t'. register_chrdev 30 [115, 0] 7 (replicate 5 chrdev_free) = Some (0, t')"
  using register_chrdev_outcome [of "replicate 5 chrdev_free" "[115, 0]" 30 7]
  by (auto simp: slot_ok_def clashes_def in_use_def chrdev_free_def)

text \<open>
  \<open>unregister_chrdev\<close> compares the name of every slot whose major number differs, also of free
  slots, whose name is the null pointer: it crashes unless all slots are in use.
\<close>

lemma unregister_chrdev_loop_crash:
  "\<exists>j<i. t ! j = chrdev_free \<Longrightarrow> i \<le> length t \<Longrightarrow> major \<noteq> 0 \<Longrightarrow> unregister_chrdev_loop major name i t = None"
proof (induction i arbitrary: t)
  case (Suc i)
  show ?case
  proof (cases "t ! i = chrdev_free")
    case True
    with Suc.prems(3) show ?thesis by (simp add: chrdev_free_def name_eq_def)
  next
    case False
    have "unregister_chrdev_loop major name i (t[i := c]) = None" for c
      using Suc.prems False by (intro Suc.IH) (auto simp: less_Suc_eq)
    moreover have "unregister_chrdev_loop major name i t = None"
      using Suc.prems False by (intro Suc.IH) (auto simp: less_Suc_eq)
    ultimately show ?thesis by (auto split: option.splits if_splits simp: bind_eq_None_conv)
  qed
qed simp

theorem unregister_chrdev_crash:
  assumes "chrdev_free \<in> set t" "major \<noteq> 0"
  shows "unregister_chrdev major name t = None"
  using assms unregister_chrdev_loop_crash [of "length t" t major name]
  by (auto simp: unregister_chrdev_def in_set_conv_nth)

theorem unregister_chrdev_crash_witness:
  "unregister_chrdev 30 [115, 0] (\<lparr>chrdev_major = 30, chrdev_name = Some [115, 0], chrdev_fops = Some 7\<rparr> # replicate 4 chrdev_free) = None"
  using unregister_chrdev_crash [of "\<lparr>chrdev_major = 30, chrdev_name = Some [115, 0], chrdev_fops = Some 7\<rparr> # replicate 4 chrdev_free" 30 "[115, 0]"]
  by simp

section \<open>Finding a device\<close>

lemma find_chrdev_loop_iff:
  "(case find_chrdev_loop drv_open path mode flags t i of
      (r, None) \<Rightarrow> r = - ENOENT \<and> (\<forall>c \<in> set t. \<forall>f. chrdev_fops c = Some f \<longrightarrow> IBCS_IS_ERR (drv_open f (drop 5 path) mode flags))
    | (r, Some k) \<Rightarrow> i \<le> k \<and> k < i + length t \<and> \<not> IBCS_IS_ERR r \<and>
        (\<exists>f. chrdev_fops (t ! (k - i)) = Some f \<and> r = drv_open f (drop 5 path) mode flags))"
proof (induction t arbitrary: i)
  case (Cons c t)
  from Cons [of "i + 1"] show ?case
    by (auto simp: Let_def nth_Cons' split: option.splits prod.splits)
qed simp

end
