(* ===== verification/Binfmt.thy ===== *)
theory Binfmt
  imports Prelude Ring
begin

text \<open>
  The registry of executable formats of \<^verbatim>\<open>src/ibcs/linux26-compat.c\<close> on the doubly linked lists
  of \<^verbatim>\<open>src/include/ibcs-us/linux26-compat/linux/list.h\<close>, and \<open>load_binfmt\<close>.

  A \<open>struct list_head\<close> is a number; the fields \<open>lh_next\<close> and \<open>lh_prev\<close> of the state hold their
  pointers, and number 0 is the list head \<open>linux_binfmts\<close>. The walk over the list is a partial
  function: \<open>None\<close> is a walk that does not come back to the head. The system calls, the loaders
  and \<open>init_brk\<close> are parameters, functions of the kernel state \<open>'k\<close> bundled in a record.
\<close>

section \<open>Lists\<close>

record list_heads =
  lh_next :: "nat \<Rightarrow> nat"
  lh_prev :: "nat \<Rightarrow> nat"

definition INIT_LIST_HEAD :: "nat \<Rightarrow> list_heads \<Rightarrow> list_heads" where
  "INIT_LIST_HEAD lst h = h\<lparr>lh_next := (lh_next h)(lst := lst), lh_prev := (lh_prev h)(lst := lst)\<rparr>"

definition list_add_between :: "nat \<Rightarrow> nat \<Rightarrow> nat \<Rightarrow> list_heads \<Rightarrow> list_heads" where
  "list_add_between new prev next h =
     (let h = h\<lparr>lh_prev := (lh_prev h)(next := new)\<rparr>;
          h = h\<lparr>lh_next := (lh_next h)(new := next)\<rparr>;
          h = h\<lparr>lh_prev := (lh_prev h)(new := prev)\<rparr>
      in h\<lparr>lh_next := (lh_next h)(prev := new)\<rparr>)"

definition list_add :: "nat \<Rightarrow> nat \<Rightarrow> list_heads \<Rightarrow> list_heads" where
  "list_add new head h = list_add_between new head (lh_next h head) h"

definition list_add_tail :: "nat \<Rightarrow> nat \<Rightarrow> list_heads \<Rightarrow> list_heads" where
  "list_add_tail new head h = list_add_between new (lh_prev h head) head h"

definition list_del :: "nat \<Rightarrow> nat \<Rightarrow> list_heads \<Rightarrow> list_heads" where
  "list_del prev next h =
     (let h = h\<lparr>lh_prev := (lh_prev h)(next := prev)\<rparr> in h\<lparr>lh_next := (lh_next h)(prev := next)\<rparr>)"

definition list_empty :: "nat \<Rightarrow> list_heads \<Rightarrow> bool" where
  "list_empty head h \<longleftrightarrow> lh_next h head = head"

section \<open>Formats\<close>

definition linux_binfmts :: nat where
  "linux_binfmts = 0"

definition register_binfmt :: "nat \<Rightarrow> list_heads \<Rightarrow> u32 \<times> list_heads" where
  "register_binfmt binfmt h = (0, list_add binfmt linux_binfmts h)"

definition unregister_binfmt :: "nat \<Rightarrow> list_heads \<Rightarrow> list_heads" where
  "unregister_binfmt binfmt h = list_del binfmt linux_binfmts h"

record 'k exec_sys =
  sys_access :: "'k \<Rightarrow> u32 \<times> 'k"
  linux26_fopen :: "'k \<Rightarrow> (u32 + nat) \<times> 'k"
  vfs_fstat_mode :: "nat \<Rightarrow> 'k \<Rightarrow> (u32 + u32) \<times> 'k"
  f_op_read :: "nat \<Rightarrow> 'k \<Rightarrow> u32 \<times> 'k"
  load_binary :: "nat \<Rightarrow> 'k \<Rightarrow> u32 \<times> 'k"
  linux26_fclose :: "nat \<Rightarrow> 'k \<Rightarrow> 'k"
  run_init_brk :: "'k \<Rightarrow> 'k"

definition S_ISREG :: "u32 \<Rightarrow> bool" where
  "S_ISREG mode \<longleftrightarrow> mode AND 0xF000 = 0x8000"

definition BINPRM_BUF_SIZE :: u32 where
  "BINPRM_BUF_SIZE = 128"

text \<open>\<open>list_for_each\<close> over the formats, up to the first that knows the file.\<close>

partial_function (option) load_loop ::
  "(nat \<Rightarrow> nat) \<Rightarrow> (nat \<Rightarrow> 'k \<Rightarrow> u32 \<times> 'k) \<Rightarrow> nat \<Rightarrow> u32 \<Rightarrow> 'k \<Rightarrow> (u32 \<times> 'k) option" where
  "load_loop nxt load p retval k =
     (if p = linux_binfmts then Some (retval, k)
      else case load p k of (r, k) \<Rightarrow>
        if r \<noteq> - ENOEXEC then Some (r, k) else load_loop nxt load (nxt p) r k)"

definition load_open_file :: "'k exec_sys \<Rightarrow> list_heads \<Rightarrow> nat \<Rightarrow> 'k \<Rightarrow> (u32 \<times> 'k) option" where
  "load_open_file sys h file k =
     (case vfs_fstat_mode sys file k of
        (Inl e, k) \<Rightarrow> Some (e, k)
      | (Inr mode, k) \<Rightarrow>
          if \<not> S_ISREG mode then Some (- ENOEXEC, k)
          else case f_op_read sys file k of (retval, k) \<Rightarrow>
            if IBCS_IS_ERR retval then Some (retval, k)
            else if retval \<noteq> BINPRM_BUF_SIZE then Some (- ENOEXEC, k)
            else load_loop (lh_next h) (load_binary sys) (lh_next h linux_binfmts) retval k)"

definition load_binfmt :: "'k exec_sys \<Rightarrow> list_heads \<Rightarrow> 'k \<Rightarrow> (u32 \<times> 'k) option" where
  "load_binfmt sys h k =
     (let finish = (\<lambda>(retval, k). (retval, if IBCS_IS_ERR retval then k else run_init_brk sys k))
      in case sys_access sys k of (retval, k) \<Rightarrow>
         if IBCS_IS_ERR retval then Some (finish (retval, k))
         else case linux26_fopen sys k of
                (Inl e, k) \<Rightarrow> Some (finish (e, k))
              | (Inr file, k) \<Rightarrow>
                  map_option (\<lambda>(retval, k). finish (retval, linux26_fclose sys file k))
                    (load_open_file sys h file k))"

section \<open>The list of formats\<close>

definition binfmts_ok :: "list_heads \<Rightarrow> nat list \<Rightarrow> bool" where
  "binfmts_ok h xs \<longleftrightarrow> ring (lh_next h) (lh_prev h) (linux_binfmts # xs)"

lemma register_binfmt_front:
  assumes "binfmts_ok h xs" "b \<noteq> linux_binfmts" "b \<notin> set xs"
  shows "binfmts_ok (snd (register_binfmt b h)) (b # xs)"
proof -
  let ?n = "lh_next h" and ?p = "lh_prev h"
  have r: "ring ?n ?p (xs @ [linux_binfmts])"
    using assms(1) ring_rotate [of ?n ?p "[linux_binfmts]" xs] by (simp add: binfmts_ok_def)
  define f where "f = hd (xs @ [linux_binfmts])"
  have l: "?n linux_binfmts = f" "?p f = linux_binfmts" using ring_last [OF r] by (auto simp: f_def)
  have "f \<noteq> b" using assms(2,3) by (cases xs) (auto simp: f_def)
  have "ring (?n(?p f := b, b := f)) (?p(b := ?p f, f := b)) ((xs @ [linux_binfmts]) @ [b])"
    by (rule ring_snoc [OF r]) (use assms in \<open>auto simp: f_def\<close>)
  then have "ring (?n(linux_binfmts := b, b := f)) (?p(b := linux_binfmts, f := b)) (linux_binfmts # b # xs)"
    using l ring_rotate [of _ _ xs "[linux_binfmts, b]"] by simp
  moreover have "lh_next (snd (register_binfmt b h)) = ?n(linux_binfmts := b, b := f)"
    "lh_prev (snd (register_binfmt b h)) = ?p(b := linux_binfmts, f := b)"
    using assms(2) l \<open>f \<noteq> b\<close>
    by (simp_all add: register_binfmt_def list_add_def list_add_between_def Let_def fun_upd_twist)
  ultimately show ?thesis by (simp add: binfmts_ok_def)
qed

text \<open>Trying the loaders \<open>xs\<close> in order.\<close>

fun try_loaders :: "(nat \<Rightarrow> 'k \<Rightarrow> u32 \<times> 'k) \<Rightarrow> nat list \<Rightarrow> u32 \<Rightarrow> 'k \<Rightarrow> u32 \<times> 'k" where
  "try_loaders load [] retval k = (retval, k)"
| "try_loaders load (b # bs) retval k =
     (case load b k of (r, k) \<Rightarrow> if r \<noteq> - ENOEXEC then (r, k) else try_loaders load bs r k)"

lemma load_loop_walk:
  assumes "\<forall>(a, b) \<in> links (xs @ [linux_binfmts]). nxt a = b" "linux_binfmts \<notin> set xs"
  shows "load_loop nxt load (hd (xs @ [linux_binfmts])) retval k = Some (try_loaders load xs retval k)"
  using assms
proof (induction xs arbitrary: retval k)
  case (Cons x xs)
  obtain r k' where l: "load x k = (r, k')" by fastforce
  have "nxt x = hd (xs @ [linux_binfmts])" using Cons.prems(1) by (simp add: links_Cons)
  moreover have "load_loop nxt load (hd (xs @ [linux_binfmts])) r k' = Some (try_loaders load xs r k')"
    using Cons by (simp add: links_Cons)
  ultimately show ?case using Cons.prems(2) l by (subst load_loop.simps) auto
qed (simp add: load_loop.simps)

lemma binfmts_links:
  assumes "binfmts_ok h xs"
  shows "\<forall>(a, b) \<in> links (xs @ [linux_binfmts]). lh_next h a = b" "linux_binfmts \<notin> set xs"
    "lh_next h linux_binfmts = hd (xs @ [linux_binfmts])"
  using assms by (cases xs; auto simp: binfmts_ok_def ring_def)+


definition no_binfmts :: list_heads where
  "no_binfmts = \<lparr>lh_next = (\<lambda>_. 0), lh_prev = (\<lambda>_. 0)\<rparr>"

lemma no_binfmts_ok: "binfmts_ok no_binfmts []"
  by (simp add: binfmts_ok_def ring_def no_binfmts_def linux_binfmts_def)

definition exec_example :: "nat list exec_sys" where
  "exec_example = \<lparr>sys_access = (\<lambda>k. (0, k)), linux26_fopen = (\<lambda>k. (Inr 3, k)),
     vfs_fstat_mode = (\<lambda>f k. (Inr 0x81ED, k)), f_op_read = (\<lambda>f k. (128, k)),
     load_binary = (\<lambda>b k. (if b = 1 then 0 else - ENOEXEC, k @ [b])),
     linux26_fclose = (\<lambda>f k. k @ [100 + f]), run_init_brk = (\<lambda>k. k @ [200])\<rparr>"


text \<open>
  \<open>unregister_binfmt\<close> does not take the format out: \<open>list_del\<close> expects the two neighbours of the
  entry but is given the entry and the list head, so the entry stays and every format behind it
  is dropped.
\<close>

theorem unregister_binfmt_drops_rest:
  assumes "binfmts_ok h (ys @ b # zs)"
  shows "binfmts_ok (unregister_binfmt b h) (ys @ [b])"
proof -
  let ?l = "linux_binfmts # ys @ b # zs"
  have d: "distinct ?l" and old: "\<forall>(a, c) \<in> links (?l @ [linux_binfmts]). lh_next h a = c \<and> lh_prev h c = a"
    using assms by (auto simp: binfmts_ok_def ring_def)
  have sub: "links (linux_binfmts # ys @ [b]) \<subseteq> links (?l @ [linux_binfmts])"
    using links_append [of "linux_binfmts # ys @ [b]" "zs @ [linux_binfmts]"] by auto
  have k: "(a, c) \<in> links (linux_binfmts # ys @ [b]) \<Longrightarrow> a \<noteq> b \<and> c \<noteq> linux_binfmts" for a c
    using links_distinct(1,2) [of a c "linux_binfmts # ys @ [b]"] d by auto
  have "links ((linux_binfmts # ys @ [b]) @ [linux_binfmts]) = insert (b, linux_binfmts) (links (linux_binfmts # ys @ [b]))"
    using links_snoc [of "linux_binfmts # ys @ [b]" linux_binfmts] by simp
  then show ?thesis
    using old sub k d by (fastforce simp: binfmts_ok_def ring_def unregister_binfmt_def list_del_def Let_def)
qed

theorem unregister_binfmt_drops_rest_witness:
  "binfmts_ok (unregister_binfmt 2 (snd (register_binfmt 2 (snd (register_binfmt 1 no_binfmts))))) [2]"
proof -
  have "binfmts_ok (snd (register_binfmt 1 no_binfmts)) [1]"
    by (rule register_binfmt_front [OF no_binfmts_ok]) (simp_all add: linux_binfmts_def)
  then have "binfmts_ok (snd (register_binfmt 2 (snd (register_binfmt 1 no_binfmts)))) [2, 1]"
    by (rule register_binfmt_front) (simp_all add: linux_binfmts_def)
  then show ?thesis using unregister_binfmt_drops_rest [of _ "[]" 2 "[1]"] by simp
qed

end
