(* ===== verification/Semaphore.thy ===== *)
theory Semaphore
  imports Prelude
begin

text \<open>
  The semaphores of \<^verbatim>\<open>src/ibcs/linux26-compat.c\<close> (\<open>down_read\<close>, \<open>up_read\<close>) and
  \<^verbatim>\<open>src/include/ibcs-us/linux26-compat/linux/rwsem.h\<close>: one exclusive lock on a futex; the write
  operations call the read operations.

  Any number of threads run the two operations on one semaphore. Each thread is at one of the
  points of the code below; a step is one atomic action of one thread: the compare-and-swap, the
  entry of \<open>FUTEX_WAIT\<close> (where the kernel compares the word with 0 and puts the thread to sleep in
  one action), the call of \<open>FUTEX_WAKE\<close>, which wakes one sleeper if there is one, or a wake-up of a
  sleeper for another reason (a signal).
\<close>

section \<open>Steps\<close>

datatype pc =
    Idle      \<comment> \<open>outside the lock\<close>
  | Trying    \<comment> \<open>in \<open>down_read\<close>, about to compare and swap\<close>
  | Waiting   \<comment> \<open>in \<open>down_read\<close>, about to call \<open>FUTEX_WAIT\<close>\<close>
  | Sleeping  \<comment> \<open>inside \<open>FUTEX_WAIT\<close>\<close>
  | Holding   \<comment> \<open>between \<open>down_read\<close> and \<open>up_read\<close>\<close>
  | Waking    \<comment> \<open>in \<open>up_read\<close>, about to call \<open>FUTEX_WAKE\<close>\<close>

record sem_state =
  rw_semaphore_futex :: u32
  pcs :: "nat \<Rightarrow> pc"

definition init_rwsem :: sem_state where
  "init_rwsem = \<lparr>rw_semaphore_futex = 1, pcs = (\<lambda>_. Idle)\<rparr>"

definition set_pc :: "nat \<Rightarrow> pc \<Rightarrow> sem_state \<Rightarrow> sem_state" where
  "set_pc t p s = s\<lparr>pcs := (pcs s)(t := p)\<rparr>"

text \<open>\<open>__sync_bool_compare_and_swap\<close> on the word: success, and the word afterwards.\<close>

definition cas :: "u32 \<Rightarrow> u32 \<Rightarrow> sem_state \<Rightarrow> bool \<times> sem_state" where
  "cas old new s = (if rw_semaphore_futex s = old then (True, s\<lparr>rw_semaphore_futex := new\<rparr>) else (False, s))"

definition down_read_cas :: "nat \<Rightarrow> sem_state \<Rightarrow> sem_state" where
  "down_read_cas t s = (case cas 1 0 s of (True, s) \<Rightarrow> set_pc t Holding s | (False, s) \<Rightarrow> set_pc t Waiting s)"

definition down_read_wait :: "nat \<Rightarrow> sem_state \<Rightarrow> sem_state" where
  "down_read_wait t s = set_pc t (if rw_semaphore_futex s = 0 then Sleeping else Trying) s"

definition up_read_cas :: "nat \<Rightarrow> sem_state \<Rightarrow> sem_state" where
  "up_read_cas t s = (case cas 0 1 s of (True, s) \<Rightarrow> set_pc t Waking s | (False, s) \<Rightarrow> set_pc t Idle s)"

definition up_read_wake :: "nat \<Rightarrow> nat option \<Rightarrow> sem_state \<Rightarrow> sem_state" where
  "up_read_wake t sleeper s = set_pc t Idle (case sleeper of None \<Rightarrow> s | Some u \<Rightarrow> set_pc u Trying s)"

inductive sem_step :: "sem_state \<Rightarrow> sem_state \<Rightarrow> bool" where
  enter: "pcs s t = Idle \<Longrightarrow> sem_step s (set_pc t Trying s)"
| swap: "pcs s t = Trying \<Longrightarrow> sem_step s (down_read_cas t s)"
| wait: "pcs s t = Waiting \<Longrightarrow> sem_step s (down_read_wait t s)"
| wakeup: "pcs s t = Sleeping \<Longrightarrow> sem_step s (set_pc t Trying s)"
| leave: "pcs s t = Holding \<Longrightarrow> sem_step s (up_read_cas t s)"
| wake_one: "pcs s t = Waking \<Longrightarrow> pcs s u = Sleeping \<Longrightarrow> sem_step s (up_read_wake t (Some u) s)"
| wake_none: "pcs s t = Waking \<Longrightarrow> \<forall>u. pcs s u \<noteq> Sleeping \<Longrightarrow> sem_step s (up_read_wake t None s)"

inductive sem_reachable :: "sem_state \<Rightarrow> bool" where
  init: "sem_reachable init_rwsem"
| step: "sem_reachable s \<Longrightarrow> sem_step s s' \<Longrightarrow> sem_reachable s'"

inductive_cases sem_stepE: "sem_step s s'"

lemmas sem_ops = set_pc_def cas_def down_read_cas_def down_read_wait_def up_read_cas_def up_read_wake_def

section \<open>Safety\<close>

definition held_by :: "sem_state \<Rightarrow> nat \<Rightarrow> bool" where
  "held_by s t \<longleftrightarrow> pcs s t = Holding"

text \<open>The word is 1 when nobody holds the lock and 0 when exactly one thread does.\<close>

definition sem_inv :: "sem_state \<Rightarrow> bool" where
  "sem_inv s \<longleftrightarrow>
     (rw_semaphore_futex s = 1 \<and> (\<forall>t. \<not> held_by s t)) \<or>
     (rw_semaphore_futex s = 0 \<and> (\<exists>t. held_by s t \<and> (\<forall>u. held_by s u \<longrightarrow> u = t)))"

text \<open>A step that leaves the word and the set of holders alone keeps the invariant.\<close>

lemma sem_inv_frame:
  "sem_inv s \<Longrightarrow> rw_semaphore_futex s' = rw_semaphore_futex s \<Longrightarrow> (\<And>u. held_by s' u = held_by s u) \<Longrightarrow> sem_inv s'"
  by (simp add: sem_inv_def)

lemma sem_inv_set_pc:
  "sem_inv s \<Longrightarrow> pcs s t \<noteq> Holding \<Longrightarrow> p \<noteq> Holding \<Longrightarrow> sem_inv (set_pc t p s)"
  by (erule sem_inv_frame) (auto simp: set_pc_def held_by_def)

lemma sem_inv_swap:
  assumes "sem_inv s" "pcs s t = Trying"
  shows "sem_inv (down_read_cas t s)"
proof (cases "rw_semaphore_futex s = 1")
  case True
  with assms have none: "\<forall>u. \<not> held_by s u" by (auto simp: sem_inv_def)
  let ?s = "down_read_cas t s"
  have "rw_semaphore_futex ?s = 0" "held_by ?s u \<longleftrightarrow> u = t" for u
    using True none by (simp_all add: down_read_cas_def cas_def set_pc_def held_by_def)
  then show ?thesis by (simp add: sem_inv_def)
next
  case False
  then have "down_read_cas t s = set_pc t Waiting s" by (simp add: down_read_cas_def cas_def)
  with assms show ?thesis by (simp add: sem_inv_set_pc)
qed

lemma sem_inv_leave:
  assumes "sem_inv s" "pcs s t = Holding"
  shows "sem_inv (up_read_cas t s)"
proof -
  have "held_by s t" using assms(2) by (simp add: held_by_def)
  with assms(1) have f: "rw_semaphore_futex s = 0" and only: "\<forall>u. held_by s u \<longrightarrow> u = t"
    by (auto simp: sem_inv_def)
  let ?s = "up_read_cas t s"
  have "rw_semaphore_futex ?s = 1" "\<not> held_by ?s u" for u
    using f only by (auto simp: up_read_cas_def cas_def set_pc_def held_by_def)
  then show ?thesis by (simp add: sem_inv_def)
qed

lemma sem_inv_step: "sem_step s s' \<Longrightarrow> sem_inv s \<Longrightarrow> sem_inv s'"
proof (induction rule: sem_step.induct)
  case (wake_one s t u)
  then have "sem_inv (set_pc u Trying s)" by (simp add: sem_inv_set_pc)
  moreover have "pcs (set_pc u Trying s) t \<noteq> Holding" using wake_one by (simp add: set_pc_def)
  ultimately show ?case by (simp add: up_read_wake_def sem_inv_set_pc)
qed (simp_all add: sem_inv_set_pc sem_inv_swap sem_inv_leave down_read_wait_def up_read_wake_def)

lemma sem_inv_reachable: "sem_reachable s \<Longrightarrow> sem_inv s"
proof (induction rule: sem_reachable.induct)
  case init
  then show ?case by (simp add: sem_inv_def held_by_def init_rwsem_def)
next
  case (step s s')
  then show ?case using sem_inv_step by blast
qed

text \<open>
  C28: mutual exclusion: in every reachable state at most one thread is between \<open>down_read\<close> and
  \<open>up_read\<close>, whatever the interleaving of the atomic actions.
\<close>

theorem semaphore_exclusive:
  assumes "sem_reachable s" "pcs s t = Holding" "pcs s u = Holding"
  shows "t = u"
  using sem_inv_reachable [OF assms(1)] assms(2,3) by (auto simp: sem_inv_def held_by_def)

section \<open>No lost wake-up\<close>

text \<open>While a thread sleeps, the lock is held or some other thread is on its way to take it or to wake.\<close>

definition wake_inv :: "sem_state \<Rightarrow> bool" where
  "wake_inv s \<longleftrightarrow> (\<forall>t. pcs s t = Sleeping \<longrightarrow>
     rw_semaphore_futex s = 0 \<or> (\<exists>u. pcs s u \<in> {Trying, Waiting, Waking}))"

lemma wake_inv_active: "pcs s u \<in> {Trying, Waiting, Waking} \<Longrightarrow> wake_inv s"
  by (auto simp: wake_inv_def)

lemma wake_inv_held: "rw_semaphore_futex s = 0 \<Longrightarrow> wake_inv s"
  by (simp add: wake_inv_def)

lemma wake_inv_step:
  assumes "sem_step s s'" "sem_inv s"
  shows "wake_inv s'"
  using assms(1)
proof cases
  case (enter t)
  then show ?thesis by (intro wake_inv_active [of _ t]) (simp add: set_pc_def)
next
  case (swap t)
  show ?thesis
  proof (cases "rw_semaphore_futex s = 1")
    case True
    then show ?thesis using swap by (intro wake_inv_held) (simp add: down_read_cas_def cas_def set_pc_def)
  next
    case False
    then show ?thesis using swap
      by (intro wake_inv_active [of _ t]) (simp add: down_read_cas_def cas_def set_pc_def)
  qed
next
  case (wait t)
  show ?thesis
  proof (cases "rw_semaphore_futex s = 0")
    case True
    then show ?thesis using wait by (intro wake_inv_held) (simp add: down_read_wait_def set_pc_def)
  next
    case False
    then show ?thesis using wait by (intro wake_inv_active [of _ t]) (simp add: down_read_wait_def set_pc_def)
  qed
next
  case (wakeup t)
  then show ?thesis by (intro wake_inv_active [of _ t]) (simp add: set_pc_def)
next
  case (leave t)
  then have "rw_semaphore_futex s = 0" using assms(2) by (auto simp: sem_inv_def held_by_def)
  then show ?thesis using leave
    by (intro wake_inv_active [of _ t]) (simp add: up_read_cas_def cas_def set_pc_def)
next
  case (wake_one t u)
  then have "u \<noteq> t" by auto
  then show ?thesis using wake_one
    by (intro wake_inv_active [of _ u]) (simp add: up_read_wake_def set_pc_def)
next
  case (wake_none t)
  then show ?thesis by (auto simp: wake_inv_def up_read_wake_def set_pc_def)
qed

lemma wake_inv_reachable: "sem_reachable s \<Longrightarrow> wake_inv s"
proof (induction rule: sem_reachable.induct)
  case init
  then show ?case by (simp add: wake_inv_def init_rwsem_def)
next
  case (step s s')
  then show ?case using wake_inv_step sem_inv_reachable by blast
qed


text \<open>A run: thread 0 takes the lock, thread 1 tries, fails and goes to sleep.\<close>

definition sem_example :: sem_state where
  "sem_example = \<lparr>rw_semaphore_futex = 0, pcs = (\<lambda>_. Idle)(0 := Holding, 1 := Sleeping)\<rparr>"

lemma sem_example_reachable: "sem_reachable sem_example"
proof -
  let ?s1 = "set_pc 0 Trying init_rwsem"
  have "sem_reachable ?s1" by (rule step [OF init enter]) (simp add: init_rwsem_def)
  then have a: "sem_reachable (down_read_cas 0 ?s1)" by (rule step [OF _ swap]) (simp add: set_pc_def)
  let ?s2 = "set_pc 1 Trying (down_read_cas 0 ?s1)"
  from a have "sem_reachable ?s2"
    by (rule step [OF _ enter]) (simp add: set_pc_def down_read_cas_def cas_def init_rwsem_def)
  then have "sem_reachable (down_read_cas 1 ?s2)" by (rule step [OF _ swap]) (simp add: set_pc_def)
  then have "sem_reachable (down_read_wait 1 (down_read_cas 1 ?s2))"
    by (rule step [OF _ wait]) (simp add: sem_ops init_rwsem_def)
  moreover have "down_read_wait 1 (down_read_cas 1 ?s2) = sem_example"
    by (simp add: sem_ops init_rwsem_def sem_example_def fun_eq_iff)
  ultimately show ?thesis by simp
qed


theorem semaphore_exclusive_witness: "pcs sem_example 0 = Holding \<and> (0 :: nat) = 0"
  using semaphore_exclusive [OF sem_example_reachable, of 0 0] by (simp add: sem_example_def)

end
