(* ===== verification/Files.thy ===== *)
theory Files
  imports Filemap Chrdev "HOL-Library.Monad_Syntax"
begin

text \<open>
  Open files of the emulated kernel, from \<^verbatim>\<open>src/ibcs/linux26-compat.c\<close>: the conversion of \<open>stat\<close>
  structures, the table of \<open>struct file\<close> objects (\<open>fget\<close>, \<open>fput\<close>, \<open>fdestroy\<close>), opening and closing,
  emulated character devices, and the system calls that go through the table.

  A live \<open>struct file\<close> always sits in the slot of the table that its field \<open>fd\<close> names, so a pointer
  to it is that number. \<open>None\<close> as the result of an operation is undefined behaviour in C: a slot
  outside the table, or a pointer to a file that was freed. What memory fresh from \<open>ibcs_malloc\<close>
  holds is the parameter \<open>fresh\<close>. The native system calls and the functions of the device drivers
  are parameters: the record \<open>fsys\<close> has one function of the kernel state \<open>'k\<close> for each; the buffers
  they fill are part of that state.
\<close>

section \<open>Stat structures\<close>

record stat64 =
  st_dev :: u64
  st_ino :: u64
  st_mode :: u32
  st_nlink :: u32
  st_uid :: u32
  st_gid :: u32
  st_rdev :: u64
  st_size :: u64
  st_atime :: u32
  st_atime_nsec :: u32
  st_mtime :: u32
  st_mtime_nsec :: u32
  st_ctime :: u32
  st_ctime_nsec :: u32
  st_blksize :: u32
  st_blocks :: u64

record timespec =
  tv_sec :: u32
  tv_nsec :: u32

record kstat =
  ks_ino :: u64
  ks_dev :: u32
  ks_mode :: u16
  ks_nlink :: u32
  ks_uid :: u32
  ks_gid :: u32
  ks_rdev :: u32
  ks_size :: u64
  ks_atime :: timespec
  ks_mtime :: timespec
  ks_ctime :: timespec
  ks_blksize :: u32
  ks_blocks :: u64

record inode =
  i_ino :: u32
  i_dev :: u32
  i_rdev :: u32
  i_mode :: u16

definition stat64_to_kstat :: "stat64 \<Rightarrow> kstat" where
  "stat64_to_kstat st64 =
     \<lparr>ks_ino = st_ino st64, ks_dev = ucast (st_dev st64), ks_mode = ucast (st_mode st64),
      ks_nlink = st_nlink st64, ks_uid = st_uid st64, ks_gid = st_gid st64,
      ks_rdev = ucast (st_rdev st64), ks_size = st_size st64,
      ks_atime = \<lparr>tv_sec = st_atime st64, tv_nsec = st_atime_nsec st64\<rparr>,
      ks_mtime = \<lparr>tv_sec = st_mtime st64, tv_nsec = st_mtime_nsec st64\<rparr>,
      ks_ctime = \<lparr>tv_sec = st_ctime st64, tv_nsec = st_ctime_nsec st64\<rparr>,
      ks_blksize = st_blksize st64, ks_blocks = st_blocks st64\<rparr>"

definition kstat_to_inode :: "kstat \<Rightarrow> inode" where
  "kstat_to_inode kstat =
     \<lparr>i_ino = ucast (ks_ino kstat), i_dev = ks_dev kstat, i_rdev = ks_rdev kstat, i_mode = ks_mode kstat\<rparr>"

section \<open>Files\<close>

text \<open>A function pointer of \<open>struct file_operations\<close>: the native function, or one of a driver.\<close>

datatype fn = Native | Driver nat

record file_operations =
  op_llseek :: "fn option"
  op_mmap :: "fn option"
  op_read :: "fn option"
  op_write :: "fn option"
  op_open :: "fn option"
  op_release :: "fn option"
  op_chrdev_open :: "nat option"

definition file_operations :: file_operations where
  "file_operations = \<lparr>op_llseek = Some Native, op_mmap = Some Native, op_read = Some Native,
     op_write = Some Native, op_open = Some Native, op_release = Some Native, op_chrdev_open = None\<rparr>"

text \<open>\<open>f_own\<close>: the field \<open>f_op\<close> points to \<open>_f_op_real\<close> of the file, not to the native operations.\<close>

record filp =
  f_fd :: nat
  f_count :: int
  f_isopen :: bool
  f_inode :: inode
  f_own :: bool
  f_op_real :: file_operations

definition f_op :: "filp \<Rightarrow> file_operations" where
  "f_op f = (if f_own f then f_op_real f else file_operations)"

definition no_inode :: inode where
  "no_inode = \<lparr>i_ino = 0, i_dev = 0, i_rdev = 0, i_mode = 0\<rparr>"

definition no_operations :: file_operations where
  "no_operations = \<lparr>op_llseek = None, op_mmap = None, op_read = None,
     op_write = None, op_open = None, op_release = None, op_chrdev_open = None\<rparr>"

text \<open>A slot of the table: a null pointer, a file, or what \<open>ibcs_malloc\<close> left there.\<close>

datatype slot = Null | Open filp | Wild

record 'k files =
  fdt :: "slot list"
  fd_array :: bool
  chrdevs :: "linux26_chrdev list"
  kern :: 'k

record 'k fsys =
  sys_fstat64 :: "int \<Rightarrow> 'k \<Rightarrow> (u32 + stat64) \<times> 'k"
  sys_stat64 :: "u8 list \<Rightarrow> 'k \<Rightarrow> (u32 + stat64) \<times> 'k"
  sys_open :: "u8 list \<Rightarrow> u32 \<Rightarrow> u32 \<Rightarrow> 'k \<Rightarrow> u32 \<times> 'k"
  sys_creat :: "u8 list \<Rightarrow> u32 \<Rightarrow> 'k \<Rightarrow> u32 \<times> 'k"
  sys_access :: "u8 list \<Rightarrow> u32 \<Rightarrow> 'k \<Rightarrow> u32 \<times> 'k"
  sys_close :: "int \<Rightarrow> 'k \<Rightarrow> u32 \<times> 'k"
  sys_dup :: "int \<Rightarrow> int option \<Rightarrow> 'k \<Rightarrow> u32 \<times> 'k"
  sys_read :: "int \<Rightarrow> u32 \<Rightarrow> 'k \<Rightarrow> u32 \<times> 'k"
  sys_write :: "int \<Rightarrow> u32 \<Rightarrow> 'k \<Rightarrow> u32 \<times> 'k"
  sys_lseek :: "int \<Rightarrow> u64 \<Rightarrow> u32 \<Rightarrow> 'k \<Rightarrow> u64 \<times> 'k"
  sys_getcwd :: "nat \<Rightarrow> u32 + u8 list"
  drv_read :: "nat \<Rightarrow> nat \<Rightarrow> u32 \<Rightarrow> 'k \<Rightarrow> u32 \<times> 'k"
  drv_write :: "nat \<Rightarrow> nat \<Rightarrow> u32 \<Rightarrow> 'k \<Rightarrow> u32 \<times> 'k"
  drv_open :: "nat \<Rightarrow> nat \<Rightarrow> 'k \<Rightarrow> 'k"
  drv_release :: "nat \<Rightarrow> nat \<Rightarrow> 'k \<Rightarrow> 'k"
  drv_chrdev_open :: "nat \<Rightarrow> u8 list \<Rightarrow> u32 \<Rightarrow> u32 \<Rightarrow> u32"
  drivers :: "nat \<Rightarrow> file_operations"
  fresh :: "nat \<Rightarrow> slot"
  filemaps :: "filemap list"
  stack_bytes :: "u8 list"

definition vfs_fstat :: "'k fsys \<Rightarrow> int \<Rightarrow> 'k \<Rightarrow> (u32 + kstat) \<times> 'k" where
  "vfs_fstat sys fd k = (case sys_fstat64 sys fd k of (r, k) \<Rightarrow> (map_sum id stat64_to_kstat r, k))"

definition set_slot :: "nat \<Rightarrow> slot \<Rightarrow> 'k files \<Rightarrow> 'k files" where
  "set_slot i v s = s\<lparr>fdt := (fdt s)[i := v]\<rparr>"

definition slot_at :: "'k files \<Rightarrow> nat \<Rightarrow> slot option" where
  "slot_at s i = (if i < length (fdt s) then Some (fdt s ! i) else None)"

definition file_at :: "'k files \<Rightarrow> nat \<Rightarrow> filp option" where
  "file_at s i = (case slot_at s i of Some (Open f) \<Rightarrow> Some f | _ \<Rightarrow> None)"

subsection \<open>\<open>fget\<close> and \<open>fput\<close>\<close>

definition fget_grow :: "'k fsys \<Rightarrow> nat \<Rightarrow> 'k files \<Rightarrow> 'k files" where
  "fget_grow sys fd s =
     (if length (fdt s) \<le> fd then
        let n = (fd + 1) * 2;
            new = (if fd_array s then replicate (n - length (fdt s)) Null
                   else map (fresh sys) [length (fdt s)..<n])
        in s\<lparr>fdt := fdt s @ new, fd_array := True\<rparr>
      else s)"

definition new_file :: "'k fsys \<Rightarrow> nat \<Rightarrow> 'k \<Rightarrow> filp \<times> 'k" where
  "new_file sys fd k =
     (let file = \<lparr>f_fd = fd, f_count = 0, f_isopen = False, f_inode = no_inode,
                  f_own = False, f_op_real = no_operations\<rparr>
      in case vfs_fstat sys (int fd) k of
           (Inl e, k) \<Rightarrow> (file, k)
         | (Inr kstat, k) \<Rightarrow> (file\<lparr>f_inode := kstat_to_inode kstat, f_isopen := True\<rparr>, k))"

definition fget :: "'k fsys \<Rightarrow> nat \<Rightarrow> 'k files \<Rightarrow> 'k files option" where
  "fget sys fd s =
     (let s = fget_grow sys fd s
      in case fdt s ! fd of
           Open f \<Rightarrow> Some (set_slot fd (Open (f\<lparr>f_count := f_count f + 1\<rparr>)) s)
         | Null \<Rightarrow> (case new_file sys fd (kern s) of (f, k) \<Rightarrow>
                     Some (set_slot fd (Open (f\<lparr>f_count := f_count f + 1\<rparr>)) (s\<lparr>kern := k\<rparr>)))
         | Wild \<Rightarrow> None)"

definition fdestroy :: "nat \<Rightarrow> 'k files \<Rightarrow> 'k files option" where
  "fdestroy fd s = do {
     f \<leftarrow> file_at s fd;
     Some (if f_count f = 0 \<and> \<not> f_isopen f then set_slot (f_fd f) Null s else s)
   }"

definition fput :: "nat \<Rightarrow> 'k files \<Rightarrow> 'k files option" where
  "fput fd s = do {
     f \<leftarrow> file_at s fd;
     fdestroy fd (set_slot fd (Open (f\<lparr>f_count := f_count f - 1\<rparr>)) s)
   }"

definition linux26_fopen ::
  "'k fsys \<Rightarrow> u8 list \<Rightarrow> u32 \<Rightarrow> 'k files \<Rightarrow> ((u32 + nat) \<times> 'k files) option" where
  "linux26_fopen sys path mode s =
     (case sys_open sys path mode 0 (kern s) of (fd, k) \<Rightarrow>
        if IBCS_IS_ERR fd then Some (Inl fd, s\<lparr>kern := k\<rparr>)
        else do { s \<leftarrow> fget sys (unat fd) (s\<lparr>kern := k\<rparr>); Some (Inr (unat fd), s) })"

definition open_exec :: "'k fsys \<Rightarrow> u8 list \<Rightarrow> 'k files \<Rightarrow> ((u32 + nat) \<times> 'k files) option" where
  "open_exec sys path s = linux26_fopen sys path 0 s"

text \<open>The native \<open>release\<close> returns 0 and does nothing, as the native \<open>open\<close> does.\<close>

definition call_release :: "'k fsys \<Rightarrow> fn option \<Rightarrow> nat \<Rightarrow> 'k \<Rightarrow> 'k" where
  "call_release sys f fd k = (case f of Some (Driver d) \<Rightarrow> drv_release sys d fd k | _ \<Rightarrow> k)"

definition linux26_fclose :: "'k fsys \<Rightarrow> nat \<Rightarrow> 'k files \<Rightarrow> (u32 \<times> 'k files) option" where
  "linux26_fclose sys fd s = do {
     f \<leftarrow> file_at s fd;
     let (ret, k) = sys_close sys (int (f_fd f)) (call_release sys (op_release (f_op f)) fd (kern s));
     s \<leftarrow> fput fd (set_slot fd (Open (f\<lparr>f_isopen := False\<rparr>)) (s\<lparr>kern := k\<rparr>));
     Some (ret, s)
   }"

subsection \<open>The native file operations\<close>

definition file_operations_llseek :: "'k fsys \<Rightarrow> filp \<Rightarrow> u64 \<Rightarrow> u32 \<Rightarrow> 'k \<Rightarrow> u64 \<times> 'k" where
  "file_operations_llseek sys file loff origin k = sys_lseek sys (int (f_fd file)) loff origin k"

text \<open>
  \<open>read\<close> and \<open>write\<close> at an offset, for a file whose \<open>llseek\<close> is the native one: the result, the
  new offset and the kernel. A failing \<open>llseek\<close> returns the 64-bit result cut to 32 bits; the
  count of bytes is sign-extended when it is added to the offset.
\<close>

definition file_operations_read :: "'k fsys \<Rightarrow> filp \<Rightarrow> u32 \<Rightarrow> u64 \<Rightarrow> 'k \<Rightarrow> u32 \<times> u64 \<times> 'k" where
  "file_operations_read sys file len loff k =
     (case file_operations_llseek sys file loff 0 k of (lseek_ret, k) \<Rightarrow>
        if lseek_ret \<noteq> loff then (ucast lseek_ret, loff, k)
        else case sys_read sys (int (f_fd file)) len k of (got, k) \<Rightarrow>
          if IBCS_IS_ERR got then (got, loff, k) else (got, loff + scast got, k))"

definition file_operations_write :: "'k fsys \<Rightarrow> filp \<Rightarrow> u32 \<Rightarrow> u64 \<Rightarrow> 'k \<Rightarrow> u32 \<times> u64 \<times> 'k" where
  "file_operations_write sys file len loff k =
     (case file_operations_llseek sys file loff 0 k of (lseek_ret, k) \<Rightarrow>
        if lseek_ret \<noteq> loff then (ucast lseek_ret, loff, k)
        else case sys_write sys (int (f_fd file)) len k of (written, k) \<Rightarrow>
          if IBCS_IS_ERR written then (written, loff, k) else (written, loff + scast written, k))"

section \<open>Character devices\<close>

definition S_IFCHR_0666 :: u16 where
  "S_IFCHR_0666 = 0x2000 OR 438"

definition override :: "fn option \<Rightarrow> fn option \<Rightarrow> fn option" where
  "override own fops = (if fops \<noteq> None then fops else own)"

definition chrdev_operations :: "file_operations \<Rightarrow> file_operations \<Rightarrow> file_operations" where
  "chrdev_operations own fops =
     own\<lparr>op_chrdev_open := op_chrdev_open fops,
         op_llseek := override (op_llseek own) (op_llseek fops),
         op_mmap := override (op_mmap own) (op_mmap fops),
         op_read := override (op_read own) (op_read fops),
         op_write := override (op_write own) (op_write fops),
         op_open := override (op_open own) (op_open fops),
         op_release := override (op_release own) (op_release fops)\<rparr>"

definition slash_dev :: "u8 list" where
  "slash_dev = [47, 100, 101, 118, 0]"

definition call_open :: "'k fsys \<Rightarrow> fn option \<Rightarrow> nat \<Rightarrow> 'k \<Rightarrow> 'k" where
  "call_open sys f fd k = (case f of Some (Driver d) \<Rightarrow> drv_open sys d fd k | _ \<Rightarrow> k)"

text \<open>
  The file made for a device found in slot \<open>i\<close>. Dereferencing the error pointer of a failed
  \<open>linux26_fopen\<close>, a slot without operations, and \<open>file->fd\<close> of a file that \<open>fput\<close> freed are
  undefined.
\<close>

definition chrdev_file :: "'k fsys \<Rightarrow> u32 \<Rightarrow> nat \<Rightarrow> 'k files \<Rightarrow> (u32 \<times> 'k files) option" where
  "chrdev_file sys rdev i s = do {
     (r, s) \<leftarrow> linux26_fopen sys slash_dev 0 s;
     fd \<leftarrow> (case r of Inl e \<Rightarrow> None | Inr fd \<Rightarrow> Some fd);
     file \<leftarrow> file_at s fd;
     d \<leftarrow> chrdev_fops (chrdevs s ! i);
     let inode = (f_inode file)\<lparr>i_mode := S_IFCHR_0666, i_rdev := rdev\<rparr>;
     let ops = chrdev_operations (f_op file) (drivers sys d);
     let file = file\<lparr>f_inode := inode, f_op_real := ops, f_own := True\<rparr>;
     let s = set_slot fd (Open file) s;
     s \<leftarrow> fput fd (s\<lparr>kern := call_open sys (op_open ops) fd (kern s)\<rparr>);
     file \<leftarrow> file_at s fd;
     Some (of_nat (f_fd file), s)
   }"

definition open_chrdev :: "'k fsys \<Rightarrow> u8 list \<Rightarrow> u32 \<Rightarrow> u32 \<Rightarrow> 'k files \<Rightarrow> (u32 \<times> 'k files) option" where
  "open_chrdev sys path mode flags s = do {
     (rdev, slot) \<leftarrow> find_chrdev (drv_chrdev_open sys) path mode flags (chrdevs s);
     (case slot of None \<Rightarrow> Some (rdev, s) | Some i \<Rightarrow> chrdev_file sys rdev i s)
   }"

section \<open>The system calls on files\<close>

text \<open>
  The buffer for the mapped name is an array on the stack; \<open>filemap_map\<close> does not write it when it
  cannot normalise the path, and its result is not looked at.
\<close>

definition mapped_name :: "'k fsys \<Rightarrow> u8 list \<Rightarrow> u8 list option" where
  "mapped_name sys fname = map_option snd (filemap_map (sys_getcwd sys) (filemaps sys) (stack_bytes sys) fname)"

text \<open>
  \<open>lookup_fd\<close> is the condition \<open>fd < 0 || fd > fdt->max_fds || !fdt->fd[fd]\<close> of the calls: the file
  they go on with, if any. It reads the slot behind the table when \<open>fd\<close> equals \<open>max_fds\<close>.
\<close>

definition lookup_fd :: "'k files \<Rightarrow> int \<Rightarrow> filp option option" where
  "lookup_fd s fd =
     (if fd < 0 \<or> int (length (fdt s)) < fd then Some None
      else case slot_at s (nat fd) of
             None \<Rightarrow> None
           | Some Null \<Rightarrow> Some None
           | Some (Open f) \<Rightarrow> Some (Some f)
           | Some Wild \<Rightarrow> None)"

definition linux26_read :: "'k fsys \<Rightarrow> int \<Rightarrow> u32 \<Rightarrow> 'k files \<Rightarrow> (u32 \<times> 'k files) option" where
  "linux26_read sys fd nbytes s = do {
     f \<leftarrow> lookup_fd s fd;
     let (r, k) = (case Option.bind f (\<lambda>f. op_read (f_op f)) of
         Some (Driver d) \<Rightarrow> drv_read sys d (nat fd) nbytes (kern s)
       | _ \<Rightarrow> sys_read sys fd nbytes (kern s));
     Some (r, s\<lparr>kern := k\<rparr>)
   }"

definition linux26_write :: "'k fsys \<Rightarrow> int \<Rightarrow> u32 \<Rightarrow> 'k files \<Rightarrow> (u32 \<times> 'k files) option" where
  "linux26_write sys fd nbytes s = do {
     f \<leftarrow> lookup_fd s fd;
     let (r, k) = (case Option.bind f (\<lambda>f. op_write (f_op f)) of
         Some (Driver d) \<Rightarrow> drv_write sys d (nat fd) nbytes (kern s)
       | _ \<Rightarrow> sys_write sys fd nbytes (kern s));
     Some (r, s\<lparr>kern := k\<rparr>)
   }"

definition linux26_open :: "'k fsys \<Rightarrow> u8 list \<Rightarrow> u32 \<Rightarrow> u32 \<Rightarrow> 'k files \<Rightarrow> (u32 \<times> 'k files) option" where
  "linux26_open sys fname mode flags s = do {
     name \<leftarrow> mapped_name sys fname;
     (fd, s) \<leftarrow> open_chrdev sys name mode flags s;
     if \<not> IBCS_IS_ERR fd then Some (fd, s)
     else let (r, k) = sys_open sys name mode flags (kern s) in Some (r, s\<lparr>kern := k\<rparr>)
   }"

definition linux26_creat :: "'k fsys \<Rightarrow> u8 list \<Rightarrow> u32 \<Rightarrow> 'k files \<Rightarrow> (u32 \<times> 'k files) option" where
  "linux26_creat sys fname mode s = do {
     name \<leftarrow> mapped_name sys fname;
     (fd, s) \<leftarrow> open_chrdev sys name mode 0 s;
     if \<not> IBCS_IS_ERR fd then Some (fd, s)
     else let (r, k) = sys_creat sys name mode (kern s) in Some (r, s\<lparr>kern := k\<rparr>)
   }"

definition linux26_close :: "'k fsys \<Rightarrow> int \<Rightarrow> 'k files \<Rightarrow> (u32 \<times> 'k files) option" where
  "linux26_close sys fd s = do {
     s \<leftarrow> (if 0 \<le> fd \<and> fd < int (length (fdt s)) \<and> fdt s ! nat fd \<noteq> Null
          then do {
            f \<leftarrow> file_at s (nat fd);
            fdestroy (nat fd) (set_slot (nat fd) (Open (f\<lparr>f_isopen := False\<rparr>)) s)
          }
          else Some s);
     let (r, k) = sys_close sys fd (kern s);
     Some (r, s\<lparr>kern := k\<rparr>)
   }"

text \<open>The second argument of \<open>dup2\<close> is \<open>Some fd2\<close>; \<open>dup\<close> has none.\<close>

definition linux26_dup :: "'k fsys \<Rightarrow> int \<Rightarrow> int option \<Rightarrow> 'k files \<Rightarrow> (u32 \<times> 'k files) option" where
  "linux26_dup sys fd fd2 s = do {
     let (new_fd, k) = sys_dup sys fd fd2 (kern s);
     let s = s\<lparr>kern := k\<rparr>;
     if IBCS_IS_ERR new_fd then Some (new_fd, s)
     else do {
       f \<leftarrow> lookup_fd s fd;
       (case f of
          None \<Rightarrow> Some (new_fd, s)
        | Some _ \<Rightarrow> do {
            s \<leftarrow> fget sys (unat new_fd) s;
            old \<leftarrow> file_at s (nat fd);
            new \<leftarrow> file_at s (unat new_fd);
            s \<leftarrow> fput (unat new_fd) (set_slot (unat new_fd)
              (Open (new\<lparr>f_op_real := f_op_real old, f_own := f_own old, f_inode := f_inode old\<rparr>)) s);
            Some (new_fd, s)
          })
     }
   }"

definition linux26_access :: "'k fsys \<Rightarrow> u8 list \<Rightarrow> u32 \<Rightarrow> 'k files \<Rightarrow> (u32 \<times> 'k files) option" where
  "linux26_access sys fname mode s = do {
     name \<leftarrow> mapped_name sys fname;
     (rdev, slot) \<leftarrow> find_chrdev (drv_chrdev_open sys) name mode 0 (chrdevs s);
     if \<not> IBCS_IS_ERR rdev then Some (0, s)
     else let (r, k) = sys_access sys name mode (kern s) in Some (r, s\<lparr>kern := k\<rparr>)
   }"

text \<open>
  The result is the return value with the structure written: \<open>Inl\<close> when the kernel returned an
  error. For a device the two fields are written even then.
\<close>

definition linux26_stat :: "'k fsys \<Rightarrow> u8 list \<Rightarrow> 'k files \<Rightarrow> ((u32 + stat64) \<times> 'k files) option" where
  "linux26_stat sys fname s = do {
     name \<leftarrow> mapped_name sys fname;
     (rdev, slot) \<leftarrow> find_chrdev (drv_chrdev_open sys) name 0 0 (chrdevs s);
     if IBCS_IS_ERR rdev
     then let (r, k) = sys_stat64 sys name (kern s) in Some (r, s\<lparr>kern := k\<rparr>)
     else let (r, k) = sys_stat64 sys slash_dev (kern s)
          in Some (map_sum id (\<lambda>st. st\<lparr>st_mode := ucast S_IFCHR_0666, st_rdev := scast rdev\<rparr>) r, s\<lparr>kern := k\<rparr>)
   }"

definition linux26_fstat :: "'k fsys \<Rightarrow> int \<Rightarrow> 'k files \<Rightarrow> ((u32 + stat64) \<times> 'k files) option" where
  "linux26_fstat sys fd s =
     (case sys_fstat64 sys fd (kern s) of
        (Inl e, k) \<Rightarrow> Some (Inl e, s\<lparr>kern := k\<rparr>)
      | (Inr st, k) \<Rightarrow> do {
          f \<leftarrow> lookup_fd s fd;
          Some (Inr (case f of None \<Rightarrow> st
                     | Some f \<Rightarrow> st\<lparr>st_mode := ucast (i_mode (f_inode f)), st_rdev := ucast (i_rdev (f_inode f))\<rparr>),
                s\<lparr>kern := k\<rparr>)
        })"

section \<open>The table between system calls\<close>

text \<open>
  Between two calls every file of the table is open, is held by nobody and sits in its own slot.
  \<open>others_ok fd\<close> says so for the slots other than \<open>fd\<close>.
\<close>

fun slot_quiet :: "nat \<Rightarrow> slot \<Rightarrow> bool" where
  "slot_quiet i Null = True"
| "slot_quiet i (Open f) = (f_fd f = i \<and> f_count f = 0 \<and> f_isopen f)"
| "slot_quiet i Wild = False"

definition others_ok :: "nat \<Rightarrow> 'k files \<Rightarrow> bool" where
  "others_ok fd s \<longleftrightarrow> fd_array s \<and> (\<forall>i<length (fdt s). i \<noteq> fd \<longrightarrow> slot_quiet i (fdt s ! i))"

definition table_ok :: "'k files \<Rightarrow> bool" where
  "table_ok s \<longleftrightarrow> fd_array s \<and> (\<forall>i<length (fdt s). slot_quiet i (fdt s ! i))"

lemma table_ok_others: "table_ok s \<Longrightarrow> others_ok fd s"
  by (simp add: table_ok_def others_ok_def)

lemma others_ok_table: "others_ok fd s \<Longrightarrow> fd < length (fdt s) \<Longrightarrow> slot_quiet fd (fdt s ! fd) \<Longrightarrow> table_ok s"
  unfolding table_ok_def others_ok_def by metis

lemma set_slot_simps [simp]:
  "length (fdt (set_slot fd v s)) = length (fdt s)"
  "fd < length (fdt s) \<Longrightarrow> fdt (set_slot fd v s) ! fd = v"
  "i \<noteq> fd \<Longrightarrow> fdt (set_slot fd v s) ! i = fdt s ! i"
  "chrdevs (set_slot fd v s) = chrdevs s"
  "kern (set_slot fd v s) = kern s"
  "fd_array (set_slot fd v s) = fd_array s"
  "set_slot fd v (set_slot fd w s) = set_slot fd v s"
  by (simp_all add: set_slot_def)

lemma others_ok_set [simp]: "others_ok fd (set_slot fd v s) = others_ok fd s"
  by (simp add: others_ok_def)

lemma others_ok_kern [simp]: "others_ok fd (s\<lparr>kern := k\<rparr>) = others_ok fd s"
  by (simp add: others_ok_def)

lemma table_ok_kern [simp]: "table_ok (s\<lparr>kern := k\<rparr>) = table_ok s"
  by (simp add: table_ok_def)

lemma file_at_iff: "file_at s fd = Some f \<longleftrightarrow> fd < length (fdt s) \<and> fdt s ! fd = Open f"
  by (auto simp: file_at_def slot_at_def split: slot.splits)

lemma file_at_set [simp]:
  "fd < length (fdt s) \<Longrightarrow> file_at (set_slot fd (Open f) s) fd = Some f"
  "i \<noteq> fd \<Longrightarrow> file_at (set_slot fd v s) i = file_at s i"
  "file_at (s\<lparr>kern := k\<rparr>) i = file_at s i"
  by (simp_all add: file_at_def slot_at_def)

lemma kern_update_simps [simp]: "fdt (s\<lparr>kern := k\<rparr>) = fdt s" "chrdevs (s\<lparr>kern := k\<rparr>) = chrdevs s"
  by simp_all

lemma fget_grow_ok:
  assumes "table_ok s"
  shows "table_ok (fget_grow sys fd s)" "fd < length (fdt (fget_grow sys fd s))"
    "kern (fget_grow sys fd s) = kern s" "chrdevs (fget_grow sys fd s) = chrdevs s"
  using assms by (auto simp: fget_grow_def table_ok_def Let_def nth_append)

lemma fget_grow_slot:
  assumes "table_ok s" "i < length (fdt (fget_grow sys fd s))"
  shows "fdt (fget_grow sys fd s) ! i = (if i < length (fdt s) then fdt s ! i else Null)"
  using assms by (auto simp: fget_grow_def table_ok_def Let_def nth_append)

lemma fget_grow_fdt:
  assumes "table_ok s"
  shows "file_at (fget_grow sys fd s) i = file_at s i"
  using fget_grow_slot [OF assms, where i = i and sys = sys and fd = fd]
  by (auto simp: file_at_def slot_at_def fget_grow_def split: slot.splits)

text \<open>The file \<open>fget\<close> hands out: the one of the table, or a new one.\<close>

definition fget_file :: "'k fsys \<Rightarrow> nat \<Rightarrow> 'k files \<Rightarrow> filp" where
  "fget_file sys fd s = (case file_at s fd of Some f \<Rightarrow> f | None \<Rightarrow> fst (new_file sys fd (kern s)))"

lemma new_file_fields [simp]:
  "f_fd (fst (new_file sys fd k)) = fd" "f_count (fst (new_file sys fd k)) = 0"
  "f_own (fst (new_file sys fd k)) = False"
  by (simp_all add: new_file_def Let_def split: prod.splits sum.splits)

lemma fget_file_fields:
  assumes "table_ok s"
  shows "f_fd (fget_file sys fd s) = fd" "f_count (fget_file sys fd s) = 0"
  using assms by (auto simp: fget_file_def file_at_iff table_ok_def split: option.splits)

lemma fget_spec:
  assumes ok: "table_ok s"
  shows "\<exists>s'. fget sys fd s = Some s' \<and> others_ok fd s' \<and> chrdevs s' = chrdevs s
    \<and> file_at s' fd = Some ((fget_file sys fd s)\<lparr>f_count := 1\<rparr>)
    \<and> (\<forall>i. i \<noteq> fd \<longrightarrow> file_at s' i = file_at s i)"
proof -
  let ?g = "fget_grow sys fd s"
  note g = fget_grow_ok [OF ok, where sys = sys and fd = fd]
  note at = fget_grow_fdt [OF ok, where sys = sys and fd = fd]
  have result: ?thesis if "fget sys fd s = Some (set_slot fd (Open ((fget_file sys fd s)\<lparr>f_count := 1\<rparr>)) (?g\<lparr>kern := k\<rparr>))" for k
    using that g at table_ok_others [OF g(1), of fd] by simp
  show ?thesis
  proof (cases "fdt ?g ! fd")
    case Null
    then have "file_at s fd = None" using at [of fd] by (auto simp: file_at_def slot_at_def split: if_splits)
    then have f: "fget_file sys fd s = fst (new_file sys fd (kern s))" by (simp add: fget_file_def)
    show ?thesis
      using result [of "snd (new_file sys fd (kern s))"] Null g f
      by (simp add: fget_def Let_def case_prod_beta)
  next
    case (Open f)
    then have "file_at ?g fd = Some f" using g(2) by (simp add: file_at_iff)
    then have "file_at s fd = Some f" using at [of fd] by simp
    then have f: "fget_file sys fd s = f" by (simp add: fget_file_def)
    then show ?thesis
      using result [of "kern ?g"] Open fget_file_fields [OF ok, where sys = sys and fd = fd]
      by (simp add: fget_def Let_def)
  next
    case Wild
    then show ?thesis using g(1,2) by (auto simp: table_ok_def)
  qed
qed

text \<open>What \<open>fput\<close> leaves of a file that only its caller held.\<close>

definition settled :: "filp \<Rightarrow> slot" where
  "settled f = (if f_isopen f then Open (f\<lparr>f_count := 0\<rparr>) else Null)"

lemma settled_quiet: "f_fd f = fd \<Longrightarrow> slot_quiet fd (settled f)"
  by (simp add: settled_def)

lemma fput_spec:
  assumes "others_ok fd s" "file_at s fd = Some f" "f_fd f = fd" "f_count f = 1"
  shows "fput fd s = Some (set_slot fd (settled f) s)" "table_ok (set_slot fd (settled f) s)"
proof -
  have "fd < length (fdt s)" using assms(2) by (simp add: file_at_iff)
  with assms show "fput fd s = Some (set_slot fd (settled f) s)"
    by (simp add: fput_def fdestroy_def file_at_def slot_at_def settled_def)
  show "table_ok (set_slot fd (settled f) s)"
    using others_ok_table [of fd "set_slot fd (settled f) s"] assms(1,3) \<open>fd < length (fdt s)\<close>
    by (simp add: settled_quiet)
qed

text \<open>\<open>fget\<close> and then \<open>fput\<close> after a change of the file that keeps its number and its count.\<close>

lemma get_put:
  assumes "table_ok s" "f_fd f = fd" "f_count f = 1"
  obtains s' where "fget sys fd s = Some s'" "chrdevs s' = chrdevs s"
    "file_at s' fd = Some ((fget_file sys fd s)\<lparr>f_count := 1\<rparr>)"
    "\<And>i. i \<noteq> fd \<Longrightarrow> file_at s' i = file_at s i"
    "\<And>k. fput fd (set_slot fd (Open f) (s'\<lparr>kern := k\<rparr>)) = Some (set_slot fd (settled f) (s'\<lparr>kern := k\<rparr>))"
    "\<And>k. table_ok (set_slot fd (settled f) (s'\<lparr>kern := k\<rparr>))"
    "fd < length (fdt s')"
proof -
  obtain s' where s': "fget sys fd s = Some s'" "others_ok fd s'" "chrdevs s' = chrdevs s"
    "file_at s' fd = Some ((fget_file sys fd s)\<lparr>f_count := 1\<rparr>)" "\<And>i. i \<noteq> fd \<Longrightarrow> file_at s' i = file_at s i"
    using fget_spec [OF assms(1), of sys fd] by auto
  have len: "fd < length (fdt s')" using s'(4) by (simp add: file_at_iff)
  have put: "fput fd (set_slot fd (Open f) (s'\<lparr>kern := k\<rparr>)) = Some (set_slot fd (settled f) (s'\<lparr>kern := k\<rparr>))"
    "table_ok (set_slot fd (settled f) (s'\<lparr>kern := k\<rparr>))" for k
    using fput_spec [of fd "set_slot fd (Open f) (s'\<lparr>kern := k\<rparr>)" f] s'(2) len assms(2,3) by simp_all
  show thesis by (rule that [OF s'(1,3,4,5) put len])
qed

text \<open>
  Taking and releasing a file changes nothing: after \<open>fget\<close> and \<open>fput\<close> every descriptor has
  the file it had, a descriptor without one gets an entry exactly when the kernel knows it, and the
  table is again one of open files in their own slots that nobody holds.
\<close>

theorem fget_fput:
  assumes "table_ok s"
  shows "\<exists>s' s''. fget sys fd s = Some s' \<and> fput fd s' = Some s'' \<and> table_ok s''
    \<and> (\<forall>i. i \<noteq> fd \<longrightarrow> file_at s'' i = file_at s i)
    \<and> file_at s'' fd = (case file_at s fd of
         Some f \<Rightarrow> Some f
       | None \<Rightarrow> let f = fst (new_file sys fd (kern s)) in if f_isopen f then Some f else None)"
proof -
  let ?f = "fget_file sys fd s"
  note ff = fget_file_fields [OF assms, where sys = sys and fd = fd]
  obtain s' where s': "fget sys fd s = Some s'" "others_ok fd s'" "file_at s' fd = Some (?f\<lparr>f_count := 1\<rparr>)"
    "\<And>i. i \<noteq> fd \<Longrightarrow> file_at s' i = file_at s i"
    using fget_spec [OF assms, of sys fd] by auto
  have len: "fd < length (fdt s')" using s'(3) by (simp add: file_at_iff)
  note put = fput_spec [OF s'(2,3)]
  have "?f\<lparr>f_count := 0\<rparr> = ?f" using ff(2) by (cases ?f) simp
  then have "settled (?f\<lparr>f_count := 1\<rparr>) = (if f_isopen ?f then Open ?f else Null)"
    by (simp add: settled_def)
  moreover have "f_isopen f" if "file_at s fd = Some f" for f
    using assms that by (auto simp: table_ok_def file_at_iff)
  ultimately have "file_at (set_slot fd (settled (?f\<lparr>f_count := 1\<rparr>)) s') fd = (case file_at s fd of
         Some f \<Rightarrow> Some f
       | None \<Rightarrow> let f = fst (new_file sys fd (kern s)) in if f_isopen f then Some f else None)"
    using len by (auto simp: fget_file_def file_at_def [of "set_slot _ _ _"] slot_at_def Let_def split: option.splits)
  then show ?thesis using s' put ff by simp
qed

text \<open>The file that \<open>open_chrdev\<close> makes of the file \<open>f\<close> for the driver \<open>d\<close>.\<close>

definition chrdev_made :: "'k fsys \<Rightarrow> u32 \<Rightarrow> nat \<Rightarrow> filp \<Rightarrow> filp" where
  "chrdev_made sys rdev d f =
     f\<lparr>f_inode := (f_inode f)\<lparr>i_mode := S_IFCHR_0666, i_rdev := rdev\<rparr>,
       f_op_real := chrdev_operations (f_op f) (drivers sys d), f_own := True\<rparr>"

lemma chrdev_made_fields [simp]:
  "f_fd (chrdev_made sys rdev d f) = f_fd f" "f_count (chrdev_made sys rdev d f) = f_count f"
  "f_isopen (chrdev_made sys rdev d f) = f_isopen f"
  by (simp_all add: chrdev_made_def)

lemma chrdev_file_error:
  assumes "sys_open sys slash_dev 0 0 (kern s) = (fd, k)" "IBCS_IS_ERR fd"
  shows "chrdev_file sys rdev i s = None"
  using assms by (simp add: chrdev_file_def linux26_fopen_def)

lemma chrdev_file_spec:
  assumes ok: "table_ok s" and op: "sys_open sys slash_dev 0 0 (kern s) = (fd, k)" "\<not> IBCS_IS_ERR fd"
    and d: "chrdev_fops (chrdevs s ! i) = Some d"
  defines "f \<equiv> fget_file sys (unat fd) (s\<lparr>kern := k\<rparr>)"
  shows "if f_isopen f then \<exists>s'. chrdev_file sys rdev i s = Some (fd, s') \<and> table_ok s' \<and> chrdevs s' = chrdevs s
      \<and> file_at s' (unat fd) = Some (chrdev_made sys rdev d f) \<and> (\<forall>j. j \<noteq> unat fd \<longrightarrow> file_at s' j = file_at s j)
    else chrdev_file sys rdev i s = None"
proof -
  let ?n = "unat fd" and ?f = "f\<lparr>f_count := 1\<rparr>"
  have ok': "table_ok (s\<lparr>kern := k\<rparr>)" using ok by simp
  note ff = fget_file_fields [OF ok', where sys = sys and fd = ?n, folded f_def]
  have cm: "f_fd (chrdev_made sys rdev d ?f) = ?n" "f_count (chrdev_made sys rdev d ?f) = 1" using ff by simp_all
  obtain s1 where g: "fget sys ?n (s\<lparr>kern := k\<rparr>) = Some s1" "chrdevs s1 = chrdevs (s\<lparr>kern := k\<rparr>)" "file_at s1 ?n = Some ?f"
    "\<And>i. i \<noteq> ?n \<Longrightarrow> file_at s1 i = file_at (s\<lparr>kern := k\<rparr>) i"
    and p: "\<And>k'. fput ?n (set_slot ?n (Open (chrdev_made sys rdev d ?f)) (s1\<lparr>kern := k'\<rparr>))
      = Some (set_slot ?n (settled (chrdev_made sys rdev d ?f)) (s1\<lparr>kern := k'\<rparr>))"
    and t: "\<And>k'. table_ok (set_slot ?n (settled (chrdev_made sys rdev d ?f)) (s1\<lparr>kern := k'\<rparr>))"
    and len: "?n < length (fdt s1)"
    using get_put [OF ok' cm, where sys = sys, folded f_def] by blast
  define k' where "k' = call_open sys (op_open (chrdev_operations (f_op ?f) (drivers sys d))) ?n (kern s1)"
  define s2 where "s2 = set_slot ?n (settled (chrdev_made sys rdev d ?f)) (s1\<lparr>kern := k'\<rparr>)"
  have swap: "(set_slot ?n v s1)\<lparr>kern := k'\<rparr> = set_slot ?n v (s1\<lparr>kern := k'\<rparr>)" for v
    by (simp add: set_slot_def)
  have run: "chrdev_file sys rdev i s = Option.bind (file_at s2 ?n) (\<lambda>f. Some (of_nat (f_fd f), s2))"
    using op d g p [of k'] swap [of "Open (chrdev_made sys rdev d ?f)"]
    by (simp add: chrdev_file_def linux26_fopen_def s2_def k'_def chrdev_made_def Let_def)
  have m0: "chrdev_made sys rdev d ?f\<lparr>f_count := 0\<rparr> = chrdev_made sys rdev d f"
    using ff(2) by (cases f) (simp add: chrdev_made_def f_op_def)
  have at: "file_at s2 ?n = (if f_isopen f then Some (chrdev_made sys rdev d f) else None)"
    using len m0 by (simp add: s2_def settled_def file_at_def slot_at_def)
  have rest: "table_ok s2" "chrdevs s2 = chrdevs s" "\<And>j. j \<noteq> ?n \<Longrightarrow> file_at s2 j = file_at s j"
    using t [of k'] g by (simp_all add: s2_def)
  show ?thesis using run at rest ff(1) by simp
qed

lemma chrdev_file_keeps:
  assumes "table_ok s" "chrdev_file sys rdev i s = Some (r, s')"
  shows "table_ok s' \<and> chrdevs s' = chrdevs s"
proof -
  obtain fd k where op: "sys_open sys slash_dev 0 0 (kern s) = (fd, k)" by fastforce
  have e: "\<not> IBCS_IS_ERR fd" using chrdev_file_error [OF op] assms(2) by auto
  obtain s1 where g: "fget sys (unat fd) (s\<lparr>kern := k\<rparr>) = Some s1" "chrdevs s1 = chrdevs s"
    using fget_spec [of "s\<lparr>kern := k\<rparr>" sys "unat fd"] assms(1) by auto
  have "chrdev_fops (chrdevs s ! i) \<noteq> None"
    using assms(2) op e g by (auto simp: chrdev_file_def linux26_fopen_def bind_eq_Some_conv)
  then obtain d where "chrdev_fops (chrdevs s ! i) = Some d" by auto
  with chrdev_file_spec [OF assms(1) op e this, of rdev] assms(2) show ?thesis
    by (auto split: if_splits)
qed

lemma open_chrdev_keeps:
  assumes "table_ok s" "open_chrdev sys path mode flags s = Some (r, s')"
  shows "table_ok s' \<and> chrdevs s' = chrdevs s"
  using assms chrdev_file_keeps [of s sys _ _ r s']
  by (auto simp: open_chrdev_def bind_eq_Some_conv split: option.splits)

lemma linux26_open_keeps:
  "table_ok s \<Longrightarrow> linux26_open sys fname mode flags s = Some (r, s') \<Longrightarrow> table_ok s' \<and> chrdevs s' = chrdevs s"
  using open_chrdev_keeps [of s sys]
  by (fastforce simp: linux26_open_def bind_eq_Some_conv split: if_splits prod.splits)

lemma linux26_creat_keeps:
  "table_ok s \<Longrightarrow> linux26_creat sys fname mode s = Some (r, s') \<Longrightarrow> table_ok s' \<and> chrdevs s' = chrdevs s"
  using open_chrdev_keeps [of s sys]
  by (fastforce simp: linux26_creat_def bind_eq_Some_conv split: if_splits prod.splits)

lemma linux26_close_keeps:
  assumes "table_ok s" "linux26_close sys fd s = Some (r, s')"
  shows "table_ok s' \<and> chrdevs s' = chrdevs s \<and> file_at s' (nat fd) = (if fd < 0 then file_at s 0 else None)
    \<and> (\<forall>i. int i \<noteq> fd \<longrightarrow> file_at s' i = file_at s i)"
proof (cases "0 \<le> fd \<and> fd < int (length (fdt s)) \<and> fdt s ! nat fd \<noteq> Null")
  case True
  then have "nat fd < length (fdt s)" by auto
  with True assms(1) obtain f where f: "fdt s ! nat fd = Open f" "f_fd f = nat fd" "f_count f = 0"
    by (cases "fdt s ! nat fd") (auto simp: table_ok_def)
  have "table_ok (set_slot (nat fd) Null s)"
    by (rule others_ok_table [of "nat fd"]) (use assms(1) \<open>nat fd < _\<close> in \<open>simp_all add: table_ok_others\<close>)
  moreover have "file_at (set_slot (nat fd) Null s) (nat fd) = None"
    using \<open>nat fd < _\<close> by (simp add: file_at_def slot_at_def)
  moreover have "s' = (set_slot (nat fd) Null s)\<lparr>kern := kern s'\<rparr>"
    using assms(2) True f \<open>nat fd < _\<close>
    by (auto simp: linux26_close_def fdestroy_def file_at_iff bind_eq_Some_conv split: prod.splits)
  ultimately show ?thesis using True
    by (metis file_at_set(2,3) int_nat_eq kern_update_simps(2) linorder_not_less set_slot_simps(4) table_ok_kern)
next
  case False
  then have "s' = s\<lparr>kern := kern s'\<rparr>"
    using assms(2) by (auto simp: linux26_close_def split: prod.splits)
  moreover have "file_at s (nat fd) = None" if "0 \<le> fd"
    using False that by (auto simp: file_at_def slot_at_def split: slot.splits)
  ultimately show ?thesis using assms(1) by (metis file_at_set(3) kern_update_simps(2) linorder_not_less nat_eq_iff2 not_le order_less_imp_le table_ok_kern)
qed

lemma lookup_fd_kern [simp]: "lookup_fd (s\<lparr>kern := k\<rparr>) fd = lookup_fd s fd"
  by (simp add: lookup_fd_def slot_at_def)

lemma lookup_fd_ok:
  assumes "table_ok s" "0 \<le> fd" "fd < int (length (fdt s))"
  shows "lookup_fd s fd = Some (file_at s (nat fd))"
proof -
  have "nat fd < length (fdt s)" using assms by auto
  with assms show ?thesis
    by (cases "fdt s ! nat fd") (auto simp: lookup_fd_def slot_at_def file_at_def table_ok_def)
qed

lemma lookup_fd_file:
  assumes "lookup_fd s fd = Some (Some f)"
  shows "0 \<le> fd" "file_at s (nat fd) = Some f"
  using assms by (auto simp: lookup_fd_def slot_at_def file_at_def split: if_splits option.splits slot.splits)

text \<open>What the duplicate of \<open>old\<close> in the slot of \<open>new\<close> holds.\<close>

definition dup_made :: "filp \<Rightarrow> filp \<Rightarrow> filp" where
  "dup_made old new = new\<lparr>f_op_real := f_op_real old, f_own := f_own old, f_inode := f_inode old\<rparr>"

lemma dup_made_fields [simp]:
  "f_fd (dup_made old new) = f_fd new" "f_count (dup_made old new) = f_count new"
  "f_isopen (dup_made old new) = f_isopen new" "f_op (dup_made old new) = f_op old"
  "f_inode (dup_made old new) = f_inode old"
  by (simp_all add: dup_made_def f_op_def)

lemma linux26_dup_spec:
  assumes ok: "table_ok s" and d: "sys_dup sys fd fd2 (kern s) = (new_fd, k)" "\<not> IBCS_IS_ERR new_fd"
    and f: "lookup_fd s fd = Some (Some old)"
  defines "new \<equiv> fget_file sys (unat new_fd) (s\<lparr>kern := k\<rparr>)"
  shows "\<exists>s'. linux26_dup sys fd fd2 s = Some (new_fd, s') \<and> table_ok s' \<and> chrdevs s' = chrdevs s
    \<and> file_at s' (unat new_fd) = (if f_isopen new then Some (dup_made old new) else None)
    \<and> (\<forall>j. j \<noteq> unat new_fd \<longrightarrow> file_at s' j = file_at s j)"
proof -
  let ?n = "unat new_fd" and ?new = "new\<lparr>f_count := 1\<rparr>"
  have ok': "table_ok (s\<lparr>kern := k\<rparr>)" using ok by simp
  note nf = fget_file_fields [OF ok', where sys = sys and fd = ?n, folded new_def]
  have fd: "file_at s (nat fd) = Some old" by (rule lookup_fd_file(2) [OF f])
  have lk: "lookup_fd (s\<lparr>kern := k\<rparr>) fd = Some (Some old)" using f by simp
  have dm: "f_fd (dup_made old ?new) = ?n" "f_count (dup_made old ?new) = 1" using nf by simp_all
  obtain s1 where g: "fget sys ?n (s\<lparr>kern := k\<rparr>) = Some s1" "chrdevs s1 = chrdevs (s\<lparr>kern := k\<rparr>)" "file_at s1 ?n = Some ?new"
    "\<And>i. i \<noteq> ?n \<Longrightarrow> file_at s1 i = file_at (s\<lparr>kern := k\<rparr>) i"
    and p: "\<And>k'. fput ?n (set_slot ?n (Open (dup_made old ?new)) (s1\<lparr>kern := k'\<rparr>))
      = Some (set_slot ?n (settled (dup_made old ?new)) (s1\<lparr>kern := k'\<rparr>))"
    and t: "\<And>k'. table_ok (set_slot ?n (settled (dup_made old ?new)) (s1\<lparr>kern := k'\<rparr>))"
    and len: "?n < length (fdt s1)"
    using get_put [OF ok' dm, where sys = sys, folded new_def] by blast
  have old1: "\<exists>c. file_at s1 (nat fd) = Some (old\<lparr>f_count := c\<rparr>)"
  proof (cases "nat fd = ?n")
    case True
    then have "new = old" using fd by (simp add: new_def fget_file_def)
    with g(3) True show ?thesis by auto
  next
    case False
    then have "file_at s1 (nat fd) = Some old" using g(4) fd by simp
    then have "file_at s1 (nat fd) = Some (old\<lparr>f_count := f_count old\<rparr>)" by (cases old) simp
    then show ?thesis by blast
  qed
  let ?s2 = "set_slot ?n (settled (dup_made old ?new)) s1"
  have kk: "s1\<lparr>kern := kern s1\<rparr> = s1" by simp
  obtain c where c: "file_at s1 (nat fd) = Some (old\<lparr>f_count := c\<rparr>)" using old1 by blast
  have "linux26_dup sys fd fd2 s = Some (new_fd, ?s2)"
    using d lk g(1,3) c p [of "kern s1"] by (simp add: linux26_dup_def dup_made_def)
  moreover have "dup_made old ?new\<lparr>f_count := 0\<rparr> = dup_made old new"
    using nf(2) by (cases new) (simp add: dup_made_def)
  then have "file_at ?s2 ?n = (if f_isopen new then Some (dup_made old new) else None)"
    using len by (simp add: settled_def file_at_def slot_at_def)
  ultimately show ?thesis using t [of "kern s1"] g by simp
qed

lemma linux26_dup_keeps:
  assumes "table_ok s" "linux26_dup sys fd fd2 s = Some (r, s')"
  shows "table_ok s' \<and> chrdevs s' = chrdevs s"
proof -
  obtain new_fd k where d: "sys_dup sys fd fd2 (kern s) = (new_fd, k)" by fastforce
  consider "IBCS_IS_ERR new_fd" | "\<not> IBCS_IS_ERR new_fd" "lookup_fd s fd = Some None"
    | f where "\<not> IBCS_IS_ERR new_fd" "lookup_fd s fd = Some (Some f)"
    using assms(2) d by (cases "lookup_fd s fd") (auto simp: linux26_dup_def Let_def split: if_splits)
  then show ?thesis
  proof cases
    case 3
    then show ?thesis using linux26_dup_spec [OF assms(1) d 3(1,2)] assms(2) by auto
  qed (use assms d in \<open>auto simp: linux26_dup_def Let_def\<close>)
qed

section \<open>Runs of system calls\<close>

datatype file_call =
    Call_read int u32
  | Call_write int u32
  | Call_open "u8 list" u32 u32
  | Call_creat "u8 list" u32
  | Call_close int
  | Call_dup int "int option"
  | Call_access "u8 list" u32
  | Call_stat "u8 list"
  | Call_fstat int

datatype answer = Word u32 | Stat "u32 + stat64"

definition with_word :: "(u32 \<times> 'k files) option \<Rightarrow> (answer \<times> 'k files) option" where
  "with_word = map_option (apfst Word)"

definition with_stat :: "((u32 + stat64) \<times> 'k files) option \<Rightarrow> (answer \<times> 'k files) option" where
  "with_stat = map_option (apfst Stat)"

fun do_call :: "'k fsys \<Rightarrow> file_call \<Rightarrow> 'k files \<Rightarrow> (answer \<times> 'k files) option" where
  "do_call sys (Call_read fd n) s = with_word (linux26_read sys fd n s)"
| "do_call sys (Call_write fd n) s = with_word (linux26_write sys fd n s)"
| "do_call sys (Call_open name mode flags) s = with_word (linux26_open sys name mode flags s)"
| "do_call sys (Call_creat name mode) s = with_word (linux26_creat sys name mode s)"
| "do_call sys (Call_close fd) s = with_word (linux26_close sys fd s)"
| "do_call sys (Call_dup fd fd2) s = with_word (linux26_dup sys fd fd2 s)"
| "do_call sys (Call_access name mode) s = with_word (linux26_access sys name mode s)"
| "do_call sys (Call_stat name) s = with_stat (linux26_stat sys name s)"
| "do_call sys (Call_fstat fd) s = with_stat (linux26_fstat sys fd s)"

lemma with_iff [simp]:
  "with_word x = Some (a, s) \<longleftrightarrow> (\<exists>r. x = Some (r, s) \<and> a = Word r)"
  "with_stat y = Some (a, s) \<longleftrightarrow> (\<exists>t. y = Some (t, s) \<and> a = Stat t)"
  by (auto simp: with_word_def with_stat_def)

definition same_table :: "'k files \<Rightarrow> 'k files \<Rightarrow> bool" where
  "same_table s s' \<longleftrightarrow> (\<exists>k. s' = s\<lparr>kern := k\<rparr>)"

lemma same_table_keeps: "same_table s s' \<Longrightarrow> table_ok s \<Longrightarrow> table_ok s' \<and> chrdevs s' = chrdevs s"
  by (auto simp: same_table_def)

lemma same_table_calls:
  "linux26_read sys fd n s = Some (r, s') \<Longrightarrow> same_table s s'"
  "linux26_write sys fd n s = Some (r, s') \<Longrightarrow> same_table s s'"
  "linux26_access sys name mode s = Some (r, s') \<Longrightarrow> same_table s s'"
  "linux26_stat sys name s = Some (t, s') \<Longrightarrow> same_table s s'"
  "linux26_fstat sys fd s = Some (t, s') \<Longrightarrow> same_table s s'"
proof -
  have id: "same_table s s" unfolding same_table_def by (rule exI [of _ "kern s"]) simp
  show "linux26_read sys fd n s = Some (r, s') \<Longrightarrow> same_table s s'"
    by (auto simp: linux26_read_def same_table_def bind_eq_Some_conv case_prod_beta)
  show "linux26_write sys fd n s = Some (r, s') \<Longrightarrow> same_table s s'"
    by (auto simp: linux26_write_def same_table_def bind_eq_Some_conv case_prod_beta)
  show "linux26_access sys name mode s = Some (r, s') \<Longrightarrow> same_table s s'"
    using id by (auto simp: linux26_access_def same_table_def bind_eq_Some_conv case_prod_beta split: if_splits)
  show "linux26_stat sys name s = Some (t, s') \<Longrightarrow> same_table s s'"
    by (auto simp: linux26_stat_def same_table_def bind_eq_Some_conv case_prod_beta split: if_splits)
  show "linux26_fstat sys fd s = Some (t, s') \<Longrightarrow> same_table s s'"
    by (auto simp: linux26_fstat_def same_table_def bind_eq_Some_conv case_prod_beta split: sum.splits)
qed

lemma file_call_keeps:
  assumes "table_ok s" "do_call sys c s = Some (a, s')"
  shows "table_ok s' \<and> chrdevs s' = chrdevs s"
  using assms
  by (cases c)
     (auto dest: same_table_calls same_table_keeps linux26_open_keeps linux26_creat_keeps
        linux26_close_keeps linux26_dup_keeps)

interpretation ft: kept_invariant "do_call sys" "\<lambda>s. table_ok s \<and> chrdevs s = devs"
  by unfold_locales (use file_call_keeps in fastforce)


section \<open>Character devices end to end\<close>

lemma chrdev_made_ops:
  assumes "op_read (drivers sys d) = Some (Driver r)" "op_write (drivers sys d) = Some (Driver w)"
  shows "op_read (f_op (chrdev_made sys rdev d f)) = Some (Driver r)"
    "op_write (f_op (chrdev_made sys rdev d f)) = Some (Driver w)"
    "i_mode (f_inode (chrdev_made sys rdev d f)) = S_IFCHR_0666"
    "i_rdev (f_inode (chrdev_made sys rdev d f)) = rdev"
  using assms by (simp_all add: chrdev_made_def f_op_def chrdev_operations_def override_def)

lemma lookup_fd_at:
  assumes "table_ok s" "file_at s (unat fd) = Some f"
  shows "lookup_fd s (uint fd) = Some (Some f)"
proof -
  have "unat fd < length (fdt s)" using assms(2) by (simp add: file_at_iff)
  then have "lookup_fd s (int (unat fd)) = Some (file_at s (unat fd))"
    using lookup_fd_ok [OF assms(1), of "int (unat fd)"] by (simp only: nat_int of_nat_0_le_iff of_nat_less_iff)
  then show ?thesis using assms(2) by simp
qed

text \<open>A file is served by the driver functions \<open>r\<close> and \<open>w\<close> under the descriptor \<open>fd\<close>.\<close>

definition served :: "'k fsys \<Rightarrow> nat \<Rightarrow> nat \<Rightarrow> u32 \<Rightarrow> u32 \<Rightarrow> 'k files \<Rightarrow> bool" where
  "served sys r w rdev fd s \<longleftrightarrow>
     (\<forall>n. linux26_read sys (uint fd) n s
        = (case drv_read sys r (unat fd) n (kern s) of (x, k) \<Rightarrow> Some (x, s\<lparr>kern := k\<rparr>)))
   \<and> (\<forall>n. linux26_write sys (uint fd) n s
        = (case drv_write sys w (unat fd) n (kern s) of (x, k) \<Rightarrow> Some (x, s\<lparr>kern := k\<rparr>)))
   \<and> (\<forall>st k. sys_fstat64 sys (uint fd) (kern s) = (Inr st, k) \<longrightarrow>
        linux26_fstat sys (uint fd) s
          = Some (Inr (st\<lparr>st_mode := ucast S_IFCHR_0666, st_rdev := ucast rdev\<rparr>), s\<lparr>kern := k\<rparr>))"

lemma servedI:
  assumes "table_ok s" "file_at s (unat fd) = Some f" "op_read (f_op f) = Some (Driver r)"
    "op_write (f_op f) = Some (Driver w)" "i_mode (f_inode f) = S_IFCHR_0666" "i_rdev (f_inode f) = rdev"
  shows "served sys r w rdev fd s"
  using lookup_fd_at [OF assms(1,2)] assms(3-)
  by (simp add: served_def linux26_read_def linux26_write_def linux26_fstat_def case_prod_beta)

lemma find_chrdev_loop_found:
  "find_chrdev_loop op path mode flags u j = (rdev, Some i) \<Longrightarrow>
     \<exists>m. i = j + m \<and> m < length u \<and> chrdev_fops (u ! m) \<noteq> None \<and> \<not> IBCS_IS_ERR rdev"
proof (induction u arbitrary: j)
  case (Cons c u)
  show ?case
  proof (cases "find_chrdev_loop op path mode flags (c # u) j = find_chrdev_loop op path mode flags u (j + 1)")
    case True
    then obtain m where "i = j + 1 + m" "m < length u" "chrdev_fops (u ! m) \<noteq> None" "\<not> IBCS_IS_ERR rdev"
      using Cons by metis
    then show ?thesis by (intro exI [of _ "Suc m"]) simp
  next
    case False
    then show ?thesis using Cons.prems
      by (intro exI [of _ 0]) (auto simp: Let_def split: option.splits if_splits)
  qed
qed simp

lemma find_chrdev_found:
  "find_chrdev op path mode flags t = Some (rdev, Some i) \<Longrightarrow>
     i < length t \<and> chrdev_fops (t ! i) \<noteq> None \<and> \<not> IBCS_IS_ERR rdev"
  using find_chrdev_loop_found [of op path mode flags t 0 rdev i]
  by (auto simp: find_chrdev_def bind_eq_Some_conv split: if_splits)


text \<open>
  The descriptor checks of \<open>read\<close>, \<open>write\<close>, \<open>fstat\<close> and \<open>dup\<close> let the number \<open>max_fds\<close> through,
  and the slot of that number lies outside the table: the call reads memory it does not own.
  (\<open>close\<close> has the right bound and is defined for every number.)
\<close>

theorem read_past_table:
  fixes s :: "'k files"
  assumes "table_ok s"
  shows "linux26_read sys (int (length (fdt s))) n s = None \<and> linux26_write sys (int (length (fdt s))) n s = None
    \<and> (\<forall>fd. linux26_close sys fd s \<noteq> None)
    \<and> (\<forall>fd. fd \<noteq> int (length (fdt s)) \<longrightarrow> linux26_read sys fd n s \<noteq> None)"
proof -
  have past: "lookup_fd s (int (length (fdt s))) = None" by (simp add: lookup_fd_def slot_at_def)
  have close: "linux26_close sys fd s \<noteq> None" for fd
  proof (cases "0 \<le> fd \<and> fd < int (length (fdt s)) \<and> fdt s ! nat fd \<noteq> Null")
    case True
    then have "nat fd < length (fdt s)" by auto
    with True assms obtain f where "fdt s ! nat fd = Open f"
      by (cases "fdt s ! nat fd") (auto simp: table_ok_def)
    with True \<open>nat fd < _\<close> show ?thesis
      by (auto simp: linux26_close_def fdestroy_def file_at_iff file_at_def slot_at_def split: prod.splits)
  qed (auto simp: linux26_close_def split: prod.splits)
  have inside: "lookup_fd s fd \<noteq> None" if "fd \<noteq> int (length (fdt s))" for fd
    using that lookup_fd_ok [OF assms, of fd] by (cases "0 \<le> fd \<and> fd < int (length (fdt s))") (auto simp: lookup_fd_def)
  show ?thesis using past close inside
    by (auto simp: linux26_read_def linux26_write_def bind_eq_Some_conv case_prod_beta)
qed

section \<open>A kernel with one device\<close>

text \<open>
  The kernel of the witnesses below: every descriptor is known to it, \<open>open\<close> returns 3 and \<open>dup\<close>
  returns 5; one driver, number 1, serves the name \<open>x\<close>.
\<close>

definition one_stat :: stat64 where
  "one_stat = \<lparr>st_dev = 1, st_ino = 2, st_mode = 0x41ed, st_nlink = 1, st_uid = 0, st_gid = 0, st_rdev = 0,
     st_size = 0, st_atime = 0, st_atime_nsec = 0, st_mtime = 0, st_mtime_nsec = 0, st_ctime = 0,
     st_ctime_nsec = 0, st_blksize = 512, st_blocks = 0\<rparr>"

definition one_sys :: "nat fsys" where
  "one_sys = \<lparr>sys_fstat64 = \<lambda>fd k. (Inr one_stat, k), sys_stat64 = \<lambda>p k. (Inr one_stat, k),
     sys_open = \<lambda>p m f k. (3, k), sys_creat = \<lambda>p m k. (3, k), sys_access = \<lambda>p m k. (0, k),
     sys_close = \<lambda>fd k. (0, k), sys_dup = \<lambda>fd fd2 k. (5, k), sys_read = \<lambda>fd n k. (0, k),
     sys_write = \<lambda>fd n k. (0, k), sys_lseek = \<lambda>fd off w k. (off, k), sys_getcwd = \<lambda>n. Inl (- 2),
     drv_read = \<lambda>d fd n k. (n, k + 1), drv_write = \<lambda>d fd n k. (n, k + 1), drv_open = \<lambda>d fd k. k,
     drv_release = \<lambda>d fd k. k, drv_chrdev_open = \<lambda>d p m f. if p ! 0 = 120 then 7 else - 2,
     drivers = \<lambda>d. no_operations\<lparr>op_read := Some (Driver 1), op_write := Some (Driver 2)\<rparr>,
     fresh = \<lambda>i. Null, filemaps = [], stack_bytes = replicate 16 0\<rparr>"

definition one_files :: "nat files" where
  "one_files = \<lparr>fdt = [Null, Null], fd_array = True,
     chrdevs = [\<lparr>chrdev_major = 9, chrdev_name = Some [120, 0], chrdev_fops = Some 1\<rparr>], kern = 0\<rparr>"

lemma one_files_ok: "table_ok one_files"
  by (simp add: table_ok_def one_files_def less_Suc_eq)

lemma one_name: "mapped_name one_sys [47, 100, 101, 118, 47, 120, 0] = Some ([47, 100, 101, 118, 47, 120, 0] @ replicate 9 0)"
  by code_simp

lemma one_find:
  "find_chrdev (drv_chrdev_open one_sys) ([47, 100, 101, 118, 47, 120, 0] @ replicate 9 0) 0 0 (chrdevs one_files) = Some (7, Some 0)"
  by code_simp


theorem fget_fput_witness:
  "\<exists>s' s''. fget one_sys 4 one_files = Some s' \<and> fput 4 s' = Some s'' \<and> table_ok s''
     \<and> file_at s'' 4 = Some (fst (new_file one_sys 4 0))"
proof -
  have "file_at one_files 4 = None" "kern one_files = 0" "f_isopen (fst (new_file one_sys 4 0))"
    by (simp_all add: file_at_def slot_at_def one_files_def new_file_def vfs_fstat_def one_sys_def)
  with fget_fput [OF one_files_ok, of one_sys 4] show ?thesis by (auto simp: Let_def)
qed

theorem read_past_table_witness: "linux26_read one_sys 2 10 one_files = None"
  using read_past_table [OF one_files_ok, of one_sys 10] by (simp add: one_files_def)


end
