(* ===== verification/Lcall.thy ===== *)
theory Lcall
  imports Map_Tables "HOL-Library.Monad_Syntax"
begin

text \<open>
  The system call gate of \<^verbatim>\<open>src/ibcs/sysent.c\<close> and \<^verbatim>\<open>src/include/ibcs-us/ibcs/sysent.h\<close>: the entry of a
  system call table, the dispatch on its calling convention (\<open>lcall7_dispatch\<close>), the indirect system
  call (\<open>lcall7_syscall\<close>), the format of the trace line (\<open>printk_syscall\<close>) and the patching of the
  \<open>lcall\<close> instruction (\<open>lcall_sigsegv\<close>).

  \<open>'k\<close> is the state of the emulated kernel and of the user's memory. The functions the tables name
  are parameters (the record \<open>gate\<close>), one field for each calling convention. A pointer of a table is
  a \<open>target\<close>: C tells a system call number from a function by \<open>(size_t)syscall < 512\<close>, no function
  being mapped in the first page. \<open>None\<close> as a result is an error table that is read outside its
  bounds, or a handler that gives none.
\<close>

section \<open>Registers\<close>

record pt_regs =
  ebx :: u32
  ecx :: u32
  edx :: u32
  esi :: u32
  edi :: u32
  ebp :: u32
  eax :: u32
  xds :: u32
  xes :: u32
  xfs :: u32
  xgs :: u32
  orig_eax :: u32
  eip :: u32
  xcs :: u32
  eflags :: u32
  esp :: u32
  xss :: u32

definition set_error :: "pt_regs \<Rightarrow> u32 \<Rightarrow> pt_regs" where
  "set_error regs errno = regs\<lparr>eax := errno, eflags := eflags regs OR 1\<rparr>"

definition clear_error :: "pt_regs \<Rightarrow> pt_regs" where
  "clear_error regs = regs\<lparr>eflags := eflags regs AND NOT 1\<rparr>"

definition set_result :: "pt_regs \<Rightarrow> u32 \<Rightarrow> pt_regs" where
  "set_result regs r = regs\<lparr>eax := r\<rparr>"

definition get_result :: "pt_regs \<Rightarrow> u32" where
  "get_result regs = eax regs"

section \<open>System call tables\<close>

datatype target = Null | Kernel nat | Func string

record sysent =
  se_syscall :: target
  se_nargs :: int
  se_name :: string
  se_args :: string

text \<open>The calling conventions that are letters.\<close>

definition Spl :: int where "Spl = 115"
definition Fast :: int where "Fast = 102"
definition Unimpl :: int where "Unimpl = 117"
definition Ukn :: int where "Ukn = 107"

definition se :: "target \<Rightarrow> int \<Rightarrow> string \<Rightarrow> string \<Rightarrow> sysent" where
  "se f n name args = \<lparr>se_syscall = f, se_nargs = n, se_name = name, se_args = args\<rparr>"

record 'k gate =
  peek :: "u32 \<Rightarrow> 'k \<Rightarrow> u32"
  kernel_call :: "nat \<Rightarrow> u32 list \<Rightarrow> 'k \<Rightarrow> u32 \<times> 'k"
  c_call :: "string \<Rightarrow> u32 list \<Rightarrow> 'k \<Rightarrow> u32 \<times> 'k"
  spl_call :: "string \<Rightarrow> pt_regs \<Rightarrow> 'k \<Rightarrow> u32 \<times> pt_regs \<times> 'k"
  fast_call :: "string \<Rightarrow> pt_regs \<Rightarrow> 'k \<Rightarrow> pt_regs \<times> 'k"
  err_map :: "map_segment list option"

definition get_syscall_parameter :: "'k gate \<Rightarrow> pt_regs \<Rightarrow> u32 \<Rightarrow> 'k \<Rightarrow> u32" where
  "get_syscall_parameter g regs n k = peek g (esp regs + 4 * (n + 1)) k AND 0xFFFFFFFF"

text \<open>A host errno as the personality numbers it; an unknown one is 1.\<close>

definition iABI_errors :: "'k gate \<Rightarrow> int \<Rightarrow> u32 option" where
  "iABI_errors g errno = map_option word_of_int (map_value (err_map g) errno 1)"

definition fail_with :: "'k gate \<Rightarrow> int \<Rightarrow> pt_regs \<Rightarrow> 'k \<Rightarrow> (pt_regs \<times> 'k) option" where
  "fail_with g errno regs k = map_option (\<lambda>e. (set_error regs e, k)) (iABI_errors g errno)"

text \<open>The end of \<open>lcall7_dispatch\<close>: the carry flag tells an errno from a result.\<close>

definition lcall7_return :: "'k gate \<Rightarrow> u32 \<Rightarrow> pt_regs \<Rightarrow> 'k \<Rightarrow> (pt_regs \<times> 'k) option" where
  "lcall7_return g error regs k =
     (if IBCS_IS_ERR error then fail_with g (sint (- error)) regs k
      else Some (set_result (clear_error regs) error, k))"

definition syscall_args :: "'k gate \<Rightarrow> u32 \<Rightarrow> 'k \<Rightarrow> u32 list" where
  "syscall_args g sp k = map (\<lambda>i. peek g (sp + 4 * of_nat i) k) [0..<6]"

text \<open>
  \<open>fast\<close> runs a function of the convention \<open>Fast\<close>: some of them are the dispatchers of this
  development, the others are \<open>fast_call\<close> of the gate.
\<close>

definition lcall7_dispatch ::
  "'k gate \<Rightarrow> (string \<Rightarrow> pt_regs \<Rightarrow> 'k \<Rightarrow> (pt_regs \<times> 'k) option) \<Rightarrow> pt_regs \<Rightarrow> sysent \<Rightarrow> u32 \<Rightarrow> 'k \<Rightarrow>
   (pt_regs \<times> 'k) option" where
  "lcall7_dispatch g fast regs ap off k =
     (if se_nargs ap = Unimpl then fail_with g 38 regs k
      else
        let sp = esp regs + 4 * off
        in case se_syscall ap of
             Null \<Rightarrow> fail_with g 38 regs k
           | Kernel n \<Rightarrow>
               (case kernel_call g n (syscall_args g sp k) k of (error, k) \<Rightarrow> lcall7_return g error regs k)
           | Func f \<Rightarrow>
               if se_nargs ap \<le> 6 then
                 (case c_call g f (syscall_args g sp k) k of (error, k) \<Rightarrow> lcall7_return g error regs k)
               else if se_nargs ap = Fast then fast f regs k
               else if se_nargs ap = Spl then
                 (case spl_call g f regs k of (error, regs, k) \<Rightarrow> lcall7_return g error regs k)
               else lcall7_return g (- ENOSYS) regs k)"

text \<open>The indirect system call, for the \<open>handler\<close> of the current execution domain.\<close>

definition lcall7_syscall ::
  "'k gate \<Rightarrow> (pt_regs \<Rightarrow> 'k \<Rightarrow> (pt_regs \<times> 'k) option) \<Rightarrow> pt_regs \<Rightarrow> 'k \<Rightarrow> (pt_regs \<times> 'k) option" where
  "lcall7_syscall g handler regs k = do {
     let regs = regs\<lparr>eax := peek g (esp regs + 4) k\<rparr>;
     let regs = regs\<lparr>esp := esp regs + 4\<rparr>;
     (regs, k) \<leftarrow> handler regs k;
     Some (regs\<lparr>esp := esp regs - 4\<rparr>, k)
   }"

text \<open>
  The shape all class handlers have: a number beyond the table is refused, with the negated errno
  that the handlers pass to \<open>iABI_errors\<close>.
\<close>

definition table_dispatch ::
  "'k gate \<Rightarrow> (string \<Rightarrow> pt_regs \<Rightarrow> 'k \<Rightarrow> (pt_regs \<times> 'k) option) \<Rightarrow> sysent list \<Rightarrow> u32 \<Rightarrow> u32 \<Rightarrow> pt_regs \<Rightarrow> 'k \<Rightarrow>
   (pt_regs \<times> 'k) option" where
  "table_dispatch g fast table sysno off regs k =
     (if length table \<le> unat sysno then fail_with g (- 22) regs k
      else lcall7_dispatch g fast regs (table ! unat sysno) off k)"

section \<open>The trace line\<close>

text \<open>
  The format that \<open>printk_syscall\<close> builds in a buffer of \<open>128 + strlen (se_name)\<close> bytes:
  \<open>fmt_chars\<close> and \<open>fmt_fmt\<close> are its two tables.
\<close>

fun fmt_fmt :: "char \<Rightarrow> string option" where
  "fmt_fmt c =
     (if c = CHR ''d'' then Some ''%d''
      else if c = CHR ''o'' then Some ''%o''
      else if c = CHR ''p'' then Some ''0x%08p''
      else if c = CHR ''?'' then Some ''0x%x''
      else if c = CHR ''x'' then Some ''0x%x''
      else if c = CHR ''s'' then Some ([CHR 0x22] @ ''%.300s'' @ [CHR 0x22])
      else None)"

fun printk_args :: "string \<Rightarrow> string \<Rightarrow> string" where
  "printk_args f [] = f"
| "printk_args f (a # as) =
     (let f = (if last f \<noteq> CHR ''('' then f @ '', '' else f)
      in printk_args (case fmt_fmt a of Some c \<Rightarrow> f @ c | None \<Rightarrow> f @ [CHR ''?'', a, a, CHR ''?'']) as)"

definition printk_syscall :: "sysent \<Rightarrow> string" where
  "printk_syscall ap = printk_args (se_name ap @ ''('') (se_args ap) @ '')'' @ [CHR 0x0A]"

section \<open>Patching the call\<close>

record sigaction =
  sa_handler :: u32
  sa_flags :: u32

definition SIG_DFL :: u32 where "SIG_DFL = 0"
definition SIG_IGN :: u32 where "SIG_IGN = 1"
definition SA_SIGINFO :: u32 where "SA_SIGINFO = 4"

definition load16 :: "(u32 \<Rightarrow> u8) \<Rightarrow> u32 \<Rightarrow> u16" where
  "load16 mem a = ucast (mem a) OR push_bit 8 (ucast (mem (a + 1)))"

definition load32 :: "(u32 \<Rightarrow> u8) \<Rightarrow> u32 \<Rightarrow> u32" where
  "load32 mem a = ucast (mem a) OR push_bit 8 (ucast (mem (a + 1)))
     OR push_bit 16 (ucast (mem (a + 2))) OR push_bit 24 (ucast (mem (a + 3)))"

definition store16 :: "(u32 \<Rightarrow> u8) \<Rightarrow> u32 \<Rightarrow> u16 \<Rightarrow> u32 \<Rightarrow> u8" where
  "store16 mem a v = mem(a := ucast v, a + 1 := ucast (drop_bit 8 v))"

definition store32 :: "(u32 \<Rightarrow> u8) \<Rightarrow> u32 \<Rightarrow> u32 \<Rightarrow> u32 \<Rightarrow> u8" where
  "store32 mem a v = mem(a := ucast v, a + 1 := ucast (drop_bit 8 v),
     a + 2 := ucast (drop_bit 16 v), a + 3 := ucast (drop_bit 24 v))"

text \<open>
  What the signal handler does: it patches the program, calls the handler the program has
  registered (with the arguments of \<open>SA_SIGINFO\<close> or without), does nothing, or installs the default
  action for the signal to happen again.
\<close>

datatype sigsegv = Patched "u32 \<Rightarrow> u8" | Call_siginfo u32 | Ignored | Call_handler u32 | Reinstalled

definition lcall_gate_at :: "(u32 \<Rightarrow> u8) \<Rightarrow> u32 \<Rightarrow> u16 option" where
  "lcall_gate_at mem ip =
     (if mem ip = 0x9a \<and> load32 mem (ip + 1) = 0 \<and> (load16 mem (ip + 5) = 7 \<or> load16 mem (ip + 5) = 27)
      then Some (load16 mem (ip + 5)) else None)"

definition lcall_patch :: "u32 \<Rightarrow> (u32 \<Rightarrow> u8) \<Rightarrow> u32 \<Rightarrow> u16 \<Rightarrow> u32 \<Rightarrow> u8" where
  "lcall_patch ibcs_lcall mem ip gate =
     (let mem = store16 mem ip (push_bit 8 gate OR 0x6a);
          mem = mem(ip + 2 := 0xe8)
      in store32 mem (ip + 3) (ibcs_lcall - ip - 2 - 5))"

definition lcall_sigsegv :: "u32 \<Rightarrow> sigaction \<Rightarrow> (u32 \<Rightarrow> u8) \<Rightarrow> u32 \<Rightarrow> sigsegv" where
  "lcall_sigsegv ibcs_lcall sa mem ip =
     (case lcall_gate_at mem ip of
        Some gate \<Rightarrow> Patched (lcall_patch ibcs_lcall mem ip gate)
      | None \<Rightarrow>
          if sa_flags sa AND SA_SIGINFO \<noteq> 0 then Call_siginfo (sa_handler sa)
          else if sa_handler sa = SIG_IGN then Ignored
          else if sa_handler sa \<noteq> SIG_DFL then Call_handler (sa_handler sa)
          else Reinstalled)"

section \<open>Dispatch\<close>

text \<open>
  The contract of a personality's error map: it gives a number for every errno that a negated
  return value can hold.
\<close>

definition err_map_ok :: "'k gate \<Rightarrow> bool" where
  "err_map_ok g \<longleftrightarrow> (\<forall>e. iABI_errors g e \<noteq> None)"

definition returned :: "'k gate \<Rightarrow> u32 \<Rightarrow> pt_regs \<Rightarrow> pt_regs" where
  "returned g error regs =
     (if IBCS_IS_ERR error
      then regs\<lparr>eax := the (iABI_errors g (sint (- error))), eflags := eflags regs OR 1\<rparr>
      else regs\<lparr>eax := error, eflags := eflags regs AND NOT 1\<rparr>)"

lemma fail_with_ok: "err_map_ok g \<Longrightarrow> fail_with g e regs k = Some (set_error regs (the (iABI_errors g e)), k)"
  unfolding fail_with_def err_map_ok_def by (metis map_option_eq_Some option.exhaust_sel)

lemma lcall7_return_ok: "err_map_ok g \<Longrightarrow> lcall7_return g error regs k = Some (returned g error regs, k)"
  by (simp add: lcall7_return_def fail_with_ok returned_def set_error_def set_result_def clear_error_def)

lemma returned_regs:
  "returned g error regs = regs\<lparr>eax := eax (returned g error regs), eflags := eflags (returned g error regs)\<rparr>"
  by (simp add: returned_def)

lemma returned_carry: "bit (eflags (returned g error regs)) 0 \<longleftrightarrow> IBCS_IS_ERR error"
  by (simp add: returned_def bit_simps)

lemma returned_result: "\<not> IBCS_IS_ERR error \<Longrightarrow> eax (returned g error regs) = error"
  by (simp add: returned_def)

lemma dispatch_ENOSYS:
  assumes "err_map_ok g" "se_nargs ap = Unimpl \<or> se_syscall ap = Null"
  shows "lcall7_dispatch g fast regs ap off k = Some (returned g (- ENOSYS) regs, k)"
  using assms
  by (auto simp: lcall7_dispatch_def fail_with_ok returned_def set_error_def IBCS_IS_ERR_def Let_def)

lemma dispatch_conventions:
  assumes "err_map_ok g" "se_nargs ap \<noteq> Unimpl"
  shows "se_syscall ap = Kernel n \<Longrightarrow> kernel_call g n (syscall_args g (esp regs + 4 * off) k) k = (r, k') \<Longrightarrow>
      lcall7_dispatch g fast regs ap off k = Some (returned g r regs, k')"
    and "se_syscall ap = Func f \<Longrightarrow> se_nargs ap \<le> 6 \<Longrightarrow> c_call g f (syscall_args g (esp regs + 4 * off) k) k = (r, k') \<Longrightarrow>
      lcall7_dispatch g fast regs ap off k = Some (returned g r regs, k')"
    and "se_syscall ap = Func f \<Longrightarrow> se_nargs ap = Spl \<Longrightarrow> spl_call g f regs k = (r, regs', k') \<Longrightarrow>
      lcall7_dispatch g fast regs ap off k = Some (returned g r regs', k')"
    and "se_syscall ap = Func f \<Longrightarrow> se_nargs ap = Fast \<Longrightarrow>
      lcall7_dispatch g fast regs ap off k = fast f regs k"
    and "se_syscall ap = Func f \<Longrightarrow> 6 < se_nargs ap \<Longrightarrow> se_nargs ap \<noteq> Fast \<Longrightarrow> se_nargs ap \<noteq> Spl \<Longrightarrow>
      lcall7_dispatch g fast regs ap off k = Some (returned g (- ENOSYS) regs, k)"
  using assms
  by (simp_all add: lcall7_dispatch_def lcall7_return_ok Let_def Spl_def Fast_def)


text \<open>A gate for the witnesses: errors are not renumbered and every call fails with \<open>EBADF\<close>.\<close>

definition badf_gate :: "nat gate" where
  "badf_gate = \<lparr>peek = \<lambda>a k. if a = 0x1004 then 5 else 0, kernel_call = \<lambda>n args k. (- EBADF, k), c_call = \<lambda>f args k. (- EBADF, k),
     spl_call = \<lambda>f regs k. (- EBADF, regs, k), fast_call = \<lambda>f regs k. (regs, k), err_map = None\<rparr>"

definition some_regs :: pt_regs where
  "some_regs = \<lparr>ebx = 0, ecx = 0, edx = 0, esi = 0, edi = 0, ebp = 0, eax = 0, xds = 0, xes = 0, xfs = 0, xgs = 0,
     orig_eax = 0, eip = 0x8000, xcs = 0, eflags = 0x40, esp = 0x1000, xss = 0\<rparr>"

lemma badf_gate_ok: "err_map_ok badf_gate"
  by (simp add: err_map_ok_def iABI_errors_def map_value_def badf_gate_def)


section \<open>The indirect call\<close>

text \<open>
  \<open>syscall(n, \<dots>)\<close> is the call \<open>n\<close> made with the stack pointer one word up: with the number the
  program put first, the handler sees the stack that a direct call with the same arguments has.
\<close>

lemma lcall7_syscall_handler:
  "lcall7_syscall g handler regs k =
     map_option (\<lambda>(regs, k). (regs\<lparr>esp := esp regs - 4\<rparr>, k))
       (handler (regs\<lparr>eax := peek g (esp regs + 4) k, esp := esp regs + 4\<rparr>) k)"
  by (cases "handler (regs\<lparr>eax := peek g (esp regs + 4) k, esp := esp regs + 4\<rparr>) k")
     (auto simp: lcall7_syscall_def Let_def)

section \<open>The trace buffer\<close>

lemma fmt_fmt_length: "fmt_fmt c = Some f \<Longrightarrow> length f \<le> 8 \<and> f \<noteq> [] \<and> last f \<noteq> CHR ''(''"
  by (auto split: if_splits)

lemma printk_args_length:
  "f \<noteq> [] \<Longrightarrow> length (printk_args f as) \<le> length f + 10 * length as"
proof (induction f as rule: printk_args.induct)
  case (2 f a as)
  let ?f = "if last f \<noteq> CHR ''('' then f @ '', '' else f"
  let ?g = "case fmt_fmt a of Some c \<Rightarrow> ?f @ c | None \<Rightarrow> ?f @ [CHR ''?'', a, a, CHR ''?'']"
  have g: "length ?g \<le> length f + 10" "?g \<noteq> []"
    using 2(2) fmt_fmt_length [of a] by (auto split: option.splits)
  have "length (printk_args ?g as) \<le> length ?g + 10 * length as"
    using 2(1) [OF refl g(2)] by simp
  with g(1) show ?case by (simp add: Let_def)
qed simp

text \<open>
  The format line that \<open>printk_syscall\<close> builds for a table entry, with its terminating NUL, fits
  the buffer of 128 bytes and the length of the name whenever the entry describes at most 12
  arguments.
\<close>

theorem printk_syscall_fits:
  assumes "length (se_args ap) \<le> 12"
  shows "length (printk_syscall ap) + 1 \<le> 128 + length (se_name ap)"
  using printk_args_length [of "se_name ap @ ''(''" "se_args ap"] assms by (simp add: printk_syscall_def)

theorem printk_syscall_fits_witness:
  "length (printk_syscall (se (Kernel 5) 3 ''open'' ''soo'')) + 1 \<le> 128 + length ''open''
   \<and> printk_syscall (se (Kernel 5) 3 ''open'' ''soo'')
     = ''open('' @ [CHR 0x22] @ ''%.300s'' @ [CHR 0x22] @ '', %o, %o)'' @ [CHR 0x0A]"
  using printk_syscall_fits [of "se (Kernel 5) 3 ''open'' ''soo''"] by (simp add: se_def printk_syscall_def)

section \<open>The patched call\<close>

text \<open>
  The three instructions concerned, as the processor decodes them: \<open>push imm8\<close> and \<open>call rel32\<close>, and
  the far call of seven bytes that faulted.
\<close>

datatype instr = Push u32 | Call u32 | Lcall u16 u32 | Other

definition decode :: "(u32 \<Rightarrow> u8) \<Rightarrow> u32 \<Rightarrow> instr \<times> u32" where
  "decode mem ip =
     (if mem ip = 0x6a then (Push (scast (mem (ip + 1))), ip + 2)
      else if mem ip = 0xe8 then (Call (ip + 5 + load32 mem (ip + 1)), ip + 5)
      else if mem ip = 0x9a then (Lcall (load16 mem (ip + 5)) (load32 mem (ip + 1)), ip + 7)
      else (Other, ip + 1))"

lemma load32_store32: "load32 (store32 mem a v) a = v"
proof -
  have "a \<noteq> a + 1" "a \<noteq> a + 2" "a \<noteq> a + 3" "a + 1 \<noteq> a + 2" "a + 1 \<noteq> a + 3" "a + 2 \<noteq> a + 3" by simp_all
  then have "load32 (store32 mem a v) a = ucast (ucast v :: u8) OR push_bit 8 (ucast (ucast (drop_bit 8 v) :: u8))
     OR push_bit 16 (ucast (ucast (drop_bit 16 v) :: u8)) OR push_bit 24 (ucast (ucast (drop_bit 24 v) :: u8))"
    by (simp add: load32_def store32_def)
  also have "\<dots> = v"
  proof (rule bit_word_eqI)
    fix n assume "n < LENGTH(32)"
    then consider "n < 8" | "8 \<le> n" "n < 16" | "16 \<le> n" "n < 24" | "24 \<le> n" "n < 32" by auto linarith
    then show "bit (ucast (ucast v :: u8) OR push_bit 8 (ucast (ucast (drop_bit 8 v) :: u8))
       OR push_bit 16 (ucast (ucast (drop_bit 16 v) :: u8)) OR push_bit 24 (ucast (ucast (drop_bit 24 v) :: u8)) :: u32) n = bit v n"
      by cases (auto simp: bit_simps)
  qed
  finally show ?thesis .
qed

text \<open>
  C27: When the fault is an \<open>lcall\<close> through gate 7 or 27, the patched program executes, at the same
  address, a push of the gate number and a call of \<open>ibcs_lcall\<close> that returns to the instruction behind
  the \<open>lcall\<close>; no byte outside the seven of that instruction changes. Otherwise the program's own
  action for \<open>SIGSEGV\<close> is taken and no byte changes.
\<close>

theorem lcall_sigsegv_patches:
  shows "case decode mem ip of
      (Lcall gate off, next) \<Rightarrow>
        if off = 0 \<and> (gate = 7 \<or> gate = 27)
        then \<exists>mem'. lcall_sigsegv ibcs_lcall sa mem ip = Patched mem'
          \<and> decode mem' ip = (Push (ucast gate), ip + 2)
          \<and> decode mem' (ip + 2) = (Call ibcs_lcall, next)
          \<and> (\<forall>a. a - ip \<ge> 7 \<longrightarrow> mem' a = mem a)
        else \<not> (\<exists>mem'. lcall_sigsegv ibcs_lcall sa mem ip = Patched mem')
    | _ \<Rightarrow> \<not> (\<exists>mem'. lcall_sigsegv ibcs_lcall sa mem ip = Patched mem')"
proof (cases "mem ip = 0x9a")
  case False
  then have "lcall_gate_at mem ip = None" by (simp add: lcall_gate_at_def)
  then have "\<not> (\<exists>mem'. lcall_sigsegv ibcs_lcall sa mem ip = Patched mem')" by (simp add: lcall_sigsegv_def)
  with False show ?thesis by (simp add: decode_def)
next
  case lcall: True
  let ?gate = "load16 mem (ip + 5)"
  have dec: "decode mem ip = (Lcall ?gate (load32 mem (ip + 1)), ip + 7)"
    using lcall by (simp add: decode_def)
  show ?thesis
  proof (cases "load32 mem (ip + 1) = 0 \<and> (?gate = 7 \<or> ?gate = 27)")
    case False
    then have "lcall_gate_at mem ip = None" by (auto simp: lcall_gate_at_def)
    with False dec show ?thesis by (auto simp: lcall_sigsegv_def)
  next
    case True
    define mem' where "mem' = lcall_patch ibcs_lcall mem ip ?gate"
    have "lcall_sigsegv ibcs_lcall sa mem ip = Patched mem'"
      using True lcall by (auto simp: lcall_sigsegv_def lcall_gate_at_def mem'_def)
    moreover have b: "mem' ip = 0x6a" "mem' (ip + 1) = ucast ?gate" "mem' (ip + 2) = 0xe8"
      using True by (auto simp: mem'_def lcall_patch_def store16_def store32_def Let_def)
    moreover have "decode mem' ip = (Push (ucast ?gate), ip + 2)"
      using b True by (auto simp: decode_def)
    moreover have "load32 mem' (ip + 3) = ibcs_lcall - ip - 2 - 5"
      by (simp add: mem'_def lcall_patch_def Let_def load32_store32)
    then have "ip + 2 + 5 + load32 mem' (ip + 3) = ibcs_lcall" by simp
    then have "decode mem' (ip + 2) = (Call ibcs_lcall, ip + 7)"
      using b(3) by (simp add: decode_def add.commute [of ip])
    moreover have "mem' a = mem a" if "a - ip \<ge> 7" for a
    proof -
      have "a \<noteq> ip + j" if "j < 7" for j using \<open>a - ip \<ge> 7\<close> that by (auto simp: not_less [symmetric])
      from this [of 0] this [of 1] this [of 2] this [of 3] this [of 4] this [of 5] this [of 6]
      show ?thesis by (simp add: mem'_def lcall_patch_def store16_def store32_def Let_def add.assoc)
    qed
    ultimately show ?thesis using True dec by auto
  qed
qed

definition lcall_code :: "u32 \<Rightarrow> u8" where
  "lcall_code a = (if a = 0x100 then 0x9a else if a = 0x105 then 7 else 0)"

theorem lcall_sigsegv_patches_witness:
  "\<exists>mem'. lcall_sigsegv 0x5000 \<lparr>sa_handler = 0, sa_flags = 0\<rparr> lcall_code 0x100 = Patched mem'
     \<and> decode mem' 0x100 = (Push 7, 0x102) \<and> decode mem' 0x102 = (Call 0x5000, 0x107)"
proof -
  have "decode lcall_code 0x100 = (Lcall 7 0, 0x107)"
    by (simp add: decode_def lcall_code_def load16_def load32_def)
  with lcall_sigsegv_patches [where mem = lcall_code and ip = "0x100" and ibcs_lcall = "0x5000"
      and sa = "\<lparr>sa_handler = 0, sa_flags = 0\<rparr>"]
  show ?thesis by auto
qed

end
