(* ===== verification/Lcall_Entry.thy ===== *)
theory Lcall_Entry
  imports Lcall
begin

text \<open>
  The assembler entry point \<open>ibcs_lcall\<close> of \<^verbatim>\<open>src/ibcs/sysent.c\<close>: it saves the registers of the program
  in a \<open>struct pt_regs\<close> on its stack, calls the handler of the execution domain and loads the registers
  back from what the handler left there.

  The program is a list of instructions, run by \<open>exec\<close> on the registers and the words of the stack.
  Only the instructions the source uses exist. The call of the handler is one instruction: what a C
  function may do to the registers it need not keep and to memory is the parameter \<open>handler\<close>. The
  call that gcc needs to find its global offset table (\<open>Thunk\<close>) leaves its result, the parameter
  \<open>got\<close>, in \<open>eax\<close>.
\<close>

datatype reg = EAX | EBX | ECX | EDX | ESI | EDI | EBP | ESP | DS | ES | FS | GS | CS | SS | EFLAGS | EIP

record cpu =
  rg :: "reg \<Rightarrow> u32"
  stack :: "u32 \<Rightarrow> u32"

datatype ins =
    Lea int reg            \<comment> \<open>lea n(%esp),reg\<close>
  | Save reg int           \<comment> \<open>movl reg,n(%esp)\<close>
  | Load int reg           \<comment> \<open>movl n(%esp),reg\<close>
  | Mov reg reg            \<comment> \<open>movl from,to\<close>
  | Movw reg               \<comment> \<open>movw %dx,reg\<close>
  | Push_reg reg
  | Push_mem int           \<comment> \<open>pushl n(%esp)\<close>
  | Pushf
  | Pop reg
  | Popf
  | Thunk                  \<comment> \<open>call __x86.get_pc_thunk.ax; addl $_GLOBAL_OFFSET_TABLE_,%eax\<close>
  | Call_handler           \<comment> \<open>call *handler\<close>
  | Add_esp int
  | Ret

type_synonym handler = "u32 \<Rightarrow> u32 \<Rightarrow> cpu \<Rightarrow> cpu"

definition at_esp :: "cpu \<Rightarrow> int \<Rightarrow> u32" where
  "at_esp c n = rg c ESP + word_of_int n"

definition push :: "u32 \<Rightarrow> cpu \<Rightarrow> cpu" where
  "push v c = c\<lparr>rg := (rg c)(ESP := rg c ESP - 4), stack := (stack c)(rg c ESP - 4 := v)\<rparr>"

definition pop :: "reg \<Rightarrow> cpu \<Rightarrow> cpu" where
  "pop r c = c\<lparr>rg := (rg c)(ESP := rg c ESP + 4, r := stack c (rg c ESP))\<rparr>"

text \<open>The word on top of the stack is the gate, the next one the pointer to \<open>struct pt_regs\<close>.\<close>

fun step :: "handler \<Rightarrow> u32 \<Rightarrow> ins \<Rightarrow> cpu \<Rightarrow> cpu" where
  "step h got (Lea n r) c = c\<lparr>rg := (rg c)(r := at_esp c n)\<rparr>"
| "step h got (Save r n) c = c\<lparr>stack := (stack c)(at_esp c n := rg c r)\<rparr>"
| "step h got (Load n r) c = c\<lparr>rg := (rg c)(r := stack c (at_esp c n))\<rparr>"
| "step h got (Mov r r') c = c\<lparr>rg := (rg c)(r' := rg c r)\<rparr>"
| "step h got (Movw r) c = c\<lparr>rg := (rg c)(r := rg c EDX AND 0xffff)\<rparr>"
| "step h got (Push_reg r) c = push (rg c r) c"
| "step h got (Push_mem n) c = push (stack c (at_esp c n)) c"
| "step h got Pushf c = push (rg c EFLAGS) c"
| "step h got (Pop r) c = pop r c"
| "step h got Popf c = pop EFLAGS c"
| "step h got Thunk c = c\<lparr>rg := (rg c)(EAX := got), stack := (stack c)(rg c ESP - 4 := got)\<rparr>"
| "step h got Call_handler c = h (stack c (rg c ESP)) (stack c (rg c ESP + 4)) c"
| "step h got (Add_esp n) c = c\<lparr>rg := (rg c)(ESP := at_esp c n)\<rparr>"
| "step h got Ret c = pop EIP c"

fun exec :: "handler \<Rightarrow> u32 \<Rightarrow> ins list \<Rightarrow> cpu \<Rightarrow> cpu" where
  "exec h got [] c = c"
| "exec h got (i # is) c = exec h got is (step h got i c)"

text \<open>The first \<open>asm\<close> statement: allocate and fill \<open>struct pt_regs\<close>.\<close>

definition lcall_save :: "ins list" where
  "lcall_save =
    [Lea (- 60) ESP,
     Save EBX 0, Save ECX 4, Save EDX 8, Save ESI 12, Save EDI 16, Save EBP 20, Save EAX 24,
     Mov DS EDX, Save EDX 28,
     Mov ES EDX, Save EDX 32,
     Mov FS EDX, Save EDX 36,
     Mov GS EDX, Save EDX 40,
     Save EAX 44,
     Load 60 EDX, Save EDX 48,
     Load 64 EBP,
     Mov CS EDX, Save EDX 52,
     Pushf, Pop EDX, Save EDX 56,
     Lea 68 EDX, Save EDX 60,
     Mov SS EDX, Save EDX 64]"

text \<open>The second and the third: find the handler and call it.\<close>

definition lcall_call :: "ins list" where
  "lcall_call = [Thunk, Mov ESP EDX, Push_reg EDX, Push_reg EBP, Call_handler, Add_esp 8]"

text \<open>The last two: load the registers from \<open>struct pt_regs\<close>, remove it from the stack and return.\<close>

definition lcall_restore :: "ins list" where
  "lcall_restore =
    [Push_mem 56, Popf,
     Load 48 EDX, Save EDX 64,
     Load 40 EDX, Movw GS,
     Load 36 EDX, Movw FS,
     Load 32 EDX, Movw ES,
     Load 28 EDX, Movw DS,
     Load 28 EDX,
     Load 24 EAX, Load 20 EBP, Load 16 EDI, Load 12 ESI, Load 8 EDX, Load 4 ECX, Load 0 EBX,
     Lea 64 ESP, Ret]"

definition ibcs_lcall :: "handler \<Rightarrow> u32 \<Rightarrow> cpu \<Rightarrow> cpu" where
  "ibcs_lcall h got c = exec h got (lcall_save @ lcall_call @ lcall_restore) c"

section \<open>What the handler sees and what the program gets back\<close>

text \<open>The structure at an address of the stack.\<close>

definition pt_regs_at :: "(u32 \<Rightarrow> u32) \<Rightarrow> u32 \<Rightarrow> pt_regs" where
  "pt_regs_at m b = \<lparr>ebx = m b, ecx = m (b + 4), edx = m (b + 8), esi = m (b + 12), edi = m (b + 16),
     ebp = m (b + 20), eax = m (b + 24), xds = m (b + 28), xes = m (b + 32), xfs = m (b + 36), xgs = m (b + 40),
     orig_eax = m (b + 44), eip = m (b + 48), xcs = m (b + 52), eflags = m (b + 56), esp = m (b + 60), xss = m (b + 64)\<rparr>"

lemma exec_append: "exec h got (is @ js) c = exec h got js (exec h got is c)"
  by (induction "is" arbitrary: c) simp_all

lemma word_of_int_neg60 [simp]: "word_of_int (- 60) = (- 60 :: u32)" by simp

lemma lcall_save_regs:
  assumes "rg c ESP = b + 60"
  shows "rg (exec h got lcall_save c) ESP = b" "rg (exec h got lcall_save c) EBP = stack c (b + 64)"
  using assms by (simp_all add: lcall_save_def at_esp_def push_def pop_def)

lemma lcall_save_pt_regs:
  assumes "rg c ESP = b + 60"
  shows "pt_regs_at (stack (exec h got lcall_save c)) b =
     \<lparr>ebx = rg c EBX, ecx = rg c ECX, edx = rg c EDX, esi = rg c ESI, edi = rg c EDI,
       ebp = rg c EBP, eax = rg c EAX, xds = rg c DS, xes = rg c ES, xfs = rg c FS, xgs = rg c GS, orig_eax = rg c EAX,
       eip = stack c (b + 60), xcs = rg c CS, eflags = rg c EFLAGS, esp = b + 68, xss = rg c SS\<rparr>"
  using assms by (simp add: lcall_save_def at_esp_def push_def pop_def pt_regs_at_def)

text \<open>The words of the program's stack: those from the arguments up, away from the frame at \<open>b\<close>.\<close>

definition above :: "u32 \<Rightarrow> u32 \<Rightarrow> bool" where
  "above b a \<longleftrightarrow> 68 \<le> a - b \<and> a - b < - 16"

lemma above_neq:
  assumes "above b a"
  shows "n < 68 \<Longrightarrow> a \<noteq> b + n" "a \<noteq> b - 4" "a \<noteq> b - 8" "a \<noteq> b"
  using assms unfolding above_def by auto

lemma lcall_save_above:
  assumes "rg c ESP = b + 60" "above b a"
  shows "stack (exec h got lcall_save c) a = stack c a"
proof -
  note n = above_neq(1) [OF assms(2)]
  show ?thesis
    using assms(1) above_neq(2-4) [OF assms(2)] n [of 4] n [of 8] n [of 12] n [of 16] n [of 20] n [of 24] n [of 28] n [of 32]
      n [of 36] n [of 40] n [of 44] n [of 48] n [of 52] n [of 56] n [of 60] n [of 64]
    by (simp add: lcall_save_def at_esp_def push_def pop_def)
qed

text \<open>The state in which the handler is called, and the one after it.\<close>

definition call_frame :: "u32 \<Rightarrow> cpu \<Rightarrow> cpu" where
  "call_frame got c = push (rg c EBP) (push (rg c ESP)
     (c\<lparr>rg := (rg c)(EAX := got, EDX := rg c ESP), stack := (stack c)(rg c ESP - 4 := got)\<rparr>))"

lemma lcall_call_spec:
  assumes "rg c ESP = b"
  shows "exec h got lcall_call c =
    (let d = h (rg c EBP) b (call_frame got c) in d\<lparr>rg := (rg d)(ESP := rg d ESP + 8)\<rparr>)"
  using assms by (simp add: lcall_call_def call_frame_def push_def at_esp_def Let_def fun_upd_twist)

lemma call_frame_pt_regs:
  assumes "rg c ESP = b"
  shows "pt_regs_at (stack (call_frame got c)) b = pt_regs_at (stack c) b" "rg (call_frame got c) ESP = b - 8"
    "above b a \<Longrightarrow> stack (call_frame got c) a = stack c a"
  using assms above_neq(2,3) [of b a] by (simp_all add: call_frame_def push_def pt_regs_at_def)

lemma lcall_restore_regs:
  assumes "rg c ESP = b"
  defines "r \<equiv> pt_regs_at (stack c) b"
  shows "\<forall>h got. let c' = exec h got lcall_restore c in rg c' ESP = b + 68 \<and> rg c' EIP = eip r \<and> rg c' EFLAGS = eflags r
    \<and> rg c' EAX = eax r \<and> rg c' EBX = ebx r \<and> rg c' ECX = ecx r \<and> rg c' EDX = edx r \<and> rg c' ESI = esi r
    \<and> rg c' EDI = edi r \<and> rg c' EBP = ebp r \<and> rg c' DS = xds r AND 0xffff \<and> rg c' ES = xes r AND 0xffff
    \<and> rg c' FS = xfs r AND 0xffff \<and> rg c' GS = xgs r AND 0xffff"
  using assms(1) by (simp add: lcall_restore_def at_esp_def push_def pop_def pt_regs_at_def r_def Let_def)

lemma lcall_restore_above:
  assumes "rg c ESP = b" "above b a"
  shows "stack (exec h got lcall_restore c) a = stack c a"
  using assms(1) above_neq(2) [OF assms(2)] above_neq(1) [OF assms(2), of 64]
  by (simp add: lcall_restore_def at_esp_def push_def pop_def)

text \<open>
  C2: \<open>ibcs_lcall\<close>, entered with the return address and the gate number on the stack, calls the
  handler with that gate and a \<open>struct pt_regs\<close> that holds every register of the program, the return
  address and the stack pointer as it was before the gate was pushed. It returns to the address, with
  the flags and with the registers the handler left in the structure (16 bits of each segment
  register), and with that same stack pointer; apart from the handler nothing writes to the program's
  stack.
\<close>

theorem ibcs_lcall_registers:
  assumes esp: "rg c ESP = b + 60" and keeps: "\<And>gate p d. rg (h gate p d) ESP = rg d ESP"
  shows "\<exists>c1. let c2 = h (stack c (b + 64)) b c1; c' = ibcs_lcall h got c; r = pt_regs_at (stack c2) b
    in pt_regs_at (stack c1) b = \<lparr>ebx = rg c EBX, ecx = rg c ECX, edx = rg c EDX, esi = rg c ESI, edi = rg c EDI,
         ebp = rg c EBP, eax = rg c EAX, xds = rg c DS, xes = rg c ES, xfs = rg c FS, xgs = rg c GS, orig_eax = rg c EAX,
         eip = stack c (b + 60), xcs = rg c CS, eflags = rg c EFLAGS, esp = b + 68, xss = rg c SS\<rparr>
     \<and> rg c' ESP = b + 68 \<and> rg c' EIP = eip r \<and> rg c' EFLAGS = eflags r
     \<and> rg c' EAX = eax r \<and> rg c' EBX = ebx r \<and> rg c' ECX = ecx r \<and> rg c' EDX = edx r \<and> rg c' ESI = esi r
     \<and> rg c' EDI = edi r \<and> rg c' EBP = ebp r \<and> rg c' DS = xds r AND 0xffff \<and> rg c' ES = xes r AND 0xffff
     \<and> rg c' FS = xfs r AND 0xffff \<and> rg c' GS = xgs r AND 0xffff
     \<and> (\<forall>a. above b a \<longrightarrow> stack c1 a = stack c a \<and> stack c' a = stack c2 a)"
proof -
  let ?s = "exec h got lcall_save c"
  define c1 where "c1 = call_frame got ?s"
  define c2 where "c2 = h (stack c (b + 64)) b c1"
  define d where "d = c2\<lparr>rg := (rg c2)(ESP := rg c2 ESP + 8)\<rparr>"
  note save = lcall_save_regs [OF esp, of h got] lcall_save_pt_regs [OF esp, of h got]
  note frame = call_frame_pt_regs [OF save(1), where got = got, folded c1_def]
  have run: "ibcs_lcall h got c = exec h got lcall_restore d"
    using save(2) by (simp add: ibcs_lcall_def exec_append lcall_call_spec [OF save(1)] d_def c2_def c1_def Let_def)
  have esp2: "rg d ESP = b" using frame(2) keeps by (simp add: d_def c2_def)
  have m: "stack d = stack c2" by (simp add: d_def)
  have "stack c1 a = stack c a \<and> stack (ibcs_lcall h got c) a = stack c2 a" if "above b a" for a
    using frame(3) [OF that] lcall_save_above [OF esp that, of h got] lcall_restore_above [OF esp2 that, of h got]
    by (simp add: run m)
  with lcall_restore_regs [OF esp2] save(3) frame(1)
  show ?thesis by (intro exI [of _ c1]) (simp add: run m c2_def [symmetric] Let_def)
qed

text \<open>The witness: a handler that stores 5 as the result of the call.\<close>

definition five_handler :: handler where
  "five_handler gate p d = d\<lparr>stack := (stack d)(p + 24 := 5)\<rparr>"

definition entry_cpu :: cpu where
  "entry_cpu = \<lparr>rg = (\<lambda>_. 9)(ESP := 0x1000 + 60), stack = (\<lambda>_. 0)(0x1000 + 60 := 0x8007, 0x1000 + 64 := 7)\<rparr>"

theorem ibcs_lcall_registers_witness:
  "rg (ibcs_lcall five_handler 0 entry_cpu) EAX = 5 \<and> rg (ibcs_lcall five_handler 0 entry_cpu) EBX = 9
   \<and> rg (ibcs_lcall five_handler 0 entry_cpu) EIP = 0x8007 \<and> rg (ibcs_lcall five_handler 0 entry_cpu) ESP = 0x1044"
proof -
  have "rg entry_cpu ESP = 0x1000 + 60" by (simp add: entry_cpu_def)
  from ibcs_lcall_registers [OF this, of five_handler 0]
  obtain c1 where c1: "let c2 = five_handler (stack entry_cpu (0x1000 + 64)) 0x1000 c1;
        c' = ibcs_lcall five_handler 0 entry_cpu; r = pt_regs_at (stack c2) 0x1000
    in pt_regs_at (stack c1) 0x1000 = \<lparr>ebx = 9, ecx = 9, edx = 9, esi = 9, edi = 9,
         ebp = 9, eax = 9, xds = 9, xes = 9, xfs = 9, xgs = 9, orig_eax = 9,
         eip = 0x8007, xcs = 9, eflags = 9, esp = 0x1044, xss = 9\<rparr>
     \<and> rg c' ESP = 0x1044 \<and> rg c' EIP = eip r \<and> rg c' EAX = eax r \<and> rg c' EBX = ebx r"
    by (auto simp: five_handler_def entry_cpu_def Let_def)
  then show ?thesis by (simp add: Let_def pt_regs_at_def five_handler_def)
qed

end
