(* ===== verification/Per_Base.thy ===== *)
theory Per_Base
  imports Lcall
begin

text \<open>
  What the personalities share: the segments of their translation tables, the execution domain
  structure of \<^verbatim>\<open>src/include/ibcs-us/linux26-compat/linux/personality.h\<close> as far as the translations
  go, and the contract of a system call handler (\<open>lcall_personality\<close>).
\<close>

definition seg :: "int \<Rightarrow> int \<Rightarrow> seg_map \<Rightarrow> map_segment" where
  "seg lo hi m = \<lparr>seg_start = lo, seg_end = hi, seg_map = m\<rparr>"

text \<open>A \<open>Fast\<close> function of another component.\<close>

definition fast_only :: "'k gate \<Rightarrow> string \<Rightarrow> pt_regs \<Rightarrow> 'k \<Rightarrow> (pt_regs \<times> 'k) option" where
  "fast_only g f regs k = Some (fast_call g f regs k)"

record domain_def =
  dom_name :: string
  dom_pers_low :: u8
  dom_pers_high :: u8
  signal_map :: "u32 list"
  signal_invmap :: "u32 list"
  dom_err_map :: "map_segment list"
  socktype_map :: "map_segment list"
  sockopt_map :: "map_segment list"
  af_map :: "map_segment list"

section \<open>The contract of a handler\<close>

text \<open>
  A handler dispatches the low byte of \<open>eax\<close> over its table. Entry 0 of the table, and no other, is
  the indirect system call; a number beyond the table is refused; the handler with a bound of 0 on
  the depth of indirect calls gives up.
\<close>

locale lcall_personality =
  fixes g :: "'k gate" and table :: "sysent list"
    and others :: "string \<Rightarrow> pt_regs \<Rightarrow> 'k \<Rightarrow> (pt_regs \<times> 'k) option"
    and handler :: "nat \<Rightarrow> pt_regs \<Rightarrow> 'k \<Rightarrow> (pt_regs \<times> 'k) option"
  assumes handler_0: "handler 0 regs k = None"
    and handler_Suc: "handler (Suc n) regs k = table_dispatch g
      (\<lambda>f. if f = ''abi_syscall'' then lcall7_syscall g (handler n) else others f) table (eax regs AND 0xff) 1 regs k"
    and table_0: "table \<noteq> []" "se_syscall (table ! 0) = Func ''abi_syscall''" "se_nargs (table ! 0) = Fast"
    and table_Suc: "0 < i \<Longrightarrow> i < length table \<Longrightarrow> se_syscall (table ! i) \<noteq> Func ''abi_syscall''"
    and errors: "err_map_ok g" "iABI_errors g (- 22) = Some 1"
    and others_total: "others f regs k \<noteq> None"
begin

lemma low_byte: "unat (x AND 0xff) = 0 \<longleftrightarrow> x AND 0xff = 0" for x :: u32
  by (simp add: unat_eq_0)

lemma handler_direct:
  assumes "eax regs AND 0xff \<noteq> 0" "unat (eax regs AND 0xff) < length table"
  shows "handler (Suc n) regs k = lcall7_dispatch g others regs (table ! unat (eax regs AND 0xff)) 1 k"
proof -
  let ?i = "unat (eax regs AND 0xff)"
  have "0 < ?i" using assms(1) by (simp add: unat_gt_0)
  from table_Suc [OF this assms(2)] show ?thesis
    using assms(2) by (auto simp: handler_Suc table_dispatch_def lcall7_dispatch_def Let_def split: target.splits)
qed

lemma handler_indirect:
  assumes "eax regs AND 0xff = 0"
  shows "handler (Suc n) regs k = lcall7_syscall g (handler n) regs k"
  using assms table_0 by (simp add: handler_Suc table_dispatch_def lcall7_dispatch_def Let_def Fast_def Unimpl_def)

lemma handler_refused:
  assumes "length table \<le> unat (eax regs AND 0xff)"
  shows "handler (Suc n) regs k = Some (regs\<lparr>eax := 1, eflags := eflags regs OR 1\<rparr>, k)"
  using assms errors by (simp add: handler_Suc table_dispatch_def fail_with_def set_error_def)

lemma dispatch_total: "\<exists>r. lcall7_dispatch g others regs ap off k = Some r"
proof (cases "se_nargs ap = Unimpl \<or> se_syscall ap = Null")
  case True
  then show ?thesis using dispatch_ENOSYS [OF errors(1)] by blast
next
  case False
  then show ?thesis using others_total lcall7_return_ok [OF errors(1)]
    by (cases "se_syscall ap") (auto simp: lcall7_dispatch_def Let_def split: prod.splits)
qed

text \<open>The numbers a nested indirect call finds: the one in \<open>eax\<close>, then the words of the stack.\<close>

lemma handler_returns:
  assumes "if d = 0 then eax regs AND 0xff \<noteq> 0 else peek g (esp regs + 4 * of_nat d) k AND 0xff \<noteq> 0" "d \<le> n"
  shows "\<exists>r. handler (Suc n) regs k = Some r"
  using assms
proof (induction d arbitrary: n regs)
  case 0
  then show ?case
    using handler_direct [of regs n k] handler_refused [of regs n k] dispatch_total
    by (cases "unat (eax regs AND 0xff) < length table") auto
next
  case (Suc d)
  show ?case
  proof (cases "eax regs AND 0xff = 0")
    case False
    then show ?thesis
      using handler_direct [of regs n k] handler_refused [of regs n k] dispatch_total
      by (cases "unat (eax regs AND 0xff) < length table") auto
  next
    case True
    obtain m where n: "n = Suc m" "d \<le> m" using Suc.prems(2) by (cases n) auto
    let ?regs = "regs\<lparr>eax := peek g (esp regs + 4) k, esp := esp regs + 4\<rparr>"
    have "\<exists>r. handler (Suc m) ?regs k = Some r"
      by (rule Suc.IH) (use Suc.prems(1) n(2) in \<open>auto simp: algebra_simps split: if_splits\<close>)
    then show ?thesis using handler_indirect [OF True, of n k] n(1) by (auto simp: lcall7_syscall_handler)
  qed
qed

text \<open>
  \<open>syscall(i, \<dots>)\<close> does what the call \<open>i\<close> does with the stack one word up, and the stack pointer is
  back where it was.
\<close>

lemma indirect_is_direct:
  assumes "eax regs AND 0xff = 0" "peek g (esp regs + 4) k = i" "i AND 0xff \<noteq> 0"
  shows "handler (Suc (Suc n)) regs k =
    map_option (\<lambda>(regs, k). (regs\<lparr>esp := esp regs - 4\<rparr>, k)) (handler (Suc m) (regs\<lparr>eax := i, esp := esp regs + 4\<rparr>) k)"
proof -
  let ?regs = "regs\<lparr>eax := i, esp := esp regs + 4\<rparr>"
  have "handler (Suc n) ?regs k = handler (Suc m) ?regs k"
    using assms(3) handler_direct [of ?regs n k] handler_direct [of ?regs m k]
      handler_refused [of ?regs n k] handler_refused [of ?regs m k]
    by (cases "unat (i AND 0xff) < length table") auto
  then show ?thesis using handler_indirect [OF assms(1), of "Suc n" k] assms(2) by (simp add: lcall7_syscall_handler)
qed

end

end
