(* ===== verification/Per_Cxenix.thy ===== *)
theory Per_Cxenix
  imports Per_Base
begin

text \<open>
  The table of the Xenix calls, \<^verbatim>\<open>src/per-cxenix/sysent.c\<close>, which the SCO personality reaches through
  one entry of its own table.
\<close>

section \<open>System calls\<close>

definition cxenix_table :: "sysent list" where
  "cxenix_table =
   [se Null Ukn ''syscall'' '''', se (Func ''xnx_locking'') 3 ''locking'' ''ddd'',
    se (Func ''xnx_creatsem'') 2 ''creatsem'' ''sd'', se (Func ''xnx_opensem'') 1 ''opensem'' ''s'',
    se (Func ''xnx_sigsem'') 1 ''sigsem'' ''d'', se (Func ''xnx_waitsem'') 1 ''waitsem'' ''d'',
    se (Func ''xnx_nbwaitsem'') 1 ''nbwaitsem'' ''d'', se (Func ''xnx_rdchk'') 1 ''rdchk'' ''d'',
    se Null Ukn ''stkgro'' '''', se Null Ukn ''?'' '''', se (Kernel 93) 2 ''chsize'' ''dd'',
    se (Func ''xnx_ftime'') 1 ''ftime'' ''x'', se (Func ''xnx_nap'') 1 ''nap'' ''d'',
    se (Func ''xnx_sdget'') 4 ''sdget'' ''sddd'', se (Func ''xnx_sdfree'') 1 ''sdfree'' ''x'',
    se (Func ''xnx_sdenter'') 2 ''sdenter'' ''xd'', se (Func ''xnx_sdleave'') 1 ''sdleave'' ''x'',
    se (Func ''xnx_sdgetv'') 1 ''sdgetv'' ''x'', se (Func ''xnx_sdwaitv'') 2 ''sdwaitv'' ''xd'',
    se Null Ukn ''brkctl'' '''', se Null Ukn ''?'' '''', se Null 2 ''sco-getcwd?'' ''dx'',
    se Null Ukn ''?'' '''', se Null Ukn ''?'' '''', se Null Ukn ''?'' '''', se Null Ukn ''?'' '''',
    se Null Ukn ''?'' '''', se Null Ukn ''?'' '''', se Null Ukn ''?'' '''', se Null Ukn ''?'' '''',
    se Null Ukn ''?'' '''', se Null Ukn ''?'' '''', se (Func ''xnx_proctl'') 3 ''proctl'' ''ddx'',
    se (Func ''xnx_execseg'') 2 ''execseg'' ''xd'', se (Func ''xnx_unexecseg'') 1 ''unexecseg'' ''x'',
    se Null Ukn ''?'' '''', se (Kernel 142) 5 ''select'' ''dxxxx'',
    se (Func ''xnx_eaccess'') 2 ''eaccess'' ''so'', se (Func ''xnx_paccess'') 5 ''paccess'' ''dddds'',
    se (Func ''xnx_sigaction'') 3 ''sigaction'' ''dxx'',
    se (Func ''abi_sigprocmask'') 3 ''sigprocmask'' ''dxx'',
    se (Func ''xnx_sigpending'') 1 ''sigpending'' ''x'',
    se (Func ''abi_sigsuspend'') Spl ''sigsuspend'' ''x'', se (Kernel 80) 2 ''getgroups'' ''dx'',
    se (Kernel 81) 2 ''setgroups'' ''dx'', se (Func ''ibcs_sysconf'') 1 ''sysconf'' ''d'',
    se (Func ''xnx_pathconf'') 2 ''pathconf'' ''sd'',
    se (Func ''xnx_fpathconf'') 2 ''fpathconf'' ''dd'', se (Kernel 38) 2 ''rename'' ''ss'',
    se Null Ukn ''?'' '''', se (Func ''xnx_utsname'') 1 ''utsname'' ''x'', se Null Ukn ''?'' '''',
    se Null Ukn ''?'' '''', se Null Ukn ''?'' '''', se Null Ukn ''?'' '''',
    se (Kernel 105) 2 ''getitimer'' ''dx'', se (Kernel 104) 3 ''setitimer'' ''dxx'']"

text \<open>The handler of entry 40 of the SCO table: the number of the call is the second byte of \<open>eax\<close>.\<close>

definition cxenix :: "'k gate \<Rightarrow> pt_regs \<Rightarrow> 'k \<Rightarrow> (pt_regs \<times> 'k) option" where
  "cxenix g regs k =
     table_dispatch g (fast_only g) cxenix_table (drop_bit 8 (eax regs AND 0xFFFF)) 1 regs k"

end
