(* ===== verification/Per_Sco.thy ===== *)
theory Per_Sco
  imports Per_Cxenix
begin

text \<open>
  The system call table and the translation tables of the OpenServer and the Xenix personality,
  \<^verbatim>\<open>src/per-sco/sysent.c\<close>. A table entry gives the function or the Linux system call number
  (of the i386 numbering), the calling convention or number of arguments, the name and the argument
  letters of the trace. The constants of the Linux headers (signals, socket options) are written as
  their i386 values.
\<close>

section \<open>Errors\<close>

definition sco_err_table :: "u8 list" where
  "sco_err_table =
   [0, 1, 2, 3, 4, 5, 6, 7, 8, 9, 10, 11, 12, 13, 14, 15, 16, 17, 18, 19, 20, 21, 22, 23, 24, 25, 26,
    27, 28, 29, 30, 31, 32, 33, 34, 45, 78, 46, 89, 145, 150, 90, 35, 36, 37, 38, 39, 40, 41, 42, 43,
    44, 50, 51, 52, 53, 54, 55, 56, 57, 60, 61, 62, 63, 64, 65, 66, 67, 68, 69, 70, 71, 74, 76, 77, 79,
    80, 81, 82, 83, 84, 85, 86, 87, 88, 152, 153, 22, 93, 94, 95, 96, 118, 97, 98, 99, 100, 101, 102,
    103, 104, 105, 106, 107, 108, 63, 110, 111, 112, 113, 114, 115, 116, 117, 92, 91, 151, 135, 137,
    138, 139, 140, 28]"

definition sco_lnx_err_table :: "u8 list" where
  "sco_lnx_err_table =
   [4, 4, 4]"

definition sco_err_map :: "map_segment list" where
  "sco_err_map =
   [seg 0 122 (Seg_Vec sco_err_table), seg 512 514 (Seg_Vec sco_lnx_err_table), seg (- 1) 0 (Seg_Int 0)]"

section \<open>Signals\<close>

definition linux_to_sco_signals :: "u32 list" where
  "linux_to_sco_signals =
   [0, 1, 2, 3, 4, 5, 6, 10, 8, 9, 16, 11, 17, 13, 14, 15, 15, 18, 25, 23, 24, 26, 27, 21, 30, 31, 28,
    29, 20, 22, 19, 12, - 1]"

definition linux_to_xenix_signals :: "u32 list" where
  "linux_to_xenix_signals =
   [0, 1, 2, 3, 4, 5, 6, - 1, 8, 9, 16, 11, 17, 13, 14, 15, 11, 18, 25, 23, 24, 26, 27, 16, 30, 31, 28,
    29, 20, 20, 19, - 1, - 1]"

definition sco_to_linux_signals :: "u32 list" where
  "sco_to_linux_signals =
   [0, 1, 2, 3, 4, 5, 6, 6, 8, 9, 7, 11, 31, 13, 14, 15, 10, 12, 17, 30, 28, 23, 29, 19, 20, 18, 21,
    22, 26, 27, 24, 25, - 1]"

definition xenix_to_linux_signals :: "u32 list" where
  "xenix_to_linux_signals =
   [0, 1, 2, 3, 4, 5, 6, 31, 8, 9, 31, 11, 31, 13, 14, 15, 10, 12, 17, 30, 29, - 1, - 1, - 1, - 1, - 1,
    - 1, - 1, - 1, - 1, - 1, - 1, - 1]"

section \<open>Sockets\<close>

definition sco_socktype :: "u8 list" where
  "sco_socktype =
   [1, 2, 0, 3, 4, 5]"

definition sco_socktype_map :: "map_segment list" where
  "sco_socktype_map =
   [seg 1 6 (Seg_Vec sco_socktype), seg (- 1) 0 (Seg_Int 0)]"

definition sco_sockopt_map :: "map_segment list" where
  "sco_sockopt_map =
   [seg 1 1 (Seg_Int 0x1), seg 2 2 (Seg_Int 0x10000), seg 4 4 (Seg_Int 0x2), seg 8 8 (Seg_Int 0x9),
    seg 16 16 (Seg_Int 0x5), seg 32 32 (Seg_Int 0x6), seg 64 64 (Seg_Int 0xff02),
    seg 128 128 (Seg_Int 0xd), seg 256 256 (Seg_Int 0xa), seg 512 512 (Seg_Int 0xff03),
    seg 1024 1024 (Seg_Int 0xff04), seg 4097 4097 (Seg_Int 0x7), seg 4098 4098 (Seg_Int 0x8),
    seg 4099 4099 (Seg_Int 0x13), seg 4100 4100 (Seg_Int 0x12), seg 4101 4101 (Seg_Int 0x15),
    seg 4102 4102 (Seg_Int 0x14), seg 4103 4103 (Seg_Int 0x4), seg 4104 4104 (Seg_Int 0x3),
    seg 4105 4105 (Seg_Int 0xff09), seg (- 1) 0 (Seg_Int 0)]"

definition sco_af_map :: "map_segment list" where
  "sco_af_map =
   [seg 0 2 (Seg_Int 0), seg (- 1) 0 (Seg_Int 0)]"

section \<open>System calls\<close>

definition sco_syscall_table_0 :: "sysent list" where
  "sco_syscall_table_0 =
   [se (Func ''abi_syscall'') Fast ''syscall'' '''', se (Kernel 1) 1 ''exit'' ''d'',
    se (Func ''abi_fork'') Spl ''fork'' '''', se (Func ''abi_read'') 3 ''read'' ''dpd'',
    se (Kernel 4) 3 ''write'' ''dpd'', se (Func ''svr4_open'') 3 ''open'' ''soo'',
    se (Kernel 6) 1 ''close'' ''d'', se (Func ''abi_wait'') Spl ''wait'' ''xxx'',
    se (Kernel 8) 2 ''creat'' ''so'', se (Kernel 9) 2 ''link'' ''ss'',
    se (Kernel 10) 1 ''unlink'' ''s'', se (Func ''abi_exec'') Spl ''exec'' ''sxx'',
    se (Kernel 12) 1 ''chdir'' ''s'', se (Func ''abi_time'') 0 ''time'' '''',
    se (Func ''svr4_mknod'') 3 ''mknod'' ''soo'', se (Kernel 15) 2 ''chmod'' ''so'',
    se (Kernel 182) 3 ''chown'' ''sdd'', se (Func ''abi_brk'') 1 ''brk/break'' ''x'',
    se (Func ''svr4_stat'') 2 ''stat'' ''sp'', se (Func ''sco_lseek'') 3 ''seek/lseek'' ''ddd'',
    se (Func ''abi_getpid'') Spl ''getpid'' '''', se Null Ukn ''mount'' '''',
    se (Kernel 22) 1 ''umount'' ''s'', se (Kernel 23) 1 ''setuid'' ''d'',
    se (Func ''abi_getuid'') Spl ''getuid'' '''', se (Func ''abi_stime'') 1 ''stime'' ''d'',
    se (Func ''sco_ptrace'') 4 ''ptrace'' ''xdxx'', se (Kernel 27) 1 ''alarm'' ''d'',
    se (Func ''svr4_fstat'') 2 ''fstat'' ''dp'', se (Kernel 29) 0 ''pause'' '''',
    se (Func ''abi_utime'') 2 ''utime'' ''sp'', se Null Ukn ''stty'' '''', se Null Ukn ''gtty'' '''',
    se (Kernel 33) 2 ''access'' ''so'', se (Kernel 34) 1 ''nice'' ''d'',
    se (Func ''svr4_statfs'') 4 ''statfs'' ''spdd'', se (Kernel 36) 0 ''sync'' '''',
    se (Func ''abi_kill'') 2 ''kill'' ''dd'', se (Func ''svr4_fstatfs'') 4 ''fstatfs'' ''dpdd'',
    se (Func ''abi_procids'') Spl ''procids'' ''d'', se (Func ''cxenix'') Fast ''cxenix'' '''',
    se (Kernel 41) 1 ''dup'' ''d'', se (Func ''abi_pipe'') Spl ''pipe'' '''',
    se (Kernel 43) 1 ''times'' ''p'', se Null Ukn ''prof'' '''', se Null Ukn ''lock/plock'' '''',
    se (Kernel 46) 1 ''setgid'' ''d'', se (Func ''abi_getgid'') Spl ''getgid'' '''',
    se (Func ''abi_sigfunc'') Fast ''sigfunc'' ''xxx'',
    se (Func ''svr4_msgsys'') Spl ''msgsys'' ''dxddd'',
    se (Func ''sco_sysi86'') 3 ''sysi86/sys3b'' ''d'', se (Kernel 51) 1 ''acct/sysacct'' ''x'',
    se (Func ''svr4_shmsys'') Fast ''shmsys'' ''ddxo'',
    se (Func ''svr4_semsys'') Spl ''semsys'' ''dddx'', se (Func ''sco_ioctl'') Spl ''ioctl'' ''dxx'',
    se Null 3 ''uadmin'' ''xxx'', se Null Ukn ''?'' '''', se (Func ''v7_utsname'') 1 ''utsys'' ''x'',
    se (Kernel 118) 1 ''fsync'' ''d'', se (Func ''abi_exec'') Spl ''execv'' ''spp'',
    se (Kernel 60) 1 ''umask'' ''o'', se (Kernel 61) 1 ''chroot'' ''s'',
    se (Func ''sco_fcntl'') 3 ''fcntl'' ''dxx'', se (Func ''svr4_ulimit'') 2 ''ulimit'' ''xx'',
    se Null Ukn ''?'' '''', se Null Ukn ''?'' '''', se Null Ukn ''?'' '''', se Null Ukn ''?'' '''',
    se Null Ukn ''?'' '''', se Null Ukn ''?'' '''', se Null Ukn ''advfs'' '''',
    se Null Ukn ''unadvfs'' '''', se Null Ukn ''rmount'' '''', se Null Ukn ''rumount'' '''',
    se Null Ukn ''rfstart'' '''', se Null Ukn ''?'' '''', se (Func ''abi_debug'') Spl ''rdebug'' '''',
    se Null Ukn ''rfstop'' '''', se Null Ukn ''rfsys'' '''', se (Kernel 40) 1 ''rmdir'' ''s'',
    se (Func ''abi_mkdir'') 2 ''mkdir'' ''so'', se (Func ''sco_getdents'') 3 ''getdents'' ''dxd'',
    se Null Ukn ''libattach'' '''', se Null Ukn ''libdetach'' '''',
    se (Func ''svr4_sysfs'') 3 ''sysfs'' ''dxx'', se (Func ''svr4_getmsg'') Spl ''getmsg'' ''dxxx'',
    se (Func ''svr4_putmsg'') Spl ''putmsg'' ''dxxd'', se (Kernel 168) 3 ''poll'' ''xdd'',
    se Null Ukn ''nosys88'' '''', se (Func ''sw_security'') 6 ''security'' ''dxxxxx'',
    se (Kernel 83) 2 ''symlink'' ''ss'', se (Func ''svr4_lstat'') 2 ''lstat'' ''sp'',
    se (Kernel 85) 3 ''readlink'' ''spd'', se Null Ukn ''?'' '''', se Null Ukn ''?'' '''',
    se (Func ''abi_sigprocmask'') 3 ''sigprocmask'' ''dxx'',
    se (Func ''abi_sigsuspend'') Spl ''sigsuspend'' ''x'', se Null 2 ''sigaltstack'' ''xx'',
    se (Func ''abi_sigaction'') 3 ''sigaction'' ''dxx'',
    se (Func ''svr4_sigpending'') 2 ''sigpending'' ''dp'']"

definition sco_syscall_table_100 :: "sysent list" where
  "sco_syscall_table_100 =
   [se (Func ''svr4_context'') Spl ''context'' '''', se Null Ukn ''evsys'' '''',
    se Null Ukn ''evtrapret'' '''', se (Func ''sco_statvfs'') 2 ''statvfs'' ''sp'',
    se (Func ''sco_fstatvfs'') 2 ''fstatvfs'' ''dp'', se Null Ukn ''unimp (sysisc)'' '''',
    se Null Ukn ''nfssys'' '''', se Null 4 ''waitid'' ''ddxd'', se Null 3 ''sigsendsys'' ''ddd'',
    se (Func ''svr4_hrtsys'') Spl ''hrtsys'' ''xxx'', se Null 3 ''acancel'' ''dxd'',
    se Null Ukn ''async'' '''', se Null Ukn ''priocntlsys'' '''',
    se (Func ''svr4_pathconf'') 2 ''pathconf'' ''sd'', se (Kernel 218) 3 ''mincore'' ''xdx'',
    se (Func ''sco_mmap'') 6 ''mmap'' ''xxxxdx'', se (Kernel 125) 3 ''mprotect'' ''xdx'',
    se (Kernel 91) 2 ''munmap'' ''xd'', se (Func ''svr4_fpathconf'') 2 ''fpathconf'' ''dd'',
    se (Func ''abi_fork'') Spl ''vfork'' '''', se (Kernel 133) 1 ''fchdir'' ''d'',
    se (Kernel 145) 3 ''readv'' ''dxd'', se (Kernel 146) 3 ''writev'' ''dxd'',
    se (Func ''sco_xstat'') 3 ''xstat'' ''dsx'', se (Func ''sco_lxstat'') 3 ''lxstat'' ''dsx'',
    se (Func ''sco_fxstat'') 3 ''fxstat'' ''ddx'', se (Func ''svr4_xmknod'') 4 ''xmknod'' ''dsox'',
    se Null Ukn ''syslocal'' ''d'', se (Func ''svr4_getrlimit'') 2 ''setrlimit'' ''dx'',
    se (Func ''svr4_setrlimit'') 2 ''getrlimit'' ''dx'', se Null Ukn ''?'' '''',
    se Null Ukn ''?'' '''', se Null Ukn ''?'' '''', se Null Ukn ''?'' '''', se Null Ukn ''?'' '''',
    se Null Ukn ''?'' '''', se Null Ukn ''?'' '''', se Null Ukn ''?'' '''', se Null Ukn ''?'' '''',
    se Null Ukn ''?'' '''', se (Func ''socksys_syscall'') 1 ''socksys'' ''x'', se Null Ukn ''?'' '''',
    se Null Ukn ''?'' '''', se Null Ukn ''?'' '''', se Null 2 ''uw7-secsys'' ''dx'',
    se Null 4 ''uw7-filepriv'' ''sdxd'', se Null 3 ''uw7-procpriv'' ''dxd'', se Null Ukn ''?'' '''',
    se Null Ukn ''?'' '''', se Null Ukn ''?'' '''', se Null Ukn ''?'' '''', se Null Ukn ''?'' '''',
    se Null Ukn ''?'' '''', se Null Ukn ''?'' '''', se Null Ukn ''?'' '''', se Null Ukn ''?'' '''',
    se Null Ukn ''?'' '''', se Null Ukn ''?'' '''', se Null Ukn ''?'' '''', se Null Ukn ''?'' '''',
    se Null Ukn ''?'' '''', se Null Ukn ''?'' '''', se Null Ukn ''?'' '''', se Null Ukn ''?'' '''',
    se Null Ukn ''?'' '''', se Null Ukn ''?'' '''', se Null Ukn ''?'' '''', se Null Ukn ''?'' '''',
    se Null Ukn ''?'' '''', se Null Ukn ''?'' '''', se Null Ukn ''?'' '''',
    se (Func ''abi_gettime'') 2 ''gettimeofday'' ''xx'',
    se (Func ''abi_settime'') 2 ''settimeofday'' ''xx'']"

definition sco_syscall_table :: "sysent list" where
  "sco_syscall_table = sco_syscall_table_0 @ sco_syscall_table_100"

text \<open>The handler of the lcall gate; the number bounds the depth of nested indirect system calls.\<close>

fun sco_lcall7 :: "'k gate \<Rightarrow> nat \<Rightarrow> pt_regs \<Rightarrow> 'k \<Rightarrow> (pt_regs \<times> 'k) option" where
  "sco_lcall7 g 0 regs k = None"
| "sco_lcall7 g (Suc n) regs k =
     table_dispatch g
       (\<lambda>f. if f = ''abi_syscall'' then lcall7_syscall g (sco_lcall7 g n) else if f = ''cxenix'' then cxenix g else fast_only g f)
       sco_syscall_table (eax regs AND 0xff) 1 regs k"

definition sco_exec_domain :: domain_def where
  "sco_exec_domain = \<lparr>dom_name = ''OpenServer'', dom_pers_low = 3, dom_pers_high = 3,
     signal_map = sco_to_linux_signals, signal_invmap = linux_to_sco_signals, dom_err_map = sco_err_map,
     socktype_map = sco_socktype_map, sockopt_map = sco_sockopt_map, af_map = sco_af_map\<rparr>"

definition xenix_exec_domain :: domain_def where
  "xenix_exec_domain = \<lparr>dom_name = ''Xenix'', dom_pers_low = 7, dom_pers_high = 7,
     signal_map = xenix_to_linux_signals, signal_invmap = linux_to_xenix_signals, dom_err_map = sco_err_map,
     socktype_map = sco_socktype_map, sockopt_map = sco_sockopt_map, af_map = sco_af_map\<rparr>"

end
