(* ===== verification/Per_Uw7.thy ===== *)
theory Per_Uw7
  imports Per_Base
begin

text \<open>
  The system call table and the translation tables of the UnixWare 7 personality,
  \<^verbatim>\<open>src/per-uw7/sysent.c\<close>. A table entry gives the function or the Linux system call number
  (of the i386 numbering), the calling convention or number of arguments, the name and the argument
  letters of the trace. The constants of the Linux headers (signals, socket options) are written as
  their i386 values.
\<close>

section \<open>Errors\<close>

definition uw7_err_table :: "u8 list" where
  "uw7_err_table =
   [0, 1, 2, 3, 4, 5, 6, 7, 8, 9, 10, 11, 12, 13, 14, 15, 16, 17, 18, 19, 20, 21, 22, 23, 24, 25, 26,
    27, 28, 29, 30, 31, 32, 33, 34, 45, 78, 46, 89, 93, 90, 90, 35, 36, 37, 38, 39, 40, 41, 42, 43, 44,
    50, 51, 52, 53, 54, 55, 56, 57, 60, 61, 62, 63, 64, 65, 66, 67, 68, 69, 70, 71, 74, 76, 77, 79, 80,
    81, 82, 83, 84, 85, 86, 87, 88, 91, 92, 94, 95, 96, 97, 98, 99, 120, 121, 122, 123, 124, 125, 126,
    127, 128, 129, 130, 131, 132, 133, 134, 143, 144, 145, 146, 147, 148, 149, 150, 22, 135, 137, 138,
    139, 140, 28]"

definition uw7_lnx_err_table :: "u8 list" where
  "uw7_lnx_err_table =
   [4, 4, 4]"

definition uw7_err_map :: "map_segment list" where
  "uw7_err_map =
   [seg 0 122 (Seg_Vec uw7_err_table), seg 512 514 (Seg_Vec uw7_lnx_err_table), seg (- 1) 0 (Seg_Int 0)]"

section \<open>Signals\<close>

definition linux_to_uw7_signals :: "u32 list" where
  "linux_to_uw7_signals =
   [0, 1, 2, 3, 4, 5, 6, - 1, 8, 9, 16, 11, 17, 13, 14, 15, 11, 18, 25, 23, 24, 26, 27, 21, 30, 31, 28,
    29, 20, 22, 19, - 1, - 1]"

definition uw7_to_linux_signals :: "u32 list" where
  "uw7_to_linux_signals =
   [0, 1, 2, 3, 4, 5, 6, 31, 8, 9, 31, 11, 31, 13, 14, 15, 10, 12, 17, 30, 28, 23, 29, 19, 20, 18, 21,
    22, 26, 27, 24, 25, - 1]"

section \<open>Sockets\<close>

definition uw7_socktype :: "u8 list" where
  "uw7_socktype =
   [1, 2, 0, 3, 4, 5]"

definition uw7_socktype_map :: "map_segment list" where
  "uw7_socktype_map =
   [seg 1 6 (Seg_Vec uw7_socktype), seg (- 1) 0 (Seg_Int 0)]"

definition uw7_sockopt_map :: "map_segment list" where
  "uw7_sockopt_map =
   [seg 1 1 (Seg_Int 0x1), seg 2 2 (Seg_Int 0x10000), seg 4 4 (Seg_Int 0x2), seg 8 8 (Seg_Int 0x9),
    seg 16 16 (Seg_Int 0x5), seg 32 32 (Seg_Int 0x6), seg 64 64 (Seg_Int 0xff02),
    seg 128 128 (Seg_Int 0xd), seg 256 256 (Seg_Int 0xa), seg 512 512 (Seg_Int 0xff03),
    seg 1024 1024 (Seg_Int 0xff04), seg 4097 4097 (Seg_Int 0x7), seg 4098 4098 (Seg_Int 0x8),
    seg 4099 4099 (Seg_Int 0x13), seg 4100 4100 (Seg_Int 0x12), seg 4101 4101 (Seg_Int 0x15),
    seg 4102 4102 (Seg_Int 0x14), seg 4103 4103 (Seg_Int 0x4), seg 4104 4104 (Seg_Int 0x3),
    seg 4105 4105 (Seg_Int 0xff09), seg (- 1) 0 (Seg_Int 0)]"

definition uw7_af_map :: "map_segment list" where
  "uw7_af_map =
   [seg 0 2 (Seg_Int 0), seg (- 1) 0 (Seg_Int 0)]"

section \<open>System calls\<close>

definition uw7_syscall_table_0 :: "sysent list" where
  "uw7_syscall_table_0 =
   [se (Func ''abi_syscall'') Fast ''syscall'' '''', se (Kernel 1) 1 ''exit'' ''d'',
    se (Func ''abi_fork'') Spl ''fork'' '''', se (Func ''abi_read'') 3 ''read'' ''dpd'',
    se (Kernel 4) 3 ''write'' ''dpd'', se (Func ''svr4_open'') 3 ''open'' ''soo'',
    se (Kernel 6) 1 ''close'' ''d'', se (Func ''abi_wait'') Spl ''wait'' ''xxx'',
    se (Kernel 8) 2 ''creat'' ''so'', se (Kernel 9) 2 ''link'' ''ss'',
    se (Kernel 10) 1 ''unlink'' ''s'', se (Func ''abi_exec'') Spl ''exec'' ''sxx'',
    se (Kernel 12) 1 ''chdir'' ''s'', se (Func ''abi_time'') 0 ''time'' '''',
    se (Func ''svr4_mknod'') 3 ''mknod'' ''soo'', se (Kernel 15) 2 ''chmod'' ''so'',
    se (Kernel 182) 3 ''chown'' ''sdd'', se (Func ''abi_brk'') 1 ''brk/break'' ''x'',
    se (Func ''svr4_stat'') 2 ''stat'' ''sp'', se (Kernel 19) 3 ''seek/lseek'' ''ddd'',
    se (Func ''abi_getpid'') Spl ''getpid'' '''', se Null Ukn ''mount'' '''',
    se (Kernel 22) 1 ''umount'' ''s'', se (Kernel 23) 1 ''setuid'' ''d'',
    se (Func ''abi_getuid'') Spl ''getuid'' '''', se (Func ''abi_stime'') 1 ''stime'' ''d'',
    se Null 4 ''ptrace'' '''', se (Kernel 27) 1 ''alarm'' ''d'',
    se (Func ''svr4_fstat'') 2 ''fstat'' ''dp'', se (Kernel 29) 0 ''pause'' '''',
    se (Func ''abi_utime'') 2 ''utime'' ''sp'', se (Func ''uw7_stty'') 2 ''stty'' ''dd'',
    se (Func ''uw7_gtty'') 2 ''gtty'' ''dd'', se (Func ''uw7_access'') 2 ''access'' ''so'',
    se (Kernel 34) 1 ''nice'' ''d'', se (Func ''svr4_statfs'') 4 ''statfs'' ''spdd'',
    se (Kernel 36) 0 ''sync'' '''', se (Func ''abi_kill'') 2 ''kill'' ''dd'',
    se (Func ''svr4_fstatfs'') 4 ''fstatfs'' ''dpdd'', se (Func ''abi_procids'') Spl ''procids'' ''d'',
    se Null Ukn ''cxenix'' '''', se (Kernel 41) 1 ''dup'' ''d'',
    se (Func ''abi_pipe'') Spl ''pipe'' '''', se (Kernel 43) 1 ''times'' ''p'', se Null 4 '''' '''',
    se Null Ukn ''plock'' '''', se (Kernel 46) 1 ''setgid'' ''d'',
    se (Func ''abi_getgid'') Spl ''getgid'' '''', se (Func ''abi_sigfunc'') Fast ''sigfunc'' ''xxx'',
    se (Func ''svr4_msgsys'') Spl ''msgsys'' ''dxddd'',
    se (Func ''svr4_sysi86'') 3 ''sysi86/sys3b'' ''d'', se (Kernel 51) 1 ''acct/sysacct'' ''x'',
    se (Func ''svr4_shmsys'') Fast ''shmsys'' ''ddxo'',
    se (Func ''svr4_semsys'') Spl ''semsys'' ''dddx'', se (Func ''uw7_ioctl'') Spl ''ioctl'' ''dxx'',
    se Null 3 ''uadmin'' ''xxx'', se Null Ukn ''unimpl/exch'' '''',
    se (Func ''v7_utsname'') 1 ''utsys'' ''x'', se (Kernel 118) 1 ''fsync'' ''d'',
    se (Func ''abi_exec'') Spl ''execv'' ''spp'', se (Kernel 60) 1 ''umask'' ''o'',
    se (Kernel 61) 1 ''chroot'' ''s'', se (Func ''svr4_fcntl'') 3 ''fcntl'' ''dxx'',
    se (Func ''svr4_ulimit'') 2 ''ulimit'' ''xx'', se Null Ukn ''cg_ids'' '''',
    se Null Ukn ''cg_processors'' '''', se Null Ukn ''cg_info'' '''', se Null Ukn ''cg_bind'' '''',
    se Null Ukn ''cg_current'' '''', se Null Ukn ''cg_memloc'' '''', se Null Ukn ''unimpl/advfs'' '''',
    se Null Ukn ''unimpl/unadvfs'' '''', se Null Ukn ''unimpl/rmount'' '''',
    se Null Ukn ''unimpl/rumount'' '''', se Null Ukn ''unimpl/rfstart'' '''',
    se Null Ukn ''unimpl 75'' '''', se (Func ''abi_debug'') Spl ''rdebug'' '''',
    se Null Ukn ''unimpl/rfstop'' '''', se Null Ukn ''rfsys'' '''', se (Kernel 40) 1 ''rmdir'' ''s'',
    se (Kernel 39) 2 ''mkdir'' ''so'', se (Func ''svr4_getdents'') 3 ''getdents'' ''dxd'',
    se Null Ukn ''unimpl/libattach'' '''', se Null Ukn ''unimpl/libdetach'' '''',
    se (Func ''svr4_sysfs'') 3 ''sysfs'' ''dxx'', se (Func ''svr4_getmsg'') Spl ''getmsg'' ''dxxx'',
    se (Func ''svr4_putmsg'') Spl ''putmsg'' ''dxxd'', se (Kernel 168) 3 ''poll'' ''xdd'',
    se (Func ''svr4_lstat'') 2 ''lstat'' ''sp'', se (Kernel 83) 2 ''symlink'' ''ss'',
    se (Kernel 85) 3 ''readlink'' ''spd'', se (Kernel 206) 2 ''setgroups'' ''dp'',
    se (Kernel 205) 2 ''getgroups'' ''dp'', se (Kernel 94) 2 ''fchmod'' ''do'',
    se (Kernel 95) 3 ''fchown'' ''ddd'', se (Func ''abi_sigprocmask'') 3 ''sigprocmask'' ''dxx'',
    se (Func ''abi_sigsuspend'') Spl ''sigsuspend'' ''x'',
    se (Func ''uw7_sigaltstack'') 2 ''sigaltstack'' ''xx'',
    se (Func ''abi_sigaction'') 3 ''sigaction'' ''dxx'',
    se (Func ''svr4_sigpending'') 2 ''sigpending'' ''dp'']"

definition uw7_syscall_table_100 :: "sysent list" where
  "uw7_syscall_table_100 =
   [se (Func ''uw7_context'') Spl ''ucontext'' '''', se Null Ukn ''evsys'' '''',
    se Null Ukn ''evtrapret'' '''', se (Func ''svr4_statvfs'') 2 ''statvfs'' ''sp'',
    se (Func ''svr4_fstatvfs'') 2 ''fstatvfs'' ''dp'', se Null Ukn ''reserved 105'' '''',
    se Null Ukn ''nfssys'' '''', se (Func ''svr4_waitid'') 4 ''waitid'' ''ddxd'',
    se Null 3 ''sigsendsys'' ''ddd'', se (Func ''svr4_hrtsys'') Spl ''hrtsys'' ''xxx'',
    se Null 3 ''acancel'' ''dxd'', se Null Ukn ''async'' '''', se Null Ukn ''priocntlsys'' '''',
    se (Func ''svr4_pathconf'') 2 ''pathconf'' ''sd'', se Null 3 ''mincore'' ''xdx'',
    se (Func ''svr4_mmap'') 6 ''mmap'' ''xxxxdx'', se (Kernel 125) 3 ''mprotect'' ''xdx'',
    se (Kernel 91) 2 ''munmap'' ''xd'', se (Func ''svr4_fpathconf'') 2 ''fpathconf'' ''dd'',
    se (Func ''abi_fork'') Spl ''vfork'' '''', se (Kernel 133) 1 ''fchdir'' ''d'',
    se (Kernel 145) 3 ''readv'' ''dxd'', se (Kernel 146) 3 ''writev'' ''dxd'',
    se (Func ''uw7_xstat'') 3 ''xstat'' ''dsx'', se (Func ''uw7_lxstat'') 3 ''lxstat'' ''dsx'',
    se (Func ''uw7_fxstat'') 3 ''fxstat'' ''ddx'', se (Func ''svr4_xmknod'') 4 ''xmknod'' ''dsox'',
    se Null Spl ''syslocal'' ''d'', se (Func ''svr4_getrlimit'') 2 ''setrlimit'' ''dx'',
    se (Func ''svr4_setrlimit'') 2 ''getrlimit'' ''dx'', se (Kernel 16) 3 ''lchown'' ''sdd'',
    se Null Ukn ''memcntl'' '''', se (Func ''svr4_getpmsg'') 5 ''getpmsg'' ''dxxxx'',
    se (Func ''svr4_putpmsg'') 5 ''putpmsg'' ''dxxdd'', se (Kernel 38) 2 ''rename'' ''ss'',
    se (Func ''abi_utsname'') 1 ''uname'' ''x'', se (Func ''uw7_setegid'') 1 ''setegid'' ''d'',
    se (Func ''svr4_sysconfig'') 1 ''sysconfig'' ''d'', se Null Ukn ''adjtime'' '''',
    se (Func ''svr4_sysinfo'') 3 ''systeminfo'' ''dsd'',
    se (Func ''socksys_syscall'') 1 ''socksys_syscall'' ''x'',
    se (Func ''uw7_seteuid'') 1 ''seteuid'' ''d'', se Null Ukn ''unimpl 142'' '''',
    se Null Ukn ''keyctl'' '''', se Null 2 ''secsys'' ''dx'', se Null 4 ''filepriv'' ''sdxd'',
    se Null 3 ''procpriv'' ''dxd'', se Null 3 ''devstat'' ''sdx'', se Null 5 ''aclipc'' ''ddddx'',
    se Null 3 ''fdevstat'' ''ddx'', se Null 3 ''flvlfile'' ''ddx'', se Null 3 ''lvlfile'' ''sdx'',
    se Null Ukn ''sendv'' '''', se Null 2 ''lvlequal'' ''xx'', se Null 2 ''lvlproc'' ''dx'',
    se Null Ukn ''unimpl 155'' '''', se Null 4 ''lvlipc'' ''dddx'', se Null 4 ''acl'' ''sddx'',
    se Null Ukn ''auditevt'' '''', se Null Ukn ''auditctl'' '''', se Null Ukn ''auditdmp'' '''',
    se Null Ukn ''auditlog'' '''', se Null Ukn ''auditbuf'' '''', se Null 2 ''lvldom'' ''xx'',
    se Null Ukn ''lvlvfs'' '''', se Null 2 ''mkmld'' ''so'',
    se (Func ''uw7_mldmode'') 1 ''mldmode'' ''d'', se Null 2 ''secadvise'' ''xx'',
    se Null Ukn ''online'' '''', se (Kernel 104) 3 ''setitimer'' ''dxx'',
    se (Kernel 105) 2 ''getitimer'' ''dx'', se (Func ''abi_gettime'') 2 ''gettimeofday'' ''xx'',
    se (Func ''abi_settime'') 2 ''settimeofday'' ''xx'', se Null Ukn ''lwpcreate'' '''',
    se Null Ukn ''lwpexit'' '''', se Null Ukn ''lwpwait'' '''', se Null Ukn ''lwpself'' '''',
    se Null Ukn ''lwpinfo'' '''', se Null Ukn ''lwpprivate'' '''', se Null Ukn ''processorbind'' '''',
    se Null Ukn ''processorexbind'' '''', se Null Ukn ''unimpl 181'' '''',
    se Null Ukn ''sendv64'' '''', se Null Ukn ''prepblock'' '''', se Null Ukn ''block'' '''',
    se Null Ukn ''rdblock'' '''', se Null Ukn ''unblock'' '''', se Null Ukn ''cancelblock'' '''',
    se Null Ukn ''unimpl 188'' '''', se (Func ''uw7_pread'') 4 ''pread'' ''dsdd'',
    se (Func ''uw7_pwrite'') 4 ''pwrite'' ''dsdd'', se (Kernel 92) 2 ''truncate'' ''sd'',
    se (Kernel 93) 2 ''ftruncate'' ''dd'', se Null Ukn ''lwpkill'' '''', se Null Ukn ''sigwait'' '''',
    se (Func ''abi_fork'') Spl ''fork1'' '''', se (Func ''abi_fork'') Spl ''forkall'' '''',
    se Null Ukn ''modload'' '''', se Null Ukn ''moduload'' '''', se Null Ukn ''modpath'' '''']"

definition uw7_syscall_table_200 :: "sysent list" where
  "uw7_syscall_table_200 =
   [se Null Ukn ''modstat'' '''', se Null Ukn ''modadm'' '''', se Null Ukn ''getksym'' '''',
    se Null Ukn ''lwpsuspend'' '''', se Null Ukn ''lwpcontinue'' '''',
    se Null Ukn ''priocntllst'' '''', se (Func ''uw7_sleep'') 1 ''sleep'' ''d'',
    se Null Ukn ''lwp_sema_wait'' '''', se Null Ukn ''lwp_sema_post'' '''',
    se Null Ukn ''lwp_sema_trywait'' '''', se Null Ukn ''reserved 210'' '''',
    se Null Ukn ''unused 211'' '''', se Null Ukn ''unused 212'' '''', se Null Ukn ''unused 213'' '''',
    se Null Ukn ''unused 214'' '''', se Null Ukn ''unused 215'' '''',
    se (Func ''uw7_fstatvfs64'') 2 ''fstatvfs64'' ''dp'',
    se (Func ''uw7_statvfs64'') 2 ''statvfs64'' ''sp'',
    se (Func ''uw7_ftruncate64'') 3 ''ftruncate64'' ''sdd'',
    se (Func ''uw7_truncate64'') 3 ''truncate64'' ''ddd'',
    se (Func ''uw7_getrlimit64'') 2 ''getrlimit64'' ''dp'',
    se (Func ''uw7_setrlimit64'') 2 ''setrlimit64'' ''dp'',
    se (Func ''uw7_lseek64'') 4 ''lseek64'' ''dddd'',
    se (Func ''uw7_mmap64'') 7 ''mmap64'' ''xxxxdxx'',
    se (Func ''uw7_pread64'') 5 ''pread64'' ''dsddd'',
    se (Func ''uw7_pwrite64'') 5 ''pwrite64'' ''dsddd'',
    se (Func ''uw7_creat64'') 2 ''creat64'' ''so'', se Null Ukn ''dshmsys'' '''',
    se Null Ukn ''invlpg'' '''', se Null Ukn ''rfork1'' '''', se Null Ukn ''rforkall'' '''',
    se Null Ukn ''rexecve'' '''', se Null Ukn ''migrate'' '''', se Null Ukn ''kill3'' '''',
    se Null Ukn ''ssisys'' '''', se Null Ukn ''xaccept'' '''', se Null Ukn ''xbind'' '''',
    se Null Ukn ''xbindresvport'' '''', se Null Ukn ''xconnect'' '''',
    se Null Ukn ''xgetsockaddr'' '''', se Null Ukn ''xgetsockopt'' '''', se Null Ukn ''xlisten'' '''',
    se Null Ukn ''xrecvmsg'' '''', se Null Ukn ''xsendmsg'' '''', se Null Ukn ''xsetsockaddr'' '''',
    se Null Ukn ''xsetsockopt'' '''', se Null Ukn ''xshutdown'' '''', se Null Ukn ''xsocket'' '''',
    se Null Ukn ''xsocketpair'' '''', se Null Ukn ''unused 249'' '''', se Null Ukn ''unused 250'' '''']"

definition uw7_syscall_table :: "sysent list" where
  "uw7_syscall_table = uw7_syscall_table_0 @ uw7_syscall_table_100 @ uw7_syscall_table_200"

text \<open>The handler of the lcall gate; the number bounds the depth of nested indirect system calls.\<close>

fun uw7_lcall7 :: "'k gate \<Rightarrow> nat \<Rightarrow> pt_regs \<Rightarrow> 'k \<Rightarrow> (pt_regs \<times> 'k) option" where
  "uw7_lcall7 g 0 regs k = None"
| "uw7_lcall7 g (Suc n) regs k =
     table_dispatch g
       (\<lambda>f. if f = ''abi_syscall'' then lcall7_syscall g (uw7_lcall7 g n) else fast_only g f)
       uw7_syscall_table (eax regs AND 0xff) 1 regs k"

definition uw7_exec_domain :: domain_def where
  "uw7_exec_domain = \<lparr>dom_name = ''UnixWare 7'', dom_pers_low = 14, dom_pers_high = 14,
     signal_map = uw7_to_linux_signals, signal_invmap = linux_to_uw7_signals, dom_err_map = uw7_err_map,
     socktype_map = uw7_socktype_map, sockopt_map = uw7_sockopt_map, af_map = uw7_af_map\<rparr>"

end
