(* ===== verification/Per_Solaris.thy ===== *)
theory Per_Solaris
  imports Per_Base
begin

text \<open>
  The system call table and the translation tables of the Solaris personality,
  \<^verbatim>\<open>src/per-solaris/sysent.c\<close>. A table entry gives the function or the Linux system call number
  (of the i386 numbering), the calling convention or number of arguments, the name and the argument
  letters of the trace. The constants of the Linux headers (signals, socket options) are written as
  their i386 values.
\<close>

section \<open>Errors\<close>

definition solaris_err_table :: "u8 list" where
  "solaris_err_table =
   [0, 1, 2, 3, 4, 5, 6, 7, 8, 9, 10, 11, 12, 13, 14, 15, 16, 17, 18, 19, 20, 21, 22, 23, 24, 25, 26,
    27, 28, 29, 30, 31, 32, 33, 34, 45, 78, 46, 89, 93, 90, 90, 35, 36, 37, 38, 39, 40, 41, 42, 43, 44,
    50, 51, 52, 53, 54, 55, 56, 57, 60, 61, 62, 63, 64, 65, 66, 67, 68, 69, 70, 71, 74, 76, 77, 79, 80,
    81, 82, 83, 84, 85, 86, 87, 88, 91, 92, 94, 95, 96, 97, 98, 99, 120, 121, 122, 123, 124, 125, 126,
    127, 128, 129, 130, 131, 132, 133, 134, 143, 144, 145, 146, 147, 148, 149, 150, 22, 135, 137, 138,
    139, 140, 28]"

definition solaris_lnx_err_table :: "u8 list" where
  "solaris_lnx_err_table =
   [4, 4, 4]"

definition solaris_err_map :: "map_segment list" where
  "solaris_err_map =
   [seg 0 122 (Seg_Vec solaris_err_table), seg 512 514 (Seg_Vec solaris_lnx_err_table), seg (- 1) 0 (Seg_Int 0)]"

section \<open>Signals\<close>

definition linux_to_solaris_signals :: "u32 list" where
  "linux_to_solaris_signals =
   [0, 1, 2, 3, 4, 5, 6, - 1, 8, 9, 16, 11, 17, 13, 14, 15, 11, 18, 25, 23, 24, 26, 27, 21, 30, 31, 28,
    29, 20, 22, 19, - 1, - 1]"

definition solaris_to_linux_signals :: "u32 list" where
  "solaris_to_linux_signals =
   [0, 1, 2, 3, 4, 5, 6, 31, 8, 9, 31, 11, 31, 13, 14, 15, 10, 12, 17, 30, 28, 23, 29, 19, 20, 18, 21,
    22, 26, 27, 24, 25, - 1]"

section \<open>Sockets\<close>

definition solaris_socktype :: "u8 list" where
  "solaris_socktype =
   [1, 2, 0, 3, 4, 5]"

definition solaris_socktype_map :: "map_segment list" where
  "solaris_socktype_map =
   [seg 1 6 (Seg_Vec solaris_socktype), seg (- 1) 0 (Seg_Int 0)]"

definition solaris_sockopt_map :: "map_segment list" where
  "solaris_sockopt_map =
   [seg 1 1 (Seg_Int 0x1), seg 2 2 (Seg_Int 0x10000), seg 4 4 (Seg_Int 0x2), seg 8 8 (Seg_Int 0x9),
    seg 16 16 (Seg_Int 0x5), seg 32 32 (Seg_Int 0x6), seg 64 64 (Seg_Int 0xff02),
    seg 128 128 (Seg_Int 0xd), seg 256 256 (Seg_Int 0xa), seg 512 512 (Seg_Int 0xff03),
    seg 1024 1024 (Seg_Int 0xff04), seg 4097 4097 (Seg_Int 0x7), seg 4098 4098 (Seg_Int 0x8),
    seg 4099 4099 (Seg_Int 0x13), seg 4100 4100 (Seg_Int 0x12), seg 4101 4101 (Seg_Int 0x15),
    seg 4102 4102 (Seg_Int 0x14), seg 4103 4103 (Seg_Int 0x4), seg 4104 4104 (Seg_Int 0x3),
    seg 4105 4105 (Seg_Int 0xff09), seg (- 1) 0 (Seg_Int 0)]"

definition solaris_af_map :: "map_segment list" where
  "solaris_af_map =
   [seg 0 2 (Seg_Int 0), seg (- 1) 0 (Seg_Int 0)]"

section \<open>System calls\<close>

definition solaris_syscall_table_0 :: "sysent list" where
  "solaris_syscall_table_0 =
   [se (Func ''abi_syscall'') Fast ''syscall'' '''', se (Kernel 1) 1 ''exit'' ''d'',
    se (Func ''abi_fork'') Spl ''fork'' '''', se (Func ''abi_read'') 3 ''read'' ''dpd'',
    se (Kernel 4) 3 ''write'' ''dpd'', se (Func ''svr4_open'') 3 ''open'' ''soo'',
    se (Kernel 6) 1 ''close'' ''d'', se (Func ''abi_wait'') Spl ''wait'' ''xxx'',
    se (Kernel 8) 2 ''creat'' ''so'', se (Kernel 9) 2 ''link'' ''ss'',
    se (Kernel 10) 1 ''unlink'' ''s'', se (Func ''abi_exec'') Spl ''exec'' ''sxx'',
    se (Kernel 12) 1 ''chdir'' ''s'', se (Func ''abi_time'') 0 ''time'' '''',
    se (Func ''svr4_mknod'') 3 ''mknod'' ''soo'', se (Kernel 15) 2 ''chmod'' ''so'',
    se (Kernel 182) 3 ''chown'' ''sdd'', se (Func ''abi_brk'') 1 ''brk/break'' ''x'',
    se (Func ''svr4_stat'') 2 ''stat'' ''sp'', se (Kernel 19) 3 ''seek/lseek'' ''ddd'',
    se (Func ''abi_getpid'') Spl ''getpid'' '''', se Null Ukn ''mount'' '''',
    se (Kernel 22) 1 ''umount'' ''s'', se (Kernel 23) 1 ''setuid'' ''d'',
    se (Func ''abi_getuid'') Spl ''getuid'' '''', se (Func ''abi_stime'') 1 ''stime'' ''d'',
    se Null Ukn ''ptrace'' '''', se (Kernel 27) 1 ''alarm'' ''d'',
    se (Func ''svr4_fstat'') 2 ''fstat'' ''dp'', se (Kernel 29) 0 ''pause'' '''',
    se (Func ''abi_utime'') 2 ''utime'' ''sp'', se Null Ukn ''stty'' '''', se Null Ukn ''gtty'' '''',
    se (Kernel 33) 2 ''access'' ''so'', se (Kernel 34) 1 ''nice'' ''d'',
    se (Func ''svr4_statfs'') 4 ''statfs'' ''spdd'', se (Kernel 36) 0 ''sync'' '''',
    se (Func ''abi_kill'') 2 ''kill'' ''dd'', se (Func ''svr4_fstatfs'') 4 ''fstatfs'' ''dpdd'',
    se (Func ''abi_procids'') Spl ''procids'' ''d'', se Null Ukn ''cxenix'' '''',
    se (Kernel 41) 1 ''dup'' ''d'', se (Func ''abi_pipe'') Spl ''pipe'' '''',
    se (Kernel 43) 1 ''times'' ''p'', se Null 0 ''prof'' '''', se Null Ukn ''lock/plock'' '''',
    se (Kernel 46) 1 ''setgid'' ''d'', se (Func ''abi_getgid'') Spl ''getgid'' '''',
    se (Func ''abi_sigfunc'') Fast ''sigfunc'' ''xxx'',
    se (Func ''svr4_msgsys'') Spl ''msgsys'' ''dxddd'',
    se (Func ''svr4_sysi86'') 3 ''sysi86/sys3b'' ''d'', se (Kernel 51) 1 ''acct/sysacct'' ''x'',
    se (Func ''svr4_shmsys'') Fast ''shmsys'' ''ddxo'',
    se (Func ''svr4_semsys'') Spl ''semsys'' ''dddx'', se (Func ''svr4_ioctl'') Spl ''ioctl'' ''dxx'',
    se Null 3 ''uadmin'' ''xxx'', se Null Ukn ''?'' '''', se (Func ''v7_utsname'') 1 ''utsys'' ''x'',
    se (Kernel 118) 1 ''fsync'' ''d'', se (Func ''abi_exec'') Spl ''execv'' ''spp'',
    se (Kernel 60) 1 ''umask'' ''o'', se (Kernel 61) 1 ''chroot'' ''s'',
    se (Func ''svr4_fcntl'') 3 ''fcntl'' ''dxx'', se (Func ''svr4_ulimit'') 2 ''ulimit'' ''xx'',
    se Null Ukn ''?'' '''', se Null Ukn ''?'' '''', se Null Ukn ''?'' '''', se Null Ukn ''?'' '''',
    se Null Ukn ''?'' '''', se Null Ukn ''?'' '''', se Null Ukn ''advfs'' '''',
    se Null Ukn ''unadvfs'' '''', se Null Ukn ''rmount'' '''', se Null Ukn ''rumount'' '''',
    se Null Ukn ''rfstart'' '''', se Null Ukn ''?'' '''', se (Func ''abi_debug'') Spl ''rdebug'' '''',
    se Null Ukn ''rfstop'' '''', se Null Ukn ''rfsys'' '''', se (Kernel 40) 1 ''rmdir'' ''s'',
    se (Func ''abi_mkdir'') 2 ''mkdir'' ''so'', se (Func ''svr4_getdents'') 3 ''getdents'' ''dxd'',
    se Null Ukn ''libattach'' '''', se Null Ukn ''libdetach'' '''',
    se (Func ''svr4_sysfs'') 3 ''sysfs'' ''dxx'', se (Func ''svr4_getmsg'') Spl ''getmsg'' ''dxxx'',
    se (Func ''svr4_putmsg'') Spl ''putmsg'' ''dxxd'', se (Kernel 168) 3 ''poll'' ''xdd'',
    se (Func ''svr4_lstat'') 2 ''lstat'' ''sp'', se (Kernel 83) 2 ''symlink'' ''ss'',
    se (Kernel 85) 3 ''readlink'' ''spd'', se (Kernel 206) 2 ''setgroups'' ''dp'',
    se (Kernel 205) 2 ''getgroups'' ''dp'', se (Kernel 94) 2 ''fchmod'' ''do'',
    se (Kernel 95) 3 ''fchown'' ''ddd'', se (Func ''abi_sigprocmask'') 3 ''sigprocmask'' ''dxx'',
    se (Func ''abi_sigsuspend'') Spl ''sigsuspend'' ''x'', se Null 2 ''sigaltstack'' ''xx'',
    se (Func ''abi_sigaction'') 3 ''sigaction'' ''dxx'',
    se (Func ''svr4_sigpending'') 2 ''sigpending'' ''dp'']"

definition solaris_syscall_table_100 :: "sysent list" where
  "solaris_syscall_table_100 =
   [se (Func ''svr4_context'') Spl ''context'' '''', se Null Ukn ''evsys'' '''',
    se Null Ukn ''evtrapret'' '''', se (Func ''svr4_statvfs'') 2 ''statvfs'' ''sp'',
    se (Func ''svr4_fstatvfs'') 2 ''fstatvfs'' ''dp'', se Null Ukn ''sysisc'' '''',
    se Null Ukn ''nfssys'' '''', se Null 4 ''waitid'' ''ddxd'', se Null 3 ''sigsendsys'' ''ddd'',
    se (Func ''svr4_hrtsys'') Spl ''hrtsys'' ''xxx'', se Null 3 ''acancel'' ''dxd'',
    se Null Ukn ''async'' '''', se Null Ukn ''priocntlsys'' '''',
    se (Func ''svr4_pathconf'') 2 ''pathconf'' ''sd'', se Null 3 ''mincore'' ''xdx'',
    se (Func ''svr4_mmap'') 6 ''mmap'' ''xxxxdx'', se (Kernel 125) 3 ''mprotect'' ''xdx'',
    se (Kernel 91) 2 ''munmap'' ''xd'', se (Func ''svr4_fpathconf'') 2 ''fpathconf'' ''dd'',
    se (Func ''abi_fork'') Spl ''vfork'' '''', se (Kernel 133) 1 ''fchdir'' ''d'',
    se (Kernel 145) 3 ''readv'' ''dxd'', se (Kernel 146) 3 ''writev'' ''dxd'',
    se (Func ''svr4_xstat'') 3 ''xstat'' ''dsx'', se (Func ''svr4_lxstat'') 3 ''lxstat'' ''dsx'',
    se (Func ''svr4_fxstat'') 3 ''fxstat'' ''ddx'', se (Func ''svr4_xmknod'') 4 ''xmknod'' ''dsox'',
    se Null Spl ''syslocal'' ''d'', se (Func ''svr4_getrlimit'') 2 ''setrlimit'' ''dx'',
    se (Func ''svr4_setrlimit'') 2 ''getrlimit'' ''dx'', se Null 3 ''lchown'' ''sdd'',
    se Null Ukn ''memcntl'' '''', se (Func ''svr4_getpmsg'') 5 ''getpmsg'' ''dxxxx'',
    se (Func ''svr4_putpmsg'') 5 ''putpmsg'' ''dxxdd'', se (Kernel 38) 2 ''rename'' ''ss'',
    se (Func ''abi_utsname'') 1 ''uname'' ''x'', se (Func ''svr4_setegid'') 1 ''setegid'' ''d'',
    se (Func ''svr4_sysconfig'') 1 ''sysconfig'' ''d'', se Null Ukn ''adjtime'' '''',
    se (Func ''svr4_sysinfo'') 3 ''systeminfo'' ''dsd'',
    se (Func ''socksys_syscall'') 1 ''socksys_syscall'' ''x'',
    se (Func ''svr4_seteuid'') 1 ''seteuid'' ''d'', se Null Ukn ''vtrace'' '''',
    se Null Ukn ''fork1'' '''', se Null Ukn ''sigtimedwait'' '''', se Null Ukn ''lwp_info'' '''',
    se Null Ukn ''yield'' '''', se Null Ukn ''lwp_sema_wait'' '''', se Null Ukn ''lwp_sema_post'' '''',
    se Null Ukn ''lwp_sema_trywait'' '''', se Null Ukn ''?'' '''', se Null Ukn ''?'' '''',
    se Null Ukn ''modctl'' '''', se Null Ukn ''fchroot'' '''', se Null Ukn ''utimes'' '''',
    se Null Ukn ''vhangup'' '''', se (Func ''abi_gettime'') 2 ''gettimeofday'' ''xx'',
    se (Kernel 105) 2 ''getitimer'' ''dx'', se (Kernel 104) 3 ''setitimer'' ''dxx'',
    se Null Ukn ''lwp_create'' '''', se Null Ukn ''lwp_exit'' '''', se Null Ukn ''lwp_suspend'' '''',
    se Null Ukn ''lwp_continue'' '''', se Null Ukn ''lwp_kill'' '''', se Null Ukn ''lwp_self'' '''',
    se Null Ukn ''lwp_setprivate'' '''', se Null Ukn ''lwp_getprivate'' '''',
    se Null Ukn ''lwp_wait'' '''', se Null Ukn ''lwp_mutex_unlock'' '''',
    se Null Ukn ''lwp_mutex_lock'' '''', se Null Ukn ''lwp_cond_wait'' '''',
    se Null Ukn ''lwp_cond_signal'' '''', se Null Ukn ''lwp_cond_broadcast'' '''',
    se (Kernel 180) (- 4) ''pread'' ''dpdd'', se (Kernel 181) (- 4) ''pwrite'' ''dpdd'',
    se (Func ''sol_llseek'') Spl ''llseek'' ''dxxd'', se Null Ukn ''inst_sync'' '''',
    se Null Ukn ''?'' '''', se Null Ukn ''kaio'' '''', se Null Ukn ''?'' '''', se Null Ukn ''?'' '''',
    se Null Ukn ''?'' '''', se Null Ukn ''?'' '''', se Null Ukn ''?'' '''',
    se Null Ukn ''tsolsys'' '''', se (Func ''sol_acl'') 4 ''acl'' ''sddp'',
    se Null Ukn ''auditsys'' '''', se Null Ukn ''processor_bind'' '''',
    se Null Ukn ''processor_info'' '''', se Null Ukn ''p_online'' '''', se Null Ukn ''sigqueue'' '''',
    se Null Ukn ''clock_gettime'' '''', se Null Ukn ''clock_settime'' '''',
    se Null Ukn ''clock_getres'' '''', se Null Ukn ''timer_create'' '''',
    se Null Ukn ''timer_delete'' '''', se Null Ukn ''timer_settime'' '''',
    se Null Ukn ''timer_gettime'' '''', se Null Ukn ''timer_getoverrun'' '''',
    se (Kernel 162) 2 ''nanosleep'' ''pp'']"

definition solaris_syscall_table_200 :: "sysent list" where
  "solaris_syscall_table_200 =
   [se Null Ukn ''modstat'' '''', se Null Ukn ''facl'' '''', se (Kernel 70) 2 ''setreuid'' ''dd'',
    se (Kernel 71) 2 ''setregid'' ''dd'', se Null Ukn ''install_utrap'' '''',
    se Null Ukn ''signotify'' '''', se Null Ukn ''schedctl'' '''', se Null Ukn ''pset'' '''',
    se Null Ukn ''?'' '''', se Null Ukn ''resolvepath'' '''', se Null Ukn ''signotifywait'' '''',
    se Null Ukn ''lwp_sigredirect'' '''', se Null Ukn ''lwp_alarm'' '''',
    se (Func ''sol_getdents64'') 3 ''getdents64'' ''dxd'',
    se (Func ''sol_mmap64'') 7 ''mmap64'' ''pxdddxx'', se (Func ''sol_stat64'') 2 ''stat64'' ''sp'',
    se (Func ''sol_lstat64'') 2 ''lstat64'' ''sp'', se (Func ''sol_fstat64'') 2 ''fstat64'' ''dp'',
    se Null Ukn ''statvfs64'' '''', se Null Ukn ''fstatvfs64'' '''', se Null Ukn ''setrlimit64'' '''',
    se Null Ukn ''getrlimit64'' '''', se Null Ukn ''pread64'' '''', se Null Ukn ''pwrite64'' '''',
    se Null Ukn ''creat64'' '''', se (Func ''sol_open64'') 3 ''open64'' ''soo'',
    se Null Ukn ''rpcsys'' '''', se Null Ukn ''?'' '''', se Null Ukn ''?'' '''',
    se Null Ukn ''?'' '''', se (Func ''solaris_socket'') 3 ''so_socket'' ''ddd'',
    se (Func ''solaris_socketpair'') 1 ''so_socketpair'' ''dddx'',
    se (Func ''solaris_bind'') 3 ''bind'' ''dxd'', se (Func ''solaris_listen'') 2 ''listen'' ''dd'',
    se (Func ''solaris_accept'') 3 ''accept'' ''dxx'',
    se (Func ''solaris_connect'') 3 ''connect'' ''dxd'',
    se (Func ''solaris_shutdown'') 2 ''shutdown'' ''dd'',
    se (Func ''solaris_recv'') 4 ''recv'' ''dxdd'',
    se (Func ''solaris_recvfrom'') 6 ''recvfrom'' ''dxddxd'',
    se (Func ''solaris_recvmsg'') 3 ''recvmsg'' ''dxd'',
    se (Func ''solaris_send'') 4 ''send'' ''dxdd'',
    se (Func ''solaris_sendmsg'') 3 ''sendmsg'' ''dxd'',
    se (Func ''solaris_sendto'') 6 ''sendto'' ''dxddxd'',
    se (Func ''solaris_getpeername'') 3 ''getpeername'' ''dxx'',
    se (Func ''solaris_getsockname'') 3 ''getsockname'' ''dxx'',
    se (Func ''solaris_getsockopt'') 5 ''getsockopt'' ''dddxx'',
    se (Func ''solaris_setsockopt'') 5 ''setsockopt'' ''dddxd'', se Null Ukn ''sockconfig'' '''',
    se Null Ukn ''ntp_gettime'' '''', se Null Ukn ''ntp_adjtime'' '''', se Null Ukn ''?'' '''',
    se Null Ukn ''?'' '''', se Null Ukn ''?'' '''', se Null Ukn ''?'' '''', se Null Ukn ''?'' '''',
    se Null Ukn ''?'' '''']"

definition solaris_syscall_table :: "sysent list" where
  "solaris_syscall_table = solaris_syscall_table_0 @ solaris_syscall_table_100 @ solaris_syscall_table_200"

text \<open>The handler of the lcall gate; the number bounds the depth of nested indirect system calls.\<close>

fun solaris_lcall7 :: "'k gate \<Rightarrow> nat \<Rightarrow> pt_regs \<Rightarrow> 'k \<Rightarrow> (pt_regs \<times> 'k) option" where
  "solaris_lcall7 g 0 regs k = None"
| "solaris_lcall7 g (Suc n) regs k =
     table_dispatch g
       (\<lambda>f. if f = ''abi_syscall'' then lcall7_syscall g (solaris_lcall7 g n) else fast_only g f)
       solaris_syscall_table (eax regs AND 0xff) 1 regs k"

definition solaris_exec_domain :: domain_def where
  "solaris_exec_domain = \<lparr>dom_name = ''Solaris'', dom_pers_low = 13, dom_pers_high = 13,
     signal_map = solaris_to_linux_signals, signal_invmap = linux_to_solaris_signals, dom_err_map = solaris_err_map,
     socktype_map = solaris_socktype_map, sockopt_map = solaris_sockopt_map, af_map = solaris_af_map\<rparr>"

end
