(* ===== verification/Per_Wyse.thy ===== *)
theory Per_Wyse
  imports Per_Base
begin

text \<open>
  The system call table and the translation tables of the Wyse personality,
  \<^verbatim>\<open>src/per-wyse/sysent.c\<close>. A table entry gives the function or the Linux system call number
  (of the i386 numbering), the calling convention or number of arguments, the name and the argument
  letters of the trace. The constants of the Linux headers (signals, socket options) are written as
  their i386 values.
\<close>

section \<open>Errors\<close>

definition wyse_err_table :: "u8 list" where
  "wyse_err_table =
   [0, 1, 2, 3, 4, 5, 6, 7, 8, 9, 10, 11, 12, 13, 14, 15, 16, 17, 18, 19, 20, 21, 22, 23, 24, 25, 26,
    27, 28, 29, 30, 31, 32, 33, 34, 45, 78, 46, 228, 46, 22, 231, 227, 200, 37, 38, 39, 40, 41, 42, 43,
    44, 50, 51, 52, 53, 54, 55, 56, 57, 60, 61, 62, 63, 64, 65, 66, 67, 68, 69, 70, 71, 74, 76, 77, 22,
    80, 81, 82, 83, 84, 85, 86, 87, 22, 4, 22, 233, 203, 204, 205, 206, 207, 208, 209, 210, 211, 212,
    213, 214, 215, 216, 217, 218, 219, 220, 221, 222, 223, 224, 225, 226, 229, 230, 202, 201, 237, 135,
    137, 138, 139, 140, 234]"

definition wyse_lnx_err_table :: "u8 list" where
  "wyse_lnx_err_table =
   [4, 4, 4]"

definition wyse_err_map :: "map_segment list" where
  "wyse_err_map =
   [seg 0 122 (Seg_Vec wyse_err_table), seg 512 514 (Seg_Vec wyse_lnx_err_table), seg (- 1) 0 (Seg_Int 0)]"

section \<open>Signals\<close>

definition linux_to_wyse_signals :: "u32 list" where
  "linux_to_wyse_signals =
   [0, 1, 2, 3, 4, 5, 6, - 1, 8, 9, 16, 11, 17, 13, 14, 15, 11, 18, 25, 23, 24, 26, 27, 21, 30, 31, 28,
    29, 20, 22, 19, - 1, - 1]"

definition wyse_to_linux_signals :: "u32 list" where
  "wyse_to_linux_signals =
   [0, 1, 2, 3, 4, 5, 6, 31, 8, 9, 31, 11, 31, 13, 14, 15, 10, 12, 17, 30, 28, 23, 29, 19, 20, 18, 21,
    22, 26, 27, 24, 25, - 1]"

section \<open>Sockets\<close>

definition wyse_socktype :: "u8 list" where
  "wyse_socktype =
   [1, 2, 0, 3, 4, 5]"

definition wyse_socktype_map :: "map_segment list" where
  "wyse_socktype_map =
   [seg 1 6 (Seg_Vec wyse_socktype), seg (- 1) 0 (Seg_Int 0)]"

definition wyse_sockopt_map :: "map_segment list" where
  "wyse_sockopt_map =
   [seg 1 1 (Seg_Int 0x1), seg 2 2 (Seg_Int 0x10000), seg 4 4 (Seg_Int 0x2), seg 8 8 (Seg_Int 0x9),
    seg 16 16 (Seg_Int 0x5), seg 32 32 (Seg_Int 0x6), seg 64 64 (Seg_Int 0xff02),
    seg 128 128 (Seg_Int 0xd), seg 256 256 (Seg_Int 0xa), seg 512 512 (Seg_Int 0xff03),
    seg 1024 1024 (Seg_Int 0xff04), seg 4097 4097 (Seg_Int 0x7), seg 4098 4098 (Seg_Int 0x8),
    seg 4099 4099 (Seg_Int 0x13), seg 4100 4100 (Seg_Int 0x12), seg 4101 4101 (Seg_Int 0x15),
    seg 4102 4102 (Seg_Int 0x14), seg 4103 4103 (Seg_Int 0x4), seg 4104 4104 (Seg_Int 0x3),
    seg 4105 4105 (Seg_Int 0xff09), seg (- 1) 0 (Seg_Int 0)]"

definition wyse_af_map :: "map_segment list" where
  "wyse_af_map =
   [seg 0 2 (Seg_Int 0), seg (- 1) 0 (Seg_Int 0)]"

section \<open>System calls\<close>

definition wyse_nfscall_table :: "sysent list" where
  "wyse_nfscall_table =
   [se Null Ukn ''nfs_svc'' '''', se Null Ukn ''async_daemon'' '''', se Null Ukn ''nfs_getfh'' '''',
    se Null Ukn ''nfsmount'' '''']"

definition wyse_tcpcall_table :: "sysent list" where
  "wyse_tcpcall_table =
   [se (Kernel 142) 5 ''select'' ''dxxxx'', se (Func ''wyse_socket'') 3 ''socket'' ''ddd'',
    se (Func ''wyse_connect'') Spl ''connect'' ''dxd'',
    se (Func ''wyse_accept'') Spl ''accept'' ''dxx'', se (Func ''wyse_send'') 4 ''send'' ''dxdd'',
    se (Func ''wyse_recv'') 4 ''recv'' ''dxdd'', se (Func ''wyse_bind'') Spl ''bind'' ''dxd'',
    se (Func ''wyse_setsockopt'') 5 ''setsockopt'' ''dddxx'',
    se (Func ''wyse_listen'') Spl ''listen'' ''dd'', se Null 3 ''recvmsg'' ''dxd'',
    se Null 3 ''sendmsg'' ''dxd'', se (Func ''wyse_getsockopt'') 5 ''getsockopt'' ''dddxx'',
    se (Func ''wyse_recvfrom'') 6 ''recvfrom'' ''dxddxd'',
    se (Func ''wyse_sendto'') 6 ''sendto'' ''dxddxd'',
    se (Func ''wyse_shutdown'') Spl ''shutdown'' ''dd'',
    se (Func ''wyse_socketpair'') Spl ''socketpair'' ''dddx'', se Null Ukn ''trace'' '''',
    se (Func ''wyse_getpeername'') Spl ''getpeername'' ''dxx'',
    se (Func ''wyse_getsockname'') Spl ''getsockname'' ''dxx'',
    se (Func ''wyse_wait3'') 1 ''wait3'' ''x'']"

definition wyse_syscall_table_0 :: "sysent list" where
  "wyse_syscall_table_0 =
   [se (Func ''abi_syscall'') Fast ''syscall'' '''', se (Kernel 1) 1 ''exit'' ''d'',
    se (Func ''abi_fork'') Spl ''fork'' '''', se (Func ''abi_read'') 3 ''read'' ''dpd'',
    se (Kernel 4) 3 ''write'' ''dpd'', se (Func ''svr4_open'') 3 ''open'' ''soo'',
    se (Kernel 6) 1 ''close'' ''d'', se (Func ''abi_wait'') Spl ''wait'' ''xxx'',
    se (Kernel 8) 2 ''creat'' ''so'', se (Kernel 9) 2 ''link'' ''ss'',
    se (Kernel 10) 1 ''unlink'' ''s'', se (Func ''abi_exec'') Spl ''exec'' ''sxx'',
    se (Kernel 12) 1 ''chdir'' ''s'', se (Func ''abi_time'') 0 ''time'' '''',
    se (Func ''svr4_mknod'') 3 ''mknod'' ''soo'', se (Kernel 15) 2 ''chmod'' ''so'',
    se (Kernel 182) 3 ''chown'' ''sdd'', se (Func ''abi_brk'') 1 ''brk/break'' ''x'',
    se (Func ''svr4_stat'') 2 ''stat'' ''sp'', se (Kernel 19) 3 ''seek/lseek'' ''ddd'',
    se (Func ''abi_getpid'') Spl ''getpid'' '''', se Null Ukn ''mount'' '''',
    se (Kernel 22) 1 ''umount'' ''s'', se (Kernel 23) 1 ''setuid'' ''d'',
    se (Func ''abi_getuid'') Spl ''getuid'' '''', se (Func ''abi_stime'') 1 ''stime'' ''d'',
    se (Func ''wyse_ptrace'') 4 ''ptrace'' ''xdxx'', se (Kernel 27) 1 ''alarm'' ''d'',
    se (Func ''svr4_fstat'') 2 ''fstat'' ''dp'', se (Kernel 29) 0 ''pause'' '''',
    se (Func ''abi_utime'') 2 ''utime'' ''sp'', se Null Ukn ''stty'' '''', se Null Ukn ''gtty'' '''',
    se (Kernel 33) 2 ''access'' ''so'', se (Kernel 34) 1 ''nice'' ''d'',
    se (Func ''svr4_statfs'') 4 ''statfs'' ''spdd'', se (Kernel 36) 0 ''sync'' '''',
    se (Func ''abi_kill'') 2 ''kill'' ''dd'', se (Func ''svr4_fstatfs'') 4 ''fstatfs'' ''dpdd'',
    se (Func ''abi_procids'') Spl ''procids'' ''d'', se Null Ukn ''cxenix'' '''',
    se (Kernel 41) 1 ''dup'' ''d'', se (Func ''abi_pipe'') Spl ''pipe'' '''',
    se (Kernel 43) 1 ''times'' ''p'', se Null 4 ''prof'' ''xxxx'', se Null Ukn ''lock/plock'' '''',
    se (Kernel 46) 1 ''setgid'' ''d'', se (Func ''abi_getgid'') Spl ''getgid'' '''',
    se (Func ''abi_sigfunc'') Fast ''sigfunc'' ''xxx'',
    se (Func ''svr4_msgsys'') Spl ''msgsys'' ''dxddd'',
    se (Func ''svr4_sysi86'') 3 ''sysi86/sys3b'' ''d'', se (Kernel 51) 1 ''acct/sysacct'' ''x'',
    se (Func ''svr4_shmsys'') Fast ''shmsys'' ''ddxo'',
    se (Func ''svr4_semsys'') Spl ''semsys'' ''dddx'', se (Func ''svr4_ioctl'') Spl ''ioctl'' ''dxx'',
    se Null 3 ''uadmin'' ''xxx'', se Null Ukn ''?'' '''', se (Func ''v7_utsname'') 1 ''utsys'' ''x'',
    se (Kernel 118) 1 ''fsync'' ''d'', se (Func ''abi_exec'') Spl ''execv'' ''spp'',
    se (Kernel 60) 1 ''umask'' ''o'', se (Kernel 61) 1 ''chroot'' ''s'',
    se (Func ''svr4_fcntl'') 3 ''fcntl'' ''dxx'', se (Func ''svr4_ulimit'') 2 ''ulimit'' ''xx'',
    se Null Ukn ''?'' '''', se Null Ukn ''?'' '''', se Null Ukn ''?'' '''', se Null Ukn ''?'' '''',
    se Null Ukn ''?'' '''', se Null Ukn ''?'' '''', se Null Ukn ''advfs'' '''',
    se Null Ukn ''unadvfs'' '''', se Null Ukn ''rmount'' '''', se Null Ukn ''rumount'' '''',
    se Null Ukn ''rfstart'' '''', se Null Ukn ''?'' '''', se (Func ''abi_debug'') Spl ''rdebug'' '''',
    se Null Ukn ''rfstop'' '''', se Null Ukn ''rfsys'' '''', se (Kernel 40) 1 ''rmdir'' ''s'',
    se (Func ''abi_mkdir'') 2 ''mkdir'' ''so'', se (Func ''svr4_getdents'') 3 ''getdents'' ''dxd'',
    se Null Ukn ''libattach'' '''', se Null Ukn ''libdetach'' '''',
    se (Func ''svr4_sysfs'') 3 ''sysfs'' ''dxx'', se (Func ''svr4_getmsg'') Spl ''getmsg'' ''dxxx'',
    se (Func ''svr4_putmsg'') Spl ''putmsg'' ''dxxd'', se (Kernel 168) 3 ''poll'' ''xdd'',
    se Null Ukn ''nosys88'' '''', se Null Ukn ''nosys89'' '''', se Null Ukn ''nosys90'' '''',
    se Null Ukn ''nosys91'' '''', se Null Ukn ''nosys92'' '''', se Null Ukn ''nosys93'' '''',
    se Null Ukn ''nosys94'' '''', se Null Ukn ''nosys95'' '''', se Null Ukn ''nosys96'' '''',
    se Null Ukn ''nosys97'' '''', se Null Ukn ''nosys98'' '''', se Null Ukn ''nosys99'' '''']"

definition wyse_syscall_table_100 :: "sysent list" where
  "wyse_syscall_table_100 =
   [se Null Ukn ''nosys100'' '''', se Null Ukn ''nosys101'' '''', se Null Ukn ''nosys102'' '''',
    se Null Ukn ''nosys103'' '''', se Null Ukn ''nosys104'' '''', se Null Ukn ''nosys105'' '''',
    se Null Ukn ''nosys106'' '''', se Null Ukn ''nosys107'' '''', se Null Ukn ''nosys108'' '''',
    se Null Ukn ''nosys109'' '''', se Null Ukn ''nosys110'' '''', se Null Ukn ''nosys111'' '''',
    se Null Ukn ''nosys112'' '''', se Null Ukn ''nosys113'' '''', se Null Ukn ''nosys114'' '''',
    se Null Ukn ''nosys115'' '''', se Null Ukn ''nosys116'' '''', se Null Ukn ''nosys117'' '''',
    se Null Ukn ''nosys118'' '''', se Null Ukn ''nosys119'' '''', se Null Ukn ''nosys120'' '''',
    se Null Ukn ''nosys121'' '''', se Null Ukn ''nosys122'' '''', se Null Ukn ''nosys123'' '''',
    se Null Ukn ''nosys124'' '''', se Null Ukn ''nosys125'' '''', se Null Ukn ''nosys126'' '''',
    se Null Ukn ''nosys127'' '''', se (Func ''svr4_lstat'') 2 ''lstat'' ''sp'',
    se (Kernel 85) 3 ''readlink'' ''spd'', se (Kernel 83) 2 ''symlink'' ''ss'',
    se (Func ''wyse_class_tcp'') Fast '''' '''', se (Func ''wyse_class_nfs'') Fast '''' '''',
    se (Func ''wyse_gethostname'') 2 ''gethostname'' ''xd'', se (Kernel 74) 2 ''sethostname'' ''sd'',
    se (Func ''wyse_getdomainname'') 2 ''getdomainname'' ''xd'',
    se (Kernel 121) 2 ''setdomainname'' ''sd'', se Null Ukn ''?'' '''',
    se (Kernel 70) 2 ''setreuid'' ''dd'', se (Kernel 71) 2 ''setregid'' ''dd'']"

definition wyse_syscall_table :: "sysent list" where
  "wyse_syscall_table = wyse_syscall_table_0 @ wyse_syscall_table_100"

text \<open>
  The two class calls take their number from the bits of \<open>eax\<close> above the low byte; the shift of
  the signed register keeps its sign, and the comparison with the size of the table is unsigned.
\<close>

definition wyse_class_nfs :: "'k gate \<Rightarrow> pt_regs \<Rightarrow> 'k \<Rightarrow> (pt_regs \<times> 'k) option" where
  "wyse_class_nfs g regs k =
     table_dispatch g (fast_only g) wyse_nfscall_table (signed_drop_bit 8 (eax regs)) 1 regs k"

definition wyse_class_tcp :: "'k gate \<Rightarrow> pt_regs \<Rightarrow> 'k \<Rightarrow> (pt_regs \<times> 'k) option" where
  "wyse_class_tcp g regs k =
     table_dispatch g (fast_only g) wyse_tcpcall_table (signed_drop_bit 8 (eax regs)) 1 regs k"

text \<open>The handler of the lcall gate; the number bounds the depth of nested indirect system calls.\<close>

fun wyse_lcall7 :: "'k gate \<Rightarrow> nat \<Rightarrow> pt_regs \<Rightarrow> 'k \<Rightarrow> (pt_regs \<times> 'k) option" where
  "wyse_lcall7 g 0 regs k = None"
| "wyse_lcall7 g (Suc n) regs k =
     table_dispatch g
       (\<lambda>f. if f = ''abi_syscall'' then lcall7_syscall g (wyse_lcall7 g n) else if f = ''wyse_class_tcp'' then wyse_class_tcp g else if f = ''wyse_class_nfs'' then wyse_class_nfs g else fast_only g f)
       wyse_syscall_table (eax regs AND 0xff) 1 regs k"

definition wyse_exec_domain :: domain_def where
  "wyse_exec_domain = \<lparr>dom_name = ''Wyse/386'', dom_pers_low = 4, dom_pers_high = 4,
     signal_map = wyse_to_linux_signals, signal_invmap = linux_to_wyse_signals, dom_err_map = wyse_err_map,
     socktype_map = wyse_socktype_map, sockopt_map = wyse_sockopt_map, af_map = wyse_af_map\<rparr>"

end
