(* ===== verification/Personality.thy ===== *)
theory Personality
  imports Per_Sco Per_Isc Per_Uw7 Per_Solaris Per_Wyse
begin

text \<open>
  The personalities together: which table, handler and translations an execution domain has, and
  what holds of the system calls and translations of all of them.
\<close>

section \<open>The execution domains\<close>

datatype per = SCO | XENIX | ISC | UW7 | SOLARIS | WYSE

fun exec_domain_of :: "per \<Rightarrow> domain_def" where
  "exec_domain_of SCO = sco_exec_domain"
| "exec_domain_of XENIX = xenix_exec_domain"
| "exec_domain_of ISC = isc_exec_domain"
| "exec_domain_of UW7 = uw7_exec_domain"
| "exec_domain_of SOLARIS = solaris_exec_domain"
| "exec_domain_of WYSE = wyse_exec_domain"

fun syscall_table :: "per \<Rightarrow> sysent list" where
  "syscall_table SCO = sco_syscall_table"
| "syscall_table XENIX = sco_syscall_table"
| "syscall_table ISC = isc_syscall_table"
| "syscall_table UW7 = uw7_syscall_table"
| "syscall_table SOLARIS = solaris_syscall_table"
| "syscall_table WYSE = wyse_syscall_table"

text \<open>The \<open>handler\<close> of the domain, with a bound on the depth of indirect calls.\<close>

fun lcall7 :: "per \<Rightarrow> 'k gate \<Rightarrow> nat \<Rightarrow> pt_regs \<Rightarrow> 'k \<Rightarrow> (pt_regs \<times> 'k) option" where
  "lcall7 SCO = sco_lcall7"
| "lcall7 XENIX = sco_lcall7"
| "lcall7 ISC = isc_lcall7"
| "lcall7 UW7 = uw7_lcall7"
| "lcall7 SOLARIS = solaris_lcall7"
| "lcall7 WYSE = wyse_lcall7"

text \<open>The \<open>Fast\<close> functions a handler runs apart from the indirect call.\<close>

fun class_call :: "per \<Rightarrow> 'k gate \<Rightarrow> string \<Rightarrow> pt_regs \<Rightarrow> 'k \<Rightarrow> (pt_regs \<times> 'k) option" where
  "class_call SCO g f = (if f = ''cxenix'' then cxenix g else fast_only g f)"
| "class_call XENIX g f = (if f = ''cxenix'' then cxenix g else fast_only g f)"
| "class_call ISC g f = (if f = ''isc_sysisc'' then isc_sysisc g else fast_only g f)"
| "class_call UW7 g f = fast_only g f"
| "class_call SOLARIS g f = fast_only g f"
| "class_call WYSE g f = (if f = ''wyse_class_tcp'' then wyse_class_tcp g
     else if f = ''wyse_class_nfs'' then wyse_class_nfs g else fast_only g f)"

text \<open>The gate of a program that runs under the personality: its errors are those of the domain.\<close>

definition gate_of :: "per \<Rightarrow> 'k gate \<Rightarrow> 'k gate" where
  "gate_of p g = g\<lparr>err_map := Some (dom_err_map (exec_domain_of p))\<rparr>"

section \<open>Errors\<close>

lemmas err_map_defs = sco_err_map_def isc_err_map_def uw7_err_map_def solaris_err_map_def wyse_err_map_def
lemmas err_table_defs = sco_err_table_def isc_err_table_def uw7_err_table_def solaris_err_table_def wyse_err_table_def
  sco_lnx_err_table_def isc_lnx_err_table_def uw7_lnx_err_table_def solaris_lnx_err_table_def wyse_lnx_err_table_def
lemmas domain_defs = sco_exec_domain_def xenix_exec_domain_def isc_exec_domain_def uw7_exec_domain_def
  solaris_exec_domain_def wyse_exec_domain_def

text \<open>The error map of each domain has the same two vectors: 0 to 122 and 512 to 514.\<close>

fun err_vector :: "per \<Rightarrow> u8 list" where
  "err_vector SCO = sco_err_table"
| "err_vector XENIX = sco_err_table"
| "err_vector ISC = isc_err_table"
| "err_vector UW7 = uw7_err_table"
| "err_vector SOLARIS = solaris_err_table"
| "err_vector WYSE = wyse_err_table"

lemma err_vector_length: "length (err_vector p) = 123"
  by (cases p) (simp_all add: err_table_defs)

lemma dom_err_map_eq:
  "dom_err_map (exec_domain_of p) =
     [seg 0 122 (Seg_Vec (err_vector p)), seg 512 514 (Seg_Vec [4, 4, 4]), seg (- 1) 0 (Seg_Int 0)]"
  by (cases p) (simp_all add: domain_defs err_map_defs sco_lnx_err_table_def isc_lnx_err_table_def
    uw7_lnx_err_table_def solaris_lnx_err_table_def wyse_lnx_err_table_def)

lemma map_value_errors:
  "map_value (Some (dom_err_map (exec_domain_of p))) e 1 = Some
     (if 0 \<le> e \<and> e \<le> 122 then uint (err_vector p ! nat e) else if 512 \<le> e \<and> e \<le> 514 then 4 else 1)"
proof -
  have "[4, 4, 4 :: u8] ! nat (e - 512) = 4" if "512 \<le> e" "e \<le> 514"
  proof -
    from that have "e = 512 \<or> e = 513 \<or> e = 514" by auto
    then show ?thesis by auto
  qed
  moreover have "nat e < length (err_vector p)" if "0 \<le> e" "e \<le> 122"
    using that err_vector_length [of p] by simp
  moreover have "nat (e - 512) < 3" if "512 \<le> e" "e \<le> 514" using that by simp
  ultimately show ?thesis unfolding map_value_def dom_err_map_eq seg_def by (simp add: Let_def numeral_3_eq_3)
qed

lemma errors_of:
  "iABI_errors (gate_of p g) e = Some
     (if 0 \<le> e \<and> e \<le> 122 then ucast (err_vector p ! nat e) else if 512 \<le> e \<and> e \<le> 514 then 4 else 1)"
proof -
  have "word_of_int (uint w) = (ucast w :: u32)" for w :: u8 by (rule ucast_eq [symmetric])
  then show ?thesis unfolding iABI_errors_def gate_of_def by (simp add: map_value_errors)
qed

lemma errors_total: "err_map_ok (gate_of p g)"
  by (simp add: err_map_ok_def errors_of)

section \<open>The handlers keep their contract\<close>

lemmas table_defs = sco_syscall_table_def isc_syscall_table_def uw7_syscall_table_def solaris_syscall_table_def wyse_syscall_table_def

lemma table_heads: "syscall_table p = se (Func ''abi_syscall'') Fast ''syscall'' '''' # tl (syscall_table p)"
  by (cases p) (simp_all add: table_defs sco_syscall_table_0_def isc_syscall_table_0_def uw7_syscall_table_0_def
    solaris_syscall_table_0_def wyse_syscall_table_0_def)

definition no_indirect :: "sysent list \<Rightarrow> bool" where
  "no_indirect t = list_all (\<lambda>e. se_syscall e \<noteq> Func ''abi_syscall'') t"

lemma table_tails: "no_indirect (tl sco_syscall_table)" "no_indirect (tl isc_syscall_table)"
  "no_indirect (tl uw7_syscall_table)" "no_indirect (tl solaris_syscall_table)" "no_indirect (tl wyse_syscall_table)"
  by code_simp+

lemma table_tail: "no_indirect (tl (syscall_table p))"
  by (cases p) (simp_all add: table_tails)

lemma dispatch_total_fast:
  assumes "err_map_ok g"
  shows "lcall7_dispatch g (fast_only g) regs ap off k \<noteq> None"
proof (cases "se_nargs ap = Unimpl \<or> se_syscall ap = Null")
  case True
  then show ?thesis using dispatch_ENOSYS [OF assms True] by simp
next
  case False
  then show ?thesis using lcall7_return_ok [OF assms]
    by (cases "se_syscall ap") (auto simp: lcall7_dispatch_def Let_def fast_only_def split: prod.splits)
qed

lemma table_dispatch_total:
  "err_map_ok g \<Longrightarrow> table_dispatch g (fast_only g) table sysno off regs k \<noteq> None"
  using dispatch_total_fast fail_with_ok unfolding table_dispatch_def by (metis option.distinct(1))

lemma class_call_total: "err_map_ok g \<Longrightarrow> class_call p g f regs k \<noteq> None"
  using table_dispatch_total [of g]
  by (cases p) (simp_all add: fast_only_def cxenix_def isc_sysisc_def wyse_class_tcp_def wyse_class_nfs_def)

interpretation lp: lcall_personality "gate_of p g" "syscall_table p" "class_call p (gate_of p g)" "lcall7 p (gate_of p g)"
proof
  show "lcall7 p (gate_of p g) 0 regs k = None" for regs k by (cases p) simp_all
  show "lcall7 p (gate_of p g) (Suc n) regs k = table_dispatch (gate_of p g)
      (\<lambda>f. if f = ''abi_syscall'' then lcall7_syscall (gate_of p g) (lcall7 p (gate_of p g) n) else class_call p (gate_of p g) f)
      (syscall_table p) (eax regs AND 0xff) 1 regs k" for n regs k
    by (cases p) (simp_all only: lcall7.simps class_call.simps syscall_table.simps sco_lcall7.simps isc_lcall7.simps
      uw7_lcall7.simps solaris_lcall7.simps wyse_lcall7.simps)
  show "syscall_table p \<noteq> []" using table_heads [of p] by (metis list.distinct(1))
  show "se_syscall (syscall_table p ! 0) = Func ''abi_syscall''" by (subst table_heads) (simp add: se_def)
  show "se_nargs (syscall_table p ! 0) = Fast" by (subst table_heads) (simp add: se_def)
  show "se_syscall (syscall_table p ! i) \<noteq> Func ''abi_syscall''" if i: "0 < i" "i < length (syscall_table p)" for i
  proof -
    obtain j where j: "i = Suc j" using i(1) by (cases i) auto
    have "length (syscall_table p) = Suc (length (tl (syscall_table p)))"
      using arg_cong [OF table_heads [of p], of length] by simp
    then have "tl (syscall_table p) ! j = syscall_table p ! i" "j < length (tl (syscall_table p))"
      using i(2) j by (simp_all add: nth_tl)
    then show ?thesis using table_tail [of p] unfolding no_indirect_def list_all_length by metis
  qed
  show "err_map_ok (gate_of p g)" by (rule errors_total)
  show "iABI_errors (gate_of p g) (- 22) = Some 1" by (simp add: errors_of)
  show "class_call p (gate_of p g) f regs k \<noteq> None" for f regs k by (rule class_call_total [OF errors_total])
qed

text \<open>
  C3: In every personality the indirect call \<open>syscall(i, \<dots>)\<close> is the call \<open>i\<close> made with the stack
  pointer one word up: same result, same flags, same effect, and the stack pointer is back where it
  was afterwards.
\<close>

theorem indirect_syscall_direct:
  assumes "eax regs AND 0xff = 0" "peek g (esp regs + 4) k = i" "i AND 0xff \<noteq> 0"
  shows "lcall7 p (gate_of p g) (Suc (Suc n)) regs k =
    map_option (\<lambda>(regs, k). (regs\<lparr>esp := esp regs - 4\<rparr>, k))
      (lcall7 p (gate_of p g) (Suc m) (regs\<lparr>eax := i, esp := esp regs + 4\<rparr>) k)"
  by (rule lp.indirect_is_direct) (use assms in \<open>simp_all add: gate_of_def\<close>)

text \<open>
  C33: In every personality a system call returns, whatever its number: a chain of nested indirect
  calls ends at the first number on the stack whose low byte is not 0, and a bound on the depth that
  reaches this number is enough.
\<close>

theorem lcall7_always_returns:
  assumes "if d = 0 then eax regs AND 0xff \<noteq> 0 else peek g (esp regs + 4 * of_nat d) k AND 0xff \<noteq> 0" "d \<le> n"
  shows "\<exists>regs' k'. lcall7 p (gate_of p g) (Suc n) regs k = Some (regs', k')"
proof -
  have "\<exists>r. lcall7 p (gate_of p g) (Suc n) regs k = Some r"
    by (rule lp.handler_returns [of d]) (use assms in \<open>simp_all add: gate_of_def\<close>)
  then show ?thesis by auto
qed

text \<open>
  A number beyond the table of a personality fails with errno 1, whose meaning is that the
  operation is not permitted: the handlers translate \<open>-EINVAL\<close>, which no error map contains, although
  \<open>EINVAL\<close> itself is 22 in every personality.
\<close>

theorem unknown_number_not_EINVAL:
  assumes "length (syscall_table p) \<le> unat (eax regs AND 0xff)"
  shows "lcall7 p (gate_of p g) (Suc n) regs k = Some (regs\<lparr>eax := 1, eflags := eflags regs OR 1\<rparr>, k)
    \<and> iABI_errors (gate_of p g) 22 = Some 22"
proof -
  have "err_vector p ! 22 = 22" by (cases p) (simp_all add: err_table_defs)
  then show ?thesis using lp.handler_refused [OF assms] by (simp add: errors_of)
qed

section \<open>Signals\<close>

text \<open>The signals of a personality, one bit for each, that the kernel's numbering keeps apart.\<close>

fun kept_signals :: "per \<Rightarrow> u32" where
  "kept_signals SCO = 0x7fffffbf"
| "kept_signals XENIX = 0xff5bf"
| "kept_signals ISC = 0x7feff5bf"
| "kept_signals UW7 = 0x7ffff5bf"
| "kept_signals SOLARIS = 0x7ffff5bf"
| "kept_signals WYSE = 0x7ffff5bf"

definition inverse_entry :: "u32 list \<Rightarrow> u32 list \<Rightarrow> u32 \<Rightarrow> nat \<Rightarrow> bool" where
  "inverse_entry a b kept i =
     (let k = unat (a ! i) in bit kept (i - 1) = (1 \<le> k \<and> k \<le> 32 \<and> b ! k = of_nat i))"

definition signal_numbers :: "nat list" where
  "signal_numbers = [1, 2, 3, 4, 5, 6, 7, 8, 9, 10, 11, 12, 13, 14, 15, 16, 17, 18, 19, 20, 21, 22, 23, 24, 25, 26, 27, 28, 29, 30, 31, 32]"

lemma signal_numbers_set: "i \<in> set signal_numbers \<longleftrightarrow> 1 \<le> i \<and> i \<le> 32"
  unfolding signal_numbers_def by simp presburger

lemma unat_minus_1: "unat (- 1 :: u32) = 4294967295"
  by (simp add: unsigned_minus_1_eq_mask mask_eq_exp_minus_1)

lemma sco_inverse: "list_all (inverse_entry sco_to_linux_signals linux_to_sco_signals 0x7fffffbf) signal_numbers"
  by (simp add: inverse_entry_def signal_numbers_def sco_to_linux_signals_def linux_to_sco_signals_def unat_minus_1)

lemma xenix_inverse: "list_all (inverse_entry xenix_to_linux_signals linux_to_xenix_signals 0xff5bf) signal_numbers"
  by (simp add: inverse_entry_def signal_numbers_def xenix_to_linux_signals_def linux_to_xenix_signals_def unat_minus_1)

lemma isc_inverse: "list_all (inverse_entry isc_to_linux_signals linux_to_isc_signals 0x7feff5bf) signal_numbers"
  by (simp add: inverse_entry_def signal_numbers_def isc_to_linux_signals_def linux_to_isc_signals_def unat_minus_1)

lemma uw7_inverse: "list_all (inverse_entry uw7_to_linux_signals linux_to_uw7_signals 0x7ffff5bf) signal_numbers"
  by (simp add: inverse_entry_def signal_numbers_def uw7_to_linux_signals_def linux_to_uw7_signals_def unat_minus_1)

lemma solaris_inverse: "list_all (inverse_entry solaris_to_linux_signals linux_to_solaris_signals 0x7ffff5bf) signal_numbers"
  by (simp add: inverse_entry_def signal_numbers_def solaris_to_linux_signals_def linux_to_solaris_signals_def unat_minus_1)

lemma wyse_inverse: "list_all (inverse_entry wyse_to_linux_signals linux_to_wyse_signals 0x7ffff5bf) signal_numbers"
  by (simp add: inverse_entry_def signal_numbers_def wyse_to_linux_signals_def linux_to_wyse_signals_def unat_minus_1)

lemmas inverse_entries = sco_inverse xenix_inverse isc_inverse uw7_inverse solaris_inverse wyse_inverse

lemma inverse_entry_of:
  assumes "1 \<le> i" "i \<le> 32"
  shows "inverse_entry (signal_map (exec_domain_of p)) (signal_invmap (exec_domain_of p)) (kept_signals p) i"
proof -
  have "i \<in> set signal_numbers" using assms by (simp add: signal_numbers_set)
  then show ?thesis using inverse_entries by (cases p) (simp_all add: domain_defs list_all_iff)
qed

lemma kept_signals_inverse:
  assumes "\<And>j. bit vec j \<Longrightarrow> bit (kept_signals p) j"
  shows "inverse_on vec (nth (signal_map (exec_domain_of p))) (nth (signal_invmap (exec_domain_of p)))"
  unfolding inverse_on_def
proof (intro ballI impI)
  fix i assume i: "i \<in> {1..32}" "bit vec (i - 1)"
  let ?k = "unat (signal_map (exec_domain_of p) ! i)"
  have "1 \<le> ?k \<and> ?k \<le> 32 \<and> signal_invmap (exec_domain_of p) ! ?k = of_nat i"
    using inverse_entry_of [of i p] assms [OF i(2)] i(1) by (simp add: inverse_entry_def Let_def)
  then show "\<exists>k\<in>{1..32}. signal_map (exec_domain_of p) ! i = of_nat k \<and> signal_invmap (exec_domain_of p) ! k = of_nat i"
    by (intro bexI [of _ ?k]) simp_all
qed

text \<open>
  C9: In every personality a signal mask made of the signals in \<open>kept_signals\<close> (for OpenServer all
  but 7, \<open>SIGEMT\<close>) comes back unchanged after its translation to a kernel signal set and back, and the
  translation writes inside the set only.
\<close>

theorem signal_mask_roundtrip:
  assumes "vec AND NOT (kept_signals p) = 0"
  shows "\<exists>s. map_sigvec_to_kernel vec (nth (signal_map (exec_domain_of p))) = Some s
    \<and> map_sigvec_from_kernel s (nth (signal_invmap (exec_domain_of p))) = vec"
proof (rule map_sigvec_roundtrip, rule kept_signals_inverse)
  fix j assume "bit vec j"
  then show "bit (kept_signals p) j"
    using arg_cong [OF assms, of "\<lambda>x. bit x j"] bit_word_bound [of vec j] by (simp add: bit_simps)
qed

section \<open>Numbers\<close>

text \<open>The four translation tables of a domain.\<close>

definition domain_maps :: "per \<Rightarrow> map_segment list list" where
  "domain_maps p = (let d = exec_domain_of p in [dom_err_map d, socktype_map d, sockopt_map d, af_map d])"

lemma domain_maps_each:
  "list_all map_table_ok (domain_maps SCO)" "list_all map_table_ok (domain_maps XENIX)"
  "list_all map_table_ok (domain_maps ISC)" "list_all map_table_ok (domain_maps UW7)"
  "list_all map_table_ok (domain_maps SOLARIS)" "list_all map_table_ok (domain_maps WYSE)"
  by code_simp+

lemma domain_maps_ok: "list_all map_table_ok (domain_maps p)"
  by (cases p) (simp_all only: domain_maps_each)

text \<open>
  C35: The error, socket type, socket option and address family tables of every personality are well
  formed: \<open>map_value\<close> reads inside them whatever number it is given, and a number they do not contain
  gives the default.
\<close>

theorem translations_total:
  assumes "segs \<in> set (domain_maps p)"
  shows "(\<exists>r. map_value (Some segs) val dflt = Some r)
    \<and> ((\<forall>seg \<in> set segs. \<not> in_segment val seg) \<longrightarrow> map_value (Some segs) val dflt = Some dflt)"
  using domain_maps_ok [of p] assms by (intro map_value_total) (simp add: list_all_iff)

section \<open>The tables\<close>

text \<open>
  An entry is well formed when it names no function, or a system call number, or a function with a
  convention that \<open>lcall7_dispatch\<close> knows; its trace description fits the trace buffer.
\<close>

definition entry_ok :: "sysent \<Rightarrow> bool" where
  "entry_ok e \<longleftrightarrow>
     (case se_syscall e of Null \<Rightarrow> True | Kernel n \<Rightarrow> 0 < n \<and> n < 512
        | Func f \<Rightarrow> se_nargs e \<le> 6 \<or> se_nargs e = Fast \<or> se_nargs e = Spl)
     \<and> length (se_args e) \<le> 12"

fun class_tables :: "per \<Rightarrow> sysent list list" where
  "class_tables SCO = [cxenix_table]"
| "class_tables XENIX = [cxenix_table]"
| "class_tables ISC = [sysisc_table]"
| "class_tables UW7 = []"
| "class_tables SOLARIS = []"
| "class_tables WYSE = [wyse_tcpcall_table, wyse_nfscall_table]"

text \<open>The indices of the entries that are not well formed.\<close>

definition bad_entries :: "sysent list \<Rightarrow> nat list" where
  "bad_entries t = [i \<leftarrow> [0..<length t]. \<not> entry_ok (t ! i)]"

fun bad_from :: "nat \<Rightarrow> sysent list \<Rightarrow> nat list" where
  "bad_from n [] = []"
| "bad_from n (e # es) = (if entry_ok e then bad_from (Suc n) es else n # bad_from (Suc n) es)"

lemma bad_entries_code: "bad_entries t = bad_from 0 t"
proof -
  have "[i \<leftarrow> [n..<n + length t]. \<not> entry_ok (t ! (i - n))] = bad_from n t" for n
  proof (induction t arbitrary: n)
    case (Cons e es)
    have "[n..<n + length (e # es)] = n # [Suc n..<Suc n + length es]" by (simp add: upt_rec)
    moreover have "[i \<leftarrow> [Suc n..<Suc n + length es]. \<not> entry_ok ((e # es) ! (i - n))]
        = [i \<leftarrow> [Suc n..<Suc n + length es]. \<not> entry_ok (es ! (i - Suc n))]"
      by (rule filter_cong) (auto simp: nth_Cons' Suc_diff_Suc)
    ultimately show ?case using Cons.IH [of "Suc n"] by simp
  qed simp
  from this [of 0] show ?thesis by (simp add: bad_entries_def)
qed

lemmas entry_defs = se_def entry_ok_def Fast_def Spl_def Ukn_def

lemma sco_entries: "bad_from 0 sco_syscall_table = []"
  by (simp add: table_defs sco_syscall_table_0_def sco_syscall_table_100_def entry_defs)

lemma isc_entries: "bad_from 0 isc_syscall_table = []"
  by (simp add: table_defs isc_syscall_table_0_def isc_syscall_table_100_def isc_syscall_table_200_def entry_defs)

lemma uw7_entries: "bad_from 0 uw7_syscall_table = [223]"
  by (simp add: table_defs uw7_syscall_table_0_def uw7_syscall_table_100_def uw7_syscall_table_200_def entry_defs)

lemma solaris_entries: "bad_from 0 solaris_syscall_table = [214]"
  by (simp add: table_defs solaris_syscall_table_0_def solaris_syscall_table_100_def solaris_syscall_table_200_def entry_defs)

lemma wyse_entries: "bad_from 0 wyse_syscall_table = []"
  by (simp add: table_defs wyse_syscall_table_0_def wyse_syscall_table_100_def entry_defs)

lemma class_entries: "bad_from 0 cxenix_table = []" "bad_from 0 sysisc_table = []" "bad_from 0 wyse_tcpcall_table = []"
  "bad_from 0 wyse_nfscall_table = []"
  by (simp_all add: cxenix_table_def sysisc_table_def wyse_tcpcall_table_def wyse_nfscall_table_def entry_defs)


lemma rlimit_entries:
  "sco_syscall_table ! 128 = se (Func ''svr4_getrlimit'') 2 ''setrlimit'' ''dx''"
  "isc_syscall_table ! 128 = se (Func ''svr4_getrlimit'') 2 ''setrlimit'' ''dx''"
  "uw7_syscall_table ! 128 = se (Func ''svr4_getrlimit'') 2 ''setrlimit'' ''dx''"
  "solaris_syscall_table ! 128 = se (Func ''svr4_getrlimit'') 2 ''setrlimit'' ''dx''"
  "128 < length sco_syscall_table" "128 < length isc_syscall_table" "128 < length uw7_syscall_table"
  "128 < length solaris_syscall_table"
  by (simp_all add: table_defs sco_syscall_table_0_def sco_syscall_table_100_def isc_syscall_table_0_def
    isc_syscall_table_100_def uw7_syscall_table_0_def uw7_syscall_table_100_def solaris_syscall_table_0_def
    solaris_syscall_table_100_def)

text \<open>
  System call 128, named \<open>setrlimit\<close>, of every personality that has it runs \<open>svr4_getrlimit\<close>:
  it reads the limit it was asked to set.
\<close>

theorem setrlimit_calls_getrlimit:
  assumes "eax regs AND 0xff = 128" "p \<noteq> WYSE"
  shows "se_name (syscall_table p ! 128) = ''setrlimit''
    \<and> lcall7 p (gate_of p g) (Suc n) regs k =
        (case c_call g ''svr4_getrlimit'' (syscall_args g (esp regs + 4) k) k of (r, k') \<Rightarrow> Some (returned (gate_of p g) r regs, k'))"
proof -
  let ?e = "se (Func ''svr4_getrlimit'') 2 ''setrlimit'' ''dx''"
  have e: "syscall_table p ! 128 = ?e" "128 < length (syscall_table p)"
    using assms(2) rlimit_entries by (cases p; simp)+
  have "lcall7 p (gate_of p g) (Suc n) regs k
      = lcall7_dispatch (gate_of p g) (class_call p (gate_of p g)) regs ?e 1 k"
    using lp.handler_direct [where p = p and g = g and n = n and regs = regs and k = k] assms(1) e by simp
  moreover have "syscall_args (gate_of p g) (esp regs + 4) k = syscall_args g (esp regs + 4) k" "c_call (gate_of p g) = c_call g"
    by (simp_all add: syscall_args_def gate_of_def)
  ultimately show ?thesis using e(1)
    by (simp add: lcall7_dispatch_def se_def Unimpl_def lcall7_return_ok [OF errors_total] case_prod_beta Let_def)
qed

section \<open>A program's calls\<close>

lemma badf_c_call: "c_call (gate_of p badf_gate) f args k = (- 9, k)"
  by (simp add: gate_of_def badf_gate_def)

theorem indirect_syscall_direct_witness:
  "lcall7 SCO (gate_of SCO badf_gate) (Suc (Suc 0)) some_regs 0 =
     Some (some_regs\<lparr>eax := 9, eflags := 0x41\<rparr>, 0)"
proof -
  let ?regs = "some_regs\<lparr>eax := 5, esp := esp some_regs + 4\<rparr>"
  have "sco_syscall_table ! 5 = se (Func ''svr4_open'') 3 ''open'' ''soo''" "5 < length sco_syscall_table"
    by (simp_all add: table_defs sco_syscall_table_0_def sco_syscall_table_100_def)
  then have call: "lcall7 SCO (gate_of SCO badf_gate) (Suc 0) ?regs 0
      = Some (returned (gate_of SCO badf_gate) (- 9) ?regs, 0)"
    using badf_c_call by (simp add: table_dispatch_def lcall7_dispatch_def se_def Unimpl_def lcall7_return_ok [OF errors_total])
  have ret: "returned (gate_of SCO badf_gate) (- 9) ?regs = ?regs\<lparr>eax := 9, eflags := 0x41\<rparr>"
    by (simp add: returned_def errors_of IBCS_IS_ERR_def some_regs_def sco_err_table_def)
  have "eax some_regs AND 0xff = 0" "peek badf_gate (esp some_regs + 4) 0 = 5" "(5 :: u32) AND 0xff \<noteq> 0"
    by (simp_all add: some_regs_def badf_gate_def)
  from indirect_syscall_direct [OF this, of SCO 0 0] show ?thesis
    unfolding call ret by (simp add: some_regs_def del: lcall7.simps)
qed

theorem lcall7_always_returns_witness:
  "\<exists>regs' k'. lcall7 ISC (gate_of ISC badf_gate) (Suc 1) some_regs 0 = Some (regs', k')"
proof -
  have "peek badf_gate (esp some_regs + 4 * of_nat 1) 0 AND 0xff \<noteq> 0" by (simp add: some_regs_def badf_gate_def)
  then show ?thesis using lcall7_always_returns [of 1 some_regs badf_gate 0 1 ISC] by (simp only: if_False) simp
qed

theorem unknown_number_not_EINVAL_witness:
  "lcall7 WYSE (gate_of WYSE badf_gate) 1 (some_regs\<lparr>eax := 200\<rparr>) 0
     = Some (some_regs\<lparr>eax := 1, eflags := 0x41\<rparr>, 0)"
proof -
  have "length (syscall_table WYSE) \<le> unat (eax (some_regs\<lparr>eax := 200\<rparr>) AND 0xff)"
    by (simp add: table_defs wyse_syscall_table_0_def wyse_syscall_table_100_def)
  from unknown_number_not_EINVAL [OF this, of badf_gate 0 0] show ?thesis
    by (simp add: some_regs_def)
qed

theorem signal_mask_roundtrip_witness:
  "\<exists>s. map_sigvec_to_kernel 0x8001 (nth (signal_map (exec_domain_of UW7))) = Some s
     \<and> map_sigvec_from_kernel s (nth (signal_invmap (exec_domain_of UW7))) = 0x8001"
  using signal_mask_roundtrip [of "0x8001" UW7] by simp

theorem translations_total_witness:
  "\<exists>r. map_value (Some (socktype_map (exec_domain_of ISC))) 4 1 = Some r"
  using translations_total [of "socktype_map (exec_domain_of ISC)" ISC 4 1] by (simp add: domain_maps_def Let_def)

theorem setrlimit_calls_getrlimit_witness:
  "lcall7 SOLARIS (gate_of SOLARIS badf_gate) 1 (some_regs\<lparr>eax := 128\<rparr>) 0
     = Some (returned (gate_of SOLARIS badf_gate) (- 9) (some_regs\<lparr>eax := 128\<rparr>), 0)"
  using setrlimit_calls_getrlimit [of "some_regs\<lparr>eax := 128\<rparr>" SOLARIS badf_gate 0 0] by (simp add: badf_gate_def)

end
