(* ===== verification/Svr4_Signal.thy ===== *)
theory Svr4_Signal
  imports Per_Base
begin

text \<open>
  The signal calls of the System V personalities, \<^verbatim>\<open>src/per-svr4/signal.c\<close>: the functions behind system
  call 48 (\<open>signal\<close>, \<open>sigset\<close>, \<open>sighold\<close>, \<open>sigrelse\<close>, \<open>sigignore\<close>, \<open>sigpause\<close>), \<open>sigaction\<close>, \<open>sigprocmask\<close>
  and \<open>sigsuspend\<close>.

  The execution domain of the program is the argument \<open>d\<close>; the native signal system calls are the record
  \<open>sigsys\<close>. A structure in the memory of the program is its value, a null pointer is \<open>None\<close>; in this
  emulation \<open>access_ok\<close> and the copy functions never fail. \<open>None\<close> as a result is a write outside a signal
  set or a read outside a table. The reserved words of \<open>struct svr4_sigaction\<close>, which the code neither reads
  nor sets, are left out.
\<close>

record ksigaction =
  k_handler :: u32
  k_flags :: u32
  k_mask :: u64

record svr4_sigaction =
  svr4_sa_flags :: u32
  svr4_sa_handler :: u32
  svr4_sa_mask :: u32

text \<open>A call of \<open>rt_sigaction\<close> gives the error and the old action, one of \<open>rt_sigprocmask\<close> the old mask.\<close>

record 'k sigsys =
  rt_sigaction :: "u32 \<Rightarrow> ksigaction option \<Rightarrow> 'k \<Rightarrow> u32 \<times> ksigaction \<times> 'k"
  rt_sigprocmask :: "u32 \<Rightarrow> u64 option \<Rightarrow> 'k \<Rightarrow> u32 \<times> u64 \<times> 'k"
  sys_rt_sigsuspend :: "u32 \<Rightarrow> 'k \<Rightarrow> u32 \<times> 'k"
  sys_sigsuspend :: "u32 \<Rightarrow> 'k \<Rightarrow> u32 \<times> 'k"

definition SA_NOCLDSTOP :: u32 where "SA_NOCLDSTOP = 1"
definition SA_NOCLDWAIT :: u32 where "SA_NOCLDWAIT = 2"
definition SA_ONSTACK :: u32 where "SA_ONSTACK = 0x08000000"
definition SA_RESTART :: u32 where "SA_RESTART = 0x10000000"
definition SA_NODEFER :: u32 where "SA_NODEFER = 0x40000000"
definition SA_RESETHAND :: u32 where "SA_RESETHAND = 0x80000000"

definition SVR4_SA_ONSTACK :: u32 where "SVR4_SA_ONSTACK = 1"
definition SVR4_SA_RESETHAND :: u32 where "SVR4_SA_RESETHAND = 2"
definition SVR4_SA_RESTART :: u32 where "SVR4_SA_RESTART = 4"
definition SVR4_SA_NODEFER :: u32 where "SVR4_SA_NODEFER = 16"
definition SVR4_SA_NOCLDWAIT :: u32 where "SVR4_SA_NOCLDWAIT = 0x10000"
definition SVR4_SA_NOCLDSTOP :: u32 where "SVR4_SA_NOCLDSTOP = 0x20000"

definition SIG_BLOCK :: u32 where "SIG_BLOCK = 0"
definition SIG_UNBLOCK :: u32 where "SIG_UNBLOCK = 1"
definition SIG_SETMASK :: u32 where "SIG_SETMASK = 2"
definition SIG_HOLD :: u32 where "SIG_HOLD = 2"

section \<open>Signal numbers\<close>

definition abi_mapsig :: "domain_def \<Rightarrow> u32 \<Rightarrow> u32" where
  "abi_mapsig d sig = (if 32 \<le> sig then - 1 else signal_map d ! unat sig)"

definition SIGNAL_NUMBER :: "'k gate \<Rightarrow> pt_regs \<Rightarrow> 'k \<Rightarrow> u32" where
  "SIGNAL_NUMBER g regp k = get_syscall_parameter g regp 0 k"

definition SECOND_PARAM :: "'k gate \<Rightarrow> pt_regs \<Rightarrow> 'k \<Rightarrow> u32" where
  "SECOND_PARAM g regp k = get_syscall_parameter g regp 1 k"

text \<open>The signal of the call for Linux, or the registers with the error.\<close>

definition abi_signo :: "'k gate \<Rightarrow> domain_def \<Rightarrow> pt_regs \<Rightarrow> 'k \<Rightarrow> (pt_regs + u32) option" where
  "abi_signo g d regp k =
     (let value = abi_mapsig d (SIGNAL_NUMBER g regp k AND 0xFF)
      in if value = - 1 then map_option (\<lambda>e. Inl (set_error regp e)) (iABI_errors g 22)
         else Some (Inr value))"

definition after_signo ::
  "'k gate \<Rightarrow> domain_def \<Rightarrow> pt_regs \<Rightarrow> 'k \<Rightarrow> (u32 \<Rightarrow> (pt_regs \<times> 'k) option) \<Rightarrow> (pt_regs \<times> 'k) option" where
  "after_signo g d regp k f = do {
     s \<leftarrow> abi_signo g d regp k;
     (case s of Inl regp \<Rightarrow> Some (regp, k) | Inr sig \<Rightarrow> f sig)
   }"

text \<open>The test \<open>error < 0\<close> at the end of the functions.\<close>

definition check_error :: "'k gate \<Rightarrow> u32 \<Rightarrow> pt_regs \<Rightarrow> 'k \<Rightarrow> (pt_regs \<times> 'k) option" where
  "check_error g error regp k = (if sint error < 0 then fail_with g (sint (- error)) regp k else Some (regp, k))"

section \<open>System call 48\<close>

definition abi_sig_handler ::
  "'k gate \<Rightarrow> 'k sigsys \<Rightarrow> pt_regs \<Rightarrow> u32 \<Rightarrow> u32 \<Rightarrow> bool \<Rightarrow> 'k \<Rightarrow> (pt_regs \<times> 'k) option" where
  "abi_sig_handler g sys regp sig handler oneshot k =
     (let flags = (if oneshot then SA_SIGINFO OR SA_RESETHAND OR SA_NODEFER else SA_SIGINFO);
          act = \<lparr>k_handler = handler, k_flags = flags, k_mask = sigemptyset\<rparr>;
          (error, oact, k) = rt_sigaction sys sig (Some act) k
      in if sint error < 0 then fail_with g (sint (- error)) regp k
         else Some (set_result regp (k_handler oact), k))"

definition abi_signal :: "'k gate \<Rightarrow> domain_def \<Rightarrow> 'k sigsys \<Rightarrow> pt_regs \<Rightarrow> 'k \<Rightarrow> (pt_regs \<times> 'k) option" where
  "abi_signal g d sys regp k = after_signo g d regp k (\<lambda>sig.
     abi_sig_handler g sys regp sig (SECOND_PARAM g regp k) True k)"

text \<open>\<open>sigprocmask\<close> with the set of one signal.\<close>

definition change_mask :: "'k gate \<Rightarrow> 'k sigsys \<Rightarrow> u32 \<Rightarrow> u32 \<Rightarrow> pt_regs \<Rightarrow> 'k \<Rightarrow> (pt_regs \<times> 'k) option" where
  "change_mask g sys action sig regp k = do {
     newmask \<leftarrow> sigaddset sigemptyset sig;
     let (error, oldmask, k) = rt_sigprocmask sys action (Some newmask) k;
     check_error g error regp k
   }"

definition abi_sigset :: "'k gate \<Rightarrow> domain_def \<Rightarrow> 'k sigsys \<Rightarrow> pt_regs \<Rightarrow> 'k \<Rightarrow> (pt_regs \<times> 'k) option" where
  "abi_sigset g d sys regp k = after_signo g d regp k (\<lambda>sig. do {
     let vec = SECOND_PARAM g regp k;
     (action, regp, k) \<leftarrow>
       (if vec \<noteq> SIG_HOLD
        then map_option (\<lambda>(regp, k). (SIG_UNBLOCK, regp, k)) (abi_sig_handler g sys regp sig vec False k)
        else Some (SIG_BLOCK, regp, k));
     change_mask g sys action sig regp k
   })"

definition abi_sighold :: "'k gate \<Rightarrow> domain_def \<Rightarrow> 'k sigsys \<Rightarrow> pt_regs \<Rightarrow> 'k \<Rightarrow> (pt_regs \<times> 'k) option" where
  "abi_sighold g d sys regp k = after_signo g d regp k (\<lambda>sig. change_mask g sys SIG_BLOCK sig regp k)"

definition abi_sigrelse :: "'k gate \<Rightarrow> domain_def \<Rightarrow> 'k sigsys \<Rightarrow> pt_regs \<Rightarrow> 'k \<Rightarrow> (pt_regs \<times> 'k) option" where
  "abi_sigrelse g d sys regp k = after_signo g d regp k (\<lambda>sig. change_mask g sys SIG_UNBLOCK sig regp k)"

definition abi_sigignore :: "'k gate \<Rightarrow> domain_def \<Rightarrow> 'k sigsys \<Rightarrow> pt_regs \<Rightarrow> 'k \<Rightarrow> (pt_regs \<times> 'k) option" where
  "abi_sigignore g d sys regp k = after_signo g d regp k (\<lambda>sig.
     let act = \<lparr>k_handler = SIG_IGN, k_flags = SA_SIGINFO, k_mask = sigemptyset\<rparr>;
         (error, oact, k) = rt_sigaction sys sig (Some act) k
     in check_error g error regp k)"

text \<open>A shift count is taken modulo 32, as the i386 does.\<close>

definition abi_sigpause :: "'k gate \<Rightarrow> domain_def \<Rightarrow> 'k sigsys \<Rightarrow> pt_regs \<Rightarrow> 'k \<Rightarrow> (pt_regs \<times> 'k) option" where
  "abi_sigpause g d sys regs k = after_signo g d regs k (\<lambda>sig.
     let newset = push_bit (unat (sig - 1) mod 32) 1;
         (error, k) = sys_rt_sigsuspend sys newset k
     in check_error g error regs k)"

definition abi_sigfunc :: "'k gate \<Rightarrow> domain_def \<Rightarrow> 'k sigsys \<Rightarrow> pt_regs \<Rightarrow> 'k \<Rightarrow> (pt_regs \<times> 'k) option" where
  "abi_sigfunc g d sys regp k =
     (let sig_type = SIGNAL_NUMBER g regp k AND NOT 0xFF;
          regp = regp\<lparr>eflags := eflags regp AND NOT 1, eax := 0\<rparr>
      in if sig_type = 0 then abi_signal g d sys regp k
         else if sig_type = 0x100 then abi_sigset g d sys regp k
         else if sig_type = 0x200 then abi_sighold g d sys regp k
         else if sig_type = 0x400 then abi_sigrelse g d sys regp k
         else if sig_type = 0x800 then abi_sigignore g d sys regp k
         else if sig_type = 0x1000 then abi_sigpause g d sys regp k
         else Some (set_error regp EINVAL, k))"

section \<open>The POSIX calls\<close>

definition flag_if :: "u32 \<Rightarrow> u32 \<Rightarrow> u32 \<Rightarrow> u32" where
  "flag_if flags from to = (if flags AND from \<noteq> 0 then to else 0)"

definition sa_flags_to_linux :: "u32 \<Rightarrow> u32" where
  "sa_flags_to_linux f = SA_SIGINFO OR flag_if f SVR4_SA_ONSTACK SA_ONSTACK OR flag_if f SVR4_SA_RESTART SA_RESTART
     OR flag_if f SVR4_SA_NODEFER SA_NODEFER OR flag_if f SVR4_SA_RESETHAND SA_RESETHAND
     OR flag_if f SVR4_SA_NOCLDSTOP SA_NOCLDSTOP OR flag_if f SVR4_SA_NOCLDWAIT SA_NOCLDWAIT"

definition sa_flags_from_linux :: "u32 \<Rightarrow> u32" where
  "sa_flags_from_linux f = flag_if f SA_ONSTACK SVR4_SA_ONSTACK OR flag_if f SA_RESTART SVR4_SA_RESTART
     OR flag_if f SA_NODEFER SVR4_SA_NODEFER OR flag_if f SA_RESETHAND SVR4_SA_RESETHAND
     OR flag_if f SA_NOCLDSTOP SVR4_SA_NOCLDSTOP OR flag_if f SA_NOCLDWAIT SVR4_SA_NOCLDWAIT"

text \<open>
  The result is the return value, the structure stored through \<open>oldaction\<close> (when that is not null:
  the argument \<open>want_old\<close>), and the kernel.
\<close>

definition abi_sigaction ::
  "domain_def \<Rightarrow> 'k sigsys \<Rightarrow> u32 \<Rightarrow> svr4_sigaction option \<Rightarrow> bool \<Rightarrow> 'k \<Rightarrow>
   (u32 \<times> svr4_sigaction option \<times> 'k) option" where
  "abi_sigaction d sys abi_signum action want_old k =
     (let signo = abi_mapsig d abi_signum
      in if signo = - 1 then Some (- EINVAL, None, k)
         else do {
           nsa \<leftarrow> (case action of
               None \<Rightarrow> Some None
             | Some new_sa \<Rightarrow> do {
                 mask \<leftarrow> map_sigvec_to_kernel (svr4_sa_mask new_sa) (nth (signal_map d));
                 Some (Some \<lparr>k_handler = svr4_sa_handler new_sa, k_flags = sa_flags_to_linux (svr4_sa_flags new_sa),
                             k_mask = mask\<rparr>)
               });
           let (error, osa, k) = rt_sigaction sys signo nsa k;
           if error \<noteq> 0 \<or> \<not> want_old then Some (error, None, k)
           else Some (0, Some \<lparr>svr4_sa_flags = sa_flags_from_linux (k_flags osa), svr4_sa_handler = k_handler osa,
                               svr4_sa_mask = map_sigvec_from_kernel (k_mask osa) (nth (signal_invmap d))\<rparr>, k)
         })"

definition howcnv :: "u32 list" where
  "howcnv = [SIG_SETMASK, SIG_BLOCK, SIG_UNBLOCK, SIG_SETMASK]"

definition abi_sigprocmask ::
  "domain_def \<Rightarrow> 'k sigsys \<Rightarrow> u32 \<Rightarrow> u32 option \<Rightarrow> bool \<Rightarrow> 'k \<Rightarrow> (u32 \<times> u32 option \<times> 'k) option" where
  "abi_sigprocmask d sys how abinset want_old k = do {
     nset \<leftarrow> (case abinset of
         None \<Rightarrow> Some None
       | Some v \<Rightarrow> map_option Some (map_sigvec_to_kernel v (nth (signal_map d))));
     how \<leftarrow> (if unat how < length howcnv then Some (howcnv ! unat how) else None);
     let (error, old_set, k) = rt_sigprocmask sys how nset k;
     Some (error, if error = 0 \<and> want_old then Some (map_sigvec_from_kernel old_set (nth (signal_invmap d))) else None, k)
   }"

definition abi_sigsuspend :: "'k gate \<Rightarrow> domain_def \<Rightarrow> 'k sigsys \<Rightarrow> pt_regs \<Rightarrow> 'k \<Rightarrow> u32 \<times> 'k" where
  "abi_sigsuspend g d sys regs k =
     (let abi_mask = peek g (SIGNAL_NUMBER g regs k) k
      in sys_sigsuspend sys (map_bitvec abi_mask (nth (signal_map d))) k)"

section \<open>Actions survive\<close>

text \<open>The six flags the translation knows.\<close>

definition sa_known :: u32 where
  "sa_known = 0x30017"

lemma flag_if_bit:
  assumes "i < 32" "j < 32"
  shows "bit (flag_if f (2 ^ i) (2 ^ j)) n \<longleftrightarrow> n = j \<and> bit f i"
proof -
  have "f AND 2 ^ i \<noteq> 0 \<longleftrightarrow> bit f i" using assms by (auto simp: and_exp_eq_0_iff_not_bit)
  then show ?thesis using assms by (auto simp: flag_if_def bit_simps)
qed

lemma flag_powers:
  "SVR4_SA_ONSTACK = 2 ^ 0" "SVR4_SA_RESETHAND = 2 ^ 1" "SVR4_SA_RESTART = 2 ^ 2" "SVR4_SA_NODEFER = 2 ^ 4"
  "SVR4_SA_NOCLDWAIT = 2 ^ 16" "SVR4_SA_NOCLDSTOP = 2 ^ 17"
  "SA_NOCLDSTOP = 2 ^ 0" "SA_NOCLDWAIT = 2 ^ 1" "SA_SIGINFO = 2 ^ 2" "SA_ONSTACK = 2 ^ 27" "SA_RESTART = 2 ^ 28"
  "SA_NODEFER = 2 ^ 30" "SA_RESETHAND = 2 ^ 31"
  by (simp_all add: SVR4_SA_ONSTACK_def SVR4_SA_RESETHAND_def SVR4_SA_RESTART_def SVR4_SA_NODEFER_def
    SVR4_SA_NOCLDWAIT_def SVR4_SA_NOCLDSTOP_def SA_NOCLDSTOP_def SA_NOCLDWAIT_def SA_SIGINFO_def SA_ONSTACK_def
    SA_RESTART_def SA_NODEFER_def SA_RESETHAND_def)

lemma bit_to_linux:
  "bit (sa_flags_to_linux f) n \<longleftrightarrow> n = 2 \<or> n = 27 \<and> bit f 0 \<or> n = 28 \<and> bit f 2 \<or> n = 30 \<and> bit f 4
     \<or> n = 31 \<and> bit f 1 \<or> n = 0 \<and> bit f 17 \<or> n = 1 \<and> bit f 16"
  unfolding sa_flags_to_linux_def flag_powers bit_or_iff
  using bit_exp_u32 [of 2 n] flag_if_bit [of 0 27 f n] flag_if_bit [of 2 28 f n] flag_if_bit [of 4 30 f n]
    flag_if_bit [of 1 31 f n] flag_if_bit [of 17 0 f n] flag_if_bit [of 16 1 f n] by simp

lemma bit_from_linux:
  "bit (sa_flags_from_linux f) n \<longleftrightarrow> n = 0 \<and> bit f 27 \<or> n = 2 \<and> bit f 28 \<or> n = 4 \<and> bit f 30 \<or> n = 1 \<and> bit f 31
     \<or> n = 17 \<and> bit f 0 \<or> n = 16 \<and> bit f 1"
  unfolding sa_flags_from_linux_def flag_powers bit_or_iff
  using flag_if_bit [of 27 0 f n] flag_if_bit [of 28 2 f n] flag_if_bit [of 30 4 f n]
    flag_if_bit [of 31 1 f n] flag_if_bit [of 0 17 f n] flag_if_bit [of 1 16 f n] by simp

lemma sa_known_bits: "bit sa_known n \<longleftrightarrow> n = 0 \<or> n = 1 \<or> n = 2 \<or> n = 4 \<or> n = 16 \<or> n = 17"
proof -
  have "sa_known = 2 ^ 0 OR 2 ^ 1 OR 2 ^ 2 OR 2 ^ 4 OR 2 ^ 16 OR 2 ^ 17" by (simp add: sa_known_def)
  then have "bit sa_known n = bit (2 ^ 0 OR 2 ^ 1 OR 2 ^ 2 OR 2 ^ 4 OR 2 ^ 16 OR 2 ^ 17 :: u32) n" by (rule arg_cong)
  also have "\<dots> \<longleftrightarrow> n = 0 \<or> n = 1 \<or> n = 2 \<or> n = 4 \<or> n = 16 \<or> n = 17"
    unfolding bit_or_iff
    using bit_exp_u32 [of 0 n] bit_exp_u32 [of 1 n] bit_exp_u32 [of 2 n] bit_exp_u32 [of 4 n] bit_exp_u32 [of 16 n] bit_exp_u32 [of 17 n]
    by simp
  finally show ?thesis .
qed

lemma sa_flags_inverse: "sa_flags_from_linux (sa_flags_to_linux f) = f AND sa_known"
  by (rule bit_word_eqI) (auto simp: bit_from_linux bit_to_linux bit_and_iff sa_known_bits)

text \<open>The kernel accepts an action for the signal \<open>sig\<close> in the state \<open>k\<close> and tells it when it is asked.\<close>

definition remembers :: "'k sigsys \<Rightarrow> u32 \<Rightarrow> 'k \<Rightarrow> bool" where
  "remembers sys sig k \<longleftrightarrow> (\<forall>act. \<exists>old k1 k2. rt_sigaction sys sig (Some act) k = (0, old, k1)
     \<and> rt_sigaction sys sig None k1 = (0, act, k2))"

lemma sigaction_remembered:
  assumes "abi_mapsig d signum \<noteq> - 1" "remembers sys (abi_mapsig d signum) k"
    "inverse_on (svr4_sa_mask sa) (nth (signal_map d)) (nth (signal_invmap d))"
  shows "\<exists>k1 k2. abi_sigaction d sys signum (Some sa) False k = Some (0, None, k1)
    \<and> abi_sigaction d sys signum None True k1
      = Some (0, Some (sa\<lparr>svr4_sa_flags := svr4_sa_flags sa AND sa_known\<rparr>), k2)"
proof -
  obtain s where s: "map_sigvec_to_kernel (svr4_sa_mask sa) (nth (signal_map d)) = Some s"
    "map_sigvec_from_kernel s (nth (signal_invmap d)) = svr4_sa_mask sa"
    using map_sigvec_roundtrip [OF assms(3)] by blast
  let ?act = "\<lparr>k_handler = svr4_sa_handler sa, k_flags = sa_flags_to_linux (svr4_sa_flags sa), k_mask = s\<rparr>"
  obtain old k1 k2 where k: "rt_sigaction sys (abi_mapsig d signum) (Some ?act) k = (0, old, k1)"
    "rt_sigaction sys (abi_mapsig d signum) None k1 = (0, ?act, k2)"
    using assms(2) unfolding remembers_def by blast
  have "abi_sigaction d sys signum (Some sa) False k = Some (0, None, k1)"
    using assms(1) s(1) k(1) by (simp add: abi_sigaction_def Let_def)
  moreover have "abi_sigaction d sys signum None True k1
      = Some (0, Some (sa\<lparr>svr4_sa_flags := svr4_sa_flags sa AND sa_known\<rparr>), k2)"
    using assms(1) s(2) k(2) by (simp add: abi_sigaction_def Let_def sa_flags_inverse)
  ultimately show ?thesis by blast
qed

section \<open>Holding a signal\<close>

text \<open>What \<open>sigprocmask\<close> does to the set of blocked signals of the process.\<close>

definition mask_law :: "'k sigsys \<Rightarrow> ('k \<Rightarrow> u64) \<Rightarrow> bool" where
  "mask_law sys blocked \<longleftrightarrow> (\<forall>set k.
     (\<exists>old k'. rt_sigprocmask sys SIG_BLOCK (Some set) k = (0, old, k') \<and> blocked k' = blocked k OR set)
   \<and> (\<exists>old k'. rt_sigprocmask sys SIG_UNBLOCK (Some set) k = (0, old, k') \<and> blocked k' = blocked k AND NOT set))"

definition asks :: "'k gate \<Rightarrow> pt_regs \<Rightarrow> 'k \<Rightarrow> u32 \<Rightarrow> bool" where
  "asks g regs k request \<longleftrightarrow> get_syscall_parameter g regs 0 k = request"

lemma low_byte_request:
  fixes request sig :: u32
  assumes "sig < 256" "take_bit 8 request = 0"
  shows "(request OR sig) AND 0xFF = sig" "(request OR sig) AND NOT 0xFF = request"
proof -
  have ff: "(0xFF :: u32) = mask 8" by (simp add: mask_eq_exp_minus_1)
  have "unat sig < 256" using assms(1) by (simp add: word_less_nat_alt)
  then have sig: "take_bit 8 sig = sig"
    by (simp add: word_unat_eq_iff unsigned_take_bit_eq take_bit_eq_mod [of 8 "unat sig"])
  show "(request OR sig) AND 0xFF = sig"
    unfolding ff take_bit_eq_mask [symmetric] using assms(2) sig by simp
  have s: "bit sig i \<Longrightarrow> i < 8" for i using arg_cong [OF sig, of "\<lambda>w. bit w i"] by (auto simp: bit_take_bit_iff)
  have r: "bit request i \<Longrightarrow> \<not> i < 8" for i using arg_cong [OF assms(2), of "\<lambda>w. bit w i"] by (auto simp: bit_take_bit_iff)
  show "(request OR sig) AND NOT 0xFF = request"
    unfolding ff by (rule bit_word_eqI) (use s r in \<open>auto simp: bit_simps\<close>)
qed

lemma small_sig: "s < 32 \<Longrightarrow> s < 256" for s :: u32
  by (simp add: word_less_nat_alt)

lemma abi_signo_request:
  assumes "asks g regs k (request OR sig)" "sig < 32" "take_bit 8 request = 0" "abi_mapsig d sig \<noteq> - 1"
  shows "abi_signo g d regs k = Some (Inr (abi_mapsig d sig))"
  using assms low_byte_request(1) [OF small_sig [OF assms(2)] assms(3)]
  by (simp add: abi_signo_def SIGNAL_NUMBER_def asks_def Let_def)

lemma get_parameter_regs [simp]:
  "get_syscall_parameter g (regs\<lparr>eflags := f, eax := a\<rparr>) n k = get_syscall_parameter g regs n k"
  by (simp add: get_syscall_parameter_def)

lemma asks_regs [simp]: "asks g (regs\<lparr>eflags := f, eax := a\<rparr>) k r = asks g regs k r"
  by (simp add: asks_def)

lemma sigfunc_type:
  assumes "asks g regs k (request OR sig)" "sig < 32" "take_bit 8 request = 0"
  shows "SIGNAL_NUMBER g regs k AND NOT 0xFF = request"
  using assms low_byte_request(2) [OF small_sig [OF assms(2)] assms(3)] by (simp add: SIGNAL_NUMBER_def asks_def)

definition cleared :: "pt_regs \<Rightarrow> pt_regs" where
  "cleared regs = regs\<lparr>eflags := eflags regs AND NOT 1, eax := 0\<rparr>"

lemma sigfunc_hold_relse:
  "SIGNAL_NUMBER g regs k AND NOT 0xFF = 0x200 \<Longrightarrow> abi_sigfunc g d sys regs k = abi_sighold g d sys (cleared regs) k"
  "SIGNAL_NUMBER g regs k AND NOT 0xFF = 0x400 \<Longrightarrow> abi_sigfunc g d sys regs k = abi_sigrelse g d sys (cleared regs) k"
  by (simp_all add: abi_sigfunc_def Let_def cleared_def)

lemma signo_mask:
  assumes "asks g regs k (request OR sig)" "sig < 32" "take_bit 8 request = 0"
    "abi_mapsig d sig = of_nat n" "1 \<le> n" "n \<le> 64"
    "rt_sigprocmask sys action (Some (push_bit (n - 1) 1)) k = (0, old, k')"
  shows "after_signo g d (cleared regs) k (\<lambda>sig. change_mask g sys action sig (cleared regs) k) = Some (cleared regs, k')"
proof -
  have n: "abi_mapsig d sig - 1 = of_nat (n - 1)" "of_nat (n - 1) < (64 :: u32)" "unat (of_nat (n - 1) :: u32) = n - 1"
    using assms(4-6) by (simp_all add: of_nat_minus_1 unat_of_nat_u32 word_less_nat_alt del: of_nat_diff)
  have "abi_mapsig d sig \<noteq> - 1" using n(1,2) by auto
  then have "abi_signo g d (cleared regs) k = Some (Inr (abi_mapsig d sig))"
    using abi_signo_request [of g "cleared regs" k request sig d] assms(1-3) by (simp add: cleared_def)
  moreover have "sigaddset sigemptyset (abi_mapsig d sig) = Some (push_bit (n - 1) 1)"
    using n by (simp add: sigaddset_def sigemptyset_def Let_def)
  ultimately show ?thesis using assms(7) by (simp add: after_signo_def change_mask_def check_error_def)
qed

lemma sighold_blocks:
  assumes "mask_law sys blocked" "asks g regs k (0x200 OR sig)" "sig < 32" "abi_mapsig d sig = of_nat n" "1 \<le> n" "n \<le> 64"
  shows "\<exists>k'. abi_sigfunc g d sys regs k = Some (cleared regs, k') \<and> blocked k' = blocked k OR push_bit (n - 1) 1"
proof -
  obtain old k' where k': "rt_sigprocmask sys SIG_BLOCK (Some (push_bit (n - 1) 1)) k = (0, old, k')"
    "blocked k' = blocked k OR push_bit (n - 1) 1"
    using assms(1) unfolding mask_law_def by blast
  show ?thesis
    using signo_mask [OF assms(2,3) _ assms(4-6) k'(1)] sigfunc_hold_relse(1) [OF sigfunc_type [OF assms(2,3)]] k'(2)
    by (simp add: abi_sighold_def)
qed

lemma sigrelse_unblocks:
  assumes "mask_law sys blocked" "asks g regs k (0x400 OR sig)" "sig < 32" "abi_mapsig d sig = of_nat n" "1 \<le> n" "n \<le> 64"
  shows "\<exists>k'. abi_sigfunc g d sys regs k = Some (cleared regs, k') \<and> blocked k' = blocked k AND NOT (push_bit (n - 1) 1)"
proof -
  obtain old k' where k': "rt_sigprocmask sys SIG_UNBLOCK (Some (push_bit (n - 1) 1)) k = (0, old, k')"
    "blocked k' = blocked k AND NOT (push_bit (n - 1) 1)"
    using assms(1) unfolding mask_law_def by blast
  show ?thesis
    using signo_mask [OF assms(2,3) _ assms(4-6) k'(1)] sigfunc_hold_relse(2) [OF sigfunc_type [OF assms(2,3)]] k'(2)
    by (simp add: abi_sigrelse_def)
qed

text \<open>Signal 0 is mapped to 0 in every personality, and 0 is no member of a signal set.\<close>

lemma signal_zero_undefined:
  assumes "asks g regs k request" "request = 0x200 \<or> request = 0x400" "signal_map d ! 0 = 0"
  shows "abi_sigfunc g d sys regs k = None"
proof -
  have z: "abi_mapsig d 0 = 0" using assms(3) by (simp add: abi_mapsig_def)
  have r: "take_bit 8 request = 0" using assms(2) by auto
  have "asks g (cleared regs) k (request OR 0)" using assms(1) by (simp add: cleared_def)
  then have "abi_signo g d (cleared regs) k = Some (Inr 0)"
    using abi_signo_request [of g "cleared regs" k request 0 d] r z by simp
  then have "after_signo g d (cleared regs) k (\<lambda>sig. change_mask g sys action sig (cleared regs) k) = None" for action
    by (simp add: after_signo_def change_mask_def sigaddset_def sigemptyset_def)
  moreover have "SIGNAL_NUMBER g regs k AND NOT 0xFF = request"
    using sigfunc_type [of g regs k request 0] assms(1) r by simp
  ultimately show ?thesis using assms(2)
    by (auto simp: sigfunc_hold_relse abi_sighold_def abi_sigrelse_def)
qed

text \<open>
  \<open>sigprocmask\<close> does not check its first argument: the call reads behind the table \<open>howcnv\<close> exactly
  when the argument is above 3.
\<close>

theorem sigprocmask_unchecked:
  "abi_sigprocmask d sys how None want_old k = None \<longleftrightarrow> 4 \<le> how"
  by (auto simp: abi_sigprocmask_def howcnv_def word_le_nat_alt case_prod_beta)

section \<open>A kernel that keeps its word\<close>

text \<open>The kernel of the witnesses: a table of actions and the set of blocked signals.\<close>

definition plain_kernel :: "((u32 \<Rightarrow> ksigaction) \<times> u64) sigsys" where
  "plain_kernel = \<lparr>
     rt_sigaction = (\<lambda>sig act (t, b). (0, t sig, (case act of None \<Rightarrow> t | Some a \<Rightarrow> t(sig := a), b))),
     rt_sigprocmask = (\<lambda>how set (t, b). (0, b, t,
       (case set of None \<Rightarrow> b | Some s \<Rightarrow> if how = SIG_BLOCK then b OR s else if how = SIG_UNBLOCK then b AND NOT s else s))),
     sys_rt_sigsuspend = (\<lambda>m k. (- 4, k)),
     sys_sigsuspend = (\<lambda>m k. (- 4, k))\<rparr>"

lemma plain_kernel_remembers: "remembers plain_kernel sig k"
  by (auto simp: remembers_def plain_kernel_def split: prod.splits)

lemma plain_kernel_mask: "mask_law plain_kernel snd"
  by (auto simp: mask_law_def plain_kernel_def SIG_BLOCK_def SIG_UNBLOCK_def)

definition plain_state :: "(u32 \<Rightarrow> ksigaction) \<times> u64" where
  "plain_state = ((\<lambda>_. \<lparr>k_handler = 0, k_flags = 0, k_mask = 0\<rparr>), 0)"

text \<open>A gate whose stack holds one request everywhere.\<close>

definition request_gate :: "u32 \<Rightarrow> ((u32 \<Rightarrow> ksigaction) \<times> u64) gate" where
  "request_gate r = \<lparr>peek = \<lambda>a k. r, kernel_call = \<lambda>n args k. (0, k), c_call = \<lambda>f args k. (0, k),
     spl_call = \<lambda>f regs k. (0, regs, k), fast_call = \<lambda>f regs k. (regs, k), err_map = None\<rparr>"

lemma request_gate_asks: "asks (request_gate r) regs k r"
proof -
  have "(0xFFFFFFFF :: u32) = - 1" by simp
  then have "r AND 0xFFFFFFFF = r" for r :: u32 by (simp only: bit.conj_one_right)
  then show ?thesis by (simp add: asks_def get_syscall_parameter_def request_gate_def)
qed

end
