(* ===== verification/Linux26_Signal.thy ===== *)
theory Linux26_Signal
  imports Svr4_Signal
begin

text \<open>
  Signals below the personalities: \<open>linux26_rt_sigaction\<close> and \<open>linux26_signal\<close> of \<^verbatim>\<open>src/ibcs/linux26-compat.c\<close>,
  \<open>ibcs_sigaction\<close> of \<^verbatim>\<open>src/ibcs/ibcs-lib.c\<close> and \<open>sysent_initialise\<close> of \<^verbatim>\<open>src/ibcs/sysent.c\<close>.

  The emulator needs \<open>SIGSEGV\<close> for itself: its handler \<open>lcall_sigsegv\<close> turns the far calls of the program into
  calls of the emulator. The actions that the program sets are kept in the table \<open>_linux26_sigtab\<close>, and
  the handler calls the program's own handler for every other fault.

  The table and the native kernel are the state; the native \<open>rt_sigaction\<close> and the other signal calls are the
  parameter \<open>ksys\<close>, of the same type as the calls the personalities make, which are given here.
\<close>

definition SIGSEGV :: u32 where "SIGSEGV = 11"
definition SA_RESTORER :: u32 where "SA_RESTORER = 0x04000000"

definition sigtab_size :: nat where "sigtab_size = 16 + 1"

record 'k sigst =
  sigtab :: "nat \<Rightarrow> ksigaction"
  sigkern :: 'k

definition ibcs_sigaction :: "'k sigsys \<Rightarrow> u32 \<Rightarrow> ksigaction option \<Rightarrow> 'k \<Rightarrow> u32 \<times> ksigaction \<times> 'k" where
  "ibcs_sigaction ksys sig act k = rt_sigaction ksys sig (map_option (\<lambda>a. a\<lparr>k_flags := k_flags a OR SA_RESTORER\<rparr>) act) k"

text \<open>The old action of the result is only looked at when the caller asked for it.\<close>

definition linux26_rt_sigaction :: "'k sigsys \<Rightarrow> u32 \<Rightarrow> ksigaction option \<Rightarrow> 'k sigst \<Rightarrow> u32 \<times> ksigaction \<times> 'k sigst" where
  "linux26_rt_sigaction ksys signum act s =
     (let old = sigtab s (unat SIGSEGV);
          s = (case act of
                 Some a \<Rightarrow> if 0 < sint signum \<and> sint signum < int sigtab_size
                           then s\<lparr>sigtab := (sigtab s)(unat signum := a)\<rparr> else s
               | None \<Rightarrow> s)
      in if signum = SIGSEGV then (0, old, s)
         else let (r, oldact, k) = ibcs_sigaction ksys signum act (sigkern s) in (r, oldact, s\<lparr>sigkern := k\<rparr>))"

definition linux26_signal :: "'k sigsys \<Rightarrow> u32 \<Rightarrow> u32 \<Rightarrow> 'k sigst \<Rightarrow> u32 \<times> 'k sigst" where
  "linux26_signal ksys signum handler s =
     (let act = \<lparr>k_handler = handler, k_flags = SA_RESETHAND OR SA_NODEFER, k_mask = 0\<rparr>;
          (err, oldact, s) = linux26_rt_sigaction ksys signum (Some act) s
      in (if IBCS_IS_ERR err then err else k_handler oldact, s))"

text \<open>What the personalities call: only \<open>rt_sigaction\<close> has an entry in \<open>linux26_syscall_tab\<close>.\<close>

definition lift_kern :: "('k \<Rightarrow> 'r \<times> 'k) \<Rightarrow> 'k sigst \<Rightarrow> 'r \<times> 'k sigst" where
  "lift_kern f s = (let (r, k) = f (sigkern s) in (r, s\<lparr>sigkern := k\<rparr>))"

definition linux26_sigsys :: "'k sigsys \<Rightarrow> 'k sigst sigsys" where
  "linux26_sigsys ksys = \<lparr>
     rt_sigaction = linux26_rt_sigaction ksys,
     rt_sigprocmask = (\<lambda>how set s. let (r, old, k) = rt_sigprocmask ksys how set (sigkern s) in (r, old, s\<lparr>sigkern := k\<rparr>)),
     sys_rt_sigsuspend = (\<lambda>m. lift_kern (sys_rt_sigsuspend ksys m)),
     sys_sigsuspend = (\<lambda>m. lift_kern (sys_sigsuspend ksys m))\<rparr>"

text \<open>The start of the emulator; an error ends it.\<close>

definition sysent_initialise :: "u32 \<Rightarrow> 'k sigsys \<Rightarrow> 'k \<Rightarrow> 'k option" where
  "sysent_initialise handler ksys k =
     (let (ret, _, k) = ibcs_sigaction ksys SIGSEGV (Some \<lparr>k_handler = handler, k_flags = SA_SIGINFO, k_mask = - 1\<rparr>) k
      in if IBCS_IS_ERR ret then None else Some k)"

section \<open>The emulator keeps its handler\<close>

text \<open>A native kernel in which the action for \<open>SIGSEGV\<close>, \<open>segv\<close>, changes only by setting it.\<close>

definition segv_private :: "'k sigsys \<Rightarrow> ('k \<Rightarrow> ksigaction) \<Rightarrow> bool" where
  "segv_private ksys segv \<longleftrightarrow>
     (\<forall>sig act k. sig \<noteq> SIGSEGV \<longrightarrow> segv (snd (snd (rt_sigaction ksys sig act k))) = segv k)
     \<and> (\<forall>how set k. segv (snd (snd (rt_sigprocmask ksys how set k))) = segv k)
     \<and> (\<forall>m k. segv (snd (sys_rt_sigsuspend ksys m k)) = segv k)
     \<and> (\<forall>m k. segv (snd (sys_sigsuspend ksys m k)) = segv k)"

text \<open>The signal calls of a program in the execution domain \<open>d\<close>, and of the emulator itself.\<close>

datatype sigcall =
    Sigfunc pt_regs
  | Sigaction u32 "svr4_sigaction option" bool
  | Sigprocmask u32 "u32 option" bool
  | Sigsuspend pt_regs
  | Linux_sigaction u32 "ksigaction option"
  | Linux_signal u32 u32

definition do_sigcall :: "'k sigst gate \<Rightarrow> domain_def \<Rightarrow> 'k sigsys \<Rightarrow> sigcall \<Rightarrow> 'k sigst \<Rightarrow> (unit \<times> 'k sigst) option" where
  "do_sigcall g d ksys c s =
     (case c of
        Sigfunc regs \<Rightarrow> map_option (\<lambda>(_, s). ((), s)) (abi_sigfunc g d (linux26_sigsys ksys) regs s)
      | Sigaction sig act want \<Rightarrow> map_option (\<lambda>(_, _, s). ((), s)) (abi_sigaction d (linux26_sigsys ksys) sig act want s)
      | Sigprocmask how v want \<Rightarrow> map_option (\<lambda>(_, _, s). ((), s)) (abi_sigprocmask d (linux26_sigsys ksys) how v want s)
      | Sigsuspend regs \<Rightarrow> Some ((), snd (abi_sigsuspend g d (linux26_sigsys ksys) regs s))
      | Linux_sigaction sig act \<Rightarrow> Some ((), snd (snd (linux26_rt_sigaction ksys sig act s)))
      | Linux_signal sig h \<Rightarrow> Some ((), snd (linux26_signal ksys sig h s)))"

lemma rt_sigaction_keeps:
  "segv_private ksys segv \<Longrightarrow> segv (sigkern (snd (snd (linux26_rt_sigaction ksys sig act s)))) = segv (sigkern s)"
  by (auto simp: segv_private_def linux26_rt_sigaction_def ibcs_sigaction_def case_prod_beta Let_def split: option.splits)

lemma sigsys_keeps:
  assumes "segv_private ksys segv"
  shows "rt_sigaction (linux26_sigsys ksys) sig act s = (e, o', s') \<Longrightarrow> segv (sigkern s') = segv (sigkern s)"
    "rt_sigprocmask (linux26_sigsys ksys) how v s = (e, om, s') \<Longrightarrow> segv (sigkern s') = segv (sigkern s)"
    "sys_rt_sigsuspend (linux26_sigsys ksys) m s = (e, s') \<Longrightarrow> segv (sigkern s') = segv (sigkern s)"
    "sys_sigsuspend (linux26_sigsys ksys) m s = (e, s') \<Longrightarrow> segv (sigkern s') = segv (sigkern s)"
proof -
  show "rt_sigaction (linux26_sigsys ksys) sig act s = (e, o', s') \<Longrightarrow> segv (sigkern s') = segv (sigkern s)"
    using rt_sigaction_keeps [OF assms, of sig act s] by (simp add: linux26_sigsys_def)
  show "rt_sigprocmask (linux26_sigsys ksys) how v s = (e, om, s') \<Longrightarrow> segv (sigkern s') = segv (sigkern s)"
    using assms by (auto simp: segv_private_def linux26_sigsys_def case_prod_beta Let_def)
  show "sys_rt_sigsuspend (linux26_sigsys ksys) m s = (e, s') \<Longrightarrow> segv (sigkern s') = segv (sigkern s)"
    "sys_sigsuspend (linux26_sigsys ksys) m s = (e, s') \<Longrightarrow> segv (sigkern s') = segv (sigkern s)"
    using assms by (auto simp: segv_private_def linux26_sigsys_def lift_kern_def case_prod_beta Let_def)
qed

lemma fail_with_state: "fail_with g e regs k = Some (regs', k') \<Longrightarrow> k' = k"
  by (auto simp: fail_with_def)

lemma sig_handler_keeps:
  "segv_private ksys segv \<Longrightarrow> abi_sig_handler g (linux26_sigsys ksys) regs sig h oneshot s = Some (regs', s')
   \<Longrightarrow> segv (sigkern s') = segv (sigkern s)"
  by (auto simp: abi_sig_handler_def Let_def dest: fail_with_state sigsys_keeps split: prod.splits if_splits)

lemma change_mask_keeps:
  "segv_private ksys segv \<Longrightarrow> change_mask g (linux26_sigsys ksys) action sig regs s = Some (regs', s')
   \<Longrightarrow> segv (sigkern s') = segv (sigkern s)"
  by (auto simp: change_mask_def check_error_def dest: fail_with_state sigsys_keeps split: prod.splits if_splits bind_splits)

lemma after_signo_cases:
  assumes "after_signo g d regs s f = Some (regs', s')"
  obtains "s' = s" | sig where "f sig = Some (regs', s')"
  using assms by (auto simp: after_signo_def split: bind_splits sum.splits)

lemma sigfunc_keeps:
  assumes priv: "segv_private ksys segv" and call: "abi_sigfunc g d (linux26_sigsys ksys) regs s = Some (regs', s')"
  shows "segv (sigkern s') = segv (sigkern s)"
proof -
  define r where "r = cleared regs"
  let ?sys = "linux26_sigsys ksys"
  consider "abi_signal g d ?sys r s = Some (regs', s')" | "abi_sigset g d ?sys r s = Some (regs', s')"
    | "abi_sighold g d ?sys r s = Some (regs', s')" | "abi_sigrelse g d ?sys r s = Some (regs', s')"
    | "abi_sigignore g d ?sys r s = Some (regs', s')" | "abi_sigpause g d ?sys r s = Some (regs', s')" | "s' = s"
    using call by (auto simp: abi_sigfunc_def Let_def r_def cleared_def split: if_splits)
  then show ?thesis
  proof cases
    case 1
    then show ?thesis unfolding abi_signal_def using sig_handler_keeps [OF priv] by (elim after_signo_cases) auto
  next
    case 2
    then show ?thesis unfolding abi_sigset_def
      by (elim after_signo_cases)
        (auto simp: Let_def split: bind_splits if_splits, (metis sig_handler_keeps [OF priv] change_mask_keeps [OF priv])+)
  next
    case 3
    then show ?thesis unfolding abi_sighold_def using change_mask_keeps [OF priv] by (elim after_signo_cases) auto
  next
    case 4
    then show ?thesis unfolding abi_sigrelse_def using change_mask_keeps [OF priv] by (elim after_signo_cases) auto
  next
    case 5
    then show ?thesis unfolding abi_sigignore_def
      by (elim after_signo_cases) (auto simp: check_error_def Let_def dest: fail_with_state sigsys_keeps(1) [OF priv] split: prod.splits if_splits)
  next
    case 6
    then show ?thesis unfolding abi_sigpause_def
      by (elim after_signo_cases) (auto simp: check_error_def Let_def dest: fail_with_state sigsys_keeps(3) [OF priv] split: prod.splits if_splits)
  qed simp
qed

lemma sigaction_keeps:
  "segv_private ksys segv \<Longrightarrow> abi_sigaction d (linux26_sigsys ksys) sig act want s = Some (e, old, s')
   \<Longrightarrow> segv (sigkern s') = segv (sigkern s)"
  by (auto simp: abi_sigaction_def Let_def dest: sigsys_keeps(1) split: if_splits bind_splits option.splits prod.splits)

lemma sigprocmask_keeps:
  "segv_private ksys segv \<Longrightarrow> abi_sigprocmask d (linux26_sigsys ksys) how v want s = Some (e, old, s')
   \<Longrightarrow> segv (sigkern s') = segv (sigkern s)"
  by (auto simp: abi_sigprocmask_def dest: sigsys_keeps(2) split: if_splits bind_splits option.splits prod.splits)

lemma sigcalls_keep:
  assumes "segv_private ksys segv"
  shows "kept_invariant (do_sigcall g d ksys) (\<lambda>s. segv (sigkern s) = v)"
proof
  fix s c r s'
  assume i: "segv (sigkern s) = v" and c: "do_sigcall g d ksys c s = Some (r, s')"
  have "segv (sigkern s') = segv (sigkern s)"
    using c assms
    by (cases c) (auto simp: do_sigcall_def abi_sigsuspend_def linux26_signal_def Let_def rt_sigaction_keeps case_prod_beta
      dest: sigfunc_keeps sigaction_keeps sigprocmask_keeps intro: sigsys_keeps(4) [OF _ prod.collapse [symmetric]])
  with i show "segv (sigkern s') = v" by simp
qed

section \<open>Properties\<close>

text \<open>
  C10: Once the emulator has installed its handler for \<open>SIGSEGV\<close>, no sequence of signal calls of a program, in
  any personality and by any way into the emulator, changes it.
\<close>

theorem segv_handler_kept:
  assumes "segv_private ksys segv" "\<And>act k. segv (snd (snd (rt_sigaction ksys SIGSEGV (Some act) k))) = act"
    "sysent_initialise handler ksys k = Some k'" "sigkern s = k'" "runs (do_sigcall g d ksys) calls s = Some (rs, s')"
  shows "k_handler (segv (sigkern s')) = handler"
proof -
  let ?act = "\<lparr>k_handler = handler, k_flags = SA_SIGINFO OR SA_RESTORER, k_mask = - 1\<rparr>"
  have "segv k' = ?act"
    using assms(2) [of ?act k] assms(3) by (auto simp: sysent_initialise_def ibcs_sigaction_def Let_def split: prod.splits if_splits)
  then have "segv (sigkern s') = ?act"
    using kept_invariant.runs_kept [OF sigcalls_keep [OF assms(1)] _ assms(5)] assms(4) by simp
  then show ?thesis by simp
qed

text \<open>
  C15: The action for \<open>SIGSEGV\<close> that a program sets with \<open>sigaction\<close> is not given to the kernel, but a fault that
  is no far call into the emulator makes the emulator's handler call exactly the program's handler: also
  when that is \<open>SIG_IGN\<close> or \<open>SIG_DFL\<close>, which are then called as functions at the addresses 1 and 0.
\<close>

theorem segv_reaches_program:
  assumes "abi_mapsig d sig = SIGSEGV" "map_sigvec_to_kernel (svr4_sa_mask sa) (nth (signal_map d)) = Some v"
    "lcall_gate_at mem ip = None"
  shows "\<exists>old s'. abi_sigaction d (linux26_sigsys ksys) sig (Some sa) want s = Some (0, old, s') \<and> sigkern s' = sigkern s
    \<and> lcall_sigsegv ibcs_lcall \<lparr>sa_handler = k_handler (sigtab s' 11), sa_flags = k_flags (sigtab s' 11)\<rparr> mem ip
      = Call_siginfo (svr4_sa_handler sa)"
proof -
  have "sa_flags_to_linux f AND SA_SIGINFO \<noteq> 0" for f
    using and_exp_eq_0_iff_not_bit [of "sa_flags_to_linux f" 2] by (simp add: SA_SIGINFO_def bit_to_linux)
  then show ?thesis
    using assms by (simp add: abi_sigaction_def linux26_sigsys_def linux26_rt_sigaction_def SIGSEGV_def sigtab_size_def
      lcall_sigsegv_def Let_def)
qed

text \<open>The kernel of the witnesses keeps a table of actions.\<close>

lemma plain_segv_private: "segv_private plain_kernel (\<lambda>k. fst k 11)"
  by (auto simp: segv_private_def plain_kernel_def SIGSEGV_def split: prod.splits option.splits)

text \<open>A gate whose stack is all zeros.\<close>

definition quiet_gate :: "((u32 \<Rightarrow> ksigaction) \<times> u64) sigst gate" where
  "quiet_gate = \<lparr>peek = \<lambda>a k. 0, kernel_call = \<lambda>n args k. (0, k), c_call = \<lambda>f args k. (0, k),
     spl_call = \<lambda>f regs k. (0, regs, k), fast_call = \<lambda>f regs k. (regs, k), err_map = None\<rparr>"

definition started :: "((u32 \<Rightarrow> ksigaction) \<times> u64) sigst" where
  "started = \<lparr>sigtab = \<lambda>_. \<lparr>k_handler = 0, k_flags = 0, k_mask = 0\<rparr>, sigkern = the (sysent_initialise 0x5000 plain_kernel plain_state)\<rparr>"

end
