(* ===== verification/Umem.thy ===== *)
theory Umem
  imports Lcall
begin

text \<open>
  The memory of the program a personality runs, as the functions of
  \<^verbatim>\<open>src/include/ibcs-us/linux26-compat/asm/uaccess.h\<close> read and write it: \<open>get_user\<close> and \<open>put_user\<close> of a
  32-bit or 16-bit field are loads and stores, \<open>copy_from_user\<close> and \<open>copy_to_user\<close> move bytes; none of them
  ever fails, because the program and the emulator share one address space.
\<close>

type_synonym umem = "u32 \<Rightarrow> u8"

text \<open>The memory and the rest of the system.\<close>

record 'k ust =
  um :: umem
  ks :: 'k

definition copy_from_user :: "umem \<Rightarrow> u32 \<Rightarrow> nat \<Rightarrow> u8 list" where
  "copy_from_user m from_user n = map (\<lambda>i. m (from_user + of_nat i)) [0..<n]"

primrec copy_to_user :: "umem \<Rightarrow> u32 \<Rightarrow> u8 list \<Rightarrow> umem" where
  "copy_to_user m to_user [] = m"
| "copy_to_user m to_user (b # bs) = copy_to_user (m(to_user := b)) (to_user + 1) bs"

lemma length_copy_from_user [simp]: "length (copy_from_user m a n) = n"
  by (simp add: copy_from_user_def)

lemma nth_copy_from_user: "i < n \<Longrightarrow> copy_from_user m a n ! i = m (a + of_nat i)"
  by (simp add: copy_from_user_def)

text \<open>Two ranges of memory without a common byte: the distance both ways around is at least the length.\<close>

lemma copy_to_user_outside:
  assumes "of_nat (length bs) \<le> x - a" "length bs < 2 ^ 32"
  shows "copy_to_user m a bs x = m x"
  using assms
proof (induction bs arbitrary: m a)
  case (Cons b bs)
  have l: "unat (of_nat (Suc (length bs)) :: u32) = Suc (length bs)"
    using Cons.prems(2) by (simp add: unat_of_nat_u32 del: of_nat_Suc)
  have "Suc (length bs) \<le> unat (x - a)" using Cons.prems(1) l by (simp add: word_le_nat_alt del: of_nat_Suc)
  moreover then have "unat (x - (a + 1)) = unat (x - a) - 1"
    by (simp add: diff_diff_eq [symmetric] unat_sub word_le_nat_alt)
  moreover have "unat (of_nat (length bs) :: u32) = length bs"
    using Cons.prems(2) by (simp add: unat_of_nat_u32)
  ultimately have "of_nat (length bs) \<le> x - (a + 1)" by (simp add: word_le_nat_alt)
  moreover have "x \<noteq> a" using \<open>Suc (length bs) \<le> unat (x - a)\<close> by auto
  ultimately show ?case using Cons.IH [of "a + 1"] Cons.prems(2) by simp
qed simp

lemma copy_to_user_inside:
  assumes "i < length bs" "length bs < 2 ^ 32"
  shows "copy_to_user m a bs (a + of_nat i) = bs ! i"
  using assms
proof (induction bs arbitrary: m a i)
  case (Cons b bs)
  show ?case
  proof (cases i)
    case 0
    have "of_nat (length bs) \<le> a - (a + 1)"
      using Cons.prems(2) by (simp add: word_le_nat_alt unat_of_nat_u32 unsigned_minus_1_eq_mask mask_eq_exp_minus_1)
    then show ?thesis using copy_to_user_outside [of bs a "a + 1"] Cons.prems(2) 0 by simp
  next
    case (Suc j)
    then show ?thesis using Cons.IH [of j "m(a := b)" "a + 1"] Cons.prems by (simp add: ac_simps del: fun_upd_apply)
  qed
qed simp

text \<open>A store of one field leaves what is behind and before it.\<close>

lemma store32_outside: "4 \<le> x - a \<Longrightarrow> store32 m a v x = m x"
proof -
  assume "4 \<le> x - a"
  then have "x \<noteq> a" "x \<noteq> a + 1" "x \<noteq> a + 2" "x \<noteq> a + 3" by (auto simp: word_le_nat_alt)
  then show ?thesis by (simp add: store32_def)
qed

lemma store16_outside: "2 \<le> x - a \<Longrightarrow> store16 m a v x = m x"
proof -
  assume "2 \<le> x - a"
  then have "x \<noteq> a" "x \<noteq> a + 1" by (auto simp: word_le_nat_alt)
  then show ?thesis by (simp add: store16_def)
qed

lemma load32_cong: "(\<And>i. i < 4 \<Longrightarrow> m (a + of_nat i) = m' (a + of_nat i)) \<Longrightarrow> load32 m a = load32 m' a"
proof -
  assume eq: "\<And>i. i < 4 \<Longrightarrow> m (a + of_nat i) = m' (a + of_nat i)"
  show ?thesis using eq [of 0] eq [of 1] eq [of 2] eq [of 3] by (simp add: load32_def)
qed

text \<open>Writing back what was read writes the bytes.\<close>

lemma load16_bytes: "ucast (load16 m a) = m a" "ucast (drop_bit 8 (load16 m a)) = m (a + 1)"
  by (rule bit_word_eqI; auto simp: load16_def bit_simps dest: bit_imp_le_length)+

lemma load32_bytes:
  "ucast (load32 m a) = m a" "ucast (drop_bit 8 (load32 m a)) = m (a + 1)"
  "ucast (drop_bit 16 (load32 m a)) = m (a + 2)" "ucast (drop_bit 24 (load32 m a)) = m (a + 3)"
  by (rule bit_word_eqI; auto simp: load32_def bit_simps dest: bit_imp_le_length)+

lemma store16_load16: "store16 m a (load16 m' b) = m(a := m' b, a + 1 := m' (b + 1))"
  by (simp add: store16_def load16_bytes)

lemma store32_load32: "store32 m a (load32 m' b) = m(a := m' b, a + 1 := m' (b + 1), a + 2 := m' (b + 2), a + 3 := m' (b + 3))"
  by (simp add: store32_def load32_bytes)

lemma load16_store16: "load16 (store16 m a v) a = v"
  by (rule bit_word_eqI) (auto simp: load16_def store16_def bit_simps)

lemma load16_eqI: "m a = ucast v \<Longrightarrow> m (a + 1) = ucast (drop_bit 8 v) \<Longrightarrow> load16 m a = v"
  by (rule bit_word_eqI) (auto simp: load16_def bit_simps)

lemma load32_eqI:
  assumes "m a = ucast v" "m (a + 1) = ucast (drop_bit 8 v)" "m (a + 2) = ucast (drop_bit 16 v)" "m (a + 3) = ucast (drop_bit 24 v)"
  shows "load32 m a = v"
  using load32_store32 [of m a v] assms by (simp add: load32_def store32_def)

end
