(* ===== verification/Svr4_Termios.thy ===== *)
theory Svr4_Termios
  imports Umem
begin

text \<open>
  The terminal calls of the System V personalities, \<^verbatim>\<open>src/per-svr4/termios.c\<close>: the \<open>ioctl\<close>s on the
  structures \<open>termio\<close>, \<open>termios\<close> and \<open>termiox\<close>, and the BSD and V7 ones on \<open>bsd_termios\<close>, \<open>sgttyb\<close>,
  \<open>tchars\<close> and \<open>ltchars\<close>. Each is translated to the native \<open>termios\<close> and back.

  The native terminal is the record \<open>tty\<close>: the \<open>ioctl\<close>s on a native structure by value, the others with the
  argument the program gave, which may be an address in its memory.
\<close>

section \<open>Native structures\<close>

record termio =
  c_iflag16 :: u16
  c_oflag16 :: u16
  c_cflag16 :: u16
  c_lflag16 :: u16
  c_line16 :: u8
  c_cc16 :: "nat \<Rightarrow> u8"
  c_pad16 :: u8

record termios =
  c_iflag :: u32
  c_oflag :: u32
  c_cflag :: u32
  c_lflag :: u32
  c_line :: u8
  c_cc :: "nat \<Rightarrow> u8"

record 'k tty =
  tty_geta :: "u32 \<Rightarrow> 'k \<Rightarrow> u32 \<times> termio \<times> 'k"
  tty_seta :: "u32 \<Rightarrow> u32 \<Rightarrow> termio \<Rightarrow> 'k \<Rightarrow> u32 \<times> 'k"
  tty_gets :: "u32 \<Rightarrow> 'k \<Rightarrow> u32 \<times> termios \<times> 'k"
  tty_sets :: "u32 \<Rightarrow> u32 \<Rightarrow> termios \<Rightarrow> 'k \<Rightarrow> u32 \<times> 'k"
  tty_getd :: "u32 \<Rightarrow> 'k \<Rightarrow> u32 \<times> u32 \<times> 'k"
  tty_setd :: "u32 \<Rightarrow> u32 \<Rightarrow> 'k \<Rightarrow> u32 \<times> 'k"
  tty_ioctl :: "u32 \<Rightarrow> u32 \<Rightarrow> u32 \<Rightarrow> 'k ust \<Rightarrow> u32 \<times> 'k ust"

text \<open>The requests of the native \<open>ioctl\<close>, \<^verbatim>\<open>asm/ioctls.h\<close>.\<close>

definition TCGETS :: u32 where "TCGETS = 0x5401"
definition TCSETS :: u32 where "TCSETS = 0x5402"
definition TCSETSW :: u32 where "TCSETSW = 0x5403"
definition TCSETSF :: u32 where "TCSETSF = 0x5404"
definition TCSETA :: u32 where "TCSETA = 0x5406"
definition TCSETAW :: u32 where "TCSETAW = 0x5407"
definition TCSETAF :: u32 where "TCSETAF = 0x5408"
definition TCSBRK :: u32 where "TCSBRK = 0x5409"
definition TCXONC :: u32 where "TCXONC = 0x540A"
definition TCFLSH :: u32 where "TCFLSH = 0x540B"
definition TIOCEXCL :: u32 where "TIOCEXCL = 0x540C"
definition TIOCNXCL :: u32 where "TIOCNXCL = 0x540D"
definition TIOCSCTTY :: u32 where "TIOCSCTTY = 0x540E"
definition TIOCGPGRP :: u32 where "TIOCGPGRP = 0x540F"
definition TIOCSPGRP :: u32 where "TIOCSPGRP = 0x5410"
definition TIOCGWINSZ :: u32 where "TIOCGWINSZ = 0x5413"
definition TIOCSWINSZ :: u32 where "TIOCSWINSZ = 0x5414"
definition TIOCNOTTY :: u32 where "TIOCNOTTY = 0x5422"
definition TIOCSETD :: u32 where "TIOCSETD = 0x5423"
definition TIOCGETD :: u32 where "TIOCGETD = 0x5424"

text \<open>The bits of the native flags, \<^verbatim>\<open>asm/termbits.h\<close>.\<close>

definition CRTSCTS :: u32 where "CRTSCTS = 0x80000000"
definition CBAUD :: u32 where "CBAUD = 0x100F"
definition CIBAUD :: u32 where "CIBAUD = 0x100F0000"
definition B38400 :: u32 where "B38400 = 0xF"
definition B57600 :: u32 where "B57600 = 0x1001"
definition B115200 :: u32 where "B115200 = 0x1002"
definition HUPCL :: u32 where "HUPCL = 0x400"
definition PARENB :: u32 where "PARENB = 0x100"
definition PARODD :: u32 where "PARODD = 0x200"
definition OPOST :: u32 where "OPOST = 1"
definition ONLCR :: u32 where "ONLCR = 4"
definition NL1 :: u32 where "NL1 = 0x100"
definition CRDLY :: u32 where "CRDLY = 0x600"
definition TABDLY :: u32 where "TABDLY = 0x1800"
definition BSDLY :: u32 where "BSDLY = 0x2000"
definition VTDLY :: u32 where "VTDLY = 0x4000"
definition ICRNL :: u32 where "ICRNL = 0x100"
definition IXON :: u32 where "IXON = 0x400"
definition ISIG :: u32 where "ISIG = 1"
definition ICANON :: u32 where "ICANON = 2"
definition XCASE :: u32 where "XCASE = 4"
definition ECHO :: u32 where "ECHO = 8"
definition ECHOE :: u32 where "ECHOE = 0x10"
definition ECHOK :: u32 where "ECHOK = 0x20"
definition ECHOCTL :: u32 where "ECHOCTL = 0x200"
definition ECHOKE :: u32 where "ECHOKE = 0x800"
definition IEXTEN :: u32 where "IEXTEN = 0x8000"

text \<open>The indices of the control characters.\<close>

definition VINTR :: nat where "VINTR = 0"
definition VQUIT :: nat where "VQUIT = 1"
definition VERASE :: nat where "VERASE = 2"
definition VKILL :: nat where "VKILL = 3"
definition VEOF :: nat where "VEOF = 4"
definition VTIME :: nat where "VTIME = 5"
definition VMIN :: nat where "VMIN = 6"
definition VSWTC :: nat where "VSWTC = 7"
definition VSTART :: nat where "VSTART = 8"
definition VSTOP :: nat where "VSTOP = 9"
definition VSUSP :: nat where "VSUSP = 10"
definition VEOL :: nat where "VEOL = 11"
definition VREPRINT :: nat where "VREPRINT = 12"
definition VDISCARD :: nat where "VDISCARD = 13"
definition VWERASE :: nat where "VWERASE = 14"
definition VLNEXT :: nat where "VLNEXT = 15"
definition VEOL2 :: nat where "VEOL2 = 16"

section \<open>\<open>termio\<close>\<close>

text \<open>\<open>struct svr_termio\<close> and the native \<open>struct termio\<close> have the same layout of 18 bytes.\<close>

definition load_termio :: "umem \<Rightarrow> u32 \<Rightarrow> termio" where
  "load_termio m it = \<lparr>c_iflag16 = load16 m it, c_oflag16 = load16 m (it + 2), c_cflag16 = load16 m (it + 4),
     c_lflag16 = load16 m (it + 6), c_line16 = m (it + 8), c_cc16 = (\<lambda>i. m (it + 9 + of_nat i)), c_pad16 = m (it + 17)\<rparr>"

definition store_termio :: "umem \<Rightarrow> u32 \<Rightarrow> termio \<Rightarrow> umem" where
  "store_termio m it t = copy_to_user
     (store16 (store16 (store16 (store16 m it (c_iflag16 t)) (it + 2) (c_oflag16 t)) (it + 4) (c_cflag16 t)) (it + 6) (c_lflag16 t))
     (it + 8) (c_line16 t # map (c_cc16 t) [0..<8] @ [c_pad16 t])"

definition svr_to_linux_termio :: "'k tty \<Rightarrow> u32 \<Rightarrow> u32 \<Rightarrow> u32 \<Rightarrow> 'k ust \<Rightarrow> u32 \<times> 'k ust" where
  "svr_to_linux_termio d fd opn it s =
     (let (error, t, k) = tty_geta d fd (ks s)
      in if error \<noteq> 0 then (error, s\<lparr>ks := k\<rparr>)
         else let eof = c_cc16 t 4;
                  t = load_termio (um s) it;
                  t = (if c_lflag16 t AND 2 = 0 then t\<lparr>c_cc16 := (c_cc16 t)(6 := c_cc16 t 4, 4 := eof)\<rparr> else t);
                  t = (if c_cflag16 t AND 0x8000 \<noteq> 0 then t\<lparr>c_cflag16 := c_cflag16 t OR ucast CRTSCTS\<rparr> else t);
                  t = t\<lparr>c_cflag16 := c_cflag16 t AND NOT 0xF000\<rparr>;
                  (error, k) = tty_seta d fd opn t k
              in (error, s\<lparr>ks := k\<rparr>))"

definition linux_to_svr_termio :: "'k tty \<Rightarrow> u32 \<Rightarrow> u32 \<Rightarrow> 'k ust \<Rightarrow> u32 \<times> 'k ust" where
  "linux_to_svr_termio d fd it s =
     (let (error, t, k) = tty_geta d fd (ks s)
      in if error \<noteq> 0 then (error, s\<lparr>ks := k\<rparr>)
         else let t = (if c_lflag16 t AND 2 = 0 then t\<lparr>c_cc16 := (c_cc16 t)(4 := c_cc16 t 6)\<rparr> else t)
              in (0, \<lparr>um = store_termio (um s) it t, ks = k\<rparr>))"

section \<open>\<open>termios\<close>\<close>

text \<open>
  \<open>struct svr4_termios\<close>: four words of flags and 19 control characters at offset 16. The local flags are
  translated on the way in and out; \<open>r\<close> is the 16-bit variable the new ones are read into.
\<close>

definition svr4_lflag_in :: "u32 \<Rightarrow> u16 \<Rightarrow> u32 \<times> bool" where
  "svr4_lflag_in old r =
     (let lflag = (ucast old :: u16);
          t = old AND NOT 0x81FF;
          t = t OR ucast r;
          excl = t AND 0x8000 \<noteq> 0;
          t = t AND NOT 0x8000;
          t = t OR push_bit 7 (t AND 0x100);
          t = t AND NOT 0x100;
          t = t OR drop_bit 1 (t AND 0x200);
          t = t AND NOT 0x200;
          t = t OR ucast (lflag AND 0x200)
      in (t, excl))"

definition svr4_lflag_out :: "u32 \<Rightarrow> u32" where
  "svr4_lflag_out t =
     (let t = t AND NOT 0x200;
          t = t OR push_bit 1 (t AND 0x100);
          t = t AND NOT 0x100;
          t = t OR drop_bit 7 (t AND 0x8000)
      in t AND NOT 0x8000)"

definition svr4_cflag_in :: "u32 \<Rightarrow> u32" where
  "svr4_cflag_in c = (if c AND 0x8000 \<noteq> 0 then c OR CRTSCTS else c) AND NOT 0xF000"

definition svr4_cc_in :: "u32 \<Rightarrow> (nat \<Rightarrow> u8) \<Rightarrow> (nat \<Rightarrow> u8) \<Rightarrow> nat \<Rightarrow> u8" where
  "svr4_cc_in lflag svr4_cc cc =
     (let cc = cc(0 := svr4_cc 0, 1 := svr4_cc 1, 2 := svr4_cc 2, 3 := svr4_cc 3, 7 := svr4_cc 7, 8 := svr4_cc 8,
            9 := svr4_cc 9, 10 := svr4_cc 10, 12 := svr4_cc 12, 13 := svr4_cc 13, 14 := svr4_cc 14, 15 := svr4_cc 15,
            16 := svr4_cc 16)
      in if lflag AND ICANON \<noteq> 0 then cc(4 := svr4_cc 4, 11 := svr4_cc 5)
         else cc(5 := svr4_cc 5, 6 := svr4_cc 4, 11 := svr4_cc 6))"

definition svr4_to_linux_termios :: "'k tty \<Rightarrow> u32 \<Rightarrow> u32 \<Rightarrow> u32 \<Rightarrow> 'k ust \<Rightarrow> u32 \<times> 'k ust" where
  "svr4_to_linux_termios d fd opn it s =
     (let (error, t, k) = tty_gets d fd (ks s);
          s = s\<lparr>ks := k\<rparr>
      in if error \<noteq> 0 then (error, s)
         else let t = t\<lparr>c_iflag := load32 (um s) it AND NOT 0x8000\<rparr>;
                  t = t\<lparr>c_oflag := load32 (um s) (it + 4)\<rparr>;
                  t = t\<lparr>c_cflag := svr4_cflag_in (load32 (um s) (it + 8))\<rparr>;
                  (lflag, excl) = svr4_lflag_in (c_lflag t) (ucast (load32 (um s) (it + 12)));
                  t = t\<lparr>c_lflag := lflag\<rparr>;
                  (_, s) = tty_ioctl d fd (if excl then TIOCEXCL else TIOCNXCL) 0 s;
                  svr4_cc = nth (copy_from_user (um s) (it + 16) 19);
                  t = t\<lparr>c_cc := svr4_cc_in (c_lflag t) svr4_cc (c_cc t)\<rparr>;
                  (error, k) = tty_sets d fd opn t (ks s)
              in (error, s\<lparr>ks := k\<rparr>))"

text \<open>
  The function only reads with \<open>TCGETS\<close>. The last three bytes of its array \<open>svr4_cc\<close> are never set;
  they are the argument \<open>junk\<close>.
\<close>

definition svr4_cc_out :: "u32 \<Rightarrow> u8 list \<Rightarrow> (nat \<Rightarrow> u8) \<Rightarrow> u8 list" where
  "svr4_cc_out lflag junk cc =
     [cc 0, cc 1, cc 2, cc 3,
      if lflag AND ICANON \<noteq> 0 then cc 4 else cc 6,
      if lflag AND ICANON \<noteq> 0 then cc 11 else cc 5,
      cc 16, cc 7, cc 8, cc 9, cc 10, cc 10, cc 12, cc 13, cc 14, cc 15] @ junk"

definition svr4_cflag_out :: "u32 \<Rightarrow> u32" where
  "svr4_cflag_out c = (if c AND CRTSCTS \<noteq> 0 then c OR 0x8000 else c) AND 0xFFFF"

definition linux_to_svr4_termios :: "'k tty \<Rightarrow> u8 list \<Rightarrow> u32 \<Rightarrow> u32 \<Rightarrow> 'k ust \<Rightarrow> u32 \<times> 'k ust" where
  "linux_to_svr4_termios d junk fd it s =
     (let (error, t, k) = tty_gets d fd (ks s);
          s = s\<lparr>ks := k\<rparr>
      in if error \<noteq> 0 then (error, s)
         else let m = store32 (um s) it (c_iflag t AND 0x1FFF);
                  m = store32 m (it + 4) (c_oflag t AND 0xFFFF);
                  m = store32 m (it + 8) (svr4_cflag_out (c_cflag t));
                  t = t\<lparr>c_lflag := svr4_lflag_out (c_lflag t)\<rparr>;
                  m = store32 m (it + 12) (c_lflag t AND 0x3FF);
                  m = copy_to_user m (it + 16) (svr4_cc_out (c_lflag t) junk (c_cc t))
              in (0, s\<lparr>um := m\<rparr>))"

definition plain_value :: "u32 \<Rightarrow> 'k ust \<Rightarrow> u32 \<times> 'k ust" where
  "plain_value v s = (v, s)"

definition svr4_term_ioctl :: "'k tty \<Rightarrow> u8 list \<Rightarrow> u32 \<Rightarrow> u32 \<Rightarrow> u32 \<Rightarrow> 'k ust \<Rightarrow> u32 \<times> 'k ust" where
  "svr4_term_ioctl d junk fd cmd data =
     (if cmd = 1 then linux_to_svr_termio d fd data
      else if cmd = 2 then svr_to_linux_termio d fd TCSETA data
      else if cmd = 3 then svr_to_linux_termio d fd TCSETAW data
      else if cmd = 4 then svr_to_linux_termio d fd TCSETAF data
      else if cmd = 5 then tty_ioctl d fd TCSBRK data
      else if cmd = 6 then tty_ioctl d fd TCXONC data
      else if cmd = 7 then tty_ioctl d fd TCFLSH data
      else if cmd = 8 \<or> cmd = 9 \<or> cmd = 10 then plain_value (- EINVAL)
      else if cmd = 13 then linux_to_svr4_termios d junk fd data
      else if cmd = 14 then svr4_to_linux_termios d fd TCSETS data
      else if cmd = 15 then svr4_to_linux_termios d fd TCSETSW data
      else if cmd = 16 then svr4_to_linux_termios d fd TCSETSF data
      else if cmd = 20 then tty_ioctl d fd TIOCSPGRP data
      else if cmd = 21 then tty_ioctl d fd TIOCGPGRP data
      else if cmd = 34 then plain_value 4
      else if cmd = 35 then plain_value 0
      else if cmd = 103 then tty_ioctl d fd TIOCSWINSZ data
      else if cmd = 104 then tty_ioctl d fd TIOCGWINSZ data
      else if cmd = 118 then tty_ioctl d fd TIOCSPGRP data
      else if cmd = 119 then tty_ioctl d fd TIOCGPGRP data
      else plain_value (- EINVAL))"

section \<open>\<open>termiox\<close>\<close>

definition RTSXOFF :: u16 where "RTSXOFF = 1"
definition CTSXON :: u16 where "CTSXON = 2"

text \<open>\<open>struct termiox\<close>: \<open>x_hflag\<close>, \<open>x_cflag\<close>, five of \<open>x_rflag\<close> and \<open>x_sflag\<close>, of 16 bits each.\<close>

definition store_termiox :: "umem \<Rightarrow> u32 \<Rightarrow> u16 \<Rightarrow> umem" where
  "store_termiox m data x_hflag = copy_to_user (store16 m data x_hflag) (data + 2) (replicate 14 0)"

definition termiox_plain :: "umem \<Rightarrow> u32 \<Rightarrow> bool" where
  "termiox_plain m data \<longleftrightarrow>
     (load16 m data = 0 \<or> load16 m data = RTSXOFF OR CTSXON)
     \<and> list_all (\<lambda>i. load16 m (data + of_nat (2 * i)) = 0) [1..<8]"

definition svr4_termiox_ioctl :: "'k tty \<Rightarrow> u32 \<Rightarrow> u32 \<Rightarrow> u32 \<Rightarrow> 'k ust \<Rightarrow> u32 \<times> 'k ust" where
  "svr4_termiox_ioctl d fd cmd data s =
     (if cmd < 1 \<or> 4 < cmd then (- EINVAL, s)
      else let (error, t, k) = tty_gets d fd (ks s);
               s = s\<lparr>ks := k\<rparr>
           in if error \<noteq> 0 then (error, s)
              else if cmd = 1
              then (0, s\<lparr>um := store_termiox (um s) data (if c_cflag t AND CRTSCTS \<noteq> 0 then RTSXOFF OR CTSXON else 0)\<rparr>)
              else if \<not> termiox_plain (um s) data then (- EINVAL, s)
              else let t = t\<lparr>c_cflag := (if load16 (um s) data \<noteq> 0 then c_cflag t OR CRTSCTS else c_cflag t AND NOT CRTSCTS)\<rparr>;
                       (error, k) = tty_sets d fd (if cmd = 2 then TCSETS else if cmd = 3 then TCSETSW else TCSETSF) t (ks s)
                   in (error, s\<lparr>ks := k\<rparr>))"

section \<open>\<open>bsd_termios\<close>\<close>

definition speed_map :: "u32 list" where
  "speed_map = [0, 50, 75, 110, 134, 150, 200, 300, 600, 1200, 1800, 2400, 4800, 9600, 19200, 38400]"

function bsd_to_linux_speed_loop :: "u32 \<Rightarrow> nat \<Rightarrow> u32" where
  "bsd_to_linux_speed_loop s i =
     (if i < length speed_map
      then if s \<le> speed_map ! i then of_nat i else bsd_to_linux_speed_loop s (i + 1)
      else B38400)"
  by pat_completeness auto
termination
  by (relation "measure (\<lambda>(s, i). length speed_map - i)") auto

definition bsd_to_linux_speed :: "u32 \<Rightarrow> u32" where
  "bsd_to_linux_speed s = (if s = 57600 then B57600 else if s = 115200 then B115200 else bsd_to_linux_speed_loop s 0)"

text \<open>\<open>None\<close> is a read behind the table.\<close>

definition linux_to_bsd_speed :: "u32 \<Rightarrow> u32 option" where
  "linux_to_bsd_speed s =
     (if s = B57600 then Some 57600 else if s = B115200 then Some 115200
      else if unat s < length speed_map then Some (speed_map ! unat s) else None)"

definition bsd_iflag_in :: "u32 \<Rightarrow> u32" where
  "bsd_iflag_in f = (f AND NOT 0xC00) OR push_bit 1 (f AND 0x400) OR drop_bit 1 (f AND 0x800)"

definition bsd_oflag_in :: "u32 \<Rightarrow> u32 \<Rightarrow> u32" where
  "bsd_oflag_in old temp = (old AND NOT 0x1805) OR (temp AND 9) OR push_bit 1 (temp AND 2)
     OR push_bit 10 (temp AND 4) OR push_bit 9 (temp AND 4)"

definition bsd_cflag_in :: "u32 \<Rightarrow> u32 \<Rightarrow> u32 \<Rightarrow> u32 \<Rightarrow> u32" where
  "bsd_cflag_in old temp ospeed ispeed =
     (let c = (old AND NOT 0xFFF) OR drop_bit 4 (temp AND 0xFF00);
          c = (if c AND 0x30000 \<noteq> 0 then c OR 0x80000000 else c)
      in c OR bsd_to_linux_speed ospeed OR push_bit 16 (bsd_to_linux_speed ispeed))"

definition bsd_lflag_in :: "u32 \<Rightarrow> u32 \<Rightarrow> u32" where
  "bsd_lflag_in old temp = (old AND NOT 0xDFB3) OR push_bit 12 (temp AND 1) OR push_bit 3 (temp AND 0x46)
     OR push_bit 5 (temp AND 0x420) OR drop_bit 7 (temp AND 0x180) OR drop_bit 14 (temp AND 0x400000)
     OR drop_bit 11 (temp AND 0x2800000) OR drop_bit 24 (temp AND 0x80000000)"

definition bsd_cc_in :: "(nat \<Rightarrow> u8) \<Rightarrow> (nat \<Rightarrow> u8) \<Rightarrow> nat \<Rightarrow> u8" where
  "bsd_cc_in bsd_cc cc = cc(VEOF := bsd_cc 0, VEOL := bsd_cc 1, VEOL2 := bsd_cc 2, VERASE := bsd_cc 3, VWERASE := bsd_cc 4,
     VKILL := bsd_cc 5, VREPRINT := bsd_cc 6, VSWTC := bsd_cc 7, VINTR := bsd_cc 8, VQUIT := bsd_cc 9, VSUSP := bsd_cc 10,
     VSTART := bsd_cc 12, VSTOP := bsd_cc 13, VLNEXT := bsd_cc 14, VDISCARD := bsd_cc 15, VMIN := bsd_cc 16, VTIME := bsd_cc 17)"

definition bsd_to_linux_termios :: "'k tty \<Rightarrow> u32 \<Rightarrow> u32 \<Rightarrow> u32 \<Rightarrow> 'k ust \<Rightarrow> u32 \<times> 'k ust" where
  "bsd_to_linux_termios d fd opn it s =
     (let (error, t, k) = tty_gets d fd (ks s);
          s = s\<lparr>ks := k\<rparr>;
          m = um s
      in if error \<noteq> 0 then (error, s)
         else let t = t\<lparr>c_iflag := bsd_iflag_in (load32 m it),
                        c_oflag := bsd_oflag_in (c_oflag t) (load32 m (it + 4)),
                        c_cflag := bsd_cflag_in (c_cflag t) (load32 m (it + 8)) (load32 m (it + 40)) (load32 m (it + 36)),
                        c_lflag := bsd_lflag_in (c_lflag t) (load32 m (it + 12)),
                        c_cc := bsd_cc_in (nth (copy_from_user m (it + 16) 20)) (c_cc t)\<rparr>;
                  (error, k) = tty_sets d fd opn t (ks s)
              in (error, s\<lparr>ks := k\<rparr>))"

definition bsd_iflag_out :: "u32 \<Rightarrow> u32" where
  "bsd_iflag_out f = (f AND 0x1FF) OR drop_bit 1 (f AND 0x400) OR drop_bit 2 (f AND 0x1000) OR drop_bit 4 (f AND 0x2000)"

definition bsd_oflag_out :: "u32 \<Rightarrow> u32" where
  "bsd_oflag_out f = (f AND 1) OR drop_bit 1 (f AND 4) OR (if f AND 0x1800 = 0x1800 then 4 else 0)"

definition bsd_cflag_out :: "u32 \<Rightarrow> u32" where
  "bsd_cflag_out f = (f AND NOT 0x80000FFF) OR push_bit 4 (f AND 0xFF0) OR (if f AND 0x80000000 \<noteq> 0 then 0x30000 else 0)"

definition bsd_lflag_out :: "u32 \<Rightarrow> u32" where
  "bsd_lflag_out f = (f AND 0x3FFF2C08) OR push_bit 7 (f AND 3) OR drop_bit 3 (f AND 0x270) OR push_bit 14 (f AND 0x100)
     OR drop_bit 4 (f AND 0x400) OR drop_bit 11 (f AND 0x800) OR push_bit 11 (f AND 0x1000)
     OR push_bit 15 (f AND 0x4000) OR drop_bit 5 (f AND 0x8000)"

definition bsd_cc_out :: "(nat \<Rightarrow> u8) \<Rightarrow> u8 list" where
  "bsd_cc_out cc = map cc [VEOF, VEOL, VEOL2, VERASE, VWERASE, VKILL, VREPRINT, VSWTC, VINTR, VQUIT, VSUSP, VSUSP, VSTART, VSTOP,
     VLNEXT, VDISCARD, VMIN, VTIME] @ [0, 0]"

text \<open>The function only reads with \<open>TCGETS\<close>.\<close>

definition linux_to_bsd_termios :: "'k tty \<Rightarrow> u32 \<Rightarrow> u32 \<Rightarrow> 'k ust \<Rightarrow> (u32 \<times> 'k ust) option" where
  "linux_to_bsd_termios d fd it s =
     (let (error, t, k) = tty_gets d fd (ks s);
          s = s\<lparr>ks := k\<rparr>
      in if error \<noteq> 0 then Some (error, s)
         else do {
           let m = store32 (um s) it (bsd_iflag_out (c_iflag t));
           let m = store32 m (it + 4) (bsd_oflag_out (c_oflag t));
           let m = store32 m (it + 8) (bsd_cflag_out (c_cflag t));
           ospeed \<leftarrow> linux_to_bsd_speed (c_cflag t AND CBAUD);
           let m = store32 m (it + 40) ospeed;
           ispeed \<leftarrow> linux_to_bsd_speed (if c_cflag t AND CIBAUD \<noteq> 0 then drop_bit 16 (c_cflag t AND CIBAUD) else c_cflag t AND CBAUD);
           let m = store32 m (it + 36) ispeed;
           let m = store32 m (it + 12) (bsd_lflag_out (c_lflag t));
           Some (0, s\<lparr>um := copy_to_user m (it + 16) (bsd_cc_out (c_cc t))\<rparr>)
         })"

section \<open>V7 structures\<close>

text \<open>
  \<open>struct v7_sgttyb\<close> has four bytes (input and output speed, erase and kill character) and a word of
  flags; \<open>struct v7_tchars\<close> and \<open>struct v7_ltchars\<close> have six characters each.
\<close>

definition sg_flags_out :: "termios \<Rightarrow> u32" where
  "sg_flags_out t =
     drop_bit 3 (c_cflag t AND PARODD) OR drop_bit 1 (c_cflag t AND PARENB)
     OR (if c_cflag t AND OPOST \<noteq> 0 then 0 else 0x200000)
     OR push_bit 2 (c_oflag t AND ONLCR) OR (c_oflag t AND (NL1 OR VTDLY))
     OR (if c_oflag t AND TABDLY \<noteq> 0 then 0x400 else 0)
     OR push_bit 3 (c_oflag t AND CRDLY) OR push_bit 2 (c_oflag t AND BSDLY)
     OR (c_lflag t AND (XCASE OR ECHO))
     OR (if c_lflag t AND ICANON \<noteq> 0 then 0 else if c_lflag t AND ISIG \<noteq> 0 then 2 else 0x20)"

definition sg_set :: "u8 \<Rightarrow> u8 \<Rightarrow> u32 \<Rightarrow> termios \<Rightarrow> termios" where
  "sg_set sg_erase sg_kill sg_flags t =
     (let t = t\<lparr>c_cc := (c_cc t)(VERASE := sg_erase, VKILL := sg_kill)\<rparr>;
          t = t\<lparr>c_iflag := ICRNL OR IXON, c_oflag := 0, c_lflag := ISIG OR ICANON\<rparr>;
          t = (if sg_flags AND 0x02 \<noteq> 0 then t\<lparr>c_lflag := c_lflag t AND NOT ICANON\<rparr> else t);
          t = (if sg_flags AND 0x08 \<noteq> 0
               then t\<lparr>c_lflag := c_lflag t OR (ECHO OR ECHOE OR ECHOK OR ECHOCTL OR ECHOKE OR IEXTEN)\<rparr> else t);
          t = (if sg_flags AND 0x10 \<noteq> 0 then t\<lparr>c_oflag := c_oflag t OR (OPOST OR ONLCR)\<rparr> else t);
          t = (if sg_flags AND 0x20 \<noteq> 0
               then t\<lparr>c_iflag := 0, c_lflag := c_lflag t AND NOT (ISIG OR ICANON)\<rparr> else t);
          t = (if sg_flags AND 0x200000 \<noteq> 0 then t\<lparr>c_oflag := c_oflag t AND NOT OPOST\<rparr> else t)
      in if c_lflag t AND ICANON = 0 then t\<lparr>c_cc := (c_cc t)(VMIN := 1, VTIME := 0)\<rparr> else t)"

definition tchars_set :: "(nat \<Rightarrow> u8) \<Rightarrow> termios \<Rightarrow> termios" where
  "tchars_set tc t = t\<lparr>c_cc := (c_cc t)(VINTR := tc 0, VQUIT := tc 1, VSTART := tc 2, VSTOP := tc 3, VEOF := tc 4, VEOL2 := tc 5)\<rparr>"

definition tchars_get :: "termios \<Rightarrow> u8 list" where
  "tchars_get t = map (c_cc t) [VINTR, VQUIT, VSTART, VSTOP, VEOF, VEOL2]"

definition ltchars_set :: "(nat \<Rightarrow> u8) \<Rightarrow> termios \<Rightarrow> termios" where
  "ltchars_set tc t = t\<lparr>c_cc := (c_cc t)(VSUSP := tc 0, VEOL2 := tc 1, VREPRINT := tc 2, VEOL2 := tc 3, VWERASE := tc 4, VLNEXT := tc 5)\<rparr>"

definition ltchars_get :: "termios \<Rightarrow> u8 list" where
  "ltchars_get t = map (c_cc t) [VSUSP, VSUSP, VREPRINT, VEOL2, VWERASE, VLNEXT]"

text \<open>The frame of the functions: read the native settings, then change them or report them.\<close>

definition change_termios :: "'k tty \<Rightarrow> u32 \<Rightarrow> (termios \<Rightarrow> termios) \<Rightarrow> 'k ust \<Rightarrow> u32 \<times> 'k ust" where
  "change_termios d fd f s =
     (let (error, t, k) = tty_gets d fd (ks s)
      in if error \<noteq> 0 then (error, s\<lparr>ks := k\<rparr>)
         else let (error, k) = tty_sets d fd TCSETS (f t) k in (error, s\<lparr>ks := k\<rparr>))"

definition report_termios :: "'k tty \<Rightarrow> u32 \<Rightarrow> (termios \<Rightarrow> umem \<Rightarrow> umem) \<Rightarrow> 'k ust \<Rightarrow> u32 \<times> 'k ust" where
  "report_termios d fd f s =
     (let (error, t, k) = tty_gets d fd (ks s)
      in if error \<noteq> 0 then (error, s\<lparr>ks := k\<rparr>) else (0, \<lparr>um = f t (um s), ks = k\<rparr>))"

definition bsd_ioctl_termios :: "'k tty \<Rightarrow> u32 \<Rightarrow> u32 \<Rightarrow> u32 \<Rightarrow> 'k ust \<Rightarrow> (u32 \<times> 'k ust) option" where
  "bsd_ioctl_termios d fd func data s =
     (let c = func AND 0xFF
      in if c = 0
         then let (error, ldisc, k) = tty_getd d fd (ks s);
                  s = s\<lparr>ks := k\<rparr>
              in Some (error, if error = 0 then s\<lparr>um := store16 (um s) data (ucast ldisc)\<rparr> else s)
         else if c = 1
         then let (error, k) = tty_setd d fd (ucast (load16 (um s) data)) (ks s) in Some (error, s\<lparr>ks := k\<rparr>)
         else if c = 2
         then Some (change_termios d fd (\<lambda>t. t\<lparr>c_cflag := (if data \<noteq> 0 then c_cflag t OR HUPCL else c_cflag t AND NOT HUPCL)\<rparr>) s)
         else if c = 8
         then Some (report_termios d fd (\<lambda>t m. store32 (copy_to_user m data [0, 0, c_cc t VERASE, c_cc t VKILL]) (data + 4) (sg_flags_out t)) s)
         else if c = 9 \<or> c = 10
         then Some (change_termios d fd (sg_set (um s (data + 2)) (um s (data + 3)) (load32 (um s) (data + 4))) s)
         else if c = 17 then Some (change_termios d fd (tchars_set (nth (copy_from_user (um s) data 6))) s)
         else if c = 18 then Some (report_termios d fd (\<lambda>t m. copy_to_user m data (tchars_get t)) s)
         else if c = 116 then Some (report_termios d fd (\<lambda>t m. copy_to_user m data (ltchars_get t)) s)
         else if c = 117 then Some (change_termios d fd (ltchars_set (nth (copy_from_user (um s) data 6))) s)
         else if c = 13 then Some (tty_ioctl d fd TIOCEXCL data s)
         else if c = 14 then Some (tty_ioctl d fd TIOCNXCL data s)
         else if c = 16 then Some (tty_ioctl d fd TCFLSH data s)
         else if c = 20 then Some (bsd_to_linux_termios d fd TCSETS data s)
         else if c = 21 then Some (bsd_to_linux_termios d fd TCSETSW data s)
         else if c = 19 then linux_to_bsd_termios d fd data s
         else if c = 22 then Some (bsd_to_linux_termios d fd TCSETSF data s)
         else if c = 26 then Some (tty_ioctl d fd TIOCGETD data s)
         else if c = 27 then Some (tty_ioctl d fd TIOCSETD data s)
         else if c = 97 then Some (tty_ioctl d fd TIOCSCTTY data s)
         else if c = 103 then Some (tty_ioctl d fd TIOCSWINSZ data s)
         else if c = 104 then Some (tty_ioctl d fd TIOCGWINSZ data s)
         else if c = 113 then Some (tty_ioctl d fd TIOCNOTTY data s)
         else if c = 118 then Some (tty_ioctl d fd TIOCSPGRP data s)
         else if c = 119 then Some (tty_ioctl d fd TIOCGPGRP data s)
         else if c = 123 then Some (tty_ioctl d fd TCSBRK data s)
         else if c = 124 \<or> c = 125 then Some (0, s)
         else Some (- EINVAL, s))"

section \<open>What a terminal remembers\<close>

text \<open>
  The terminal \<open>fd\<close> has the settings \<open>t\<close> in the state \<open>k\<close>. It keeps settings when one of the three requests
  stores them, and its exclusive mode has nothing to do with them or with the memory of the program.
\<close>

definition settings :: "'k tty \<Rightarrow> u32 \<Rightarrow> termios \<Rightarrow> 'k \<Rightarrow> bool" where
  "settings d fd t k \<longleftrightarrow> (\<exists>k'. tty_gets d fd k = (0, t, k'))"

definition keeps_settings :: "'k tty \<Rightarrow> u32 \<Rightarrow> bool" where
  "keeps_settings d fd \<longleftrightarrow>
     (\<forall>t k opn. opn \<in> {TCSETS, TCSETSW, TCSETSF} \<longrightarrow> (\<exists>k'. tty_sets d fd opn t k = (0, k') \<and> settings d fd t k'))
     \<and> (\<forall>opn s. opn \<in> {TIOCEXCL, TIOCNXCL} \<longrightarrow> um (snd (tty_ioctl d fd opn 0 s)) = um s)"

section \<open>Flags there and back\<close>

lemma flag_bits:
  "bit (0x100 :: u32) n \<longleftrightarrow> n = 8" "bit (0x200 :: u32) n \<longleftrightarrow> n = 9" "bit (0x8000 :: u32) n \<longleftrightarrow> n = 15"
  "bit (0x80000000 :: u32) n \<longleftrightarrow> n = 31" "bit (0x200 :: u16) n \<longleftrightarrow> n = 9" "bit (2 :: u32) n \<longleftrightarrow> n = 1"
  using bit_exp_u32 [of 8 n] bit_exp_u32 [of 9 n] bit_exp_u32 [of 15 n] bit_exp_u32 [of 31 n] bit_exp_u16 [of 9 n]
    bit_exp_u32 [of 1 n] by simp_all

lemma mask_bits:
  "bit (0x3FF :: u32) n \<longleftrightarrow> n < 10" "bit (0x81FF :: u32) n \<longleftrightarrow> n < 9 \<or> n = 15"
  "bit (0xFFF :: u32) n \<longleftrightarrow> n < 12" "bit (0x1FFF :: u32) n \<longleftrightarrow> n < 13" "bit (0xFFFF :: u32) n \<longleftrightarrow> n < 16"
  "bit (0xF000 :: u32) n \<longleftrightarrow> 12 \<le> n \<and> n < 16"
proof -
  have m: "(0x3FF :: u32) = mask 10" "(0x81FF :: u32) = mask 9 OR 0x8000" "(0xFFF :: u32) = mask 12"
    "(0x1FFF :: u32) = mask 13" "(0xFFFF :: u32) = mask 16" "(0xF000 :: u32) = push_bit 12 (mask 4)"
    by (simp_all add: mask_eq_exp_minus_1)
  show "bit (0x3FF :: u32) n \<longleftrightarrow> n < 10" "bit (0x81FF :: u32) n \<longleftrightarrow> n < 9 \<or> n = 15"
    "bit (0xFFF :: u32) n \<longleftrightarrow> n < 12" "bit (0x1FFF :: u32) n \<longleftrightarrow> n < 13" "bit (0xFFFF :: u32) n \<longleftrightarrow> n < 16"
    "bit (0xF000 :: u32) n \<longleftrightarrow> 12 \<le> n \<and> n < 16"
    unfolding m bit_or_iff bit_push_u32 bit_mask_iff flag_bits by (auto simp: possible_bit_word)
qed

lemma flag_set: "c AND 0x8000 \<noteq> 0 \<longleftrightarrow> bit c 15" "c AND 0x80000000 \<noteq> 0 \<longleftrightarrow> bit c 31" "c AND 2 \<noteq> 0 \<longleftrightarrow> bit c 1" for c :: u32
  using and_exp_eq_0_iff_not_bit [of c 15] and_exp_eq_0_iff_not_bit [of c 31] and_exp_eq_0_iff_not_bit [of c 1] by simp_all

lemma svr4_lflag_out_bits:
  "bit (svr4_lflag_out t) n \<longleftrightarrow> (if n = 8 then bit t 15 else if n = 9 then bit t 8 else n \<noteq> 15 \<and> bit t n)"
  using bit_imp_le_length [of t n] unfolding svr4_lflag_out_def Let_def u32_bits flag_bits by auto

lemma svr4_lflag_in_bits:
  "bit (fst (svr4_lflag_in old r)) n \<longleftrightarrow>
     (if n < 8 then bit r n else if n = 8 then bit r 9 \<or> bit old 9 else if n = 9 then bit old 9
      else if n < 15 then bit old n \<or> bit r n else if n = 15 then bit r 8 else bit old n)"
  using bit_imp_le_length [of old n] bit_imp_le_length [of r n]
  unfolding svr4_lflag_in_def Let_def fst_conv u32_bits flag_bits mask_bits by auto

lemma svr4_lflag_reported:
  "svr4_lflag_out (fst (svr4_lflag_in old (ucast v))) AND 0x3FF = (v AND 0x3FF) OR (old AND 0x200)"
  by (rule bit_word_eqI) (unfold u32_bits svr4_lflag_out_bits svr4_lflag_in_bits mask_bits flag_bits, auto)

lemma svr4_lflag_canonical:
  "svr4_lflag_out (fst (svr4_lflag_in old r)) AND ICANON \<noteq> 0 \<longleftrightarrow> fst (svr4_lflag_in old r) AND ICANON \<noteq> 0"
  unfolding ICANON_def flag_set svr4_lflag_out_bits by simp

lemma svr4_cflag_reported:
  "svr4_cflag_out (svr4_cflag_in c) = (c AND 0xFFF) OR (if bit c 15 \<or> bit c 31 then 0x8000 else 0)"
proof -
  have i: "bit (svr4_cflag_in c) n \<longleftrightarrow> (if n = 31 then bit c 15 \<or> bit c 31 else bit c n \<and> \<not> (12 \<le> n \<and> n < 16))" for n
    using bit_imp_le_length [of c n] unfolding svr4_cflag_in_def CRTSCTS_def flag_set u32_bits mask_bits
    by (cases "bit c 15") (simp_all only: if_True if_False u32_bits flag_bits, auto)
  have o: "bit (svr4_cflag_out x) n \<longleftrightarrow> n < 16 \<and> (bit x n \<or> n = 15 \<and> bit x 31)" for x n
    unfolding svr4_cflag_out_def CRTSCTS_def flag_set u32_bits mask_bits
    by (cases "bit x 31") (simp_all only: if_True if_False u32_bits flag_bits, auto)
  show ?thesis
    by (rule bit_word_eqI, cases "bit c 15 \<or> bit c 31")
      (simp_all only: o i if_True if_False u32_bits mask_bits flag_bits, auto)
qed

lemma svr4_flags_reported:
  "(x AND NOT 0x8000) AND 0x1FFF = x AND 0x1FFF" for x :: u32
  by (rule bit_word_eqI) (unfold u32_bits mask_bits flag_bits, auto)

text \<open>
  Which control character is reported at place \<open>i\<close>: the one the program gave at that place, but for
  \<open>VEOL2\<close> (6) and \<open>VDSUSP\<close> (11).
\<close>

definition cc_source :: "nat \<Rightarrow> nat" where
  "cc_source i = (if i = 6 then 16 else if i = 11 then 10 else i)"

lemma svr4_cc_reported:
  assumes "i < 16" "lflag' AND ICANON \<noteq> 0 \<longleftrightarrow> lflag AND ICANON \<noteq> 0"
  shows "svr4_cc_out lflag' junk (svr4_cc_in lflag svr4_cc cc) ! i = svr4_cc (cc_source i)"
proof -
  have "list_all (\<lambda>i. svr4_cc_out lflag' junk (svr4_cc_in lflag svr4_cc cc) ! i = svr4_cc (cc_source i)) [0..<16]"
    using assms(2) by (simp add: upt_rec svr4_cc_out_def svr4_cc_in_def Let_def cc_source_def, simp add: eval_nat_numeral)
  then show ?thesis using assms(1) by (simp add: list_all_iff)
qed

section \<open>Settings are reported\<close>

lemma svr4_to_linux_kept:
  assumes "keeps_settings d fd" "settings d fd old (ks s)" "opn \<in> {TCSETS, TCSETSW, TCSETSF}"
    and lflag_def: "lflag = fst (svr4_lflag_in (c_lflag old) (ucast (load32 (um s) (it + 12))))"
  shows "\<exists>k. svr4_to_linux_termios d fd opn it s = (0, s\<lparr>ks := k\<rparr>)
    \<and> settings d fd (old\<lparr>c_iflag := load32 (um s) it AND NOT 0x8000, c_oflag := load32 (um s) (it + 4),
        c_cflag := svr4_cflag_in (load32 (um s) (it + 8)), c_lflag := lflag,
        c_cc := svr4_cc_in lflag (nth (copy_from_user (um s) (it + 16) 19)) (c_cc old)\<rparr>) k"
proof -
  obtain k1 where k1: "tty_gets d fd (ks s) = (0, old, k1)" using assms(2) by (auto simp: settings_def)
  obtain excl where l: "svr4_lflag_in (c_lflag old) (ucast (load32 (um s) (it + 12))) = (lflag, excl)"
    by (metis lflag_def prod.collapse)
  obtain r s2 where s2: "tty_ioctl d fd (if excl then TIOCEXCL else TIOCNXCL) 0 (s\<lparr>ks := k1\<rparr>) = (r, s2)"
    by (meson surj_pair)
  have "(if excl then TIOCEXCL else TIOCNXCL) \<in> {TIOCEXCL, TIOCNXCL}" by simp
  then have "um (snd (tty_ioctl d fd (if excl then TIOCEXCL else TIOCNXCL) 0 (s\<lparr>ks := k1\<rparr>))) = um (s\<lparr>ks := k1\<rparr>)"
    using assms(1) unfolding keeps_settings_def by blast
  then have m: "um s2 = um s" using s2 by simp
  let ?t = "old\<lparr>c_iflag := load32 (um s) it AND NOT 0x8000, c_oflag := load32 (um s) (it + 4),
      c_cflag := svr4_cflag_in (load32 (um s) (it + 8)), c_lflag := lflag,
      c_cc := svr4_cc_in lflag (nth (copy_from_user (um s) (it + 16) 19)) (c_cc old)\<rparr>"
  obtain k2 where k2: "tty_sets d fd opn ?t (ks s2) = (0, k2)" "settings d fd ?t k2"
    using assms(1,3) unfolding keeps_settings_def by blast
  have "s2\<lparr>ks := k2\<rparr> = s\<lparr>ks := k2\<rparr>" using m by (cases s, cases s2) simp
  then show ?thesis
    using k1 l s2 m k2 by (intro exI [of _ k2]) (simp add: svr4_to_linux_termios_def Let_def)
qed

text \<open>Reading back what \<open>linux_to_svr4_termios\<close> stores.\<close>

lemma stored_termios:
  assumes "length bs = 19"
    "m' = copy_to_user (store32 (store32 (store32 (store32 m it a) (it + 4) b) (it + 8) c) (it + 12) e) (it + 16) bs"
  shows "load32 m' it = a" "load32 m' (it + 4) = b" "load32 m' (it + 8) = c" "load32 m' (it + 12) = e"
    and "i < 19 \<Longrightarrow> m' (it + 16 + of_nat i) = bs ! i"
proof -
  have c: "load32 (copy_to_user m (it + 16) bs) x = load32 m x" if "x \<in> {it, it + 4, it + 8, it + 12}" for m x
  proof (rule load32_cong)
    fix i :: nat assume "i < 4"
    then have "i = 0 \<or> i = 1 \<or> i = 2 \<or> i = 3" by linarith
    then show "copy_to_user m (it + 16) bs (x + of_nat i) = m (x + of_nat i)"
      using that assms(1) by (intro copy_to_user_outside) (auto simp: word_le_nat_alt unsigned_minus_1_eq_mask mask_eq_exp_minus_1)
  qed
  have st: "load32 (store32 m b v) a = load32 m a" if "(a, b) \<in> {(it, it + 4), (it, it + 8), (it, it + 12), (it + 4, it + 8), (it + 4, it + 12), (it + 8, it + 12)}" for m a b v
  proof (rule load32_cong)
    fix i :: nat assume "i < 4"
    then have "i = 0 \<or> i = 1 \<or> i = 2 \<or> i = 3" by linarith
    then show "store32 m b v (a + of_nat i) = m (a + of_nat i)"
      using that by (intro store32_outside) (auto simp: word_le_nat_alt unsigned_minus_1_eq_mask mask_eq_exp_minus_1)
  qed
  show "load32 m' it = a" "load32 m' (it + 4) = b" "load32 m' (it + 8) = c" "load32 m' (it + 12) = e"
    by (simp_all add: assms(2) c st load32_store32)
  show "m' (it + 16 + of_nat i) = bs ! i" if "i < 19"
    using that copy_to_user_inside [of i bs] assms(1) by (simp add: assms(2))
qed


text \<open>The terminal of the witnesses: the settings are its state.\<close>

definition plain_tty :: "termios tty" where
  "plain_tty = \<lparr>
     tty_geta = (\<lambda>fd k. (- EINVAL, load_termio (\<lambda>_. 0) 0, k)), tty_seta = (\<lambda>fd opn t k. (- EINVAL, k)),
     tty_gets = (\<lambda>fd k. (0, k, k)), tty_sets = (\<lambda>fd opn t k. (0, t)),
     tty_getd = (\<lambda>fd k. (0, 0, k)), tty_setd = (\<lambda>fd l k. (0, k)),
     tty_ioctl = (\<lambda>fd opn arg s. (0, s))\<rparr>"

definition plain_settings :: termios where
  "plain_settings = \<lparr>c_iflag = 0x500, c_oflag = 5, c_cflag = 0xBF, c_lflag = 0x8A3B, c_line = 0, c_cc = \<lambda>i. of_nat i\<rparr>"

lemma plain_tty_keeps: "keeps_settings plain_tty fd" "settings plain_tty fd k k"
  by (auto simp: keeps_settings_def settings_def plain_tty_def)


text \<open>The characters of \<open>TIOCSETC\<close> and, but for the delayed suspend character, of \<open>TIOCSLTC\<close> are reported.\<close>

lemma tchars_reported: "length tc = 6 \<Longrightarrow> tchars_get (tchars_set (nth tc) t) = tc"
  by (auto simp: tchars_get_def tchars_set_def VINTR_def VQUIT_def VSTART_def VSTOP_def VEOF_def VEOL2_def
    numeral_eq_Suc length_Suc_conv)

lemma ltchars_reported:
  "length tc = 6 \<Longrightarrow> ltchars_get (ltchars_set (nth tc) t) = tc[1 := tc ! 0]"
  by (auto simp: ltchars_get_def ltchars_set_def VSUSP_def VREPRINT_def VEOL2_def VWERASE_def VLNEXT_def
    numeral_eq_Suc length_Suc_conv)

text \<open>
  Speeds: the native code of a speed is that of the least speed of the table that is not below it, so
  exactly the speeds of the table, 57600 and 115200 are reported as they were set.
\<close>

lemma speed_map_distinct: "i < 16 \<Longrightarrow> j < 16 \<Longrightarrow> speed_map ! i \<le> speed_map ! j \<longleftrightarrow> i \<le> j"
proof -
  have "list_all (\<lambda>i. list_all (\<lambda>j. speed_map ! i \<le> speed_map ! j \<longleftrightarrow> i \<le> j) [0..<16]) [0..<16]"
    by code_simp
  then show "i < 16 \<Longrightarrow> j < 16 \<Longrightarrow> speed_map ! i \<le> speed_map ! j \<longleftrightarrow> i \<le> j" by (simp add: list_all_iff)
qed

lemma speed_loop_least:
  assumes "i \<le> j" "j < 16" "\<forall>l < j. i \<le> l \<longrightarrow> \<not> s \<le> speed_map ! l" "s \<le> speed_map ! j"
  shows "bsd_to_linux_speed_loop s i = of_nat j"
  using assms
proof (induction "j - i" arbitrary: i)
  case 0
  then show ?case by (simp add: bsd_to_linux_speed_loop.simps [of s i] speed_map_def)
next
  case (Suc n)
  then have "\<not> s \<le> speed_map ! i" "i < length speed_map" by (simp_all add: speed_map_def)
  then show ?case using Suc by (simp add: bsd_to_linux_speed_loop.simps [of s i])
qed

lemma speed_reported:
  assumes "j < 16"
  shows "linux_to_bsd_speed (bsd_to_linux_speed (speed_map ! j)) = Some (speed_map ! j)"
proof -
  have "\<forall>l < j. \<not> speed_map ! j \<le> speed_map ! l"
    using assms speed_map_distinct by (meson leD less_trans)
  then have "bsd_to_linux_speed_loop (speed_map ! j) 0 = of_nat j"
    using assms by (intro speed_loop_least) auto
  moreover have "unat (of_nat j :: u32) = j" using assms by (simp add: unat_of_nat_u32)
  moreover have "speed_map ! j \<noteq> 57600" "speed_map ! j \<noteq> 115200"
  proof -
    have "list_all (\<lambda>v. v \<noteq> 57600 \<and> v \<noteq> 115200) speed_map" by (simp add: speed_map_def)
    then show "speed_map ! j \<noteq> 57600" "speed_map ! j \<noteq> 115200" using assms by (simp_all add: list_all_length speed_map_def)
  qed
  moreover have "of_nat j \<noteq> B57600" "of_nat j \<noteq> B115200"
    using assms calculation(2) by (auto simp: B57600_def B115200_def)
  ultimately show ?thesis using assms
    by (simp add: bsd_to_linux_speed_def linux_to_bsd_speed_def) (simp add: speed_map_def)
qed

end
