(* ===== verification/Svr4_Stat.thy ===== *)
theory Svr4_Stat
  imports Files Short_Inode
begin

text \<open>
  The \<open>stat\<close> calls of the personalities: \<^verbatim>\<open>src/per-svr4/stat.c\<close>, \<^verbatim>\<open>src/per-sco/stat.c\<close>,
  \<^verbatim>\<open>src/per-uw7/stat.c\<close>, \<^verbatim>\<open>src/per-solaris/stat.c\<close>, with the conversions of device numbers, inodes and
  user numbers of \<^verbatim>\<open>per-svr4/types.h\<close> and the correction of dates of \<^verbatim>\<open>per-svr4/y2k.h\<close>.

  A structure that a call stores for the program is its value; padding is left out. The personality of
  the process and the two translation tables that \<open>svr4_initmap\<close> reads are the record \<open>stat_env\<close>; the short
  inode table is the state. \<open>None\<close> as a result is a read outside a translation table, or a broken inode table.
\<close>

record stat_env =
  personality :: u32
  InodeTab :: "u32 list option"
  DeviceTab :: "u32 list option"

definition ABI_Y2K_BUG :: u32 where "ABI_Y2K_BUG = 0x0020000"
definition SHORT_INODE :: u32 where "SHORT_INODE = 0x1000000"
definition MAX_NON_LFS :: u32 where "MAX_NON_LFS = push_bit 31 1 - 1"
definition EOVERFLOW :: u32 where "EOVERFLOW = 75"

section \<open>Dates\<close>

definition SVR4_Y2K_SHIFT :: u32 where "SVR4_Y2K_SHIFT = 24 * 60 * 60"
definition SVR4_Y2K_FEB29 :: u32 where "SVR4_Y2K_FEB29 = 11015 * 24 * 60 * 60"

definition svr4_y2k_send :: "stat_env \<Rightarrow> u32 \<Rightarrow> u32" where
  "svr4_y2k_send e secs =
     (if personality e AND ABI_Y2K_BUG \<noteq> 0 \<and> sint SVR4_Y2K_FEB29 < sint secs then secs - SVR4_Y2K_SHIFT else secs)"

definition svr4_y2k_recv :: "stat_env \<Rightarrow> u32 \<Rightarrow> u32" where
  "svr4_y2k_recv e secs =
     (if personality e AND ABI_Y2K_BUG \<noteq> 0 \<and> sint (SVR4_Y2K_FEB29 - SVR4_Y2K_SHIFT) < sint secs
      then secs + SVR4_Y2K_SHIFT else secs)"

section \<open>Numbers\<close>

text \<open>The macros of the native \<^verbatim>\<open>linux/kdev_t.h\<close>.\<close>

definition MAJOR :: "u32 \<Rightarrow> u32" where "MAJOR dev = drop_bit 8 dev"
definition MINOR :: "u32 \<Rightarrow> u32" where "MINOR dev = dev AND 0xFF"

definition SVR4_MKDEV :: "u32 \<Rightarrow> u32 \<Rightarrow> u32" where "SVR4_MKDEV ma mi = push_bit 18 ma OR mi"
definition SVR4_O_MKDEV :: "u32 \<Rightarrow> u32 \<Rightarrow> u32" where "SVR4_O_MKDEV ma mi = push_bit 8 ma OR mi"

definition linux_to_svr4_dev_t :: "u32 \<Rightarrow> u32" where
  "linux_to_svr4_dev_t dev = SVR4_MKDEV (MAJOR dev) (MINOR dev)"

definition linux_to_svr4_o_dev_t :: "u32 \<Rightarrow> u16" where
  "linux_to_svr4_o_dev_t dev = ucast (SVR4_O_MKDEV (MAJOR dev) (MINOR dev))"

definition linux_to_sco_dev_t :: "u32 \<Rightarrow> u16" where
  "linux_to_sco_dev_t dev = ucast (SVR4_O_MKDEV (MAJOR dev) (MINOR dev))"

definition linux_to_svr4_ino_t :: "stat_env \<Rightarrow> u32 \<Rightarrow> short_inodes \<Rightarrow> (u32 \<times> short_inodes) option" where
  "linux_to_svr4_ino_t e i s = (if personality e AND SHORT_INODE = 0 then Some (i, s) else short_inode_map i s)"

definition linux_to_svr4_o_ino_t :: "u32 \<Rightarrow> short_inodes \<Rightarrow> (u16 \<times> short_inodes) option" where
  "linux_to_svr4_o_ino_t i s = map_option (\<lambda>(r, s). (ucast r, s)) (short_inode_map i s)"

definition high2lowuid :: "u32 \<Rightarrow> u16" where
  "high2lowuid uid = (if uid AND NOT 0xFFFF \<noteq> 0 then 65534 else ucast uid)"

text \<open>
  The tables of \<open>abi_map\<close> are pairs of numbers that end with a 0. A negative \<open>type\<close> asks for the
  translation in the other direction.
\<close>

fun abi_map_loop :: "bool \<Rightarrow> u32 \<Rightarrow> u32 list \<Rightarrow> u32 option" where
  "abi_map_loop n NodeFrom [] = None"
| "abi_map_loop n NodeFrom (a # Tab) =
     (if a = 0 then Some NodeFrom
      else case Tab of
             [] \<Rightarrow> None
           | b # Tab \<Rightarrow> if (if n then b else a) = NodeFrom then Some (if n then a else b) else abi_map_loop n NodeFrom Tab)"

definition abi_map :: "stat_env \<Rightarrow> u32 \<Rightarrow> int \<Rightarrow> u32 option" where
  "abi_map e NodeFrom type =
     (let n = type < 0;
          Tab = (if \<bar>type\<bar> = 1 then InodeTab e else if \<bar>type\<bar> = 2 then DeviceTab e else None)
      in case Tab of None \<Rightarrow> Some NodeFrom | Some Tab \<Rightarrow> abi_map_loop n NodeFrom Tab)"

section \<open>The structures\<close>

record svr4_stat =
  o_st_dev :: u16
  o_st_ino :: u16
  o_st_mode :: u16
  o_st_nlink :: u16
  o_st_uid :: u16
  o_st_gid :: u16
  o_st_rdev :: u16
  o_st_size :: u32
  o_st_atime :: u32
  o_st_mtime :: u32
  o_st_ctime :: u32

record timeval =
  tim_sec :: u32
  tim_usec :: u32

record svr4_xstat =
  x_st_dev :: u32
  x_st_ino :: u32
  x_st_mode :: u32
  x_st_nlink :: u32
  x_st_uid :: u32
  x_st_gid :: u32
  x_st_rdev :: u32
  x_st_size :: u32
  x_st_atim :: timeval
  x_st_mtim :: timeval
  x_st_ctim :: timeval
  x_st_blksize :: u32
  x_st_blocks :: u32

record sco_xstat =
  s_st_dev :: u16
  s_st_ino :: u32
  s_st_mode :: u16
  s_st_nlink :: u16
  s_st_uid :: u16
  s_st_gid :: u16
  s_st_rdev :: u16
  s_st_size :: u32
  s_st_atime :: u32
  s_st_mtime :: u32
  s_st_ctime :: u32
  s_st_blksize :: u32
  s_st_blocks :: u32
  s_st_fstype :: string
  s_st_sco_flags :: u32

record uw7_stat64 =
  u_st_dev :: u32
  u_st_ino :: u64
  u_st_mode :: u32
  u_st_nlink :: u32
  u_st_uid :: u32
  u_st_gid :: u32
  u_st_rdev :: u32
  u_st_size :: u64
  u_st_atime :: timeval
  u_st_mtime :: timeval
  u_st_ctime :: timeval
  u_st_blksize :: u32
  u_st_blocks :: u64
  u_st_fstype :: string

record sol_stat64 =
  l_st_dev :: u32
  l_st_ino :: u64
  l_st_mode :: u32
  l_st_nlink :: u32
  l_st_uid :: u32
  l_st_gid :: u32
  l_st_rdev :: u32
  l_st_size :: u64
  l_st_atime :: u32
  l_st_mtime :: u32
  l_st_ctime :: u32
  l_st_blksize :: u32
  l_st_blocks :: u64
  l_st_fstype :: string

datatype statbuf = Stat svr4_stat | Xstat svr4_xstat | Sco_xstat sco_xstat | Uw7_stat64 uw7_stat64 | Sol_stat64 sol_stat64

section \<open>Filling the structures\<close>

text \<open>
  The result is the return value, what is stored at \<open>bufp\<close> if anything, and the inode table. The inode is
  translated before the size is checked. The division of nanoseconds is the signed one of C.
\<close>

definition nsec_to_usec :: "u32 \<Rightarrow> u32" where
  "nsec_to_usec n = word_of_int (sgn (sint n) * (\<bar>sint n\<bar> div 1000))"

definition sent_timeval :: "stat_env \<Rightarrow> timespec \<Rightarrow> timeval" where
  "sent_timeval e t = \<lparr>tim_sec = svr4_y2k_send e (tv_sec t), tim_usec = nsec_to_usec (tv_nsec t)\<rparr>"

definition too_large :: "kstat \<Rightarrow> bool" where
  "too_large stp \<longleftrightarrow> uint MAX_NON_LFS < sint (ks_size stp)"

type_synonym reported = "(u32 \<times> statbuf option \<times> short_inodes) option"

definition report_svr4_stat :: "stat_env \<Rightarrow> kstat \<Rightarrow> short_inodes \<Rightarrow> reported" where
  "report_svr4_stat e stp s = do {
     dev \<leftarrow> abi_map e (ks_dev stp) 2;
     i \<leftarrow> abi_map e (ucast (ks_ino stp)) 1;
     (i, s) \<leftarrow> linux_to_svr4_o_ino_t i s;
     rdev \<leftarrow> abi_map e (ks_rdev stp) 2;
     if too_large stp then Some (- EOVERFLOW, None, s)
     else Some (0, Some (Stat
       \<lparr>o_st_dev = linux_to_svr4_o_dev_t dev, o_st_ino = i, o_st_mode = ks_mode stp, o_st_nlink = ucast (ks_nlink stp),
        o_st_uid = high2lowuid (ks_uid stp), o_st_gid = high2lowuid (ks_gid stp), o_st_rdev = linux_to_svr4_o_dev_t rdev,
        o_st_size = ucast (ks_size stp), o_st_atime = svr4_y2k_send e (tv_sec (ks_atime stp)),
        o_st_mtime = svr4_y2k_send e (tv_sec (ks_mtime stp)), o_st_ctime = svr4_y2k_send e (tv_sec (ks_ctime stp))\<rparr>), s)
   }"

definition report_svr4_xstat :: "stat_env \<Rightarrow> kstat \<Rightarrow> short_inodes \<Rightarrow> reported" where
  "report_svr4_xstat e stp s = do {
     dev \<leftarrow> abi_map e (ks_dev stp) 2;
     i \<leftarrow> abi_map e (ucast (ks_ino stp)) 1;
     (i, s) \<leftarrow> linux_to_svr4_ino_t e i s;
     rdev \<leftarrow> abi_map e (ks_rdev stp) 2;
     if too_large stp then Some (- EOVERFLOW, None, s)
     else Some (0, Some (Xstat
       \<lparr>x_st_dev = linux_to_svr4_dev_t dev, x_st_ino = i, x_st_mode = ucast (ks_mode stp), x_st_nlink = ks_nlink stp,
        x_st_uid = ks_uid stp, x_st_gid = ks_gid stp, x_st_rdev = linux_to_svr4_dev_t rdev,
        x_st_size = ucast (ks_size stp), x_st_atim = sent_timeval e (ks_atime stp), x_st_mtim = sent_timeval e (ks_mtime stp),
        x_st_ctim = sent_timeval e (ks_ctime stp), x_st_blksize = ks_blksize stp, x_st_blocks = ucast (ks_blocks stp)\<rparr>), s)
   }"

definition report_sco_xstat :: "stat_env \<Rightarrow> kstat \<Rightarrow> short_inodes \<Rightarrow> reported" where
  "report_sco_xstat e stp s = do {
     dev \<leftarrow> abi_map e (ks_dev stp) 2;
     i \<leftarrow> abi_map e (ucast (ks_ino stp)) 1;
     (i, s) \<leftarrow> linux_to_svr4_ino_t e i s;
     rdev \<leftarrow> abi_map e (ks_rdev stp) 2;
     if too_large stp then Some (- EOVERFLOW, None, s)
     else Some (0, Some (Sco_xstat
       \<lparr>s_st_dev = linux_to_sco_dev_t dev, s_st_ino = i, s_st_mode = ks_mode stp, s_st_nlink = ucast (ks_nlink stp),
        s_st_uid = high2lowuid (ks_uid stp), s_st_gid = high2lowuid (ks_gid stp), s_st_rdev = linux_to_sco_dev_t rdev,
        s_st_size = ucast (ks_size stp), s_st_atime = svr4_y2k_send e (tv_sec (ks_atime stp)),
        s_st_mtime = svr4_y2k_send e (tv_sec (ks_mtime stp)), s_st_ctime = svr4_y2k_send e (tv_sec (ks_ctime stp)),
        s_st_blksize = ks_blksize stp, s_st_blocks = ucast (ks_blocks stp), s_st_fstype = ''ext2'', s_st_sco_flags = 0\<rparr>), s)
   }"

text \<open>The files of any size; the microseconds of UnixWare 7 stay 0.\<close>

definition report_uw7_stat64 :: "stat_env \<Rightarrow> kstat \<Rightarrow> short_inodes \<Rightarrow> reported" where
  "report_uw7_stat64 e stp s = do {
     dev \<leftarrow> abi_map e (ks_dev stp) 2;
     i \<leftarrow> abi_map e (ucast (ks_ino stp)) 1;
     (i, s) \<leftarrow> linux_to_svr4_ino_t e i s;
     rdev \<leftarrow> abi_map e (ks_rdev stp) 2;
     Some (0, Some (Uw7_stat64
       \<lparr>u_st_dev = linux_to_svr4_dev_t dev, u_st_ino = ucast i, u_st_mode = ucast (ks_mode stp), u_st_nlink = ks_nlink stp,
        u_st_uid = ks_uid stp, u_st_gid = ks_gid stp, u_st_rdev = linux_to_svr4_dev_t rdev, u_st_size = ks_size stp,
        u_st_atime = \<lparr>tim_sec = svr4_y2k_send e (tv_sec (ks_atime stp)), tim_usec = 0\<rparr>,
        u_st_mtime = \<lparr>tim_sec = svr4_y2k_send e (tv_sec (ks_mtime stp)), tim_usec = 0\<rparr>,
        u_st_ctime = \<lparr>tim_sec = svr4_y2k_send e (tv_sec (ks_ctime stp)), tim_usec = 0\<rparr>,
        u_st_blksize = ks_blksize stp, u_st_blocks = ks_blocks stp, u_st_fstype = ''ext2''\<rparr>), s)
   }"

definition report_sol_stat64 :: "stat_env \<Rightarrow> kstat \<Rightarrow> short_inodes \<Rightarrow> reported" where
  "report_sol_stat64 e stp s = do {
     dev \<leftarrow> abi_map e (ks_dev stp) 2;
     i \<leftarrow> abi_map e (ucast (ks_ino stp)) 1;
     (i, s) \<leftarrow> linux_to_svr4_ino_t e i s;
     rdev \<leftarrow> abi_map e (ks_rdev stp) 2;
     Some (0, Some (Sol_stat64
       \<lparr>l_st_dev = linux_to_svr4_dev_t dev, l_st_ino = ucast i, l_st_mode = ucast (ks_mode stp), l_st_nlink = ks_nlink stp,
        l_st_uid = ks_uid stp, l_st_gid = ks_gid stp, l_st_rdev = linux_to_svr4_dev_t rdev, l_st_size = ks_size stp,
        l_st_atime = svr4_y2k_send e (tv_sec (ks_atime stp)), l_st_mtime = svr4_y2k_send e (tv_sec (ks_mtime stp)),
        l_st_ctime = svr4_y2k_send e (tv_sec (ks_ctime stp)), l_st_blksize = ks_blksize stp, l_st_blocks = ks_blocks stp,
        l_st_fstype = ''ext2''\<rparr>), s)
   }"

section \<open>The calls\<close>

text \<open>The native \<open>lstat64\<close> beside the calls of \<open>fsys\<close>, and the state of the calls.\<close>

record 'k statsys =
  files_sys :: "'k fsys"
  sys_lstat64 :: "u8 list \<Rightarrow> 'k \<Rightarrow> (u32 + stat64) \<times> 'k"

record 'k statst =
  inodes :: short_inodes
  skern :: 'k

definition vfs_stat :: "'k statsys \<Rightarrow> u8 list \<Rightarrow> 'k \<Rightarrow> ((u32 + kstat) \<times> 'k) option" where
  "vfs_stat sys name k = do {
     p \<leftarrow> mapped_name (files_sys sys) name;
     let (r, k) = sys_stat64 (files_sys sys) p k;
     Some (map_sum id stat64_to_kstat r, k)
   }"

definition vfs_lstat :: "'k statsys \<Rightarrow> u8 list \<Rightarrow> 'k \<Rightarrow> ((u32 + kstat) \<times> 'k) option" where
  "vfs_lstat sys name k = do {
     p \<leftarrow> mapped_name (files_sys sys) name;
     let (r, k) = sys_lstat64 sys p k;
     Some (map_sum id stat64_to_kstat r, k)
   }"

text \<open>The frame of all the calls: an error of the native call is returned, a success is reported.\<close>

definition then_report ::
  "('k \<Rightarrow> ((u32 + kstat) \<times> 'k) option) \<Rightarrow> (kstat \<Rightarrow> short_inodes \<Rightarrow> reported) \<Rightarrow> 'k statst \<Rightarrow>
   (u32 \<times> statbuf option \<times> 'k statst) option" where
  "then_report get report s = do {
     (r, k) \<leftarrow> get (skern s);
     (case r of
        Inl error \<Rightarrow> Some (error, None, s\<lparr>skern := k\<rparr>)
      | Inr st \<Rightarrow> do {
          (error, buf, tab) \<leftarrow> report st (inodes s);
          Some (error, buf, \<lparr>inodes = tab, skern = k\<rparr>)
        })
   }"

definition fstat_of :: "'k statsys \<Rightarrow> int \<Rightarrow> 'k \<Rightarrow> ((u32 + kstat) \<times> 'k) option" where
  "fstat_of sys fd k = Some (vfs_fstat (files_sys sys) fd k)"

definition unsupported :: "kstat \<Rightarrow> short_inodes \<Rightarrow> reported" where
  "unsupported stp s = Some (- EINVAL, None, s)"

definition svr4_stat where "svr4_stat e sys name = then_report (vfs_stat sys name) (report_svr4_stat e)"
definition svr4_lstat where "svr4_lstat e sys name = then_report (vfs_lstat sys name) (report_svr4_stat e)"
definition svr4_fstat where "svr4_fstat e sys fd = then_report (fstat_of sys fd) (report_svr4_stat e)"

definition xstat_version :: "stat_env \<Rightarrow> u32 \<Rightarrow> kstat \<Rightarrow> short_inodes \<Rightarrow> reported" where
  "xstat_version e vers = (if vers = 1 then report_svr4_stat e else if vers = 2 then report_svr4_xstat e else unsupported)"

definition svr4_xstat where "svr4_xstat e sys vers name = then_report (vfs_stat sys name) (xstat_version e vers)"
definition svr4_lxstat where "svr4_lxstat e sys vers name = then_report (vfs_lstat sys name) (xstat_version e vers)"
definition svr4_fxstat where "svr4_fxstat e sys vers fd = then_report (fstat_of sys fd) (xstat_version e vers)"

definition sco_version :: "stat_env \<Rightarrow> u32 \<Rightarrow> kstat \<Rightarrow> short_inodes \<Rightarrow> reported" where
  "sco_version e vers = (if vers = 1 then report_svr4_stat e else if vers = 51 then report_sco_xstat e else unsupported)"

definition sco_xstat where "sco_xstat e sys vers name = then_report (vfs_stat sys name) (sco_version e vers)"
definition sco_lxstat where "sco_lxstat e sys vers name = then_report (vfs_lstat sys name) (sco_version e vers)"
definition sco_fxstat where "sco_fxstat e sys vers fd = then_report (fstat_of sys fd) (sco_version e vers)"

definition uw7_version :: "stat_env \<Rightarrow> u32 \<Rightarrow> kstat \<Rightarrow> short_inodes \<Rightarrow> reported" where
  "uw7_version e vers = (if vers = 1 then report_svr4_stat e else if vers = 2 then report_svr4_xstat e
     else if vers = 4 then report_uw7_stat64 e else unsupported)"

definition uw7_xstat where "uw7_xstat e sys vers name = then_report (vfs_stat sys name) (uw7_version e vers)"
definition uw7_lxstat where "uw7_lxstat e sys vers name = then_report (vfs_lstat sys name) (uw7_version e vers)"
definition uw7_fxstat where "uw7_fxstat e sys vers fd = then_report (fstat_of sys fd) (uw7_version e vers)"

definition sol_stat64 where "sol_stat64 e sys name = then_report (vfs_stat sys name) (report_sol_stat64 e)"
definition sol_lstat64 where "sol_lstat64 e sys name = then_report (vfs_lstat sys name) (report_sol_stat64 e)"
definition sol_fstat64 where "sol_fstat64 e sys fd = then_report (fstat_of sys fd) (report_sol_stat64 e)"

section \<open>Dates there and back\<close>

lemma y2k_constants: "sint SVR4_Y2K_FEB29 = 951696000" "sint (SVR4_Y2K_FEB29 - SVR4_Y2K_SHIFT) = 951609600"
  "sint SVR4_Y2K_SHIFT = 86400"
  by (simp_all add: SVR4_Y2K_FEB29_def SVR4_Y2K_SHIFT_def)

lemma sint_range: "- (2 ^ 31) \<le> sint x" "sint x < 2 ^ 31" for x :: u32
  using sint_ge [of x] sint_lt [of x] by simp_all

lemma sint_minus_day:
  assumes "86400 \<le> sint secs + 2 ^ 31"
  shows "sint (secs - SVR4_Y2K_SHIFT) = sint secs - 86400"
proof -
  from sint_of_int_u32 [of "sint secs - 86400"] show ?thesis
    using assms sint_range [of secs] by (simp add: SVR4_Y2K_SHIFT_def)
qed

text \<open>
  A date that a program was told and gives back is the date it was, in a personality with the leap
  year bug too, unless it is in the day before the constant \<open>SVR4_Y2K_FEB29\<close>: such a date comes back one
  day late.
\<close>

theorem y2k_roundtrip:
  "svr4_y2k_recv e (svr4_y2k_send e secs) =
     (if personality e AND ABI_Y2K_BUG \<noteq> 0 \<and> 951609600 < sint secs \<and> sint secs \<le> 951696000
      then secs + SVR4_Y2K_SHIFT else secs)"
proof (cases "personality e AND ABI_Y2K_BUG \<noteq> 0 \<and> 951696000 < sint secs")
  case True
  then have "sint (secs - SVR4_Y2K_SHIFT) = sint secs - 86400" by (intro sint_minus_day) simp
  with True show ?thesis by (simp add: svr4_y2k_send_def svr4_y2k_recv_def y2k_constants)
next
  case False
  then show ?thesis by (auto simp: svr4_y2k_send_def svr4_y2k_recv_def y2k_constants)
qed

section \<open>Inode numbers agree\<close>

text \<open>What the five functions report as the inode, and a run of some of them.\<close>

fun buf_ino :: "statbuf \<Rightarrow> u64" where
  "buf_ino (Stat b) = ucast (o_st_ino b)"
| "buf_ino (Xstat b) = ucast (x_st_ino b)"
| "buf_ino (Sco_xstat b) = ucast (s_st_ino b)"
| "buf_ino (Uw7_stat64 b) = u_st_ino b"
| "buf_ino (Sol_stat64 b) = l_st_ino b"

definition reporters :: "stat_env \<Rightarrow> (kstat \<Rightarrow> short_inodes \<Rightarrow> reported) set" where
  "reporters e = {report_svr4_stat e, report_svr4_xstat e, report_sco_xstat e, report_uw7_stat64 e, report_sol_stat64 e}"

fun run_reports :: "((kstat \<Rightarrow> short_inodes \<Rightarrow> reported) \<times> kstat) list \<Rightarrow> short_inodes \<Rightarrow> ((u32 \<times> statbuf option) list \<times> short_inodes) option" where
  "run_reports [] s = Some ([], s)"
| "run_reports ((report, st) # qs) s = do {
     (error, buf, s) \<leftarrow> report st s;
     (bufs, s) \<leftarrow> run_reports qs s;
     Some ((error, buf) # bufs, s)
   }"

text \<open>A file that can be reported: its size fits, and its devices and inode are inside the translation tables.\<close>

definition reportable :: "stat_env \<Rightarrow> kstat \<Rightarrow> bool" where
  "reportable e st \<longleftrightarrow> \<not> too_large st \<and> abi_map e (ks_dev st) 2 \<noteq> None \<and> abi_map e (ks_rdev st) 2 \<noteq> None
     \<and> abi_map e (ucast (ks_ino st)) 1 \<noteq> None"

definition mapped_ino :: "stat_env \<Rightarrow> kstat \<Rightarrow> u32" where
  "mapped_ino e st = the (abi_map e (ucast (ks_ino st)) 1)"

lemma report_short_inode:
  assumes "reportable e st" "report \<in> reporters e" "personality e AND SHORT_INODE \<noteq> 0"
    "short_inode_map (mapped_ino e st) s = Some (r, s')" "unat r < 2 ^ 16"
  shows "\<exists>buf. report st s = Some (0, Some buf, s') \<and> buf_ino buf = ucast r"
proof -
  have u: "ucast (ucast r :: u16) = (ucast r :: u64)"
  proof -
    have "unat (ucast (ucast r :: u16) :: u64) = take_bit 64 (take_bit 16 (unat r))"
      by (simp add: unsigned_ucast_eq unsigned_take_bit_eq)
    also have "\<dots> = unat r" using assms(5) by (simp add: take_bit_nat_eq_self)
    also have "\<dots> = unat (ucast r :: u64)" using assms(5) by (simp add: unsigned_ucast_eq take_bit_nat_eq_self)
    finally show ?thesis by (simp only: word_unat_eq_iff)
  qed
  show ?thesis using assms(1-4) u
    by (auto simp: reporters_def reportable_def mapped_ino_def report_svr4_stat_def report_svr4_xstat_def report_sco_xstat_def
      report_uw7_stat64_def report_sol_stat64_def linux_to_svr4_o_ino_t_def linux_to_svr4_ino_t_def)
qed

lemma run_reports_numbers:
  assumes "\<forall>(report, st) \<in> set qs. reportable e st \<and> report \<in> reporters e" "personality e AND SHORT_INODE \<noteq> 0"
    "number_all short_inode_map (map (\<lambda>q. mapped_ino e (snd q)) qs) s = Some (rs, s')" "\<forall>r \<in> set rs. unat r < 2 ^ 16"
  shows "\<exists>bufs. run_reports qs s = Some (map (\<lambda>b. (0, Some b)) bufs, s') \<and> map buf_ino bufs = map ucast rs"
  using assms
proof (induction qs arbitrary: s rs)
  case (Cons q qs)
  obtain report st where q: "q = (report, st)" by fastforce
  obtain r s1 rs1 where n: "short_inode_map (mapped_ino e st) s = Some (r, s1)"
    "number_all short_inode_map (map (\<lambda>q. mapped_ino e (snd q)) qs) s1 = Some (rs1, s')" "rs = r # rs1"
    using Cons.prems(3) q by (auto split: option.splits)
  obtain buf where buf: "report st s = Some (0, Some buf, s1)" "buf_ino buf = ucast r"
    using report_short_inode [of e st report s r s1] n Cons.prems q by auto
  obtain bufs where "run_reports qs s1 = Some (map (\<lambda>b. (0, Some b)) bufs, s')" "map buf_ino bufs = map ucast rs1"
    using Cons.IH [OF _ Cons.prems(2) n(2)] Cons.prems n(3) by auto
  then show ?case using buf q n(3) by (intro exI [of _ "buf # bufs"]) simp
qed simp


text \<open>Two files under an OpenServer personality, the first one twice.\<close>

definition sco_env :: stat_env where
  "sco_env = \<lparr>personality = 0x1000003, InodeTab = None, DeviceTab = Some [0x301, 0x2A01, 0]\<rparr>"

definition a_file :: "u64 \<Rightarrow> kstat" where
  "a_file i = stat64_to_kstat (one_stat\<lparr>st_ino := i, st_dev := 0x301\<rparr>)"


end
