(* ===== verification/Svr4_Limits.thy ===== *)
theory Svr4_Limits
  imports Umem "HOL-Library.Monad_Syntax"
begin

text \<open>
  Resource limits: \<open>ulimit\<close>, \<open>getrlimit\<close> and \<open>setrlimit\<close> of \<^verbatim>\<open>src/per-svr4/ulimit.c\<close>, the 64-bit variants of
  UnixWare 7 from \<^verbatim>\<open>src/per-uw7/lfs.c\<close>, and the privileges they ask for, \<open>linux26_capability\<close> of
  \<^verbatim>\<open>src/ibcs/linux26-compat.c\<close> with \<open>capable\<close> of \<^verbatim>\<open>linux/capability.h\<close>.

  The native system calls are the record \<open>limsys\<close>; a structure they fill or read is passed by value.
\<close>

record rlimit =
  rlim_cur :: u32
  rlim_max :: u32

record cap_data =
  effective :: u32
  permitted :: u32
  inheritable :: u32

text \<open>The calls give the error, what the structure holds afterwards, and the kernel.\<close>

record 'k limsys =
  sys_capget :: "'k \<Rightarrow> u32 \<times> (cap_data \<times> cap_data) \<times> 'k"
  sys_capset :: "cap_data \<times> cap_data \<Rightarrow> 'k \<Rightarrow> u32 \<times> 'k"
  sys_getrlimit :: "u32 \<Rightarrow> 'k \<Rightarrow> u32 \<times> rlimit \<times> 'k"
  sys_setrlimit :: "u32 \<Rightarrow> rlimit \<Rightarrow> 'k \<Rightarrow> u32 \<times> 'k"

definition ERANGE :: u32 where "ERANGE = 34"
definition CAP_SYS_RESOURCE :: u32 where "CAP_SYS_RESOURCE = 24"
definition RLIMIT_CPU :: u32 where "RLIMIT_CPU = 0"
definition RLIMIT_FSIZE :: u32 where "RLIMIT_FSIZE = 1"
definition RLIMIT_DATA :: u32 where "RLIMIT_DATA = 2"
definition RLIMIT_STACK :: u32 where "RLIMIT_STACK = 3"
definition RLIMIT_CORE :: u32 where "RLIMIT_CORE = 4"
definition RLIMIT_NOFILE :: u32 where "RLIMIT_NOFILE = 7"
definition RLIMIT_AS :: u32 where "RLIMIT_AS = 9"
definition RLIM_INFINITY :: u32 where "RLIM_INFINITY = - 1"

section \<open>Privileges\<close>

text \<open>The result of \<open>linux26_capability\<close> is a 64-bit number cut down to an \<open>int\<close>.\<close>

definition linux26_capability :: "'k limsys \<Rightarrow> u32 \<Rightarrow> int \<Rightarrow> 'k \<Rightarrow> u32 \<times> 'k" where
  "linux26_capability sys flag action k =
     (let cap_bit = (push_bit (unat flag mod 64) 1 :: u64);
          (retval, (c0, c1), k) = sys_capget sys k
      in if IBCS_IS_ERR retval then (retval, k)
         else let old_effective = ucast (effective c0) OR push_bit 32 (ucast (effective c1))
              in if action \<notin> {-1, 0, 1} then (- EINVAL, k)
                 else let new_effective = (if action = -1 then old_effective AND NOT cap_bit
                            else if action = 0 then old_effective else old_effective OR cap_bit)
                      in if new_effective \<noteq> old_effective
                         then let (retval, k) = sys_capset sys (c0\<lparr>effective := ucast new_effective\<rparr>,
                                    c1\<lparr>effective := ucast (drop_bit 32 new_effective)\<rparr>) k
                              in if IBCS_IS_ERR retval then (retval, k) else (ucast (new_effective AND cap_bit), k)
                         else (ucast (new_effective AND cap_bit), k))"

definition capable :: "'k limsys \<Rightarrow> u32 \<Rightarrow> 'k \<Rightarrow> u32 \<times> 'k" where
  "capable sys cap k = (let (r, k) = linux26_capability sys cap 0 k in (if r \<noteq> 0 then 0 else - EPERM, k))"

section \<open>\<open>ulimit\<close>\<close>

definition ULIM_BLOCKSIZE_BITS :: nat where "ULIM_BLOCKSIZE_BITS = 9"
definition INT_MAX :: u32 where "INT_MAX = 0x7FFFFFFF"
definition ULIM_MAX_BLOCKSIZE :: u32 where "ULIM_MAX_BLOCKSIZE = drop_bit ULIM_BLOCKSIZE_BITS INT_MAX"

text \<open>The errors of the native calls are not looked at.\<close>

definition svr4_ulimit :: "'k limsys \<Rightarrow> u32 \<Rightarrow> u32 \<Rightarrow> 'k \<Rightarrow> u32 \<times> 'k" where
  "svr4_ulimit sys cmd val k =
     (if cmd = 1
      then let (_, rlim, k) = sys_getrlimit sys RLIMIT_FSIZE k in (drop_bit ULIM_BLOCKSIZE_BITS (rlim_cur rlim), k)
      else if cmd = 2
      then let (_, rlim, k) = sys_getrlimit sys RLIMIT_FSIZE k
           in if sint ULIM_MAX_BLOCKSIZE < sint val \<or> sint val < 0 then (- ERANGE, k)
              else let lim_cur = push_bit ULIM_BLOCKSIZE_BITS val
                   in if rlim_max rlim < lim_cur
                      then let (c, k) = capable sys CAP_SYS_RESOURCE k
                           in if c = 0 then (- EPERM, k)
                              else let (_, k) = sys_setrlimit sys RLIMIT_FSIZE \<lparr>rlim_cur = lim_cur, rlim_max = lim_cur\<rparr> k in (0, k)
                      else let (_, k) = sys_setrlimit sys RLIMIT_FSIZE (rlim\<lparr>rlim_cur := lim_cur\<rparr>) k in (0, k)
      else if cmd = 3 then let (_, rlim, k) = sys_getrlimit sys RLIMIT_DATA k in (rlim_cur rlim, k)
      else if cmd = 4 then let (_, rlim, k) = sys_getrlimit sys RLIMIT_NOFILE k in (rlim_cur rlim, k)
      else (- EINVAL, k))"

section \<open>\<open>getrlimit\<close> and \<open>setrlimit\<close>\<close>

definition linux_rlimit :: "u32 \<Rightarrow> u32 option" where
  "linux_rlimit cmd =
     (if cmd = 0 then Some RLIMIT_CPU else if cmd = 1 then Some RLIMIT_FSIZE else if cmd = 2 then Some RLIMIT_DATA
      else if cmd = 3 then Some RLIMIT_STACK else if cmd = 4 then Some RLIMIT_CORE else if cmd = 5 then Some RLIMIT_NOFILE
      else if cmd = 6 then Some RLIMIT_AS else None)"

text \<open>The structure at \<open>val\<close> is filled by the native call; the third component is what it holds afterwards.\<close>

definition svr4_getrlimit :: "'k limsys \<Rightarrow> u32 \<Rightarrow> rlimit \<Rightarrow> 'k \<Rightarrow> u32 \<times> rlimit \<times> 'k" where
  "svr4_getrlimit sys cmd val k = (case linux_rlimit cmd of None \<Rightarrow> (- EINVAL, val, k) | Some cmd \<Rightarrow> sys_getrlimit sys cmd k)"

definition svr4_setrlimit :: "'k limsys \<Rightarrow> u32 \<Rightarrow> rlimit \<Rightarrow> 'k \<Rightarrow> u32 \<times> rlimit \<times> 'k" where
  "svr4_setrlimit sys cmd val k = (case linux_rlimit cmd of None \<Rightarrow> (- EINVAL, val, k) | Some cmd \<Rightarrow> sys_getrlimit sys cmd k)"

section \<open>The 64-bit limits of UnixWare 7\<close>

record uw7_rlim64 =
  rlim64_cur :: u64
  rlim64_max :: u64

definition uw7_to_linux_rlimit :: "u32 list" where
  "uw7_to_linux_rlimit = [RLIMIT_CPU, RLIMIT_DATA, RLIMIT_STACK, RLIMIT_CORE, RLIMIT_NOFILE, RLIMIT_AS]"

definition uw7_rlim64_to_user :: "'k limsys \<Rightarrow> u32 \<Rightarrow> 'k \<Rightarrow> u32 \<times> uw7_rlim64 option \<times> 'k" where
  "uw7_rlim64_to_user sys resource k =
     (let (error, lxrlim, k) = sys_getrlimit sys resource k
      in if error \<noteq> 0 then (error, None, k)
         else (0, Some \<lparr>rlim64_cur = ucast (rlim_cur lxrlim), rlim64_max = ucast (rlim_max lxrlim)\<rparr>, k))"

text \<open>The resource is compared as an unsigned number. \<open>None\<close> is a read behind the table.\<close>

definition uw7_getrlimit64 :: "'k limsys \<Rightarrow> u32 \<Rightarrow> 'k \<Rightarrow> (u32 \<times> uw7_rlim64 option \<times> 'k) option" where
  "uw7_getrlimit64 sys resource k =
     (if of_nat (length uw7_to_linux_rlimit) < resource then Some (- EINVAL, None, k)
      else if unat resource < length uw7_to_linux_rlimit
      then Some (uw7_rlim64_to_user sys (uw7_to_linux_rlimit ! unat resource) k)
      else None)"

definition uw7_check_rlimit64 :: "'k limsys \<Rightarrow> u32 \<Rightarrow> uw7_rlim64 \<Rightarrow> rlimit \<Rightarrow> 'k \<Rightarrow> u32 \<times> 'k" where
  "uw7_check_rlimit64 sys resource rlimp lxrlimp k =
     (let check_nofile = (\<lambda>k. (if resource = RLIMIT_NOFILE \<and> (1024 < rlim64_cur rlimp \<or> 1024 < rlim64_max rlimp) then - EPERM else 0, k))
      in if ucast RLIM_INFINITY < rlim64_cur rlimp \<or> ucast RLIM_INFINITY < rlim64_max rlimp then (- EPERM, k)
         else if ucast (rlim_max lxrlimp) < rlim64_cur rlimp \<or> ucast (rlim_max lxrlimp) < rlim64_max rlimp
         then let (c, k) = capable sys CAP_SYS_RESOURCE k in if c = 0 then (- EPERM, k) else check_nofile k
         else check_nofile k)"

definition uw7_setrlimit64 :: "'k limsys \<Rightarrow> u32 \<Rightarrow> uw7_rlim64 \<Rightarrow> 'k \<Rightarrow> u32 \<times> 'k" where
  "uw7_setrlimit64 sys resource rlim k =
     (let lxrlim = \<lparr>rlim_cur = 0, rlim_max = 0\<rparr>
      in if of_nat (length uw7_to_linux_rlimit) < resource then (- EINVAL, k)
         else let (c, k) = uw7_check_rlimit64 sys resource rlim lxrlim k
              in if c \<noteq> 0 then (- EPERM, k)
                 else sys_setrlimit sys resource \<lparr>rlim_cur = ucast (rlim64_cur rlim), rlim_max = ucast (rlim64_max rlim)\<rparr> k)"

section \<open>Setting and asking\<close>

text \<open>The kernel tells the limit of a resource that it was given, and asking changes nothing.\<close>

definition keeps_limits :: "'k limsys \<Rightarrow> ('k \<Rightarrow> u32 \<Rightarrow> rlimit) \<Rightarrow> bool" where
  "keeps_limits sys limits \<longleftrightarrow>
     (\<forall>r k. sys_getrlimit sys r k = (0, limits k r, k))
     \<and> (\<forall>r l k. \<exists>k'. sys_setrlimit sys r l k = (0, k') \<and> limits k' = (limits k)(r := l))"

text \<open>The capabilities of the process, and what the kernel says about them.\<close>

definition tells_capabilities :: "'k limsys \<Rightarrow> ('k \<Rightarrow> cap_data \<times> cap_data) \<Rightarrow> bool" where
  "tells_capabilities sys caps \<longleftrightarrow> (\<forall>k. sys_capget sys k = (0, caps k, k))"

lemma capable_iff:
  assumes "tells_capabilities sys caps" "flag < 32"
  shows "capable sys flag k = (if bit (effective (fst (caps k))) (unat flag) then 0 else - EPERM, k)"
proof -
  obtain c0 c1 where c: "caps k = (c0, c1)" by fastforce
  have f: "unat flag < 32" using assms(2) by (simp add: word_less_nat_alt)
  let ?e = "ucast (effective c0) OR push_bit 32 (ucast (effective c1)) :: u64"
  have "bit (ucast (?e AND push_bit (unat flag) 1) :: u32) n \<longleftrightarrow> n = unat flag \<and> bit (effective c0) n" for n
    using f by (auto simp: bit_simps)
  then have "(ucast (?e AND push_bit (unat flag) 1) :: u32) \<noteq> 0 \<longleftrightarrow> bit (effective c0) (unat flag)"
    by (metis bit_eqI bit_0_eq bot_apply bot_bool_def)
  then show ?thesis
    using assms(1) c f by (simp add: capable_def linux26_capability_def tells_capabilities_def IBCS_IS_ERR_def Let_def)
qed

lemma ulimit_shift:
  assumes "val \<le> ULIM_MAX_BLOCKSIZE"
  shows "drop_bit ULIM_BLOCKSIZE_BITS (push_bit ULIM_BLOCKSIZE_BITS val) = val"
    "\<not> sint ULIM_MAX_BLOCKSIZE < sint val" "\<not> sint val < 0"
proof -
  have v: "unat val \<le> 2 ^ 22 - 1"
    using assms by (simp add: word_le_nat_alt ULIM_MAX_BLOCKSIZE_def ULIM_BLOCKSIZE_BITS_def INT_MAX_def)
  then have "unat val < 2 ^ 22" by simp
  then have b: "\<not> bit val n" if "22 \<le> n" for n
  proof -
    have "take_bit 22 (unat val) = unat val" using \<open>unat val < 2 ^ 22\<close> by (simp add: take_bit_nat_eq_self)
    then have "\<not> bit (unat val) n" using that by (metis bit_take_bit_iff not_less)
    then show ?thesis by (simp add: bit_unsigned_iff)
  qed
  then have b2: "bit val n \<Longrightarrow> n < 22" for n by (meson not_less)
  show "drop_bit ULIM_BLOCKSIZE_BITS (push_bit ULIM_BLOCKSIZE_BITS val) = val"
  proof (rule bit_word_eqI)
    fix n
    show "bit (drop_bit ULIM_BLOCKSIZE_BITS (push_bit ULIM_BLOCKSIZE_BITS val)) n = bit val n"
      unfolding ULIM_BLOCKSIZE_BITS_def bit_drop_u32 bit_push_u32 using b2 [of n] by auto
  qed
  have u: "uint val \<le> 2 ^ 22 - 1"
    using assms by (simp add: word_le_def ULIM_MAX_BLOCKSIZE_def ULIM_BLOCKSIZE_BITS_def INT_MAX_def)
  then have "sint val = uint val" using sint_of_int_u32 [of "uint val"] uint_ge_0 [of val] by simp
  moreover have "sint ULIM_MAX_BLOCKSIZE = 2 ^ 22 - 1"
    by (simp add: ULIM_MAX_BLOCKSIZE_def ULIM_BLOCKSIZE_BITS_def INT_MAX_def)
  ultimately show "\<not> sint ULIM_MAX_BLOCKSIZE < sint val" "\<not> sint val < 0" using u by simp_all
qed

text \<open>Whether a process may raise its hard limits according to \<open>capabilities(7)\<close>.\<close>

definition may_raise :: "cap_data \<times> cap_data \<Rightarrow> bool" where
  "may_raise caps \<longleftrightarrow> bit (effective (fst caps)) 24"


text \<open>
  UnixWare's \<open>getrlimit64\<close> reports the wrong resource: the table lacks an entry for the file size, so
  every resource from 1 to 5 is answered with the limit of the next one, and resource 6 reads behind the
  table.
\<close>

theorem uw7_getrlimit64_shifted:
  "uw7_getrlimit64 sys 1 k = Some (uw7_rlim64_to_user sys RLIMIT_DATA k)
   \<and> uw7_getrlimit64 sys 2 k = Some (uw7_rlim64_to_user sys RLIMIT_STACK k)
   \<and> uw7_getrlimit64 sys 3 k = Some (uw7_rlim64_to_user sys RLIMIT_CORE k)
   \<and> uw7_getrlimit64 sys 4 k = Some (uw7_rlim64_to_user sys RLIMIT_NOFILE k)
   \<and> uw7_getrlimit64 sys 5 k = Some (uw7_rlim64_to_user sys RLIMIT_AS k)
   \<and> uw7_getrlimit64 sys 6 k = None"
  by (simp add: uw7_getrlimit64_def uw7_to_linux_rlimit_def)

text \<open>A kernel whose state is the limits, for a process with every privilege.\<close>

definition root_kernel :: "(u32 \<Rightarrow> rlimit) limsys" where
  "root_kernel = \<lparr>
     sys_capget = (\<lambda>k. (0, (\<lparr>effective = - 1, permitted = - 1, inheritable = 0\<rparr>, \<lparr>effective = 0xFF, permitted = 0xFF, inheritable = 0\<rparr>), k)),
     sys_capset = (\<lambda>c k. (- EPERM, k)),
     sys_getrlimit = (\<lambda>r k. (0, k r, k)), sys_setrlimit = (\<lambda>r l k. (0, k(r := l)))\<rparr>"


end
