(* ===== verification/Mounts.thy ===== *)
theory Mounts
  imports Svr4_Stat
begin

text \<open>
  The file system a file lies on: \<open>inode_to_path\<close> of \<^verbatim>\<open>src/ibcs/linux26-compat.c\<close>, which searches
  \<^verbatim>\<open>/proc/mounts\<close> for the mount point of an inode, with \<open>user_path\<close>, \<open>linux26_user_fpath\<close>, \<open>vfs_statfs\<close> and
  \<open>inode_get_i_sb\<close>.

  The buffer of the search is a list of bytes with the position and the count of the bytes not yet used;
  the words of a line are places in it. \<open>struct path\<close> and the structures it is knitted to are one record;
  the pointers between them always lead to the structure embedded in the path. \<open>None\<close> is undefined
  behaviour (a place outside the buffer, a word that was never set) or a search that does not end. What the
  stack holds before is an argument, because the loop condition reads the device of a \<open>struct kstat\<close>
  that may not be set yet.
\<close>

section \<open>Structures\<close>

record statfs =
  sf_type :: u32
  sf_bsize :: u32
  sf_blocks :: u32
  sf_bfree :: u32
  sf_bavail :: u32
  sf_files :: u32
  sf_ffree :: u32
  sf_fsid :: u64
  sf_namelen :: u32
  sf_frsize :: u32
  sf_flags :: u32

record kstatfs =
  f_type :: u32
  f_bsize :: u32
  f_blocks :: u64
  f_bfree :: u64
  f_bavail :: u64
  f_files :: u64
  f_ffree :: u64
  f_fsid :: u64
  f_namelen :: u32
  f_frsize :: u32
  f_spare :: "u32 list"

definition statfs_to_kstatfs :: "statfs \<Rightarrow> kstatfs" where
  "statfs_to_kstatfs st =
     \<lparr>f_type = sf_type st, f_bsize = sf_bsize st, f_blocks = ucast (sf_blocks st), f_bfree = ucast (sf_bfree st),
      f_bavail = ucast (sf_bavail st), f_files = ucast (sf_files st), f_ffree = ucast (sf_ffree st),
      f_fsid = sf_fsid st, f_namelen = sf_namelen st, f_frsize = sf_frsize st,
      f_spare = (replicate 5 0)[0 := sf_flags st]\<rparr>"

record path =
  d_inode :: inode
  mnt_flags :: u32
  s_dev :: u32
  s_flags :: u32
  s_type_name :: "u8 list"
  s_root_inode :: inode
  s_kstatfs :: kstatfs

definition no_kstatfs :: kstatfs where
  "no_kstatfs = \<lparr>f_type = 0, f_bsize = 0, f_blocks = 0, f_bfree = 0, f_bavail = 0, f_files = 0, f_ffree = 0,
     f_fsid = 0, f_namelen = 0, f_frsize = 0, f_spare = replicate 5 0\<rparr>"

definition path_construct :: path where
  "path_construct = \<lparr>d_inode = no_inode, mnt_flags = 0, s_dev = 0, s_flags = 0, s_type_name = replicate 16 0,
     s_root_inode = no_inode, s_kstatfs = no_kstatfs\<rparr>"

definition MS_RDONLY :: u32 where "MS_RDONLY = 1"
definition MNT_NOSUID :: u32 where "MNT_NOSUID = 1"

section \<open>The search\<close>

text \<open>The native \<open>statfs\<close>, and the bytes the last native \<open>read\<close> left in the buffer it was given.\<close>

record 'k mountsys =
  stat_sys :: "'k statsys"
  filled :: "'k \<Rightarrow> u8 list"
  sys_statfs :: "u8 list \<Rightarrow> 'k \<Rightarrow> (u32 + statfs) \<times> 'k"

record 'k mst =
  m_buf :: "u8 list"
  m_pos :: nat
  m_remaining :: nat
  m_loff :: u64
  m_words :: "nat option list"
  m_kstat :: kstat
  m_files :: "'k files"

text \<open>The C string at a place of the buffer, with its NUL.\<close>

definition c_string :: "u8 list \<Rightarrow> nat \<Rightarrow> u8 list option" where
  "c_string buf w = (if terminated (drop w buf) then Some (cstr (drop w buf) @ [0]) else None)"

definition fop_read :: "'k fsys \<Rightarrow> nat \<Rightarrow> u32 \<Rightarrow> u64 \<Rightarrow> 'k files \<Rightarrow> (u32 \<times> u64 \<times> 'k files) option" where
  "fop_read sys fd len loff s = do {
     f \<leftarrow> file_at s fd;
     (case op_read (f_op f) of
        None \<Rightarrow> None
      | Some (Driver d) \<Rightarrow> (case drv_read sys d fd len (kern s) of (got, k) \<Rightarrow> Some (got, loff, s\<lparr>kern := k\<rparr>))
      | Some Native \<Rightarrow>
          (case file_operations_read sys f len loff (kern s) of (got, loff, k) \<Rightarrow> Some (got, loff, s\<lparr>kern := k\<rparr>)))
   }"

text \<open>The loop \<open>for (i = 1; i < ARRAY_SIZE(words); i += 1)\<close> with \<open>n = 5 - i\<close>.\<close>

primrec split_words ::
  "nat \<Rightarrow> nat \<Rightarrow> nat \<Rightarrow> nat \<Rightarrow> u8 list \<Rightarrow> nat option list \<Rightarrow> (nat option list \<times> u8 list) option" where
  "split_words 0 nl p linelen buf words = Some (words, buf)"
| "split_words (Suc n) nl p linelen buf words =
     (let i = 4 - n in
      case memchr (drop p buf) 32 linelen of
        None \<Rightarrow> None
      | Some None \<Rightarrow> Some (words[i := None], buf)
      | Some (Some j) \<Rightarrow>
          let w = p + j in
          if nl \<le> w then Some (words[i := Some w], buf)
          else split_words n nl (w + 1) (linelen - (w + 1 - p)) (buf[w := 0]) (words[i := Some (w + 1)]))"

definition fill_buffer :: "'k mountsys \<Rightarrow> nat \<Rightarrow> 'k mst \<Rightarrow> (u32 option \<times> 'k mst) option" where
  "fill_buffer sys fd st =
     (if m_remaining st = length (m_buf st) then Some (Some (- ENOENT), st)
      else do {
        buf \<leftarrow> if m_pos st \<noteq> 0 then memcpy_loop (m_buf st) 0 (m_pos st) (m_remaining st) else Some (m_buf st);
        (got, loff, fs) \<leftarrow> fop_read (files_sys (stat_sys sys)) fd
          (of_nat (length buf - m_remaining st)) (m_loff st) (m_files st);
        let st = st\<lparr>m_buf := buf, m_pos := 0, m_loff := loff, m_files := fs\<rparr>;
        if IBCS_IS_ERR got then Some (Some got, st)
        else if got = 0 then Some (Some (- ENOENT), st)
        else let new = filled sys (kern fs) in
          if unat got \<le> length buf - m_remaining st \<and> length new = unat got
          then Some (None, st\<lparr>m_buf := take (m_remaining st) buf @ new @ drop (m_remaining st + unat got) buf,
                              m_remaining := m_remaining st + unat got\<rparr>)
          else None
      })"

definition use_line :: "'k mountsys \<Rightarrow> nat \<Rightarrow> 'k mst \<Rightarrow> (u32 option \<times> 'k mst) option" where
  "use_line sys n st = do {
     let p = m_pos st; let nl = p + n; let linelen = n + 1;
     (words, buf) \<leftarrow> split_words 4 nl p linelen (m_buf st) ((m_words st)[0 := Some p, 4 := None]);
     let st = st\<lparr>m_pos := nl + 1, m_remaining := m_remaining st - linelen, m_words := words, m_buf := buf\<rparr>;
     (case words ! 4 of
        None \<Rightarrow> Some (None, st)
      | Some _ \<Rightarrow> do {
          w \<leftarrow> words ! 1;
          name \<leftarrow> c_string buf w;
          (r, k) \<leftarrow> vfs_stat (stat_sys sys) name (kern (m_files st));
          let st = st\<lparr>m_files := (m_files st)\<lparr>kern := k\<rparr>\<rparr>;
          Some (None, case r of Inl e \<Rightarrow> st | Inr sb_kstat \<Rightarrow> st\<lparr>m_kstat := sb_kstat\<rparr>)
        })
   }"

definition mount_step :: "'k mountsys \<Rightarrow> nat \<Rightarrow> 'k mst \<Rightarrow> (u32 option \<times> 'k mst) option" where
  "mount_step sys fd st = do {
     nl \<leftarrow> memchr (drop (m_pos st) (m_buf st)) 10 (m_remaining st);
     (case nl of None \<Rightarrow> fill_buffer sys fd st | Some n \<Rightarrow> use_line sys n st)
   }"

partial_function (option) mount_loop :: "'k mountsys \<Rightarrow> nat \<Rightarrow> u32 \<Rightarrow> 'k mst \<Rightarrow> (u32 option \<times> 'k mst) option" where
  "mount_loop sys fd dev st = do {
     (r, st) \<leftarrow> mount_step sys fd st;
     (if r \<noteq> None then Some (r, st)
      else if ks_dev (m_kstat st) \<noteq> dev then mount_loop sys fd dev st
      else Some (None, st))
   }"

definition opt_ro :: "u8 list" where "opt_ro = [114, 111, 0]"
definition opt_nosuid :: "u8 list" where "opt_nosuid = [110, 111, 115, 117, 105, 100, 0]"

text \<open>The flags from the mount options, which start at the head of the list.\<close>

function mount_options :: "u8 list \<Rightarrow> u32 \<Rightarrow> u32 \<Rightarrow> (u32 \<times> u32) option" where
  "mount_options s sflags mflags =
     (case s of
        [] \<Rightarrow> None
      | x # _ \<Rightarrow>
          if x = 0 then Some (sflags, mflags)
          else case strchr s 44 of
            None \<Rightarrow> None
          | Some e \<Rightarrow>
              let opt = (case e of Some j \<Rightarrow> s[j := 0] | None \<Rightarrow> s);
                  rest = (case e of Some j \<Rightarrow> drop (j + 1) s | None \<Rightarrow> drop (length (cstr s)) s)
              in case (strcmp opt opt_ro, strcmp opt opt_nosuid) of
                (Some r, Some n) \<Rightarrow>
                  mount_options rest (if r = 0 then sflags OR MS_RDONLY else sflags)
                    (if n = 0 then mflags OR MNT_NOSUID else mflags)
              | _ \<Rightarrow> None)"
  by pat_completeness auto
termination by (relation "measure (\<lambda>(s, _, _). length s)") (auto split: option.splits)

declare mount_options.simps [simp del]

definition mount_found :: "'k mountsys \<Rightarrow> inode \<Rightarrow> 'k mst \<Rightarrow> (u32 \<times> path \<times> 'k files) option" where
  "mount_found sys inode st = do {
     w1 \<leftarrow> m_words st ! 1; w2 \<leftarrow> m_words st ! 2; w3 \<leftarrow> m_words st ! 3;
     mem \<leftarrow> strncpy (s_type_name path_construct @ m_buf st) 0 (16 + w2) 15;
     (sflags, mflags) \<leftarrow> mount_options (drop w3 (m_buf st)) 0 0;
     let path = path_construct\<lparr>d_inode := inode, s_dev := ks_dev (m_kstat st), s_type_name := take 16 mem,
       s_root_inode := kstat_to_inode (m_kstat st), s_flags := sflags, mnt_flags := mflags\<rparr>;
     dir \<leftarrow> c_string (m_buf st) w1;
     let (r, k) = sys_statfs sys dir (kern (m_files st));
     let fs = (m_files st)\<lparr>kern := k\<rparr>;
     Some (case r of Inl retval \<Rightarrow> (retval, path, fs)
                   | Inr st \<Rightarrow> (0, path\<lparr>s_kstatfs := statfs_to_kstatfs st\<rparr>, fs))
   }"

definition proc_mounts :: "u8 list" where
  "proc_mounts = map (of_nat \<circ> of_char) ''/proc/mounts'' @ [0]"

text \<open>\<open>buf\<close> and \<open>sb\<close> are what the stack holds in \<open>buf\<close> (three times \<open>PATH_MAX\<close> bytes) and \<open>sb_kstat\<close>.\<close>

definition inode_to_path ::
  "'k mountsys \<Rightarrow> u8 list \<Rightarrow> kstat \<Rightarrow> inode \<Rightarrow> 'k files \<Rightarrow> (u32 \<times> path \<times> 'k files) option" where
  "inode_to_path sys buf sb inode s = do {
     (r, s) \<leftarrow> linux26_fopen (files_sys (stat_sys sys)) proc_mounts 0 s;
     (case r of
        Inl e \<Rightarrow> Some (e, path_construct\<lparr>d_inode := inode\<rparr>, s)
      | Inr fd \<Rightarrow> do {
          (r, st) \<leftarrow> mount_loop sys fd (i_dev inode)
            \<lparr>m_buf = buf, m_pos = 0, m_remaining = 0, m_loff = 0, m_words = replicate 5 None, m_kstat = sb, m_files = s\<rparr>;
          (retval, path, s) \<leftarrow> (case r of
              Some e \<Rightarrow> Some (e, path_construct\<lparr>d_inode := inode\<rparr>, m_files st)
            | None \<Rightarrow> mount_found sys inode st);
          (_, s) \<leftarrow> linux26_fclose (files_sys (stat_sys sys)) fd s;
          Some (retval, path, s)
        })
   }"

text \<open>A path is not set when the file has no status.\<close>

definition user_path ::
  "'k mountsys \<Rightarrow> u8 list \<Rightarrow> kstat \<Rightarrow> u8 list \<Rightarrow> 'k files \<Rightarrow> (u32 \<times> path option \<times> 'k files) option" where
  "user_path sys buf sb filename s = do {
     (r, k) \<leftarrow> vfs_stat (stat_sys sys) filename (kern s);
     (case r of
        Inl e \<Rightarrow> Some (e, None, s\<lparr>kern := k\<rparr>)
      | Inr kstat \<Rightarrow> do {
          (retval, path, s) \<leftarrow> inode_to_path sys buf sb (kstat_to_inode kstat) (s\<lparr>kern := k\<rparr>);
          Some (retval, Some path, s)
        })
   }"

definition linux26_user_fpath ::
  "'k mountsys \<Rightarrow> u8 list \<Rightarrow> kstat \<Rightarrow> int \<Rightarrow> 'k files \<Rightarrow> (u32 \<times> path option \<times> 'k files) option" where
  "linux26_user_fpath sys buf sb fd s =
     (case vfs_fstat (files_sys (stat_sys sys)) fd (kern s) of
        (Inl e, k) \<Rightarrow> Some (e, None, s\<lparr>kern := k\<rparr>)
      | (Inr kstat, k) \<Rightarrow> do {
          (retval, path, s) \<leftarrow> inode_to_path sys buf sb (kstat_to_inode kstat) (s\<lparr>kern := k\<rparr>);
          Some (retval, Some path, s)
        })"

text \<open>\<open>vfs_statfs\<close> of the root of a file system; the structure is set only on success.\<close>

definition vfs_statfs ::
  "'k mountsys \<Rightarrow> u8 list \<Rightarrow> kstat \<Rightarrow> inode \<Rightarrow> 'k files \<Rightarrow> (u32 \<times> kstatfs option \<times> 'k files) option" where
  "vfs_statfs sys buf sb d s = do {
     (retval, path, s) \<leftarrow> inode_to_path sys buf sb d s;
     Some (retval, if IBCS_IS_ERR retval then None else Some (s_kstatfs path), s)
   }"


section \<open>The text of the file, as the search reads it\<close>

fun split_at :: "u8 \<Rightarrow> u8 list \<Rightarrow> u8 list list" where
  "split_at c [] = [[]]"
| "split_at c (x # xs) = (if x = c then [] # split_at c xs else (x # hd (split_at c xs)) # tl (split_at c xs))"

text \<open>A line that has five words at least names a mount point, a type and options.\<close>

definition mount_entry :: "u8 list \<Rightarrow> (u8 list \<times> u8 list \<times> u8 list) option" where
  "mount_entry line = (case split_at 32 line of _ # dir # type # opts # _ # _ \<Rightarrow> Some (dir, type, opts) | _ \<Rightarrow> None)"

definition complete_lines :: "u8 list \<Rightarrow> u8 list list" where
  "complete_lines text = butlast (split_at 10 text)"

text \<open>The first line whose mount point has the device.\<close>

fun find_mount ::
  "(u8 list \<Rightarrow> u32 + kstat) \<Rightarrow> u32 \<Rightarrow> u8 list list \<Rightarrow> (u8 list \<times> u8 list \<times> u8 list \<times> kstat) option" where
  "find_mount stat dev [] = None"
| "find_mount stat dev (l # ls) =
     (case mount_entry l of
        None \<Rightarrow> find_mount stat dev ls
      | Some (dir, type, opts) \<Rightarrow>
          (case stat dir of
             Inl e \<Rightarrow> find_mount stat dev ls
           | Inr ks \<Rightarrow> if ks_dev ks = dev then Some (dir, type, opts, ks) else find_mount stat dev ls))"

lemma split_at_not_Nil [simp]: "split_at c xs \<noteq> []"
  by (cases xs) auto

lemma split_at_no_separator: "c \<notin> set xs \<Longrightarrow> split_at c xs = [xs]"
  by (induction xs) auto

lemma split_at_append: "c \<notin> set xs \<Longrightarrow> split_at c (xs @ c # ys) = xs # split_at c ys"
  by (induction xs) auto

lemma complete_lines_Nil: "10 \<notin> set text \<Longrightarrow> complete_lines text = []"
  by (simp add: complete_lines_def split_at_no_separator)

lemma complete_lines_Cons: "10 \<notin> set l \<Longrightarrow> complete_lines (l @ 10 # text) = l # complete_lines text"
  by (simp add: complete_lines_def split_at_append)

lemma split_at_split: "split_at c xs = a # b # r \<Longrightarrow> \<exists>ys. xs = a @ c # ys \<and> c \<notin> set a \<and> split_at c ys = b # r"
proof (induction xs arbitrary: a)
  case (Cons x xs)
  show ?case
  proof (cases "x = c")
    case False
    with Cons.prems have a: "a = x # hd (split_at c xs)" "tl (split_at c xs) = b # r" by auto
    then have "split_at c xs = tl a # b # r" by (cases "split_at c xs") auto
    from Cons.IH [OF this] False a(1) show ?thesis by (auto simp: neq_Nil_conv)
  qed (use Cons.prems in auto)
qed simp

lemma split_at_single: "split_at c xs = [a] \<Longrightarrow> a = xs \<and> c \<notin> set xs"
proof (induction xs arbitrary: a)
  case (Cons x xs)
  then have x: "x \<noteq> c" and "tl (split_at c xs) = []" and a: "a = x # hd (split_at c xs)" by (auto split: if_splits)
  then have "split_at c xs = [hd (split_at c xs)]" by (cases "split_at c xs") auto
  from Cons.IH [OF this] x a show ?case by (metis set_ConsD)
qed simp

section \<open>Words of a line\<close>

text \<open>The line after the first \<open>n\<close> separators became NULs, and where the words behind them start.\<close>

fun marked :: "nat \<Rightarrow> u8 list \<Rightarrow> u8 list" where
  "marked 0 l = l"
| "marked (Suc n) [] = []"
| "marked (Suc n) (x # l) = (if x = 32 then 0 # marked n l else x # marked (Suc n) l)"

lemma length_marked [simp]: "length (marked n l) = length l"
  by (induction n l rule: marked.induct) auto

lemma marked_append: "32 \<notin> set w \<Longrightarrow> marked (Suc n) (w @ 32 # l) = w @ 0 # marked n l"
  by (induction w) auto

lemma marked_none: "32 \<notin> set w \<Longrightarrow> marked n w = w"
  by (induction w arbitrary: n; case_tac n) auto

lemma takeWhile_upto: "c \<notin> set w \<Longrightarrow> takeWhile (\<lambda>x. x \<noteq> c) (w @ c # l) = w"
  by (induction w) auto

text \<open>One step of the loop on a word followed by a space, and its end on the last word.\<close>

lemma split_words_space:
  assumes "32 \<notin> set w"
  shows "split_words (Suc n) nl (length pre) (length w + 1 + length l + 1) (pre @ (w @ 32 # l) @ 10 # post) words =
    (if nl \<le> length pre + length w then Some (words[4 - n := Some (length pre + length w)], pre @ (w @ 32 # l) @ 10 # post)
     else split_words n nl (length (pre @ w @ [0])) (length l + 1) ((pre @ w @ [0]) @ l @ 10 # post)
       (words[4 - n := Some (length (pre @ w @ [0]))]))"
  using assms by (simp add: memchr_first takeWhile_upto Let_def list_update_append)

lemma split_words_last:
  assumes "32 \<notin> set w"
  shows "split_words (Suc n) nl (length pre) (length w + 1) (pre @ w @ 10 # post) words =
    Some (words[4 - n := None], pre @ w @ 10 # post)"
  using assms by (simp add: memchr_first)


text \<open>
  The words of a line: with fewer than five of them the last entry stays empty, otherwise the entries point
  behind the NULs.
\<close>

lemma split_words_few:
  assumes "10 \<notin> set line" "length (split_at 32 line) \<le> n" "length words = 5" "words ! 4 = None" "n \<le> 4"
    "nl = length pre + length line"
  shows "\<exists>words' buf'. split_words n nl (length pre) (length line + 1) (pre @ line @ 10 # post) words =
    Some (words', pre @ buf' @ 10 # post) \<and> length words' = 5 \<and> words' ! 4 = None \<and> length buf' = length line"
  using assms
proof (induction n arbitrary: pre line words)
  case (Suc n)
  show ?case
  proof (cases "split_at 32 line")
    case (Cons a r)
    show ?thesis
    proof (cases r)
      case Nil
      with Cons split_at_single [of 32 line a] have "32 \<notin> set line" by simp
      then have "split_words (Suc n) nl (length pre) (length line + 1) (pre @ line @ 10 # post) words =
          Some (words[4 - n := None], pre @ line @ 10 # post)" by (rule split_words_last)
      with Suc.prems(3,4) show ?thesis
        by (intro exI [of _ "words[4 - n := None]"] exI [of _ line]) (auto simp: nth_list_update)
    next
      case (Cons b r')
      with \<open>split_at 32 line = a # r\<close> obtain l where l: "line = a @ 32 # l" "32 \<notin> set a" "split_at 32 l = b # r'"
        using split_at_split by metis
      let ?pre = "pre @ a @ [0]"
      have "\<exists>words' buf'. split_words n nl (length ?pre) (length l + 1) (?pre @ l @ 10 # post)
          (words[4 - n := Some (length ?pre)]) = Some (words', ?pre @ buf' @ 10 # post)
          \<and> length words' = 5 \<and> words' ! 4 = None \<and> length buf' = length l"
        using Suc.prems l \<open>split_at 32 line = a # r\<close> Cons
        by (intro Suc.IH) (auto simp: nth_list_update)
      then obtain words' buf' where w: "split_words n nl (length ?pre) (length l + 1) (?pre @ l @ 10 # post)
          (words[4 - n := Some (length ?pre)]) = Some (words', ?pre @ buf' @ 10 # post)"
        "length words' = 5" "words' ! 4 = None" "length buf' = length l" by blast
      have "split_words (Suc n) nl (length pre) (length line + 1) (pre @ line @ 10 # post) words =
          Some (words', pre @ (a @ 0 # buf') @ 10 # post)"
        using split_words_space [OF l(2), of n nl pre l post words] w(1) Suc.prems(6) by (simp add: l(1))
      with w l(1) show ?thesis by (intro exI [of _ words'] exI [of _ "a @ 0 # buf'"]) simp
    qed
  qed simp
qed simp

lemma split_words_five:
  assumes w: "32 \<notin> set a" "32 \<notin> set b" "32 \<notin> set c" "32 \<notin> set d" and len: "length words = 5"
    and line: "line = a @ 32 # b @ 32 # c @ 32 # d @ 32 # e" and nl: "nl = length pre + length line"
  shows "\<exists>q. split_words 4 nl (length pre) (length line + 1) (pre @ line @ 10 # post) words =
    Some ([words ! 0, Some (length (pre @ a @ [0])), Some (length (pre @ a @ 0 # b @ [0])),
           Some (length (pre @ a @ 0 # b @ 0 # c @ [0])), Some q],
          pre @ (a @ 0 # b @ 0 # c @ 0 # d @ 0 # e) @ 10 # post)"
proof -
  obtain w0 w1 w2 w3 w4 where ws: "words = [w0, w1, w2, w3, w4]"
    using len by (auto simp: length_Suc_conv numeral_eq_Suc)
  let ?p1 = "pre @ a @ [0]" and ?p2 = "pre @ a @ 0 # b @ [0]" and ?p3 = "pre @ a @ 0 # b @ 0 # c @ [0]"
    and ?p4 = "pre @ a @ 0 # b @ 0 # c @ 0 # d @ [0]"
  note step = split_words_space
  have "split_words (Suc 3) nl (length pre) (length line + 1) (pre @ line @ 10 # post) words =
      split_words (Suc 2) nl (length ?p1) (length b + 1 + length (c @ 32 # d @ 32 # e) + 1)
        (?p1 @ (b @ 32 # c @ 32 # d @ 32 # e) @ 10 # post) [w0, Some (length ?p1), w2, w3, w4]"
    using step [OF w(1), of 3 nl pre "b @ 32 # c @ 32 # d @ 32 # e" post words]
    by (simp add: line nl ws del: split_words.simps)
  also have "\<dots> = split_words (Suc 1) nl (length ?p2) (length c + 1 + length (d @ 32 # e) + 1)
        (?p2 @ (c @ 32 # d @ 32 # e) @ 10 # post) [w0, Some (length ?p1), Some (length ?p2), w3, w4]"
    using step [OF w(2), of 2 nl ?p1 "c @ 32 # d @ 32 # e" post "[w0, Some (length ?p1), w2, w3, w4]"]
    by (simp add: line nl numeral_eq_Suc del: split_words.simps)
  also have "\<dots> = split_words (Suc 0) nl (length ?p3) (length d + 1 + length e + 1)
        (?p3 @ (d @ 32 # e) @ 10 # post) [w0, Some (length ?p1), Some (length ?p2), Some (length ?p3), w4]"
    using step [OF w(3), of 1 nl ?p2 "d @ 32 # e" post "[w0, Some (length ?p1), Some (length ?p2), w3, w4]"]
    by (simp add: line nl numeral_eq_Suc del: split_words.simps)
  also have "\<dots> = Some ([w0, Some (length ?p1), Some (length ?p2), Some (length ?p3), Some (length ?p4)],
        ?p4 @ e @ 10 # post)"
    using step [OF w(4), of 0 nl ?p3 e post "[w0, Some (length ?p1), Some (length ?p2), Some (length ?p3), w4]"]
    by (simp add: line nl del: split_words.simps(2))
  finally show ?thesis by (auto simp: ws)
qed


section \<open>Reading the file\<close>

text \<open>
  What the search relies on of the native kernel: \<open>lseek\<close> goes where it is told, \<open>read\<close> gives a part of the text
  at the current offset, not empty before the end, and \<open>stat64\<close> answers a path always the same. \<open>posn n k\<close> says
  that the file stands at offset \<open>n\<close> in the kernel \<open>k\<close>.
\<close>

definition serves ::
  "'k mountsys \<Rightarrow> (nat \<Rightarrow> 'k \<Rightarrow> bool) \<Rightarrow> nat \<Rightarrow> u8 list \<Rightarrow> (u8 list \<Rightarrow> u32 + stat64) \<Rightarrow> bool" where
  "serves sys posn fd text native \<longleftrightarrow>
     (let fs = files_sys (stat_sys sys) in
      (\<forall>n k off. posn n k \<longrightarrow> (\<exists>k'. sys_lseek fs (int fd) off 0 k = (off, k') \<and> posn (unat off) k')) \<and>
      (\<forall>n k len. posn n k \<longrightarrow> (\<exists>got k'. sys_read fs (int fd) len k = (got, k') \<and> posn (n + unat got) k' \<and>
         unat got \<le> unat len \<and> (0 < unat len \<and> n < length text \<longrightarrow> got \<noteq> 0) \<and>
         n + unat got \<le> max n (length text) \<and> filled sys k' = take (unat got) (drop n text))) \<and>
      (\<forall>n k i. posn n k \<longrightarrow> posn n (snd (sys_fstat64 fs i k))) \<and>
      (\<forall>n k p. posn n k \<longrightarrow> (\<exists>k'. sys_stat64 fs p k = (native p, k') \<and> posn n k')))"

text \<open>The native file that \<open>linux26_fopen\<close> opened.\<close>

definition native_file :: "nat \<Rightarrow> 'k files \<Rightarrow> bool" where
  "native_file fd s \<longleftrightarrow> (\<exists>f. file_at s fd = Some f \<and> op_read (f_op f) = Some Native \<and> f_fd f = fd)"

definition stat_answers ::
  "'k mountsys \<Rightarrow> (u8 list \<Rightarrow> u32 + stat64) \<Rightarrow> (u8 list \<Rightarrow> u32 + kstat) \<Rightarrow> u8 list list \<Rightarrow> bool" where
  "stat_answers sys native stat ls \<longleftrightarrow>
     (\<forall>l \<in> set ls. \<forall>dir type opts. mount_entry l = Some (dir, type, opts) \<longrightarrow>
        (\<exists>p. mapped_name (files_sys (stat_sys sys)) (dir @ [0]) = Some p \<and> stat dir = map_sum id stat64_to_kstat (native p)))"

lemma native_file_kern [simp]: "native_file fd (s\<lparr>kern := k\<rparr>) = native_file fd s"
  by (simp add: native_file_def)

lemma sint_small: "unat x < 2 ^ 31 \<Longrightarrow> sint x = int (unat x)" for x :: u32
proof -
  assume small: "unat x < 2 ^ 31"
  have "uint x = int (unat x)" by simp
  then have "uint x < 2 ^ 31" using of_nat_less_iff [of "unat x" "2 ^ 31", where 'a = int] small by simp
  then show ?thesis using sint_of_int_u32 [of "uint x"] uint_ge_0 [of x] by (simp del: uint_ge_0)
qed

lemma unat_add_count:
  fixes loff :: u64 and got :: u32
  assumes "unat got < 2 ^ 31" "unat loff + unat got < 2 ^ 63"
  shows "unat (loff + scast got) = unat loff + unat got"
proof -
  have "sint got = int (unat got)" using assms(1) by (rule sint_small)
  then have "(scast got :: u64) = of_nat (unat got)" by (simp add: scast_eq)
  moreover have "unat (of_nat (unat got) :: u64) = unat got"
    using assms(1) by (simp only: unat_of_nat) simp
  ultimately show ?thesis using assms(2) by (simp add: unat_word_ariths)
qed

lemma fop_read_serves:
  assumes sv: "serves sys posn fd text native" and nf: "native_file fd s" and at: "posn n (kern s)"
    and len: "unat len < 2 ^ 31" and off: "unat loff \<le> length text" and small: "length text < 2 ^ 31"
  shows "\<exists>got loff' k. fop_read (files_sys (stat_sys sys)) fd len loff s = Some (got, loff', s\<lparr>kern := k\<rparr>)
    \<and> \<not> IBCS_IS_ERR got \<and> posn (unat loff') k \<and> unat loff' = unat loff + unat got \<and> unat got \<le> unat len
    \<and> (0 < unat len \<and> unat loff < length text \<longrightarrow> got \<noteq> 0) \<and> unat loff' \<le> length text
    \<and> filled sys k = take (unat got) (drop (unat loff) text)"
proof -
  from sv at obtain k1 where k1: "sys_lseek (files_sys (stat_sys sys)) (int fd) loff 0 (kern s) = (loff, k1)" "posn (unat loff) k1"
    unfolding serves_def Let_def by blast
  with sv obtain got k2 where k2: "sys_read (files_sys (stat_sys sys)) (int fd) len k1 = (got, k2)" "posn (unat loff + unat got) k2"
    "unat got \<le> unat len" "0 < unat len \<and> unat loff < length text \<longrightarrow> got \<noteq> 0"
    "unat loff + unat got \<le> max (unat loff) (length text)" "filled sys k2 = take (unat got) (drop (unat loff) text)"
    unfolding serves_def Let_def by blast
  have g: "unat got < 2 ^ 31" using k2(3) len by simp
  have "\<not> IBCS_IS_ERR got" using g by (intro not_IBCS_IS_ERR_small) simp
  moreover have "unat (loff + scast got) = unat loff + unat got"
    using g off small by (intro unat_add_count) auto
  ultimately show ?thesis
    using nf k1 k2 off
    by (auto simp: fop_read_def native_file_def file_operations_read_def file_operations_llseek_def)
qed


text \<open>The part of the text the search has not used yet, and what holds of its state.\<close>

definition unread :: "u8 list \<Rightarrow> 'k mst \<Rightarrow> u8 list" where
  "unread text st = take (m_remaining st) (drop (m_pos st) (m_buf st)) @ drop (unat (m_loff st)) text"

definition mount_inv :: "nat \<Rightarrow> (nat \<Rightarrow> 'k \<Rightarrow> bool) \<Rightarrow> u8 list \<Rightarrow> 'k files \<Rightarrow> 'k mst \<Rightarrow> bool" where
  "mount_inv B posn text base st \<longleftrightarrow>
     length (m_buf st) = B \<and> m_pos st + m_remaining st \<le> B \<and> length (m_words st) = 5 \<and>
     unat (m_loff st) \<le> length text \<and>
     (\<exists>n k. m_files st = base\<lparr>kern := k\<rparr> \<and> posn n k)"

lemma memchr_newline:
  assumes "mount_inv B posn text base st"
  defines "w \<equiv> take (m_remaining st) (drop (m_pos st) (m_buf st))"
  shows "memchr (drop (m_pos st) (m_buf st)) 10 (m_remaining st) =
    Some (if 10 \<in> set w then Some (length (takeWhile (\<lambda>x. x \<noteq> 10) w)) else None)"
  using assms(1) unfolding w_def mount_inv_def by (subst memchr_first) auto

lemma fill_buffer_spec:
  assumes sv: "serves sys posn fd text native" and nf: "native_file fd base"
    and inv: "mount_inv B posn text base st" and room: "m_remaining st < B" "B < 2 ^ 31" and small: "length text < 2 ^ 31"
  shows "\<exists>st'. (fill_buffer sys fd st = Some (Some (- ENOENT), st') \<and> unat (m_loff st) = length text
        \<or> fill_buffer sys fd st = Some (None, st') \<and> unat (m_loff st) < unat (m_loff st'))
      \<and> mount_inv B posn text base st' \<and> unread text st' = unread text st \<and> m_kstat st' = m_kstat st \<and> m_words st' = m_words st"
proof -
  let ?w = "take (m_remaining st) (drop (m_pos st) (m_buf st))" and ?r = "m_remaining st"
  have B: "length (m_buf st) = B" "m_pos st + ?r \<le> B" and off: "unat (m_loff st) \<le> length text"
    and ws: "length (m_words st) = 5" using inv by (auto simp: mount_inv_def)
  obtain n k where files: "m_files st = base\<lparr>kern := k\<rparr>" "posn n k" using inv by (auto simp: mount_inv_def)
  define buf where "buf = (if m_pos st \<noteq> 0 then take 0 (m_buf st) @ ?w @ drop (0 + ?r) (m_buf st) else m_buf st)"
  have copied: "(if m_pos st \<noteq> 0 then memcpy_loop (m_buf st) 0 (m_pos st) ?r else Some (m_buf st)) = Some buf"
    using B by (simp add: buf_def memcpy_loop_copies)
  have buf: "length buf = B" "take ?r buf = ?w" using B by (auto simp: buf_def)
  define len :: u32 where "len = of_nat (B - ?r)"
  have l: "unat len = B - ?r" unfolding len_def using room by (intro unat_of_nat_u32) simp
  then have small_len: "unat len < 2 ^ 31" using room(2) by simp
  obtain got loff k' where r: "fop_read (files_sys (stat_sys sys)) fd len (m_loff st) (m_files st) =
      Some (got, loff, base\<lparr>kern := k'\<rparr>)" "\<not> IBCS_IS_ERR got" "posn (unat loff) k'" "unat loff = unat (m_loff st) + unat got"
    "unat got \<le> B - ?r" "unat (m_loff st) < length text \<longrightarrow> got \<noteq> 0" "unat loff \<le> length text"
    "filled sys k' = take (unat got) (drop (unat (m_loff st)) text)"
    using fop_read_serves [OF sv, of "base\<lparr>kern := k\<rparr>" n len "m_loff st", OF _ _ small_len off small] nf files room
    by (auto simp: l)
  let ?st = "st\<lparr>m_buf := buf, m_pos := 0, m_loff := loff, m_files := base\<lparr>kern := k'\<rparr>\<rparr>"
  have start: "fill_buffer sys fd st = (if got = 0 then Some (Some (- ENOENT), ?st)
      else let new = filled sys k' in if unat got \<le> B - ?r \<and> length new = unat got
        then Some (None, ?st\<lparr>m_buf := take ?r buf @ new @ drop (?r + unat got) buf, m_remaining := ?r + unat got\<rparr>) else None)"
    using room B copied r(1,2) buf(1) by (simp add: fill_buffer_def Let_def len_def [symmetric] del: of_nat_diff)
  show ?thesis
  proof (cases "got = 0")
    case True
    then have "unat (m_loff st) = length text" using r(6) off by auto
    with True start B buf ws r off show ?thesis
      by (intro exI [of _ ?st]) (auto simp: mount_inv_def unread_def)
  next
    case False
    then have pos: "0 < unat got" by (simp add: unat_gt_0)
    have new: "length (filled sys k') = unat got" using r(4,7,8) by simp
    let ?st' = "?st\<lparr>m_buf := take ?r buf @ filled sys k' @ drop (?r + unat got) buf, m_remaining := ?r + unat got\<rparr>"
    have "filled sys k' @ drop (unat loff) text = drop (unat (m_loff st)) text"
      unfolding r(4,8) by (subst add.commute, subst drop_drop [symmetric]) (rule append_take_drop_id)
    moreover have "take (?r + unat got) (take ?r buf @ filled sys k' @ drop (?r + unat got) buf) = ?w @ filled sys k'"
      using buf B new room(1) by simp
    ultimately have "unread text ?st' = unread text st"
      by (simp add: unread_def)
    moreover have "mount_inv B posn text base ?st'"
      using buf B new r room ws by (auto simp: mount_inv_def)
    ultimately show ?thesis
      using False start new r(4,5) pos by (intro exI [of _ ?st']) (auto simp: Let_def)
  qed
qed


text \<open>A place of the buffer at which a string stands.\<close>

definition stands_at :: "u8 list \<Rightarrow> nat option \<Rightarrow> u8 list \<Rightarrow> bool" where
  "stands_at buf w str \<longleftrightarrow> (\<exists>i r. w = Some i \<and> drop i buf = str @ 0 # r)"

lemma drop_after: "buf = xs @ ys \<Longrightarrow> drop (length xs) buf = ys"
  by simp

lemma c_string_at: "drop w buf = str @ 0 # r \<Longrightarrow> 0 \<notin> set str \<Longrightarrow> c_string buf w = Some (str @ [0])"
  by (simp add: c_string_def cstr_append)

lemma mount_entry_Some:
  assumes "mount_entry line = Some (dir, type, opts)"
  shows "\<exists>a e. line = a @ 32 # dir @ 32 # type @ 32 # opts @ 32 # e
    \<and> 32 \<notin> set a \<and> 32 \<notin> set dir \<and> 32 \<notin> set type \<and> 32 \<notin> set opts"
proof -
  obtain a x r where "split_at 32 line = a # dir # type # opts # x # r"
    using assms by (auto simp: mount_entry_def split: list.splits)
  then show ?thesis by (blast dest: split_at_split)
qed

lemma mount_entry_None: "mount_entry line = None \<Longrightarrow> length (split_at 32 line) \<le> 4"
  by (auto simp: mount_entry_def split: list.splits)

text \<open>The state after a line: the buffer is the same behind the line, only the words of the line changed.\<close>

lemma use_line_spec:
  assumes inv: "mount_inv B posn text base st" and sv: "serves sys posn fd text native"
    and l: "take (m_remaining st) (drop (m_pos st) (m_buf st)) = l @ 10 # w" "10 \<notin> set l" "0 \<notin> set l"
    and ans: "stat_answers sys native stat [l]"
  shows "\<exists>st'. use_line sys (length l) st = Some (None, st') \<and> mount_inv B posn text base st'
    \<and> unread text st' = w @ drop (unat (m_loff st)) text \<and> m_loff st' = m_loff st
    \<and> (case mount_entry l of
         None \<Rightarrow> m_kstat st' = m_kstat st
       | Some (dir, type, opts) \<Rightarrow>
           stands_at (m_buf st') (m_words st' ! 1) dir \<and> stands_at (m_buf st') (m_words st' ! 2) type
           \<and> stands_at (m_buf st') (m_words st' ! 3) opts
           \<and> m_kstat st' = (case stat dir of Inl _ \<Rightarrow> m_kstat st | Inr ks \<Rightarrow> ks))"
proof -
  let ?pre = "take (m_pos st) (m_buf st)" and ?post = "w @ drop (m_pos st + m_remaining st) (m_buf st)"
  have B: "length (m_buf st) = B" "m_pos st + m_remaining st \<le> B" "length (m_words st) = 5" "unat (m_loff st) \<le> length text"
    using inv by (auto simp: mount_inv_def)
  obtain n k where files: "m_files st = base\<lparr>kern := k\<rparr>" "posn n k" using inv by (auto simp: mount_inv_def)
  have pre: "length ?pre = m_pos st" using B by simp
  have "drop (m_pos st) (m_buf st) = (l @ 10 # w) @ drop (m_remaining st) (drop (m_pos st) (m_buf st))"
    unfolding l(1) [symmetric] by (rule append_take_drop_id [symmetric])
  then have buf: "m_buf st = ?pre @ l @ 10 # ?post"
    using append_take_drop_id [of "m_pos st" "m_buf st"] by (metis append.assoc append_Cons drop_drop add.commute)
  have rem: "m_remaining st = length l + 1 + length w"
    using arg_cong [OF l(1), of length] B by simp
  let ?words = "(m_words st)[0 := Some (m_pos st), 4 := None]"
  let ?st = "\<lambda>words buf'. st\<lparr>m_pos := m_pos st + length l + 1, m_remaining := length w, m_words := words,
    m_buf := ?pre @ buf' @ 10 # ?post\<rparr>"
  have rest: "mount_inv B posn text base (?st words buf') \<and>
      unread text (?st words buf') = w @ drop (unat (m_loff st)) text"
    if "length words = 5" "length buf' = length l" for words buf'
    using that B files pre rem by (auto simp: mount_inv_def unread_def)
  show ?thesis
  proof (cases "mount_entry l")
    case None
    obtain words buf' where s: "split_words 4 (m_pos st + length l) (m_pos st) (length l + 1) (m_buf st) ?words =
        Some (words, ?pre @ buf' @ 10 # ?post)" "length words = 5" "words ! 4 = None" "length buf' = length l"
      using split_words_few [OF l(2) mount_entry_None [OF None], of ?words "m_pos st + length l" ?pre ?post] B pre buf by auto
    with None rest [OF s(2,4)] rem show ?thesis
      by (intro exI [of _ "?st words buf'"]) (simp add: use_line_def Let_def)
  next
    case (Some e)
    then obtain dir type opts where e: "mount_entry l = Some (dir, type, opts)" by (cases e) auto
    then obtain a x where line: "l = a @ 32 # dir @ 32 # type @ 32 # opts @ 32 # x"
      "32 \<notin> set a" "32 \<notin> set dir" "32 \<notin> set type" "32 \<notin> set opts" using mount_entry_Some by blast
    let ?b = "a @ 0 # dir @ 0 # type @ 0 # opts @ 0 # x"
    have "\<exists>q. split_words 4 (m_pos st + length l) (m_pos st) (length l + 1) (m_buf st) ?words =
        Some ([?words ! 0, Some (length (?pre @ a @ [0])), Some (length (?pre @ a @ 0 # dir @ [0])),
          Some (length (?pre @ a @ 0 # dir @ 0 # type @ [0])), Some q], ?pre @ ?b @ 10 # ?post)"
      using split_words_five [OF line(2-5), of ?words l x "m_pos st + length l" ?pre ?post] line(1) B(1-3) pre
      unfolding buf [symmetric] pre by simp
    then obtain q where s: "split_words 4 (m_pos st + length l) (m_pos st) (length l + 1) (m_buf st) ?words =
        Some ([?words ! 0, Some (length (?pre @ a @ [0])), Some (length (?pre @ a @ 0 # dir @ [0])),
          Some (length (?pre @ a @ 0 # dir @ 0 # type @ [0])), Some q], ?pre @ ?b @ 10 # ?post)" (is "_ = Some (?ws, _)")
      by blast
    obtain p where p: "mapped_name (files_sys (stat_sys sys)) (dir @ [0]) = Some p" "stat dir = map_sum id stat64_to_kstat (native p)"
      using ans e by (auto simp: stat_answers_def)
    obtain k' where k': "sys_stat64 (files_sys (stat_sys sys)) p k = (native p, k')" "posn n k'"
      using sv files(2) unfolding serves_def Let_def by blast
    have d: "drop (length (?pre @ a @ [0])) (?pre @ ?b @ 10 # ?post) = dir @ 0 # type @ 0 # opts @ 0 # x @ 10 # ?post"
      "drop (length (?pre @ a @ 0 # dir @ [0])) (?pre @ ?b @ 10 # ?post) = type @ 0 # opts @ 0 # x @ 10 # ?post"
      "drop (length (?pre @ a @ 0 # dir @ 0 # type @ [0])) (?pre @ ?b @ 10 # ?post) = opts @ 0 # x @ 10 # ?post"
      by (rule drop_after, simp)+
    have name: "c_string (?pre @ ?b @ 10 # ?post) (length (?pre @ a @ [0])) = Some (dir @ [0])"
      using c_string_at [OF d(1)] l(3) by (simp add: line(1))
    let ?st' = "(?st ?ws ?b)\<lparr>m_files := base\<lparr>kern := k'\<rparr>, m_kstat := (case stat dir of Inl _ \<Rightarrow> m_kstat st | Inr ks \<Rightarrow> ks)\<rparr>"
    have "use_line sys (length l) st = Some (None, ?st')"
      using s name p k' rem files
      by (cases "native p") (simp_all add: use_line_def vfs_stat_def Let_def)
    moreover have "mount_inv B posn text base ?st' \<and> unread text ?st' = w @ drop (unat (m_loff st)) text"
      using rest [of ?ws ?b] k'(2) by (auto simp: line(1) mount_inv_def unread_def)
    ultimately show ?thesis
      using e d by (intro exI [of _ ?st']) (auto simp: stands_at_def)
  qed
qed


lemma hd_split_at: "hd (split_at c xs) = takeWhile (\<lambda>x. x \<noteq> c) xs"
  by (induction xs) auto

lemma unread_window: "10 \<notin> set (take (m_remaining st) (drop (m_pos st) (m_buf st))) \<Longrightarrow>
    mount_inv B posn text base st \<Longrightarrow> \<forall>l \<in> set (split_at 10 (unread text st)). length l < B \<Longrightarrow> m_remaining st < B"
proof -
  let ?w = "take (m_remaining st) (drop (m_pos st) (m_buf st))"
  assume w: "10 \<notin> set ?w" and inv: "mount_inv B posn text base st"
    and short: "\<forall>l \<in> set (split_at 10 (unread text st)). length l < B"
  have "length (hd (split_at 10 (unread text st))) < B" using short hd_in_set by simp
  moreover have "takeWhile (\<lambda>x. x \<noteq> 10) (unread text st) = ?w @ takeWhile (\<lambda>x. x \<noteq> 10) (drop (unat (m_loff st)) text)"
    unfolding unread_def using w by (intro takeWhile_append2) auto
  moreover have "length ?w = m_remaining st" using inv by (auto simp: mount_inv_def)
  ultimately show ?thesis by (simp add: hd_split_at)
qed

text \<open>The outcome of the loop.\<close>

definition mount_outcome ::
  "'k mst \<Rightarrow> u32 option \<Rightarrow> (u8 list \<times> u8 list \<times> u8 list \<times> kstat) option \<Rightarrow> bool" where
  "mount_outcome st r found \<longleftrightarrow> (case found of
       None \<Rightarrow> r = Some (- ENOENT)
     | Some (dir, type, opts, ks) \<Rightarrow> r = None \<and> m_kstat st = ks
         \<and> stands_at (m_buf st) (m_words st ! 1) dir \<and> stands_at (m_buf st) (m_words st ! 2) type
         \<and> stands_at (m_buf st) (m_words st ! 3) opts)"

lemma mount_loop_again:
  "mount_step sys fd st = Some (None, st') \<Longrightarrow> ks_dev (m_kstat st') \<noteq> dev \<Longrightarrow>
   mount_loop sys fd dev st = mount_loop sys fd dev st'"
  by (subst mount_loop.simps) simp

lemma mount_loop_stop:
  "mount_step sys fd st = Some (r, st') \<Longrightarrow> r \<noteq> None \<or> ks_dev (m_kstat st') = dev \<Longrightarrow>
   mount_loop sys fd dev st = Some (r, st')"
  by (subst mount_loop.simps) auto

lemma mount_loop_finds:
  assumes sv: "serves sys posn fd text native" and nf: "native_file fd base"
    and small: "length text < 2 ^ 31" "B < 2 ^ 31"
  shows "mount_inv B posn text base st \<Longrightarrow> ks_dev (m_kstat st) \<noteq> dev \<Longrightarrow> 0 \<notin> set (unread text st) \<Longrightarrow>
    \<forall>l \<in> set (split_at 10 (unread text st)). length l < B \<Longrightarrow>
    stat_answers sys native stat (complete_lines (unread text st)) \<Longrightarrow>
    \<exists>r st'. mount_loop sys fd dev st = Some (r, st') \<and> mount_inv B posn text base st'
      \<and> mount_outcome st' r (find_mount stat dev (complete_lines (unread text st)))"
proof (induction "length (unread text st) + (length text - unat (m_loff st))" arbitrary: st rule: less_induct)
  case less
  let ?w = "take (m_remaining st) (drop (m_pos st) (m_buf st))"
  note chr = memchr_newline [OF less.prems(1)]
  show ?case
  proof (cases "10 \<in> set ?w")
    case False
    then have step: "mount_step sys fd st = fill_buffer sys fd st" by (simp add: mount_step_def chr)
    have room: "m_remaining st < B" using False less.prems(1,4) by (rule unread_window)
    obtain r st' where st': "fill_buffer sys fd st = Some (r, st')"
      "r = Some (- ENOENT) \<and> unat (m_loff st) = length text \<or> r = None \<and> unat (m_loff st) < unat (m_loff st')"
      "mount_inv B posn text base st'" "unread text st' = unread text st" "m_kstat st' = m_kstat st"
      using fill_buffer_spec [OF sv nf less.prems(1) room small(2,1)] by blast
    show ?thesis
    proof (cases r)
      case None
      with st' have off: "unat (m_loff st) < unat (m_loff st')" "unat (m_loff st') \<le> length text"
        by (auto simp: mount_inv_def)
      have "\<exists>r st''. mount_loop sys fd dev st' = Some (r, st'') \<and> mount_inv B posn text base st''
          \<and> mount_outcome st'' r (find_mount stat dev (complete_lines (unread text st)))"
        using less.hyps [of st'] off less.prems st'(3-5) by simp
      with st'(1,5) None step less.prems(2) show ?thesis by (simp add: mount_loop_again)
    next
      case (Some e)
      with st'(2) have e: "e = - ENOENT" "unat (m_loff st) = length text" by auto
      then have "complete_lines (unread text st) = []" using False by (simp add: unread_def complete_lines_Nil)
      with st'(1,3) Some e(1) step show ?thesis
        by (intro exI [of _ r] exI [of _ st']) (simp add: mount_loop_stop mount_outcome_def)
    qed
  next
    case True
    let ?l = "takeWhile (\<lambda>x. x \<noteq> 10) ?w"
    obtain w where w: "?w = ?l @ 10 # w" "10 \<notin> set ?l"
      using split_list_first [OF True] by (auto simp: takeWhile_upto)
    then have un: "unread text st = ?l @ 10 # w @ drop (unat (m_loff st)) text"
      unfolding unread_def by (metis append.assoc append_Cons)
    let ?R = "w @ drop (unat (m_loff st)) text"
    have zero: "0 \<notin> set ?l" "0 \<notin> set ?R" using less.prems(3) by (auto simp: un)
    have lines: "complete_lines (unread text st) = ?l # complete_lines ?R" "split_at 10 (unread text st) = ?l # split_at 10 ?R"
      using w(2) by (simp_all add: un complete_lines_Cons split_at_append)
    have ans: "stat_answers sys native stat [?l]" "stat_answers sys native stat (complete_lines ?R)"
      using less.prems(5) by (simp_all add: lines stat_answers_def)
    obtain st' where st': "use_line sys (length ?l) st = Some (None, st')" "mount_inv B posn text base st'"
      "unread text st' = ?R" "m_loff st' = m_loff st" "case mount_entry ?l of
         None \<Rightarrow> m_kstat st' = m_kstat st
       | Some (dir, type, opts) \<Rightarrow>
           stands_at (m_buf st') (m_words st' ! 1) dir \<and> stands_at (m_buf st') (m_words st' ! 2) type
           \<and> stands_at (m_buf st') (m_words st' ! 3) opts
           \<and> m_kstat st' = (case stat dir of Inl _ \<Rightarrow> m_kstat st | Inr ks \<Rightarrow> ks)"
      using use_line_spec [OF less.prems(1) sv w(1,2) zero(1) ans(1)] by blast
    have step: "mount_step sys fd st = Some (None, st')" using True st'(1) by (simp add: mount_step_def chr)
    show ?thesis
    proof (cases "ks_dev (m_kstat st') = dev")
      case False
      have "\<forall>l \<in> set (split_at 10 ?R). length l < B" using less.prems(4) by (simp add: lines)
      then have "\<exists>r st''. mount_loop sys fd dev st' = Some (r, st'') \<and> mount_inv B posn text base st''
          \<and> mount_outcome st'' r (find_mount stat dev (complete_lines ?R))"
        using less.hyps [of st'] st'(2-4) False zero(2) ans(2) by (simp add: un)
      moreover have "find_mount stat dev (complete_lines (unread text st)) = find_mount stat dev (complete_lines ?R)"
        using st'(5) False by (auto simp: lines split: option.splits sum.splits)
      ultimately show ?thesis using mount_loop_again [OF step False] by simp
    next
      case True
      with st'(5) less.prems(2) obtain dir type opts where e: "mount_entry ?l = Some (dir, type, opts)"
        by (auto split: option.splits)
      with st'(5) True less.prems(2) have "find_mount stat dev (complete_lines (unread text st)) = Some (dir, type, opts, m_kstat st')"
        by (auto simp: lines split: sum.splits)
      with st'(2,5) e show ?thesis using mount_loop_stop [OF step] True
        by (intro exI [of _ None] exI [of _ st']) (auto simp: mount_outcome_def)
    qed
  qed
qed


section \<open>The entry found\<close>

lemma strncpy_string:
  assumes "drop s mem = str @ 0 # r" "0 \<notin> set str" "d + c < s"
  shows "strncpy mem d s c = Some (take d mem @
    (if length str < c then str @ 0 # drop (d + length str + 1) mem else take c str @ drop (d + c) mem))"
  using assms
proof (induction c arbitrary: mem d s str)
  case (Suc c)
  have s: "s < length mem" "mem ! s = hd (str @ [0])"
    using Suc.prems(1) by (cases "s < length mem"; cases str; simp add: hd_drop_conv_nth [symmetric])+
  have d: "d < length mem" using s Suc.prems(3) by simp
  show ?case
  proof (cases str)
    case Nil
    with s d show ?thesis by (simp add: upd_conv_take_nth_drop)
  next
    case (Cons x str')
    let ?m = "mem[d := x]"
    have "drop (s + 1) ?m = str' @ 0 # r"
      using Suc.prems(1,3) Cons by (simp add: drop_Suc [symmetric] drop_update_cancel) (metis drop_Suc drop_tl list.sel(3))
    then have "strncpy ?m (d + 1) (s + 1) c = Some (take (d + 1) ?m @
        (if length str' < c then str' @ 0 # drop (d + 1 + length str' + 1) ?m else take c str' @ drop (d + 1 + c) ?m))"
      using Suc.prems(2,3) Cons by (intro Suc.IH) auto
    with s d Cons Suc.prems(2) show ?thesis by (simp add: take_Suc_conv_app_nth)
  qed
qed simp

lemma strchr_upto: "0 \<notin> set a \<Longrightarrow> c \<notin> set a \<Longrightarrow> strchr (a @ c # s) c = Some (Some (length a))"
  by (induction a) auto

text \<open>The flags are those of the options between the commas.\<close>

definition option_flag :: "u8 list \<Rightarrow> u8 list \<Rightarrow> u32 \<Rightarrow> u32" where
  "option_flag opts name flag = (if name \<in> set (split_at 44 opts) then flag else 0)"

lemma mount_options_flags:
  "0 \<notin> set opts \<Longrightarrow> mount_options (opts @ 0 # r) sflags mflags =
    Some (sflags OR option_flag opts (butlast opt_ro) MS_RDONLY, mflags OR option_flag opts (butlast opt_nosuid) MNT_NOSUID)"
proof (induction "length opts" arbitrary: opts sflags mflags rule: less_induct)
  case less
  have t: "terminated opt_ro" "terminated opt_nosuid" "cstr opt_ro = butlast opt_ro" "cstr opt_nosuid = butlast opt_nosuid"
    by (simp_all add: opt_ro_def opt_nosuid_def)
  show ?case
  proof (cases opts)
    case Nil
    then show ?thesis
      by (subst mount_options.simps) (simp add: option_flag_def opt_ro_def opt_nosuid_def)
  next
    case (Cons x xs)
    then have x: "x \<noteq> 0" using less.prems by auto
    show ?thesis
    proof (cases "44 \<in> set opts")
      case True
      then obtain a b where ab: "opts = a @ 44 # b" "44 \<notin> set a" by (meson split_list_first)
      have chr: "strchr (opts @ 0 # r) 44 = Some (Some (length a))"
        using less.prems ab by (simp add: strchr_upto)
      have upd: "(opts @ 0 # r)[length a := 0] = a @ 0 # b @ 0 # r" "drop (length a + 1) (opts @ 0 # r) = b @ 0 # r"
        by (simp_all add: ab list_update_append)
      have z: "0 \<notin> set a" "0 \<notin> set b" using less.prems ab by auto
      obtain r1 r2 where cmp: "strcmp (a @ 0 # b @ 0 # r) opt_ro = Some r1" "r1 = 0 \<longleftrightarrow> a = butlast opt_ro"
        "strcmp (a @ 0 # b @ 0 # r) opt_nosuid = Some r2" "r2 = 0 \<longleftrightarrow> a = butlast opt_nosuid"
        using strcmp_zero [of "a @ 0 # b @ 0 # r" opt_ro] strcmp_zero [of "a @ 0 # b @ 0 # r" opt_nosuid] t z(1) cstr_append by metis
      have ih: "mount_options (b @ 0 # r) sf mf = Some (sf OR option_flag b (butlast opt_ro) MS_RDONLY,
          mf OR option_flag b (butlast opt_nosuid) MNT_NOSUID)" for sf mf
        using z(2) by (intro less.hyps) (simp_all add: ab)
      have "mount_options (opts @ 0 # r) sflags mflags = mount_options (b @ 0 # r)
          (if r1 = 0 then sflags OR MS_RDONLY else sflags) (if r2 = 0 then mflags OR MNT_NOSUID else mflags)"
        using chr upd cmp x Cons by (subst mount_options.simps) simp
      with ih cmp ab show ?thesis by (auto simp: option_flag_def split_at_append or.assoc)
    next
      case False
      have chr: "strchr (opts @ 0 # r) 44 = Some None" "cstr (opts @ 0 # r) = opts" "terminated (opts @ 0 # r)"
        using less.prems False by (simp_all add: strchr_first cstr_append)
      obtain r1 r2 where cmp: "strcmp (opts @ 0 # r) opt_ro = Some r1" "r1 = 0 \<longleftrightarrow> opts = butlast opt_ro"
        "strcmp (opts @ 0 # r) opt_nosuid = Some r2" "r2 = 0 \<longleftrightarrow> opts = butlast opt_nosuid"
        using strcmp_zero [OF chr(3) t(1)] strcmp_zero [OF chr(3) t(2)] t chr by metis
      have "mount_options (opts @ 0 # r) sflags mflags = mount_options (0 # r)
          (if r1 = 0 then sflags OR MS_RDONLY else sflags) (if r2 = 0 then mflags OR MNT_NOSUID else mflags)"
        using chr cmp x Cons by (subst mount_options.simps) simp
      also have "mount_options (0 # r) sf mf = Some (sf, mf)" for sf mf by (subst mount_options.simps) simp
      finally show ?thesis using cmp False by (auto simp: option_flag_def split_at_no_separator)
    qed
  qed
qed


text \<open>The path for an entry of the file.\<close>

definition mount_path :: "inode \<Rightarrow> u8 list \<Rightarrow> u8 list \<Rightarrow> kstat \<Rightarrow> path" where
  "mount_path inode type opts ks =
     path_construct\<lparr>d_inode := inode, s_dev := ks_dev ks,
       s_type_name := take 15 type @ replicate (16 - length (take 15 type)) 0, s_root_inode := kstat_to_inode ks,
       s_flags := option_flag opts (butlast opt_ro) MS_RDONLY, mnt_flags := option_flag opts (butlast opt_nosuid) MNT_NOSUID\<rparr>"

lemma type_name:
  assumes "drop w buf = type @ 0 # r" "0 \<notin> set type"
  shows "\<exists>mem. strncpy (replicate 16 0 @ buf) 0 (16 + w) 15 = Some mem
    \<and> take 16 mem = take 15 type @ replicate (16 - length (take 15 type)) 0"
proof -
  have "drop (16 + w) (replicate 16 0 @ buf) = type @ 0 # r" using assms(1) by simp
  note cp = strncpy_string [OF this assms(2), of 0 15]
  show ?thesis
  proof (cases "length type < 15")
    case True
    then have "16 - length type = Suc (15 - length type)" by simp
    with True cp show ?thesis by (simp add: min_def)
  next
    case False
    with cp show ?thesis by (simp add: min_def)
  qed
qed

lemma mount_found_spec:
  assumes "stands_at (m_buf st) (m_words st ! 1) dir" "stands_at (m_buf st) (m_words st ! 2) type"
    "stands_at (m_buf st) (m_words st ! 3) opts" and z: "0 \<notin> set dir" "0 \<notin> set type" "0 \<notin> set opts"
    and sf: "sys_statfs sys (dir @ [0]) (kern (m_files st)) = (r, k)"
  shows "mount_found sys inode st = Some (case r of
      Inl e \<Rightarrow> (e, mount_path inode type opts (m_kstat st), (m_files st)\<lparr>kern := k\<rparr>)
    | Inr fs \<Rightarrow> (0, (mount_path inode type opts (m_kstat st))\<lparr>s_kstatfs := statfs_to_kstatfs fs\<rparr>, (m_files st)\<lparr>kern := k\<rparr>))"
proof -
  obtain w1 w2 w3 r1 r2 r3 where w: "m_words st ! 1 = Some w1" "m_words st ! 2 = Some w2" "m_words st ! 3 = Some w3"
    and d: "drop w1 (m_buf st) = dir @ 0 # r1" "drop w2 (m_buf st) = type @ 0 # r2" "drop w3 (m_buf st) = opts @ 0 # r3"
    using assms(1-3) by (auto simp: stands_at_def)
  obtain mem where mem: "strncpy (replicate 16 0 @ m_buf st) 0 (16 + w2) 15 = Some mem"
    "take 16 mem = take 15 type @ replicate (16 - length (take 15 type)) 0"
    using type_name [OF d(2) z(2)] by blast
  show ?thesis
    using w d(3) mem z sf c_string_at [OF d(1) z(1)]
    by (cases r) (simp_all add: mount_found_def mount_options_flags mount_path_def path_construct_def)
qed

lemma fget_new:
  assumes "table_ok s" "file_at s fd = None"
  obtains s' f where "fget sys fd s = Some s'" "others_ok fd s'" "file_at s' fd = Some f" "f_fd f = fd" "f_count f = 1"
    "f_own f = False" "kern s' = snd (new_file sys fd (kern s))" "\<And>i. i \<noteq> fd \<Longrightarrow> file_at s' i = file_at s i"
proof -
  obtain s' where s': "fget sys fd s = Some s'" "others_ok fd s'"
    "file_at s' fd = Some ((fget_file sys fd s)\<lparr>f_count := 1\<rparr>)" "\<And>i. i \<noteq> fd \<Longrightarrow> file_at s' i = file_at s i"
    using fget_spec [OF assms(1), of sys fd] by auto
  have "fdt (fget_grow sys fd s) ! fd = Null"
    using fget_grow_fdt [OF assms(1), where sys = sys and fd = fd and i = fd] fget_grow_ok(1,2) [OF assms(1), where sys = sys and fd = fd] assms(2)
    by (cases "fdt (fget_grow sys fd s) ! fd") (auto simp: file_at_def slot_at_def table_ok_def)
  then have "kern s' = snd (new_file sys fd (kern s))"
    using s'(1) fget_grow_ok(3) [OF assms(1), where sys = sys and fd = fd] by (auto simp: fget_def Let_def split: prod.splits)
  with s' show thesis by (intro that [of s' "(fget_file sys fd s)\<lparr>f_count := 1\<rparr>"]) (auto simp: fget_file_def assms(2))
qed

lemma fclose_spec:
  assumes "others_ok fd s" "file_at s fd = Some f" "f_fd f = fd" "f_count f = 1"
  shows "\<exists>ret s'. linux26_fclose sys fd s = Some (ret, s') \<and> table_ok s' \<and> file_at s' fd = None
    \<and> (\<forall>i. i \<noteq> fd \<longrightarrow> file_at s' i = file_at s i)"
proof -
  obtain ret k where c: "sys_close sys (int (f_fd f)) (call_release sys (op_release (f_op f)) fd (kern s)) = (ret, k)"
    by (cases "sys_close sys (int (f_fd f)) (call_release sys (op_release (f_op f)) fd (kern s))")
  let ?f = "f\<lparr>f_isopen := False\<rparr>"
  let ?s = "set_slot fd (Open ?f) (s\<lparr>kern := k\<rparr>)"
  have len: "fd < length (fdt s)" using assms(2) by (simp add: file_at_iff)
  then have "fput fd ?s = Some (set_slot fd Null ?s)" "table_ok (set_slot fd Null ?s)"
    using fput_spec [of fd ?s ?f] assms by (simp_all add: settled_def)
  with assms(2) c len show ?thesis
    by (intro exI [of _ ret] exI [of _ "set_slot fd Null ?s"]) (auto simp: linux26_fclose_def file_at_def slot_at_def)
qed


section \<open>The file system of an inode\<close>

lemma set_tl_subset: "set (tl xs) \<subseteq> set xs"
  by (cases xs) auto

lemma complete_lines_set: "l \<in> set (complete_lines text) \<Longrightarrow> set l \<subseteq> set text"
proof -
  have "l \<in> set (split_at 10 text) \<Longrightarrow> set l \<subseteq> set text"
  proof (induction "text" arbitrary: l)
    case (Cons x xs)
    have "hd (split_at 10 xs) \<in> set (split_at 10 xs)" "set (tl (split_at 10 xs)) \<subseteq> set (split_at 10 xs)"
      by (simp_all add: set_tl_subset)
    with Cons show ?case by (auto split: if_splits; blast)
  qed simp
  then show "l \<in> set (complete_lines text) \<Longrightarrow> set l \<subseteq> set text"
    by (auto simp: complete_lines_def dest: in_set_butlastD)
qed

lemma find_mount_entry:
  "find_mount stat dev ls = Some (dir, type, opts, ks) \<Longrightarrow> \<exists>l \<in> set ls. mount_entry l = Some (dir, type, opts)"
  by (induction ls) (auto split: option.splits sum.splits if_splits)

lemma mount_entry_set: "mount_entry l = Some (dir, type, opts) \<Longrightarrow> set dir \<union> set type \<union> set opts \<subseteq> set l"
  using mount_entry_Some [of l dir type opts] by auto

text \<open>
  The kernel under the search: it opens the file anew each time, serves it, and \<open>statfs\<close> answers a path always
  the same.
\<close>

definition mounts_kernel ::
  "'k mountsys \<Rightarrow> (nat \<Rightarrow> 'k \<Rightarrow> bool) \<Rightarrow> u32 \<Rightarrow> u8 list \<Rightarrow> (u8 list \<Rightarrow> u32 + stat64) \<Rightarrow> (u8 list \<Rightarrow> u32 + statfs) \<Rightarrow> bool" where
  "mounts_kernel sys posn fd text native nstatfs \<longleftrightarrow>
     serves sys posn (unat fd) text native \<and> \<not> IBCS_IS_ERR fd \<and>
     (\<forall>k. \<exists>k'. sys_open (files_sys (stat_sys sys)) proc_mounts 0 0 k = (fd, k') \<and> posn 0 k') \<and>
     (\<forall>n k p. posn n k \<longrightarrow> fst (sys_statfs sys p k) = nstatfs p)"

lemma inode_to_path_spec:
  assumes ok: "table_ok s" "file_at s (unat fd) = None" and kern: "mounts_kernel sys posn fd text native nstatfs"
    and ans: "stat_answers sys native stat (complete_lines text)"
    and tx: "0 \<notin> set text" "length text < 2 ^ 31"
    and buf: "length buf < 2 ^ 31" "\<forall>l \<in> set (split_at 10 text). length l < length buf"
    and sb: "ks_dev sb \<noteq> i_dev inode"
  shows "\<exists>s'. table_ok s' \<and> (\<forall>i. file_at s' i = file_at s i) \<and>
    inode_to_path sys buf sb inode s = Some (case find_mount stat (i_dev inode) (complete_lines text) of
        None \<Rightarrow> (- ENOENT, path_construct\<lparr>d_inode := inode\<rparr>, s')
      | Some (dir, type, opts, ks) \<Rightarrow>
          (case nstatfs (dir @ [0]) of
             Inl e \<Rightarrow> (e, mount_path inode type opts ks, s')
           | Inr st \<Rightarrow> (0, (mount_path inode type opts ks)\<lparr>s_kstatfs := statfs_to_kstatfs st\<rparr>, s')))"
proof -
  obtain k0 where opened: "sys_open (files_sys (stat_sys sys)) proc_mounts 0 0 (kern s) = (fd, k0)" "\<not> IBCS_IS_ERR fd"
      "file_at s (unat fd) = None" "posn 0 k0"
    using kern ok(2) unfolding mounts_kernel_def by metis
  have sv: "serves sys posn (unat fd) text native" and sfs: "\<And>n k p. posn n k \<Longrightarrow> fst (sys_statfs sys p k) = nstatfs p"
    using kern by (auto simp: mounts_kernel_def)
  let ?fs = "files_sys (stat_sys sys)" and ?n = "unat fd" and ?ls = "complete_lines text"
  obtain s1 f where s1: "fget ?fs ?n (s\<lparr>kern := k0\<rparr>) = Some s1" "others_ok ?n s1" "file_at s1 ?n = Some f"
    "f_fd f = ?n" "f_count f = 1" "f_own f = False" "kern s1 = snd (new_file ?fs ?n k0)"
    "\<And>i. i \<noteq> ?n \<Longrightarrow> file_at s1 i = file_at s i"
    using fget_new [of "s\<lparr>kern := k0\<rparr>" ?n ?fs] ok(1) opened(3) by auto
  have at: "posn 0 (kern s1)"
    using sv opened(4) unfolding s1(7) serves_def Let_def
    by (auto simp: new_file_def vfs_fstat_def Let_def split: prod.splits sum.splits) (metis snd_conv)+
  have nf: "native_file ?n s1" using s1(3,4,6) by (simp add: native_file_def f_op_def file_operations_def)
  let ?st = "\<lparr>m_buf = buf, m_pos = 0, m_remaining = 0, m_loff = 0, m_words = replicate 5 None, m_kstat = sb, m_files = s1\<rparr>"
  have un: "unread text ?st = text" by (simp add: unread_def)
  have inv: "mount_inv (length buf) posn text s1 ?st"
    using at by (auto simp: mount_inv_def intro!: exI [of _ "0::nat"] exI [of _ "kern s1"])
  obtain r st' where lp: "mount_loop sys ?n (i_dev inode) ?st = Some (r, st')" "mount_inv (length buf) posn text s1 st'"
    "mount_outcome st' r (find_mount stat (i_dev inode) ?ls)"
    using mount_loop_finds [OF sv nf tx(2) buf(1), of ?st "i_dev inode" stat] inv sb tx(1) buf(2) ans
    by (auto simp: un)
  obtain n k where k: "m_files st' = s1\<lparr>kern := k\<rparr>" "posn n k" using lp(2) by (auto simp: mount_inv_def)
  obtain ret s2 where close: "linux26_fclose ?fs ?n (s1\<lparr>kern := k'\<rparr>) = Some (ret k', s2 k')" "table_ok (s2 k')"
      "\<And>i. file_at (s2 k') i = file_at s i" for k'
  proof -
    have "\<exists>ret s'. linux26_fclose ?fs ?n (s1\<lparr>kern := k'\<rparr>) = Some (ret, s') \<and> table_ok s' \<and> (\<forall>i. file_at s' i = file_at s i)" for k'
      using fclose_spec [of ?n "s1\<lparr>kern := k'\<rparr>" f ?fs] s1 opened(3) by simp metis
    then show thesis using that by metis
  qed
  have start: "inode_to_path sys buf sb inode s = (do {
      (retval, path, s) \<leftarrow> (case r of Some e \<Rightarrow> Some (e, path_construct\<lparr>d_inode := inode\<rparr>, m_files st') | None \<Rightarrow> mount_found sys inode st');
      (_, s) \<leftarrow> linux26_fclose ?fs ?n s;
      Some (retval, path, s) })"
    using opened(1,2) s1(1) lp(1) by (simp add: inode_to_path_def linux26_fopen_def)
  show ?thesis
  proof (cases "find_mount stat (i_dev inode) ?ls")
    case None
    with lp(3) have "r = Some (- ENOENT)" by (simp add: mount_outcome_def)
    with start None k(1) close [of k] show ?thesis by (intro exI [of _ "s2 k"]) simp
  next
    case (Some e)
    obtain dir type opts ks where e: "e = (dir, type, opts, ks)" by (cases e) auto
    with lp(3) Some have found: "r = None" "m_kstat st' = ks" "stands_at (m_buf st') (m_words st' ! 1) dir"
      "stands_at (m_buf st') (m_words st' ! 2) type" "stands_at (m_buf st') (m_words st' ! 3) opts"
      by (auto simp: mount_outcome_def)
    obtain l where "l \<in> set ?ls" "mount_entry l = Some (dir, type, opts)" using find_mount_entry Some e by blast
    then have z: "0 \<notin> set dir" "0 \<notin> set type" "0 \<notin> set opts"
      using mount_entry_set [of l dir type opts] complete_lines_set [of l "text"] tx(1) by auto
    obtain k' where sf: "sys_statfs sys (dir @ [0]) (kern (m_files st')) = (nstatfs (dir @ [0]), k')"
      using sfs [of n k "dir @ [0]"] k by (metis files.select_convs(4) files.surjective files.update_convs(4) prod.collapse)
    show ?thesis
      using start found(1,2) mount_found_spec [OF found(3-5) z sf, of inode] close [of k'] k(1) Some e
      by (intro exI [of _ "s2 k'"]) (auto split: sum.splits)
  qed
qed


text \<open>
  C17: \<open>inode_to_path\<close>, in whatever portions the kernel delivers \<^verbatim>\<open>/proc/mounts\<close>, describes the file system of the
  first line whose mount point has the device of the inode: its device, type (cut to 15 bytes), root, the flags of the
  options \<open>ro\<close> and \<open>nosuid\<close> and what \<open>statfs\<close> says of it. Without such a line the result is \<open>ENOENT\<close>. The table of
  files is afterwards what it was. This holds when the lines are shorter than the buffer and the
  uninitialised \<open>sb_kstat\<close>, which the loop condition reads after the first portion, does not happen to hold the device.
\<close>

theorem inode_to_path_finds:
  assumes ok: "table_ok s" "file_at s (unat fd) = None" and kern: "mounts_kernel sys posn fd text native nstatfs"
    and ans: "stat_answers sys native stat (complete_lines text)"
    and tx: "0 \<notin> set text" "length text < 2 ^ 31"
    and buf: "length buf < 2 ^ 31" "\<forall>l \<in> set (split_at 10 text). length l < length buf"
    and sb: "ks_dev sb \<noteq> i_dev inode"
  shows "\<exists>s'. table_ok s' \<and> (\<forall>i. file_at s' i = file_at s i) \<and>
    inode_to_path sys buf sb inode s = Some (case find_mount stat (i_dev inode) (complete_lines text) of
        None \<Rightarrow> (- ENOENT, path_construct\<lparr>d_inode := inode\<rparr>, s')
      | Some (dir, type, opts, ks) \<Rightarrow>
          (case nstatfs (dir @ [0]) of
             Inl e \<Rightarrow> (e, mount_path inode type opts ks, s')
           | Inr st \<Rightarrow> (0, (mount_path inode type opts ks)\<lparr>s_kstatfs := statfs_to_kstatfs st\<rparr>, s')))"
  using assms by (rule inode_to_path_spec)

text \<open>
  When the stack happens to hold the device of the inode where \<open>sb_kstat\<close> lies, the search ends after
  the first portion, before any line was looked at, and goes on with words that were never set.
\<close>

lemma mount_loop_uninitialised:
  assumes "serves sys posn fd text native" "native_file fd base" "mount_inv B posn text base st"
    "m_remaining st = 0" "0 < B" "B < 2 ^ 31" "length text < 2 ^ 31" "unat (m_loff st) < length text"
    "ks_dev (m_kstat st) = dev" "m_words st ! 1 = None"
  shows "\<exists>st'. mount_loop sys fd dev st = Some (None, st') \<and> mount_found sys inode st' = None"
proof -
  obtain st' where st': "fill_buffer sys fd st = Some (None, st')" "m_kstat st' = m_kstat st" "m_words st' = m_words st"
    using fill_buffer_spec [OF assms(1-3)] assms(4-8) by auto
  have "mount_step sys fd st = Some (None, st')"
    using memchr_newline [OF assms(3)] st'(1) assms(4) by (simp add: mount_step_def)
  from mount_loop_stop [OF this] st'(2,3) assms(9,10) show ?thesis by (simp add: mount_found_def)
qed

text \<open>
  A kernel that has one file system, mounted read only on the root, and that reads five bytes at a time.
\<close>

definition one_text :: "u8 list" where "one_text = [97, 32, 47, 32, 116, 32, 114, 111, 32, 48, 10]"

definition one_statfs :: statfs where
  "one_statfs = \<lparr>sf_type = 0xEF53, sf_bsize = 512, sf_blocks = 7, sf_bfree = 3, sf_bavail = 2, sf_files = 5, sf_ffree = 4,
     sf_fsid = 0, sf_namelen = 255, sf_frsize = 512, sf_flags = 0\<rparr>"

definition mt_read :: "u32 \<Rightarrow> nat \<times> u8 list \<Rightarrow> u32 \<times> nat \<times> u8 list" where
  "mt_read len k = (let got = min 5 (min (unat len) (length one_text - fst k))
     in (of_nat got, fst k + got, take got (drop (fst k) one_text)))"

definition mt_fs :: "(nat \<times> u8 list) fsys" where
  "mt_fs = \<lparr>sys_fstat64 = \<lambda>fd k. (Inr one_stat, k), sys_stat64 = \<lambda>p k. (Inr one_stat, k),
     sys_open = \<lambda>p m f k. (3, 0, []), sys_creat = \<lambda>p m k. (3, k), sys_access = \<lambda>p m k. (0, k),
     sys_close = \<lambda>fd k. (0, k), sys_dup = \<lambda>fd fd2 k. (5, k), sys_read = \<lambda>fd n k. mt_read n k,
     sys_write = \<lambda>fd n k. (0, k), sys_lseek = \<lambda>fd off w k. (off, unat off, []), sys_getcwd = \<lambda>n. Inl (- 2),
     drv_read = \<lambda>d fd n k. (n, k), drv_write = \<lambda>d fd n k. (n, k), drv_open = \<lambda>d fd k. k,
     drv_release = \<lambda>d fd k. k, drv_chrdev_open = \<lambda>d p m f. - 2, drivers = \<lambda>d. no_operations,
     fresh = \<lambda>i. Null, filemaps = [], stack_bytes = replicate 16 0\<rparr>"

definition mt_sys :: "(nat \<times> u8 list) mountsys" where
  "mt_sys = \<lparr>stat_sys = \<lparr>files_sys = mt_fs, sys_lstat64 = \<lambda>p k. (Inr one_stat, k)\<rparr>, filled = snd,
     sys_statfs = \<lambda>p k. (Inr one_statfs, k)\<rparr>"

definition mt_files :: "(nat \<times> u8 list) files" where
  "mt_files = \<lparr>fdt = [Null, Null], fd_array = True, chrdevs = [], kern = (0, [])\<rparr>"

definition mt_kstat :: kstat where "mt_kstat = stat64_to_kstat one_stat"

lemma mt_serves: "serves mt_sys (\<lambda>n k. fst k = n) 3 one_text (\<lambda>p. Inr one_stat)"
proof -
  have "unat (of_nat (min 5 (min (unat len) (length one_text - n))) :: u32) = min 5 (min (unat len) (length one_text - n))"
    for len :: u32 and n by (rule unat_of_nat_u32) (simp add: min_def)
  moreover have "of_nat (min 5 (min (unat len) (length one_text - n))) \<noteq> (0 :: u32)" if "0 < unat len" "n < length one_text"
    for len :: u32 and n using calculation [of len n] that by (metis unat_0 min_less_iff_conj less_numeral_extra(3) zero_less_diff zero_less_numeral)
  ultimately show ?thesis by (auto simp: serves_def mt_sys_def mt_fs_def mt_read_def Let_def)
qed

lemma mt_lines: "complete_lines one_text = [[97, 32, 47, 32, 116, 32, 114, 111, 32, 48]]"
  "split_at 10 one_text = [[97, 32, 47, 32, 116, 32, 114, 111, 32, 48], []]"
  "mount_entry [97, 32, 47, 32, 116, 32, 114, 111, 32, 48] = Some ([47], [116], [114, 111])"
  by code_simp+

lemma mt_hyps:
  "table_ok mt_files" "file_at mt_files (unat (3::u32)) = None"
  "mounts_kernel mt_sys (\<lambda>n k. fst k = n) 3 one_text (\<lambda>p. Inr one_stat) (\<lambda>p. Inr one_statfs)"
  "stat_answers mt_sys (\<lambda>p. Inr one_stat) (\<lambda>d. Inr mt_kstat) (complete_lines one_text)"
  "0 \<notin> set one_text" "length one_text < 2 ^ 31"
  "length (replicate 64 (0::u8)) < 2 ^ 31" "\<forall>l \<in> set (split_at 10 one_text). length l < length (replicate 64 (0::u8))"
proof -
  have "mapped_name (files_sys (stat_sys mt_sys)) [47, 0] = Some ([47, 0] @ replicate 14 0)" by code_simp
  then show "stat_answers mt_sys (\<lambda>p. Inr one_stat) (\<lambda>d. Inr mt_kstat) (complete_lines one_text)"
    by (simp add: stat_answers_def mt_lines mt_kstat_def)
  show "mounts_kernel mt_sys (\<lambda>n k. fst k = n) 3 one_text (\<lambda>p. Inr one_stat) (\<lambda>p. Inr one_statfs)"
    using mt_serves by (simp add: mounts_kernel_def IBCS_IS_ERR_def mt_sys_def mt_fs_def)
qed (simp_all add: table_ok_def mt_files_def less_Suc_eq file_at_def slot_at_def one_text_def mt_lines)

theorem inode_to_path_finds_witness:
  "\<exists>s'. table_ok s' \<and> inode_to_path mt_sys (replicate 64 0) (mt_kstat\<lparr>ks_dev := 0\<rparr>) (kstat_to_inode mt_kstat) mt_files =
     Some (0, (mount_path (kstat_to_inode mt_kstat) [116] [114, 111] mt_kstat)\<lparr>s_kstatfs := statfs_to_kstatfs one_statfs\<rparr>, s')
     \<and> s_flags (mount_path (kstat_to_inode mt_kstat) [116] [114, 111] mt_kstat) = MS_RDONLY"
proof -
  have "ks_dev (mt_kstat\<lparr>ks_dev := 0\<rparr>) \<noteq> i_dev (kstat_to_inode mt_kstat)" "i_dev (kstat_to_inode mt_kstat) = ks_dev mt_kstat"
    by code_simp+
  moreover have "s_flags (mount_path (kstat_to_inode mt_kstat) [116] [114, 111] mt_kstat) = MS_RDONLY" by code_simp
  ultimately show ?thesis
    using inode_to_path_finds [OF mt_hyps, of "mt_kstat\<lparr>ks_dev := 0\<rparr>" "kstat_to_inode mt_kstat"]
    by (simp add: mt_lines) blast
qed

end
