(* ===== verification/Statvfs.thy ===== *)
theory Statvfs
  imports Mounts
begin

text \<open>
  The \<open>statvfs\<close> calls: \<^verbatim>\<open>src/per-svr4/statvfs.c\<close>, \<^verbatim>\<open>src/per-sco/statvfs.c\<close> and those of \<^verbatim>\<open>src/per-uw7/lfs.c\<close>.

  A structure that a call stores for the program is its value; the fields \<open>f_fstr\<close> and \<open>f_filler\<close>, which stay 0, are
  left out. \<open>buf\<close> and \<open>sb\<close> are the parts of the stack that \<open>inode_to_path\<close> uses before it sets them, \<open>stale\<close> is what a
  \<open>struct path\<close> that was never set holds: \<open>None\<close> when its pointers lead nowhere.
\<close>

record svr4_statvfs =
  v_bsize :: u32
  v_frsize :: u32
  v_blocks :: u32
  v_bfree :: u32
  v_bavail :: u32
  v_files :: u32
  v_free :: u32
  v_sid :: u32
  v_basetype :: "u8 list"
  v_flag :: u32
  v_namemax :: u32

record sco_statvfs = svr4_statvfs +
  v_favail :: u32

record uw7_statvfs64 =
  w_bsize :: u32
  w_frsize :: u32
  w_blocks :: u64
  w_bfree :: u64
  w_bavail :: u64
  w_files :: u64
  w_ffree :: u64
  w_favail :: u64
  w_fsid :: u32
  w_basetype :: "u8 list"
  w_namemax :: u32

text \<open>\<open>strcpy\<close> of a name into the 16 zero bytes of \<open>f_basetype\<close>.\<close>

definition basetype :: "u8 list \<Rightarrow> u8 list option" where
  "basetype name = map_option (take 16) (strcpy (replicate 16 0 @ name) 0 16)"

definition statvfs_flags :: "path \<Rightarrow> path \<Rightarrow> u32" where
  "statvfs_flags sb mnt = (if s_flags sb AND MS_RDONLY \<noteq> 0 then 1 else 0) OR (if mnt_flags mnt AND MNT_NOSUID \<noteq> 0 then 2 else 0)"

definition svr4_report_statvfs ::
  "'k mountsys \<Rightarrow> u8 list \<Rightarrow> kstat \<Rightarrow> path \<Rightarrow> 'k files \<Rightarrow> (u32 \<times> svr4_statvfs option \<times> 'k files) option" where
  "svr4_report_statvfs sys buf sb mnt s = do {
     (error, st, s) \<leftarrow> vfs_statfs sys buf sb (s_root_inode mnt) s;
     if error \<noteq> 0 then Some (error, None, s)
     else do {
       st \<leftarrow> st;
       name \<leftarrow> basetype (s_type_name mnt);
       Some (0, Some \<lparr>v_bsize = f_bsize st, v_frsize = f_bsize st, v_blocks = ucast (f_blocks st), v_bfree = ucast (f_bfree st),
         v_bavail = ucast (f_bavail st), v_files = ucast (f_files st), v_free = ucast (f_ffree st), v_sid = s_dev mnt,
         v_basetype = name, v_flag = statvfs_flags mnt mnt, v_namemax = f_namelen st\<rparr>, s)
     }
   }"

definition svr4_statvfs ::
  "'k mountsys \<Rightarrow> u8 list \<Rightarrow> kstat \<Rightarrow> u8 list \<Rightarrow> 'k files \<Rightarrow> (u32 \<times> svr4_statvfs option \<times> 'k files) option" where
  "svr4_statvfs sys buf sb filename s = do {
     (error, path, s) \<leftarrow> user_path sys buf sb filename s;
     if error = 0 then do { path \<leftarrow> path; svr4_report_statvfs sys buf sb path s } else Some (error, None, s)
   }"

text \<open>The result of \<open>linux26_user_fpath\<close> is not looked at.\<close>

definition svr4_fstatvfs ::
  "'k mountsys \<Rightarrow> u8 list \<Rightarrow> kstat \<Rightarrow> path option \<Rightarrow> nat \<Rightarrow> 'k files \<Rightarrow> (u32 \<times> svr4_statvfs option \<times> 'k files) option" where
  "svr4_fstatvfs sys buf sb stale fd s = do {
     s \<leftarrow> fget (files_sys (stat_sys sys)) fd s;
     (_, path, s) \<leftarrow> linux26_user_fpath sys buf sb (int fd) s;
     path \<leftarrow> (case path of None \<Rightarrow> stale | Some p \<Rightarrow> Some p);
     (error, st, s) \<leftarrow> svr4_report_statvfs sys buf sb path s;
     s \<leftarrow> fput fd s;
     Some (error, st, s)
   }"

definition name_ext2 :: "u8 list" where "name_ext2 = [101, 120, 116, 50, 0]"
definition name_HTFS :: "u8 list" where "name_HTFS = [72, 84, 70, 83, 0]"

text \<open>The super block is taken from a local \<open>struct path\<close> that is never set.\<close>

definition sco_report_statvfs ::
  "'k mountsys \<Rightarrow> u8 list \<Rightarrow> kstat \<Rightarrow> path option \<Rightarrow> path \<Rightarrow> 'k files \<Rightarrow> (u32 \<times> sco_statvfs option \<times> 'k files) option" where
  "sco_report_statvfs sys buf sb stale mnt s = do {
     (error, st, s) \<leftarrow> vfs_statfs sys buf sb (s_root_inode mnt) s;
     if error \<noteq> 0 then Some (error, None, s)
     else do {
       st \<leftarrow> st;
       super \<leftarrow> stale;
       r \<leftarrow> strncmp (s_type_name super) name_ext2 4;
       name \<leftarrow> basetype (if r = 0 then name_HTFS else s_type_name super);
       Some (0, Some \<lparr>v_bsize = f_bsize st, v_frsize = f_bsize st, v_blocks = ucast (f_blocks st), v_bfree = ucast (f_bfree st),
         v_bavail = ucast (f_bavail st), v_files = ucast (f_files st), v_free = ucast (f_ffree st), v_sid = s_dev super,
         v_basetype = name, v_flag = statvfs_flags super mnt, v_namemax = f_namelen st, v_favail = ucast (f_ffree st)\<rparr>, s)
     }
   }"

definition sco_statvfs ::
  "'k mountsys \<Rightarrow> u8 list \<Rightarrow> kstat \<Rightarrow> path option \<Rightarrow> u8 list \<Rightarrow> 'k files \<Rightarrow> (u32 \<times> sco_statvfs option \<times> 'k files) option" where
  "sco_statvfs sys buf sb stale filename s = do {
     (error, path, s) \<leftarrow> user_path sys buf sb filename s;
     if error = 0 then do { path \<leftarrow> path; sco_report_statvfs sys buf sb stale path s } else Some (error, None, s)
   }"

definition sco_fstatvfs ::
  "'k mountsys \<Rightarrow> u8 list \<Rightarrow> kstat \<Rightarrow> path option \<Rightarrow> int \<Rightarrow> 'k files \<Rightarrow> (u32 \<times> sco_statvfs option \<times> 'k files) option" where
  "sco_fstatvfs sys buf sb stale fd s = do {
     (error, path, s) \<leftarrow> linux26_user_fpath sys buf sb fd s;
     if sint error < 0 then do {
       path \<leftarrow> (case path of None \<Rightarrow> stale | Some p \<Rightarrow> Some p);
       sco_report_statvfs sys buf sb stale path s
     }
     else Some (error, None, s)
   }"

definition cp_uw7_statvfs64 :: "path \<Rightarrow> kstatfs \<Rightarrow> uw7_statvfs64 option" where
  "cp_uw7_statvfs64 sbp st = do {
     name \<leftarrow> basetype (s_type_name sbp);
     Some \<lparr>w_bsize = f_bsize st, w_frsize = f_bsize st, w_blocks = f_blocks st, w_bfree = f_bfree st, w_bavail = f_bavail st,
       w_files = f_files st, w_ffree = f_ffree st, w_favail = f_ffree st, w_fsid = s_dev sbp, w_basetype = name,
       w_namemax = f_namelen st\<rparr>
   }"

definition uw7_report ::
  "'k mountsys \<Rightarrow> u8 list \<Rightarrow> kstat \<Rightarrow> path \<Rightarrow> 'k files \<Rightarrow> (u32 \<times> uw7_statvfs64 option \<times> 'k files) option" where
  "uw7_report sys buf sb sbp s = do {
     (error, st, s) \<leftarrow> vfs_statfs sys buf sb (s_root_inode sbp) s;
     if error = 0 then do { st \<leftarrow> st; b \<leftarrow> cp_uw7_statvfs64 sbp st; Some (0, Some b, s) } else Some (error, None, s)
   }"

definition uw7_statvfs64 ::
  "'k mountsys \<Rightarrow> u8 list \<Rightarrow> kstat \<Rightarrow> u8 list \<Rightarrow> 'k files \<Rightarrow> (u32 \<times> uw7_statvfs64 option \<times> 'k files) option" where
  "uw7_statvfs64 sys buf sb filename s = do {
     (error, path, s) \<leftarrow> user_path sys buf sb filename s;
     if error = 0 then do { path \<leftarrow> path; uw7_report sys buf sb path s } else Some (error, None, s)
   }"

text \<open>The file system is asked twice.\<close>

definition uw7_fstatvfs64 ::
  "'k mountsys \<Rightarrow> u8 list \<Rightarrow> kstat \<Rightarrow> nat \<Rightarrow> 'k files \<Rightarrow> (u32 \<times> uw7_statvfs64 option \<times> 'k files) option" where
  "uw7_fstatvfs64 sys buf sb fd s = do {
     s \<leftarrow> fget (files_sys (stat_sys sys)) fd s;
     (error, path, s) \<leftarrow> linux26_user_fpath sys buf sb (int fd) s;
     (error, st, s) \<leftarrow> (if error = 0 then do {
         path \<leftarrow> path;
         (error, st, s) \<leftarrow> vfs_statfs sys buf sb (s_root_inode path) s;
         if error = 0 then uw7_report sys buf sb path s else Some (error, None, s)
       } else Some (error, None, s));
     s \<leftarrow> fput fd s;
     Some (error, st, s)
   }"


section \<open>What is reported\<close>

lemma basetype_padded:
  assumes "length name \<le> 15" "0 \<notin> set name"
  shows "basetype (name @ replicate (16 - length name) 0) = Some (name @ replicate (16 - length name) 0)"
proof -
  let ?z = "replicate (16 - length name) 0" and ?n = "length name"
  have e: "16 - ?n = Suc (15 - ?n)" using assms(1) by simp
  then have z: "?z = 0 # replicate (15 - ?n) 0" by simp
  let ?mem = "replicate 16 0 @ name @ ?z"
  have d: "drop 16 ?mem = name @ 0 # replicate (15 - ?n) 0" using z by simp
  have c: "cstr (drop 16 ?mem) = name" "terminated (drop 16 ?mem)" unfolding d using assms(2) by (simp_all add: cstr_append)
  have "strcpy ?mem 0 16 = memcpy_loop ?mem 0 16 (Suc ?n)"
    using strcpy_memcpy [of 16 ?mem 0] c assms(1) by simp
  also have "\<dots> = Some ((name @ [0]) @ drop (Suc ?n) ?mem)"
    using assms(1) d by (subst memcpy_loop_copies) simp_all
  finally show ?thesis using assms(1) by (simp add: basetype_def min_def e)
qed

lemma ucast_up_down: "ucast (ucast x :: u64) = x" for x :: u32
  by (rule bit_word_eqI) (simp add: bit_ucast_iff)

lemma find_mount_dev: "find_mount stat dev ls = Some (dir, type, opts, ks) \<Longrightarrow> ks_dev ks = dev"
  by (induction ls) (auto split: option.splits sum.splits if_splits)

text \<open>The structure for an entry of \<^verbatim>\<open>/proc/mounts\<close> and the answer of \<open>statfs\<close>.\<close>

definition mount_statvfs :: "u32 \<Rightarrow> u8 list \<Rightarrow> u8 list \<Rightarrow> statfs \<Rightarrow> svr4_statvfs" where
  "mount_statvfs dev type opts st =
     \<lparr>v_bsize = sf_bsize st, v_frsize = sf_bsize st, v_blocks = sf_blocks st, v_bfree = sf_bfree st, v_bavail = sf_bavail st,
      v_files = sf_files st, v_free = sf_ffree st, v_sid = dev,
      v_basetype = take 15 type @ replicate (16 - length (take 15 type)) 0,
      v_flag = option_flag opts (butlast opt_ro) 1 OR option_flag opts (butlast opt_nosuid) 2, v_namemax = sf_namelen st\<rparr>"

lemma statvfs_flags_mount:
  "statvfs_flags (mount_path inode type opts ks) (mount_path inode type opts ks) =
     option_flag opts (butlast opt_ro) 1 OR option_flag opts (butlast opt_nosuid) 2"
  by (simp add: statvfs_flags_def mount_path_def option_flag_def MS_RDONLY_def MNT_NOSUID_def)



text \<open>
  A successful \<open>fstatvfs\<close> of OpenServer stores nothing: it reports only when the file system was not found.
\<close>

lemma sco_fstatvfs_silent:
  assumes "linux26_user_fpath sys buf sb fd s = Some (0, path, s')"
  shows "sco_fstatvfs sys buf sb stale fd s = Some (0, None, s')"
  using assms by (simp add: sco_fstatvfs_def)

text \<open>\<open>statvfs\<close> of OpenServer depends on a path that was never set.\<close>

lemma sco_statvfs_undefined:
  assumes "user_path sys buf sb filename s = Some (0, Some path, s')"
    "vfs_statfs sys buf sb (s_root_inode path) s' = Some (0, st, s'')"
  shows "sco_statvfs sys buf sb None filename s = None"
  using assms by (simp add: sco_statvfs_def sco_report_statvfs_def)

end
