(* ===== verification/Svr4_Fcntl.thy ===== *)
theory Svr4_Fcntl
  imports Umem Map_Tables
begin

text \<open>
  \<open>fcntl\<close> of the System V personalities, \<^verbatim>\<open>src/per-svr4/fcntl.c\<close>: the translation of open flags and of
  record locks. The native calls are the record \<open>fcntlsys\<close>; \<open>fcntl\<close> may read and write the memory of the
  program.
\<close>

record 'k fcntlsys =
  sys_fcntl :: "u32 \<Rightarrow> u32 \<Rightarrow> u32 \<Rightarrow> 'k ust \<Rightarrow> u32 \<times> 'k ust"
  sys_ftruncate :: "u32 \<Rightarrow> u32 \<Rightarrow> 'k ust \<Rightarrow> u32 \<times> 'k ust"
  sys_fionread :: "u32 \<Rightarrow> 'k ust \<Rightarrow> u32 \<times> u32 \<times> 'k ust"

definition fl_svr4_to_linux :: "u16 list" where
  "fl_svr4_to_linux =
    [0x0001, 0x0002, 0x0800, 0x0400, 0x1000, 0x0000, 0x0000, 0x0800,
     0x0040, 0x0240, 0x0080, 0x0100, 0x0000, 0x0000, 0x0000, 0x0000]"

definition fl_linux_to_svr4 :: "u16 list" where
  "fl_linux_to_svr4 =
    [0x0001, 0x0002, 0x0000, 0x0000, 0x0000, 0x0000, 0x0100, 0x0400,
     0x0800, 0x0200, 0x0008, 0x0004, 0x0010, 0x0000, 0x0000, 0x0000]"

text \<open>
  \<open>struct svr4_flock\<close> has 16 bytes: \<open>l_type\<close>, \<open>l_whence\<close> (16 bits), \<open>l_start\<close>, \<open>l_len\<close> (32 bits), \<open>l_sysid\<close>,
  \<open>l_pid\<close> (16 bits). The native structure, of the same size, has a \<open>l_pid\<close> of 32 bits at the end.
\<close>

record svr4_flock =
  l_type :: u16
  l_whence :: u16
  l_start :: u32
  l_len :: u32
  l_sysid :: u16
  l_pid :: u16

record flock =
  n_type :: u16
  n_whence :: u16
  n_start :: u32
  n_len :: u32
  n_pid :: u32

definition load_svr4_flock :: "umem \<Rightarrow> u32 \<Rightarrow> svr4_flock" where
  "load_svr4_flock m a = \<lparr>l_type = load16 m a, l_whence = load16 m (a + 2), l_start = load32 m (a + 4),
     l_len = load32 m (a + 8), l_sysid = load16 m (a + 12), l_pid = load16 m (a + 14)\<rparr>"

definition store_svr4_flock :: "umem \<Rightarrow> u32 \<Rightarrow> svr4_flock \<Rightarrow> umem" where
  "store_svr4_flock m a fl = store16 (store16 (store32 (store32 (store16 (store16 m a (l_type fl)) (a + 2) (l_whence fl))
     (a + 4) (l_start fl)) (a + 8) (l_len fl)) (a + 12) (l_sysid fl)) (a + 14) (l_pid fl)"

definition load_flock :: "umem \<Rightarrow> u32 \<Rightarrow> flock" where
  "load_flock m a = \<lparr>n_type = load16 m a, n_whence = load16 m (a + 2), n_start = load32 m (a + 4),
     n_len = load32 m (a + 8), n_pid = load32 m (a + 12)\<rparr>"

definition store_flock :: "umem \<Rightarrow> u32 \<Rightarrow> flock \<Rightarrow> umem" where
  "store_flock m a fl = store32 (store32 (store32 (store16 (store16 m a (n_type fl)) (a + 2) (n_whence fl))
     (a + 4) (n_start fl)) (a + 8) (n_len fl)) (a + 12) (n_pid fl)"

definition to_native :: "svr4_flock \<Rightarrow> flock" where
  "to_native fl = \<lparr>n_type = l_type fl - 1, n_whence = l_whence fl, n_start = l_start fl, n_len = l_len fl, n_pid = scast (l_pid fl)\<rparr>"

definition from_native :: "flock \<Rightarrow> svr4_flock" where
  "from_native l_fl = \<lparr>l_type = n_type l_fl + 1, l_whence = n_whence l_fl, l_start = n_start l_fl, l_len = n_len l_fl,
     l_sysid = 0, l_pid = ucast (n_pid l_fl)\<rparr>"

definition svr4_fcntl_flock :: "'k fcntlsys \<Rightarrow> u32 \<Rightarrow> u32 \<Rightarrow> u32 \<Rightarrow> 'k ust \<Rightarrow> u32 \<times> 'k ust" where
  "svr4_fcntl_flock sys fd cmd flp s =
     (let fl = load_svr4_flock (um s) flp;
          s = s\<lparr>um := store_flock (um s) flp (to_native fl)\<rparr>;
          (rval, s) = sys_fcntl sys fd cmd flp s
      in if rval \<noteq> 0 then (rval, s\<lparr>um := store_svr4_flock (um s) flp fl\<rparr>)
         else (0, s\<lparr>um := store_svr4_flock (um s) flp (from_native (load_flock (um s) flp))\<rparr>))"

definition svr4_fcntl :: "'k fcntlsys \<Rightarrow> u32 \<Rightarrow> u32 \<Rightarrow> u32 \<Rightarrow> 'k ust \<Rightarrow> u32 \<times> 'k ust" where
  "svr4_fcntl sys fd cmd arg s =
     (if cmd = 0 \<or> cmd = 1 \<or> cmd = 2 then sys_fcntl sys fd cmd arg s
      else if cmd = 3
      then let (rval, s) = sys_fcntl sys fd cmd arg s in (ucast (map_flags (ucast rval) (nth fl_linux_to_svr4)), s)
      else if cmd = 4 then sys_fcntl sys fd cmd (ucast (map_flags (ucast arg) (nth fl_svr4_to_linux))) s
      else if cmd = 14 then svr4_fcntl_flock sys fd 5 arg s
      else if cmd = 5 \<or> cmd = 6 \<or> cmd = 7 then svr4_fcntl_flock sys fd cmd arg s
      else if cmd = 10 \<or> cmd = 11 then (0, s)
      else if cmd = 0x6000 then sys_ftruncate sys fd arg s
      else if cmd = 0x6001
      then let (rval, nbytes, s) = sys_fionread sys fd s
           in (if sint rval < 0 then rval else if nbytes \<noteq> 0 then 1 else 0, s)
      else (- EINVAL, s))"

section \<open>Record locks\<close>

lemma flock_there_and_back: "from_native (to_native fl) = fl\<lparr>l_sysid := 0\<rparr>"
proof -
  have "ucast (scast (l_pid fl) :: u32) = l_pid fl" by (rule bit_word_eqI) (auto simp: bit_simps)
  then show ?thesis by (simp add: from_native_def to_native_def)
qed

lemma load_store_flock: "load_flock (store_flock m a fl) a = fl"
  unfolding load_flock_def store_flock_def
  by (intro flock.equality; simp) (intro load16_eqI load32_eqI; simp add: store16_def store32_def add.assoc)+

lemma store_flock_undone:
  "store_svr4_flock (store_flock m a fl) a (load_svr4_flock m a) = m"
  "store_svr4_flock (store_flock m a fl) a ((load_svr4_flock m a)\<lparr>l_sysid := 0\<rparr>) = store16 m (a + 12) 0"
  unfolding store_svr4_flock_def load_svr4_flock_def store_flock_def
  by (auto simp: store16_def store32_def load16_bytes load32_bytes fun_eq_iff add.assoc)

text \<open>
  C16: A program that sets a record lock with \<open>F_SETLK\<close> or \<open>F_SETLKW\<close> finds its memory as it was when the call
  fails, and with only the field \<open>l_sysid\<close> of its lock cleared when it succeeds; the native call has seen
  the lock with the native type.
\<close>

theorem flock_memory:
  assumes "\<And>s. um (snd (sys_fcntl sys fd cmd arg s)) = um s" "cmd = 6 \<or> cmd = 7" "svr4_fcntl sys fd cmd arg s = (r, s')"
  shows "um s' = (if r = 0 then store16 (um s) (arg + 12) 0 else um s)
    \<and> (\<exists>s1. fst (sys_fcntl sys fd cmd arg s1) = r
        \<and> load_flock (um s1) arg = to_native (load_svr4_flock (um s) arg))"
proof -
  define s1 where "s1 = s\<lparr>um := store_flock (um s) arg (to_native (load_svr4_flock (um s) arg))\<rparr>"
  obtain rval s2 where f: "sys_fcntl sys fd cmd arg s1 = (rval, s2)" by fastforce
  have m: "um s2 = store_flock (um s) arg (to_native (load_svr4_flock (um s) arg))"
    using assms(1) [of s1] f by (simp add: s1_def)
  have "svr4_fcntl sys fd cmd arg s = svr4_fcntl_flock sys fd cmd arg s" using assms(2) by (auto simp: svr4_fcntl_def)
  then have "r = rval \<and> um s' = (if r = 0 then store16 (um s) (arg + 12) 0 else um s)"
    using assms(3) f m by (auto simp: svr4_fcntl_flock_def Let_def s1_def [symmetric] load_store_flock flock_there_and_back
      store_flock_undone split: if_splits)
  moreover have "load_flock (um s1) arg = to_native (load_svr4_flock (um s) arg)"
    by (simp add: s1_def load_store_flock)
  ultimately show ?thesis using f by (auto intro: exI [of _ s1])
qed

text \<open>Native calls that answer every request with one number, and the memory of the witness.\<close>

definition answer_fcntl :: "u32 \<Rightarrow> unit fcntlsys" where
  "answer_fcntl v = \<lparr>sys_fcntl = \<lambda>fd cmd arg s. (v, s), sys_ftruncate = \<lambda>fd arg s. (v, s), sys_fionread = \<lambda>fd s. (v, 0, s)\<rparr>"

theorem flock_memory_witness:
  "um (snd (svr4_fcntl (answer_fcntl 0) 3 6 0x1000 \<lparr>um = \<lambda>a. ucast a + 1, ks = ()\<rparr>)) = store16 (\<lambda>a. ucast a + 1) 0x100C 0
   \<and> um (snd (svr4_fcntl (answer_fcntl (- 11)) 3 6 0x1000 \<lparr>um = \<lambda>a. ucast a + 1, ks = ()\<rparr>)) = (\<lambda>a. ucast a + 1)"
proof -
  obtain r s where f: "svr4_fcntl (answer_fcntl 0) 3 6 0x1000 \<lparr>um = \<lambda>a. ucast a + 1, ks = ()\<rparr> = (r, s)" by fastforce
  obtain r' s' where f': "svr4_fcntl (answer_fcntl (- 11)) 3 6 0x1000 \<lparr>um = \<lambda>a. ucast a + 1, ks = ()\<rparr> = (r', s')" by fastforce
  have a: "um (snd (sys_fcntl (answer_fcntl v) 3 6 0x1000 s)) = um s" for v and s :: "unit ust" by (simp add: answer_fcntl_def)
  show ?thesis
    using flock_memory [OF a _ f] flock_memory [OF a _ f'] f f' by (simp add: answer_fcntl_def)
qed

section \<open>Flags\<close>

text \<open>
  \<open>fcntl\<close> with \<open>F_GETFL\<close> never fails: a failure of the native call, for a descriptor that is not open
  for example, is translated like a set of flags, and the program gets a positive number.
\<close>

theorem F_GETFL_never_fails:
  "\<not> IBCS_IS_ERR (fst (svr4_fcntl sys fd 3 arg s)) \<and> fst (svr4_fcntl sys fd 3 arg s) < 0x10000"
proof -
  have "\<not> IBCS_IS_ERR (ucast f) \<and> (ucast f :: u32) < 0x10000" for f :: u16
  proof -
    have u: "unat (ucast f :: u32) < 2 ^ 16"
    proof -
      have "unat (ucast f :: u32) = take_bit 32 (unat f)" by (simp add: unsigned_ucast_eq)
      also have "\<dots> \<le> unat f" by (rule take_bit_nat_less_eq_self)
      finally show ?thesis using unsigned_less [of f, where ?'a = nat] by simp
    qed
    then show ?thesis by (simp add: IBCS_IS_ERR_iff word_less_nat_alt)
  qed
  then show ?thesis by (simp add: svr4_fcntl_def case_prod_beta)
qed

end
