(* ===== verification/Svr4_Open.thy ===== *)
theory Svr4_Open
  imports Statvfs Svr4_Fcntl
begin

text \<open>
  \<^verbatim>\<open>src/per-svr4/open.c\<close>: \<open>open\<close> with the connection to a socket in the place of a named pipe, \<open>statfs\<close>, and
  \<open>getdents\<close> on top of \<open>vfs_readdir\<close> of \<^verbatim>\<open>src/ibcs/linux26-compat.c\<close>.

  The file defines \<open>dirent\<close> as \<open>linux_dirent64\<close>: the program receives entries with a 64-bit inode number, a
  64-bit offset, the length of the entry (16 bits), a type and the name at offset 19. The native \<open>getdents64\<close>
  returns its result with the entries it stored; the name of an entry is without its NUL. \<open>None\<close> is undefined
  behaviour, or a directory that never ends.
\<close>

section \<open>Directories\<close>

record dirent64 =
  de_ino :: u64
  de_off :: u64
  de_name :: "u8 list"

record 'k opensys =
  mount_sys :: "'k mountsys"
  sys_getdents64 :: "int \<Rightarrow> nat \<Rightarrow> 'k \<Rightarrow> (u32 \<times> dirent64 list) \<times> 'k"
  sys_socket :: "u32 \<Rightarrow> u32 \<Rightarrow> u32 \<Rightarrow> 'k \<Rightarrow> u32 \<times> 'k"
  sys_connect_un :: "u32 \<Rightarrow> u8 list \<Rightarrow> 'k \<Rightarrow> u32 \<times> 'k"

record getdents_callback =
  current_dir :: u32
  previous :: u32
  gd_count :: u32
  gd_error :: u32
  gd_mem :: umem
  gd_inodes :: short_inodes

definition store64 :: "umem \<Rightarrow> u32 \<Rightarrow> u64 \<Rightarrow> umem" where
  "store64 m a v = store32 (store32 m a (ucast v)) (a + 4) (ucast (drop_bit 32 v))"

definition NAME_OFFSET :: u32 where "NAME_OFFSET = 19"
definition ROUND_UP :: "u32 \<Rightarrow> u32" where "ROUND_UP x = (x + 4 - 1) AND NOT (4 - 1)"

definition svr4_filldir ::
  "stat_env \<Rightarrow> u8 list \<Rightarrow> u64 \<Rightarrow> u64 \<Rightarrow> getdents_callback \<Rightarrow> (u32 \<times> getdents_callback) option" where
  "svr4_filldir e name offset d_ino buf =
     (let reclen = ROUND_UP (NAME_OFFSET + of_nat (length name) + 1);
          buf = buf\<lparr>gd_error := - EINVAL\<rparr>
      in if sint (gd_count buf) < sint reclen then Some (- EINVAL, buf)
         else do {
           let m = (if previous buf \<noteq> 0 then store64 (gd_mem buf) (previous buf + 8) offset else gd_mem buf);
           let dirent = current_dir buf;
           i \<leftarrow> abi_map e (ucast d_ino) 1;
           (i, tab) \<leftarrow> linux_to_svr4_ino_t e i (gd_inodes buf);
           let m = store64 m dirent (ucast i);
           let m = store16 m (dirent + 16) (ucast reclen);
           let m = copy_to_user m (dirent + NAME_OFFSET) name;
           let m = m(dirent + NAME_OFFSET + of_nat (length name) := 0);
           Some (0, buf\<lparr>gd_mem := m, gd_inodes := tab, previous := dirent, current_dir := dirent + reclen,
                        gd_count := gd_count buf - reclen\<rparr>)
         })"

text \<open>
  \<open>vfs_readdir\<close>: of all the entries a call of \<open>getdents64\<close> puts into the buffer of 20 bytes and \<open>PATH_MAX\<close>, the
  first is handed to the callback.
\<close>

partial_function (option) vfs_readdir ::
  "'k opensys \<Rightarrow> stat_env \<Rightarrow> int \<Rightarrow> getdents_callback \<Rightarrow> 'k \<Rightarrow> (u32 \<times> getdents_callback \<times> 'k) option" where
  "vfs_readdir sys e fd dirent k =
     (case sys_getdents64 sys fd (20 + 4096) k of ((retval, entries), k) \<Rightarrow>
        if IBCS_IS_ERR retval \<or> retval \<le> 20 then Some (retval, dirent, k)
        else case entries of
          [] \<Rightarrow> None
        | d # _ \<Rightarrow> do {
            (retval, dirent) \<leftarrow> svr4_filldir e (de_name d) (de_off d) (de_ino d) dirent;
            if IBCS_IS_ERR retval then Some (retval, dirent, k) else vfs_readdir sys e fd dirent k
          })"

text \<open>The state of the calls: the memory of the program, the short inodes and the open files.\<close>

record 'k openst =
  o_mem :: umem
  o_inodes :: short_inodes
  o_files :: "'k files"

definition svr4_getdents ::
  "'k opensys \<Rightarrow> stat_env \<Rightarrow> nat \<Rightarrow> u32 \<Rightarrow> u32 \<Rightarrow> 'k openst \<Rightarrow> (u32 \<times> 'k openst) option" where
  "svr4_getdents sys e fd dirent count s = do {
     let fsys = files_sys (stat_sys (mount_sys sys));
     fs \<leftarrow> fget fsys fd (o_files s);
     file \<leftarrow> file_at fs fd;
     (error, buf, k) \<leftarrow> vfs_readdir sys e (int (f_fd file))
       \<lparr>current_dir = dirent, previous = 0, gd_count = count, gd_error = 0, gd_mem = o_mem s, gd_inodes = o_inodes s\<rparr> (kern fs);
     let (error, m, k) =
       (if sint error < 0 then (error, gd_mem buf, k)
        else if previous buf \<noteq> 0 then
          (case file_operations_llseek fsys file 0 1 k of
             (f_pos, k) \<Rightarrow> (count - gd_count buf, store64 (gd_mem buf) (previous buf + 8) f_pos, k))
        else (gd_error buf, gd_mem buf, k));
     fs \<leftarrow> fput fd (fs\<lparr>kern := k\<rparr>);
     Some (error, \<lparr>o_mem = m, o_inodes = gd_inodes buf, o_files = fs\<rparr>)
   }"

section \<open>File systems\<close>

text \<open>\<open>struct svr4_statfs\<close>, 40 bytes with two bytes of padding, as it lies in memory.\<close>

record svr4_statfs =
  t_type :: u16
  t_pad :: u16
  t_bsize :: u32
  t_frsize :: u32
  t_blocks :: u32
  t_bfree :: u32
  t_files :: u32
  t_ffree :: u32

definition bytes16 :: "u16 \<Rightarrow> u8 list" where "bytes16 v = [ucast v, ucast (drop_bit 8 v)]"

definition bytes32 :: "u32 \<Rightarrow> u8 list" where
  "bytes32 v = [ucast v, ucast (drop_bit 8 v), ucast (drop_bit 16 v), ucast (drop_bit 24 v)]"

definition statfs_bytes :: "svr4_statfs \<Rightarrow> u8 list" where
  "statfs_bytes b = bytes16 (t_type b) @ bytes16 (t_pad b) @ bytes32 (t_bsize b) @ bytes32 (t_frsize b) @ bytes32 (t_blocks b) @
     bytes32 (t_bfree b) @ bytes32 (t_files b) @ bytes32 (t_ffree b) @ replicate 12 0"

text \<open>\<open>pad\<close> is what the stack holds in the padding, \<open>typ\<close> what it holds in \<open>f_type\<close>.\<close>

definition copy_kstatfs :: "u16 \<Rightarrow> kstatfs \<Rightarrow> svr4_statfs" where
  "copy_kstatfs pad st =
     \<lparr>t_type = ucast (f_type st), t_pad = pad, t_bsize = f_bsize st, t_frsize = 0, t_blocks = ucast (f_blocks st),
      t_bfree = ucast (f_bfree st), t_files = ucast (f_files st), t_ffree = ucast (f_ffree st)\<rparr>"

definition unmounted_statfs :: "u16 \<Rightarrow> u16 \<Rightarrow> svr4_statfs" where
  "unmounted_statfs typ pad =
     \<lparr>t_type = typ, t_pad = pad, t_bsize = 1024, t_frsize = 0, t_blocks = 8 * 1024 * 1024, t_bfree = 500 * 1024,
      t_files = 60000, t_ffree = 50000\<rparr>"

definition svr4_statfs ::
  "'k opensys \<Rightarrow> u8 list \<Rightarrow> kstat \<Rightarrow> u16 \<Rightarrow> u16 \<Rightarrow> u8 list \<Rightarrow> u32 \<Rightarrow> u32 \<Rightarrow> u32 \<Rightarrow> 'k openst \<Rightarrow> (u32 \<times> 'k openst) option" where
  "svr4_statfs sys stk sb typ pad path buf len fstype s =
     (if 40 < sint len then Some (- EINVAL, s)
      else if fstype = 0 then do {
        (error, p, fs) \<leftarrow> user_path (mount_sys sys) stk sb path (o_files s);
        if error \<noteq> 0 then Some (error, s\<lparr>o_files := fs\<rparr>)
        else do {
          p \<leftarrow> p;
          (error, tmp, fs) \<leftarrow> vfs_statfs (mount_sys sys) stk sb (s_root_inode p) fs;
          if error \<noteq> 0 then Some (error, s\<lparr>o_files := fs\<rparr>)
          else do {
            tmp \<leftarrow> tmp;
            Some (0, s\<lparr>o_files := fs, o_mem := copy_to_user (o_mem s) buf (statfs_bytes (copy_kstatfs pad tmp))\<rparr>)
          }
        }
      }
      else if sint len < 0 then None
      else Some (0, s\<lparr>o_mem := copy_to_user (o_mem s) buf (take (unat len) (statfs_bytes (unmounted_statfs typ pad)))\<rparr>))"

text \<open>\<open>fstatfs\<close> takes the super block from a \<open>struct path\<close> that is never set; \<open>stale\<close> is what it holds.\<close>

definition svr4_fstatfs ::
  "'k opensys \<Rightarrow> u8 list \<Rightarrow> kstat \<Rightarrow> u16 \<Rightarrow> u16 \<Rightarrow> path option \<Rightarrow> nat \<Rightarrow> u32 \<Rightarrow> u32 \<Rightarrow> u32 \<Rightarrow> 'k openst \<Rightarrow> (u32 \<times> 'k openst) option" where
  "svr4_fstatfs sys stk sb typ pad stale fd buf len fstype s =
     (if 40 < sint len then Some (- EINVAL, s)
      else if fstype = 0 then do {
        fs \<leftarrow> fget (files_sys (stat_sys (mount_sys sys))) fd (o_files s);
        p \<leftarrow> stale;
        (error, tmp, fs) \<leftarrow> vfs_statfs (mount_sys sys) stk sb (s_root_inode p) fs;
        m \<leftarrow> (if error = 0 then do { tmp \<leftarrow> tmp; Some (copy_to_user (o_mem s) buf (statfs_bytes (copy_kstatfs pad tmp))) }
              else Some (o_mem s));
        fs \<leftarrow> fput fd fs;
        Some (error, s\<lparr>o_files := fs, o_mem := m\<rparr>)
      }
      else if sint len < 0 then None
      else Some (0, s\<lparr>o_mem := copy_to_user (o_mem s) buf (take (unat len) (statfs_bytes (unmounted_statfs typ pad)))\<rparr>))"

section \<open>Opening\<close>

definition S_ISSOCK :: "u16 \<Rightarrow> bool" where "S_ISSOCK mode \<longleftrightarrow> mode AND 0xF000 = 0xC000"

text \<open>The file name is a C string with its NUL; \<open>sys_connect_un\<close> gets the address that was built from it.\<close>

definition svr4_open :: "'k opensys \<Rightarrow> u8 list \<Rightarrow> u32 \<Rightarrow> u32 \<Rightarrow> 'k files \<Rightarrow> (u32 \<times> 'k files) option" where
  "svr4_open sys fname flag mode s = do {
     let fsys = files_sys (stat_sys (mount_sys sys));
     (fd, s) \<leftarrow> linux26_open fsys fname (ucast (map_flags (ucast flag) ((!) fl_svr4_to_linux))) mode s;
     if sint fd < 0 then Some (fd, s)
     else do {
       s \<leftarrow> fget fsys (unat fd) s;
       file \<leftarrow> file_at s (unat fd);
       s \<leftarrow> fput (unat fd) s;
       if \<not> S_ISSOCK (i_mode (f_inode file)) then Some (fd, s)
       else do {
         (_, s) \<leftarrow> linux26_close fsys (sint fd) s;
         let (fd, k) = sys_socket sys 1 1 0 (kern s);
         let s = s\<lparr>kern := k\<rparr>;
         if sint fd < 0 then Some (fd, s)
         else do {
           n \<leftarrow> strlen fname;
           if 108 \<le> n then do { (_, s) \<leftarrow> linux26_close fsys (sint fd) s; Some (- 7, s) }
           else do {
             let (error, k) = sys_connect_un sys fd (cstr fname) (kern s);
             let s = s\<lparr>kern := k\<rparr>;
             if error \<noteq> 0 then do { (_, s) \<leftarrow> linux26_close fsys (sint fd) s; Some (error, s) }
             else Some (fd, s)
           }
         }
       }
     }
   }"


section \<open>Addresses\<close>

text \<open>The distance of two offsets from one address, and the bytes a store leaves.\<close>

lemma unat_offset_diff:
  assumes "j < 2 ^ 32" "i < 2 ^ 32"
  shows "unat ((a + of_nat j) - (a + of_nat i) :: u32) = (if i \<le> j then j - i else 2 ^ 32 + j - i)"
proof -
  have "(a + of_nat j) - (a + of_nat i) = (of_nat j - of_nat i :: u32)" by simp
  then show ?thesis using assms by (auto simp: unat_sub_if' unat_of_nat_u32 word_le_nat_alt)
qed

lemma unat_sub_offset:
  fixes x a :: u32
  assumes "n \<le> unat (x - a)"
  shows "unat (x - (a + of_nat n)) = unat (x - a) - n"
proof -
  have "unat (x - a) < 2 ^ LENGTH(32)" by (rule unsigned_less)
  with assms have "n < 2 ^ 32" by simp
  then have "unat (of_nat n :: u32) = n" by (rule unat_of_nat_u32)
  then have "unat ((x - a) - of_nat n) = unat (x - a) - n" using assms by (simp add: unat_sub word_le_nat_alt)
  then show ?thesis by (simp add: diff_diff_eq)
qed

definition away :: "umem \<Rightarrow> umem \<Rightarrow> u32 \<Rightarrow> nat \<Rightarrow> bool" where
  "away m m' a n \<longleftrightarrow> (\<forall>x. n \<le> unat (x - a) \<longrightarrow> m' x = m x)"

lemma away_store32: "away m (store32 m a v) a 4"
  by (auto simp: away_def word_le_nat_alt intro: store32_outside)

lemma away_store64: "away m (store64 m a v) a 8"
proof -
  have "store64 m a v x = m x" if "8 \<le> unat (x - a)" for x
  proof -
    have "unat (x - (a + 4)) = unat (x - a) - 4"
      using that by (simp add: diff_diff_eq [symmetric] unat_sub word_le_nat_alt)
    with that have "4 \<le> x - (a + 4)" "4 \<le> x - a" by (simp_all add: word_le_nat_alt)
    then show ?thesis by (simp add: store64_def store32_outside)
  qed
  then show ?thesis by (simp add: away_def)
qed

lemma away_store16: "away m (store16 m a v) a 2"
  by (auto simp: away_def word_le_nat_alt intro: store16_outside)

lemma away_copy: "length bs < 2 ^ 32 \<Longrightarrow> away m (copy_to_user m a bs) a (length bs)"
  by (auto simp: away_def word_le_nat_alt unat_of_nat_u32 intro: copy_to_user_outside)

lemma away_upd: "away m (m(a := v)) a 1"
  by (auto simp: away_def)

lemma away_at:
  assumes "away m m' (a + of_nat i) n" "j < 2 ^ 32" "i < 2 ^ 32" "if i \<le> j then n \<le> j - i else n \<le> 2 ^ 32 + j - i"
  shows "m' (a + of_nat j) = m (a + of_nat j)"
  using assms unat_offset_diff [of j i a] by (auto simp: away_def split: if_splits)

section \<open>Entries in memory\<close>

definition reclen :: "u8 list \<Rightarrow> nat" where
  "reclen name = (length name + 23) div 4 * 4"

text \<open>An entry at an address: the inode number, the length and the name. Its offset field is left open.\<close>

definition dirent_at :: "umem \<Rightarrow> u32 \<Rightarrow> u32 \<times> u8 list \<Rightarrow> bool" where
  "dirent_at m a d \<longleftrightarrow> (case d of (i, name) \<Rightarrow>
     load32 m a = i \<and> load32 m (a + 4) = 0 \<and> load16 m (a + 16) = of_nat (reclen name) \<and>
     copy_from_user m (a + 19) (length name + 1) = name @ [0])"

fun dirents_at :: "umem \<Rightarrow> u32 \<Rightarrow> (u32 \<times> u8 list) list \<Rightarrow> bool" where
  "dirents_at m a [] = True"
| "dirents_at m a (d # ds) \<longleftrightarrow> dirent_at m a d \<and> dirents_at m (a + of_nat (reclen (snd d))) ds"

lemma and_not_mask_2: "x AND NOT (mask 2) = push_bit 2 (drop_bit 2 x)" for x :: u32
proof (rule bit_word_eqI)
  fix n assume "n < LENGTH(32)"
  moreover have "2 \<le> n \<Longrightarrow> 2 + (n - 2) = n" by simp
  ultimately show "bit (x AND NOT (mask 2)) n = bit (push_bit 2 (drop_bit 2 x)) n"
    by (cases "2 \<le> n") (simp_all only: u32_bits bit_mask_iff word_32_len, auto)
qed

lemma of_nat_div_exp: "n < 2 ^ 32 \<Longrightarrow> (of_nat n :: u32) div 4 = of_nat (n div 4)"
  by (rule word_unat_eq_iff [THEN iffD2]) (simp add: unat_div_distrib unat_of_nat_u32)

lemma ROUND_UP_reclen:
  assumes "length name < 2 ^ 16"
  shows "ROUND_UP (NAME_OFFSET + of_nat (length name) + 1) = of_nat (reclen name)"
    and "unat (of_nat (reclen name) :: u32) = reclen name" "reclen name < 2 ^ 17" "20 + length name \<le> reclen name"
proof -
  let ?x = "of_nat (length name + 23) :: u32"
  have x: "NAME_OFFSET + of_nat (length name) + 1 + 4 - 1 = ?x" by (simp add: NAME_OFFSET_def)
  have "?x AND NOT (4 - 1) = ?x AND NOT (mask 2)" by (simp add: mask_eq_exp_minus_1)
  also have "\<dots> = push_bit 2 (drop_bit 2 ?x)" by (rule and_not_mask_2)
  also have "drop_bit 2 ?x = of_nat ((length name + 23) div 4)"
    using assms of_nat_div_exp [of "length name + 23"] by (simp add: drop_bit_eq_div)
  also have "push_bit 2 \<dots> = of_nat (reclen name)"
    by (simp add: push_bit_eq_mult reclen_def)
  finally show "ROUND_UP (NAME_OFFSET + of_nat (length name) + 1) = of_nat (reclen name)"
    unfolding ROUND_UP_def x by simp
  show "reclen name < 2 ^ 17" using assms by (simp add: reclen_def)
  then show "unat (of_nat (reclen name) :: u32) = reclen name" by (intro unat_of_nat_u32) simp
  show "20 + length name \<le> reclen name" unfolding reclen_def by presburger
qed


lemma dirent_at_cong:
  assumes "\<And>j. j < reclen (snd d) \<Longrightarrow> j < 8 \<or> 16 \<le> j \<Longrightarrow> m' (a + of_nat j) = m (a + of_nat j)" "length (snd d) < 2 ^ 16"
  shows "dirent_at m' a d = dirent_at m a d"
proof -
  obtain i name where d: "d = (i, name)" by (cases d)
  have len: "20 + length name \<le> reclen name" using ROUND_UP_reclen(4) [of name] assms(2) d by simp
  note eq = assms(1) [unfolded d snd_conv]
  have "load32 m' a = load32 m a" using eq len by (intro load32_cong) simp
  moreover have "load32 m' (a + 4) = load32 m (a + 4)"
  proof (rule load32_cong)
    fix j :: nat assume "j < 4"
    then show "m' (a + 4 + of_nat j) = m (a + 4 + of_nat j)" using eq [of "4 + j"] len by (simp add: add.assoc)
  qed
  moreover have "load16 m' (a + 16) = load16 m (a + 16)"
    using eq [of 16] eq [of 17] len by (simp add: load16_def add.assoc)
  moreover have "copy_from_user m' (a + 19) (length name + 1) = copy_from_user m (a + 19) (length name + 1)"
    using eq [of "19 + j" for j] len by (auto simp: copy_from_user_def add.assoc)
  ultimately show ?thesis by (simp add: dirent_at_def d)
qed

text \<open>The memory after the callback stored an entry.\<close>

definition entry_mem :: "umem \<Rightarrow> u32 \<Rightarrow> u32 \<times> u8 list \<Rightarrow> umem" where
  "entry_mem m a d = (case d of (i, name) \<Rightarrow>
     (copy_to_user (store16 (store64 m a (ucast i)) (a + 16) (of_nat (reclen name))) (a + 19) name)
       (a + 19 + of_nat (length name) := 0))"

lemma ucast_parts: "ucast (ucast i :: u64) = i" "ucast (drop_bit 32 (ucast i :: u64)) = (0 :: u32)" for i :: u32
  by (rule bit_word_eqI; auto simp: bit_simps dest: bit_imp_le_length)+

lemma entry_mem_away:
  assumes "length (snd d) < 2 ^ 16"
  shows "away m (entry_mem m a d) a (reclen (snd d))"
proof -
  obtain i name where d: "d = (i, name)" by (cases d)
  have len: "20 + length name \<le> reclen name" "length name < 2 ^ 16" using ROUND_UP_reclen(4) [of name] assms d by simp_all
  have "entry_mem m a d x = m x" if x: "reclen name \<le> unat (x - a)" for x
  proof -
    have sub: "unat (x - (a + of_nat n)) = unat (x - a) - n" if "n \<le> reclen name" for n
      using that x by (intro unat_sub_offset) simp
    have "away m' (m'(a + of_nat (19 + length name) := 0)) (a + of_nat (19 + length name)) 1" for m' by (rule away_upd)
    moreover have "away m' (copy_to_user m' (a + of_nat 19) name) (a + of_nat 19) (length name)" for m'
      using len(2) by (intro away_copy) simp
    moreover have "away m' (store16 m' (a + of_nat 16) v) (a + of_nat 16) 2" for m' v by (rule away_store16)
    moreover have "away m (store64 m a v) a 8" for v by (rule away_store64)
    ultimately show ?thesis
      using x len sub [of "19 + length name"] sub [of 19] sub [of 16]
      by (auto simp: entry_mem_def d away_def add.assoc simp del: fun_upd_apply)
  qed
  then show ?thesis by (simp add: away_def d)
qed

lemma entry_mem_dirent:
  assumes "length (snd d) < 2 ^ 16"
  shows "dirent_at (entry_mem m a d) a d"
proof -
  obtain i name where d: "d = (i, name)" by (cases d)
  have len: "length name < 2 ^ 16" using assms d by simp
  let ?m1 = "store64 m a (ucast i)" let ?m2 = "store16 ?m1 (a + 16) (of_nat (reclen name))"
  let ?m3 = "copy_to_user ?m2 (a + 19) name" let ?m4 = "entry_mem m a d"
  have m4: "?m4 = ?m3(a + of_nat (19 + length name) := 0)" by (simp add: entry_mem_def d add.assoc)
  have early: "?m4 (a + of_nat j) = ?m2 (a + of_nat j)" if "j < 19" for j
  proof -
    have "?m4 (a + of_nat j) = ?m3 (a + of_nat j)" unfolding m4
      using that len by (intro away_at [OF away_upd]) auto
    also have "\<dots> = ?m2 (a + of_nat j)"
      using that len away_at [OF away_copy [of name ?m2 "a + of_nat 19"], of j] by simp
    finally show ?thesis .
  qed
  have first: "?m4 (a + of_nat j) = ?m1 (a + of_nat j)" if "j < 8" for j
    using early [of j] that away_at [OF away_store16 [of ?m1 "a + of_nat 16" "of_nat (reclen name)"], of j] by simp
  have m1: "load32 ?m1 a = i" "load32 ?m1 (a + 4) = 0"
  proof -
    have "load32 ?m1 a = load32 (store32 m a (ucast (ucast i :: u64))) a"
    proof (rule load32_cong)
      fix j :: nat assume "j < 4"
      then show "?m1 (a + of_nat j) = store32 m a (ucast (ucast i :: u64)) (a + of_nat j)"
        using away_at [OF away_store32 [of "store32 m a (ucast (ucast i :: u64))" "a + of_nat 4" "ucast (drop_bit 32 (ucast i :: u64))"], of j]
        by (simp add: store64_def)
    qed
    then show "load32 ?m1 a = i" by (simp add: load32_store32 ucast_parts)
    show "load32 ?m1 (a + 4) = 0" by (simp add: store64_def load32_store32 ucast_parts)
  qed
  have "load32 ?m4 a = i" using m1(1) load32_cong [of ?m4 a ?m1] first by simp
  moreover have "load32 ?m4 (a + 4) = 0"
    using m1(2) load32_cong [of ?m4 "a + 4" ?m1] first [of "4 + j" for j] by (simp add: add.assoc)
  moreover have "load16 ?m4 (a + 16) = of_nat (reclen name)"
    using early [of 16] early [of 17] load16_store16 [of ?m1 "a + 16" "of_nat (reclen name)"] by (simp add: load16_def add.assoc)
  moreover have "copy_from_user ?m4 (a + 19) (length name + 1) = name @ [0]"
  proof (rule nth_equalityI)
    fix j assume "j < length (copy_from_user ?m4 (a + 19) (length name + 1))"
    then have j: "j < length name + 1" by simp
    show "copy_from_user ?m4 (a + 19) (length name + 1) ! j = (name @ [0]) ! j"
    proof (cases "j = length name")
      case True
      then show ?thesis by (simp add: nth_copy_from_user entry_mem_def d nth_append add.assoc)
    next
      case False
      with j have "j < length name" by simp
      moreover then have "?m4 (a + of_nat (19 + j)) = ?m3 (a + of_nat (19 + j))" unfolding m4
        using len by (intro away_at [OF away_upd]) auto
      ultimately show ?thesis
        using copy_to_user_inside [of j name ?m2 "a + 19"] len j by (simp add: nth_copy_from_user nth_append add.assoc)
    qed
  qed simp
  ultimately show ?thesis by (simp add: dirent_at_def d)
qed


section \<open>Reading a directory\<close>

text \<open>The native \<open>getdents64\<close> delivers a directory in portions that are not empty.\<close>

fun delivers :: "'k opensys \<Rightarrow> int \<Rightarrow> dirent64 list list \<Rightarrow> 'k \<Rightarrow> bool" where
  "delivers sys fd [] k \<longleftrightarrow> fst (sys_getdents64 sys fd 4116 k) = (0, [])"
| "delivers sys fd (c # cs) k \<longleftrightarrow> (\<exists>r k'. sys_getdents64 sys fd 4116 k = ((r, c), k') \<and>
     \<not> IBCS_IS_ERR r \<and> 20 < r \<and> c \<noteq> [] \<and> delivers sys fd cs k')"

text \<open>The inode numbers that the program sees.\<close>

fun numbers :: "stat_env \<Rightarrow> u64 list \<Rightarrow> short_inodes \<Rightarrow> (u32 list \<times> short_inodes) option" where
  "numbers e [] tab = Some ([], tab)"
| "numbers e (i # is) tab = do {
     x \<leftarrow> abi_map e (ucast i) 1;
     (x, tab) \<leftarrow> linux_to_svr4_ino_t e x tab;
     (xs, tab) \<leftarrow> numbers e is tab;
     Some (x # xs, tab)
   }"

lemma filldir_room:
  fixes c :: u32
  assumes "length name < 2 ^ 16" "unat c < 2 ^ 31"
  shows "sint c < sint (of_nat (reclen name) :: u32) \<longleftrightarrow> unat c < reclen name"
proof -
  note r = ROUND_UP_reclen [OF assms(1)]
  have "sint (of_nat (reclen name) :: u32) = int (reclen name)" using sint_small [of "of_nat (reclen name)"] r(2,3) by simp
  then show ?thesis unfolding sint_small [OF assms(2)] by (simp only: of_nat_less_iff)
qed

lemma ucast_of_nat_u16: "(ucast (of_nat n :: u32) :: u16) = of_nat n"
  by (rule bit_word_eqI) (auto simp: bit_simps)

lemma svr4_filldir_fits:
  assumes len: "length name < 2 ^ 16" and count: "reclen name \<le> unat (gd_count buf)" "unat (gd_count buf) < 2 ^ 31"
    and i: "abi_map e (ucast d_ino) 1 = Some x" "linux_to_svr4_ino_t e x (gd_inodes buf) = Some (i, tab)"
  shows "svr4_filldir e name offset d_ino buf = Some (0, buf\<lparr>gd_error := - EINVAL,
    gd_mem := entry_mem (if previous buf \<noteq> 0 then store64 (gd_mem buf) (previous buf + 8) offset else gd_mem buf) (current_dir buf) (i, name),
    gd_inodes := tab, previous := current_dir buf, current_dir := current_dir buf + of_nat (reclen name),
    gd_count := gd_count buf - of_nat (reclen name)\<rparr>)"
  using i count(1) filldir_room [OF len count(2)]
  by (simp add: svr4_filldir_def ROUND_UP_reclen(1) [OF len] entry_mem_def Let_def ucast_of_nat_u16) (simp add: NAME_OFFSET_def)

lemma svr4_filldir_full:
  assumes len: "length name < 2 ^ 16" and count: "unat (gd_count buf) < reclen name" "unat (gd_count buf) < 2 ^ 31"
  shows "svr4_filldir e name offset d_ino buf = Some (- EINVAL, buf\<lparr>gd_error := - EINVAL\<rparr>)"
  using count(1) filldir_room [OF len count(2)]
  by (simp add: svr4_filldir_def ROUND_UP_reclen(1) [OF len] Let_def)

definition dir_entries :: "u32 list \<Rightarrow> dirent64 list list \<Rightarrow> (u32 \<times> u8 list) list" where
  "dir_entries is cs = zip is (map (de_name \<circ> hd) cs)"

definition dir_size :: "dirent64 list list \<Rightarrow> nat" where
  "dir_size cs = sum_list (map (reclen \<circ> de_name \<circ> hd) cs)"

text \<open>What \<open>vfs_readdir\<close> leaves when all the entries fit.\<close>

definition read_into :: "getdents_callback \<Rightarrow> getdents_callback \<Rightarrow> u32 list \<Rightarrow> dirent64 list list \<Rightarrow> bool" where
  "read_into buf buf' is cs \<longleftrightarrow>
     unat (gd_count buf') = unat (gd_count buf) - dir_size cs \<and>
     (cs = [] \<longrightarrow> buf' = buf) \<and>
     (cs \<noteq> [] \<longrightarrow> (\<exists>p. previous buf' = current_dir buf + of_nat p \<and> p + 20 \<le> dir_size cs)) \<and>
     (\<forall>m. away (gd_mem buf') m (previous buf' + 8) 8 \<longrightarrow> dirents_at m (current_dir buf) (dir_entries is cs)) \<and>
     (\<forall>x. dir_size cs \<le> unat (x - current_dir buf) \<longrightarrow> (previous buf \<noteq> 0 \<longrightarrow> 8 \<le> unat (x - (previous buf + 8))) \<longrightarrow>
        gd_mem buf' x = gd_mem buf x)"

lemma readdir_step:
  assumes d: "length (de_name d) < 2 ^ 16" and buf': "buf1 = buf\<lparr>gd_error := - EINVAL,
    gd_mem := entry_mem (if previous buf \<noteq> 0 then store64 (gd_mem buf) (previous buf + 8) offset else gd_mem buf) (current_dir buf) (i, de_name d),
    gd_inodes := tab, previous := current_dir buf, current_dir := current_dir buf + of_nat (reclen (de_name d)),
    gd_count := gd_count buf - of_nat (reclen (de_name d))\<rparr>"
    and nxt: "read_into buf1 buf' is cs" and room: "dir_size ((d # c) # cs) \<le> unat (gd_count buf)" "unat (gd_count buf) < 2 ^ 31"
    and cur: "current_dir buf \<noteq> 0"
  shows "read_into buf buf' (i # is) ((d # c) # cs)"
proof -
  let ?n = "reclen (de_name d)" and ?cur = "current_dir buf" and ?t = "dir_size cs"
  let ?m0 = "if previous buf \<noteq> 0 then store64 (gd_mem buf) (previous buf + 8) offset else gd_mem buf"
  note r = ROUND_UP_reclen [OF d]
  have size: "dir_size ((d # c) # cs) = ?n + ?t" by (simp add: dir_size_def)
  have nt: "?n + ?t < 2 ^ 31" "?n + ?t \<le> unat (gd_count buf)" using room size by simp_all
  have cnt: "unat (gd_count buf1) = unat (gd_count buf) - ?n"
    using nt(2) r(2) by (simp add: buf' unat_sub word_le_nat_alt)
  have m1: "gd_mem buf1 = entry_mem ?m0 ?cur (i, de_name d)" and cur1: "current_dir buf1 = ?cur + of_nat ?n"
    and prev1: "previous buf1 = ?cur" by (simp_all add: buf')
  obtain p where p: "previous buf' = ?cur + of_nat p" "p + 20 \<le> ?n + ?t" "p = 0 \<or> ?n \<le> p"
  proof (cases "cs = []")
    case True
    with nxt prev1 r(4) show thesis by (intro that [of 0]) (auto simp: read_into_def)
  next
    case False
    with nxt obtain q where "previous buf' = ?cur + of_nat ?n + of_nat q" "q + 20 \<le> ?t" by (auto simp: read_into_def cur1)
    then show thesis by (intro that [of "?n + q"]) (auto simp: add.assoc)
  qed
  have frame: "gd_mem buf' (?cur + of_nat j) = gd_mem buf1 (?cur + of_nat j)" if "j < ?n" "j < 8 \<or> 16 \<le> j" for j
  proof -
    have "?t \<le> unat (?cur + of_nat j - (?cur + of_nat ?n))"
      using unat_offset_diff [of j ?n ?cur] that(1) nt(1) r(3) by simp
    moreover have "8 \<le> unat (?cur + of_nat j - (?cur + of_nat 8))"
      using unat_offset_diff [of j 8 ?cur] that r(3) by auto
    ultimately show ?thesis using nxt by (auto simp: read_into_def cur1 prev1)
  qed
  have "dirents_at m ?cur (dir_entries (i # is) ((d # c) # cs))" if a: "away (gd_mem buf') m (previous buf' + 8) 8" for m
  proof -
    have a': "away (gd_mem buf') m (?cur + of_nat (p + 8)) 8" using a by (simp add: p(1) add.assoc)
    have "m (?cur + of_nat j) = gd_mem buf1 (?cur + of_nat j)" if j: "j < ?n" "j < 8 \<or> 16 \<le> j" for j
    proof -
      have "m (?cur + of_nat j) = gd_mem buf' (?cur + of_nat j)"
        using p(2,3) j r(3) nt(1) by (intro away_at [OF a']) (auto split: if_splits)
      with frame [OF j] show ?thesis by simp
    qed
    then have "dirent_at m ?cur (i, de_name d)"
      using dirent_at_cong [of "(i, de_name d)" m ?cur "gd_mem buf1"] entry_mem_dirent [of "(i, de_name d)"] d by (simp add: m1)
    with a nxt show ?thesis by (simp add: read_into_def cur1 dir_entries_def)
  qed
  moreover have "gd_mem buf' x = gd_mem buf x"
    if x: "?n + ?t \<le> unat (x - ?cur)" "previous buf \<noteq> 0 \<longrightarrow> 8 \<le> unat (x - (previous buf + 8))" for x
  proof -
    have sub: "unat (x - (?cur + of_nat n)) = unat (x - ?cur) - n" if "n \<le> ?n" for n
      using that x(1) by (intro unat_sub_offset) simp
    have "?t \<le> unat (x - (?cur + of_nat ?n))" "8 \<le> unat (x - (?cur + of_nat 8))"
      using x(1) sub [of ?n] sub [of 8] r(4) by simp_all
    then have "gd_mem buf' x = gd_mem buf1 x"
      using nxt by (auto simp: read_into_def cur1 prev1)
    also have "\<dots> = ?m0 x"
      using entry_mem_away [of "(i, de_name d)" ?m0 ?cur] d x(1) by (simp add: m1 away_def)
    also have "\<dots> = gd_mem buf x"
      using x(2) away_store64 [of "gd_mem buf" "previous buf + 8" offset] by (simp add: away_def)
    finally show ?thesis .
  qed
  moreover have "unat (gd_count buf') = unat (gd_count buf) - (?n + ?t)"
    using nxt cnt by (simp add: read_into_def)
  ultimately show ?thesis using p(1,2) by (auto simp: read_into_def size)
qed


lemma vfs_readdir_fills:
  assumes "delivers sys fd cs k" "\<forall>c \<in> set cs. length (de_name (hd c)) < 2 ^ 16"
    "numbers e (map (de_ino \<circ> hd) cs) (gd_inodes buf) = Some (is, tab)" "unat (gd_count buf) < 2 ^ 31"
    "0 < unat (current_dir buf)" "unat (current_dir buf) + unat (gd_count buf) < 2 ^ 32"
  shows "\<exists>r buf' k'. vfs_readdir sys e fd buf k = Some (r, buf', k') \<and>
    (if dir_size cs \<le> unat (gd_count buf) then r = 0 \<and> read_into buf buf' is cs \<and> gd_inodes buf' = tab else r = - EINVAL)"
  using assms
proof (induction cs arbitrary: k buf "is")
  case Nil
  obtain k' where "sys_getdents64 sys fd 4116 k = ((0, []), k')"
    using Nil.prems(1) by (cases "sys_getdents64 sys fd 4116 k") auto
  then have "vfs_readdir sys e fd buf k = Some (0, buf, k')" by (subst vfs_readdir.simps) simp
  with Nil.prems(3) show ?case
    by (auto simp: dir_size_def read_into_def dir_entries_def)
next
  case (Cons c cs)
  obtain r k1 where g: "sys_getdents64 sys fd 4116 k = ((r, c), k1)" "\<not> IBCS_IS_ERR r" "20 < r" "c \<noteq> []" "delivers sys fd cs k1"
    using Cons.prems(1) by auto
  then obtain d c' where c: "c = d # c'" by (cases c) auto
  have len: "length (de_name d) < 2 ^ 16" using Cons.prems(2) c by simp
  let ?n = "reclen (de_name d)"
  note rl = ROUND_UP_reclen [OF len]
  have size: "dir_size (c # cs) = ?n + dir_size cs" by (simp add: dir_size_def c)
  obtain x i tab1 is' where num: "abi_map e (ucast (de_ino d)) 1 = Some x" "linux_to_svr4_ino_t e x (gd_inodes buf) = Some (i, tab1)"
    "numbers e (map (de_ino \<circ> hd) cs) tab1 = Some (is', tab)" "is = i # is'"
    using Cons.prems(3) by (auto simp: c bind_eq_Some_conv comp_def)
  have step: "vfs_readdir sys e fd buf k = (do {
      (retval, dirent) \<leftarrow> svr4_filldir e (de_name d) (de_off d) (de_ino d) buf;
      if IBCS_IS_ERR retval then Some (retval, dirent, k1) else vfs_readdir sys e fd dirent k1 })"
    using g(1,2) not_le [THEN iffD2, OF g(3)] c by (subst vfs_readdir.simps) simp
  show ?case
  proof (cases "?n \<le> unat (gd_count buf)")
    case False
    have "IBCS_IS_ERR (- EINVAL)" by (simp add: IBCS_IS_ERR_def)
    with False step svr4_filldir_full [of "de_name d" buf e "de_off d" "de_ino d"] len Cons.prems(4) size show ?thesis by simp
  next
    case True
    note fits = svr4_filldir_fits [OF len True Cons.prems(4) num(1,2), of "de_off d"]
    define buf1 where "buf1 = buf\<lparr>gd_error := - EINVAL,
      gd_mem := entry_mem (if previous buf \<noteq> 0 then store64 (gd_mem buf) (previous buf + 8) (de_off d) else gd_mem buf) (current_dir buf) (i, de_name d),
      gd_inodes := tab1, previous := current_dir buf, current_dir := current_dir buf + of_nat ?n,
      gd_count := gd_count buf - of_nat ?n\<rparr>"
    have cnt: "unat (gd_count buf1) = unat (gd_count buf) - ?n" using True rl(2) by (simp add: buf1_def unat_sub word_le_nat_alt)
    have cur: "unat (current_dir buf1) = unat (current_dir buf) + ?n"
      using Cons.prems(6) True rl(2) by (simp add: buf1_def unat_word_ariths)
    have again: "vfs_readdir sys e fd buf k = vfs_readdir sys e fd buf1 k1"
      using step fits by (simp add: IBCS_IS_ERR_def buf1_def)
    have "\<exists>r buf' k'. vfs_readdir sys e fd buf1 k1 = Some (r, buf', k') \<and>
        (if dir_size cs \<le> unat (gd_count buf1) then r = 0 \<and> read_into buf1 buf' is' cs \<and> gd_inodes buf' = tab else r = - EINVAL)"
      using Cons.prems(2,4-6) g(5) num(3) cnt cur True by (intro Cons.IH) (simp_all add: buf1_def comp_def)
    then obtain r buf' k' where ih: "vfs_readdir sys e fd buf1 k1 = Some (r, buf', k')"
      "if dir_size cs \<le> unat (gd_count buf1) then r = 0 \<and> read_into buf1 buf' is' cs \<and> gd_inodes buf' = tab else r = - EINVAL" by blast
    show ?thesis
    proof (cases "dir_size (c # cs) \<le> unat (gd_count buf)")
      case True
      with ih(2) cnt size have "r = 0" "read_into buf1 buf' is' cs" "gd_inodes buf' = tab" by (auto split: if_splits)
      moreover from this(2) have "read_into buf buf' (i # is') ((d # c') # cs)"
        using readdir_step [OF len buf1_def _ _ Cons.prems(4)] True Cons.prems(5) c by (auto simp: unat_gt_0)
      ultimately show ?thesis using again ih(1) True num(4) c by auto
    next
      case False
      with ih(2) cnt size \<open>?n \<le> unat (gd_count buf)\<close> have "r = - EINVAL" by (auto split: if_splits)
      with again ih(1) False show ?thesis by simp
    qed
  qed
qed


lemma svr4_getdents_full:
  assumes s1: "fget (files_sys (stat_sys (mount_sys sys))) fd (o_files s) = Some fs" "file_at fs fd = Some f"
    and rd: "vfs_readdir sys e (int (f_fd f)) \<lparr>current_dir = dirent, previous = 0, gd_count = count, gd_error = 0,
      gd_mem = o_mem s, gd_inodes = o_inodes s\<rparr> (kern fs) = Some (r, buf, k)"
    and put: "\<And>k. fput fd (fs\<lparr>kern := k\<rparr>) = Some (fs' k)"
  shows "\<exists>k'. svr4_getdents sys e fd dirent count s = Some
    (if sint r < 0 then (r, \<lparr>o_mem = gd_mem buf, o_inodes = gd_inodes buf, o_files = fs' k'\<rparr>)
     else if previous buf \<noteq> 0
       then (count - gd_count buf, \<lparr>o_mem = store64 (gd_mem buf) (previous buf + 8)
               (fst (file_operations_llseek (files_sys (stat_sys (mount_sys sys))) f 0 1 k)), o_inodes = gd_inodes buf, o_files = fs' k'\<rparr>)
     else (gd_error buf, \<lparr>o_mem = gd_mem buf, o_inodes = gd_inodes buf, o_files = fs' k'\<rparr>))"
  using assms by (auto simp: svr4_getdents_def Let_def split: prod.splits)

text \<open>The offset that \<open>getdents\<close> stores into the last entry leaves the entries and all other memory alone.\<close>

lemma last_offset_stored:
  assumes rd: "read_into \<lparr>current_dir = dirent, previous = 0, gd_count = count, gd_error = 0, gd_mem = mem, gd_inodes = ti\<rparr> buf is cs"
    and cs: "cs \<noteq> []" "dir_size cs \<le> unat count"
    and room: "unat count < 2 ^ 31" "0 < unat dirent" "unat dirent + unat count < 2 ^ 32"
  shows "previous buf \<noteq> 0" "unat (count - gd_count buf) = dir_size cs"
    "dirents_at (store64 (gd_mem buf) (previous buf + 8) v) dirent (dir_entries is cs)"
    "\<forall>x. dir_size cs \<le> unat (x - dirent) \<longrightarrow> store64 (gd_mem buf) (previous buf + 8) v x = mem x"
proof -
  from rd cs(1) obtain p where p: "previous buf = dirent + of_nat p" "p + 20 \<le> dir_size cs" by (auto simp: read_into_def)
  have pl: "unat (of_nat p :: u32) = p" using p(2) cs(2) room(1) by (intro unat_of_nat_u32) simp
  have "unat (dirent + of_nat p) = unat dirent + p" using p(2) pl cs(2) room(3) by (simp add: unat_word_ariths)
  then show "previous buf \<noteq> 0" using room(2) p(1) by auto
  have aw: "away (gd_mem buf) (store64 (gd_mem buf) (previous buf + 8) v) (previous buf + 8) 8" by (rule away_store64)
  have "unat (gd_count buf) = unat count - dir_size cs" using rd by (simp add: read_into_def)
  then show "unat (count - gd_count buf) = dir_size cs" using cs(2) by (simp add: unat_sub word_le_nat_alt)
  show "\<forall>x. dir_size cs \<le> unat (x - dirent) \<longrightarrow> store64 (gd_mem buf) (previous buf + 8) v x = mem x"
  proof (intro allI impI)
    fix x assume x: "dir_size cs \<le> unat (x - dirent)"
    have "unat (x - (dirent + of_nat (p + 8))) = unat (x - dirent) - (p + 8)"
      using x p(2) by (intro unat_sub_offset) simp
    with x p have "store64 (gd_mem buf) (previous buf + 8) v x = gd_mem buf x" using aw by (simp add: away_def add.assoc)
    with rd x show "store64 (gd_mem buf) (previous buf + 8) v x = mem x" by (simp add: read_into_def)
  qed
  show "dirents_at (store64 (gd_mem buf) (previous buf + 8) v) dirent (dir_entries is cs)"
    using rd aw by (simp add: read_into_def)
qed

text \<open>
  C18: When the kernel delivers a directory in portions, \<open>getdents\<close> stores the \<^emph>\<open>first\<close> entry of each portion,
  one behind the other, with the inode numbers that \<open>stat\<close> shows too, and returns the number of bytes stored, writing
  nothing outside of them; if these entries do not all fit it fails with \<open>EINVAL\<close>. The other entries of a portion
  are lost, and a directory that does not fit cannot be read in several calls.
\<close>

theorem svr4_getdents_portions:
  assumes ok: "table_ok (o_files s)" and fget: "fget (files_sys (stat_sys (mount_sys sys))) fd (o_files s) = Some fs"
    and dir: "delivers sys (int fd) cs (kern fs)" "\<forall>c \<in> set cs. length (de_name (hd c)) < 2 ^ 16"
    and num: "numbers e (map (de_ino \<circ> hd) cs) (o_inodes s) = Some (is, tab)"
    and room: "unat count < 2 ^ 31" "0 < unat dirent" "unat dirent + unat count < 2 ^ 32"
  shows "\<exists>r s'. svr4_getdents sys e fd dirent count s = Some (r, s') \<and> table_ok (o_files s') \<and>
    (if dir_size cs \<le> unat count
     then unat r = dir_size cs \<and> o_inodes s' = tab \<and> dirents_at (o_mem s') dirent (dir_entries is cs) \<and>
       (\<forall>x. dir_size cs \<le> unat (x - dirent) \<longrightarrow> o_mem s' x = o_mem s x)
     else r = - EINVAL)"
proof -
  let ?fsys = "files_sys (stat_sys (mount_sys sys))"
  let ?f = "(fget_file ?fsys fd (o_files s))\<lparr>f_count := 1\<rparr>"
  have f: "file_at fs fd = Some ?f" "others_ok fd fs" "f_fd ?f = fd" "f_count ?f = 1"
    using fget_spec [OF ok, of ?fsys fd] fget fget_file_fields [OF ok, where sys = ?fsys and fd = fd] by auto
  have put: "fput fd (fs\<lparr>kern := k\<rparr>) = Some (set_slot fd (settled ?f) (fs\<lparr>kern := k\<rparr>))"
      "table_ok (set_slot fd (settled ?f) (fs\<lparr>kern := k\<rparr>))" for k
    using fput_spec [of fd "fs\<lparr>kern := k\<rparr>" ?f] f by simp_all
  let ?buf = "\<lparr>current_dir = dirent, previous = 0, gd_count = count, gd_error = 0, gd_mem = o_mem s, gd_inodes = o_inodes s\<rparr>"
  obtain r buf k where rd: "vfs_readdir sys e (int fd) ?buf (kern fs) = Some (r, buf, k)"
    "if dir_size cs \<le> unat count then r = 0 \<and> read_into ?buf buf is cs \<and> gd_inodes buf = tab else r = - EINVAL"
    using vfs_readdir_fills [OF dir, of e ?buf "is" tab] num room by auto
  obtain k' where call: "svr4_getdents sys e fd dirent count s = Some
    (if sint r < 0 then (r, \<lparr>o_mem = gd_mem buf, o_inodes = gd_inodes buf, o_files = set_slot fd (settled ?f) (fs\<lparr>kern := k'\<rparr>)\<rparr>)
     else if previous buf \<noteq> 0
       then (count - gd_count buf, \<lparr>o_mem = store64 (gd_mem buf) (previous buf + 8) (fst (file_operations_llseek ?fsys ?f 0 1 k)),
               o_inodes = gd_inodes buf, o_files = set_slot fd (settled ?f) (fs\<lparr>kern := k'\<rparr>)\<rparr>)
     else (gd_error buf, \<lparr>o_mem = gd_mem buf, o_inodes = gd_inodes buf, o_files = set_slot fd (settled ?f) (fs\<lparr>kern := k'\<rparr>)\<rparr>))"
    using svr4_getdents_full [OF fget f(1), of e dirent count r buf k "\<lambda>k. set_slot fd (settled ?f) (fs\<lparr>kern := k\<rparr>)"] rd(1) f(3) put(1) by auto
  show ?thesis
  proof (cases "dir_size cs \<le> unat count")
    case False
    with rd(2) call put(2) show ?thesis by simp
  next
    case True
    with rd(2) have r: "r = 0" "read_into ?buf buf is cs" "gd_inodes buf = tab" by auto
    show ?thesis
    proof (cases "cs = []")
      case True
      with r have "buf = ?buf" by (simp add: read_into_def)
      with call r True put(2) num show ?thesis by (simp add: dir_size_def dir_entries_def)
    next
      case False
      note off = last_offset_stored [OF r(2) False \<open>dir_size cs \<le> unat count\<close> room]
      with call r(1,3) put(2) \<open>dir_size cs \<le> unat count\<close> show ?thesis by simp
    qed
  qed
qed


text \<open>A directory of two entries that the kernel delivers together.\<close>

definition two_sys :: "nat opensys" where
  "two_sys = \<lparr>mount_sys = \<lparr>stat_sys = \<lparr>files_sys = one_sys, sys_lstat64 = \<lambda>p k. (Inr one_stat, k)\<rparr>, filled = \<lambda>k. [],
       sys_statfs = \<lambda>p k. (Inr one_statfs, k)\<rparr>,
     sys_getdents64 = \<lambda>fd n k. (if k = 0 then (48, [\<lparr>de_ino = 5, de_off = 1, de_name = [97]\<rparr>, \<lparr>de_ino = 6, de_off = 2, de_name = [98]\<rparr>])
       else (0, []), k + 1),
     sys_socket = \<lambda>a b c k. (- 1, k), sys_connect_un = \<lambda>fd p k. (- 1, k)\<rparr>"

theorem svr4_getdents_portions_witness:
  "\<forall>tab. \<exists>r s'. svr4_getdents two_sys \<lparr>personality = 0, InodeTab = None, DeviceTab = None\<rparr> 4 0x1000 512
     \<lparr>o_mem = \<lambda>x. 0, o_inodes = tab, o_files = one_files\<rparr> = Some (r, s') \<and> unat r = 24 \<and> dirents_at (o_mem s') 0x1000 [(5, [97])]"
proof
  fix tab
  let ?e = "\<lparr>personality = 0, InodeTab = None, DeviceTab = None\<rparr>"
  let ?s = "\<lparr>o_mem = \<lambda>x. 0, o_inodes = tab, o_files = one_files\<rparr>"
  let ?cs = "[[\<lparr>de_ino = 5, de_off = 1, de_name = [97 :: u8]\<rparr>, \<lparr>de_ino = 6, de_off = 2, de_name = [98]\<rparr>]]"
  obtain fs where fs: "fget (files_sys (stat_sys (mount_sys two_sys))) 4 (o_files ?s) = Some fs" "kern fs = 0"
    using fget_new [OF one_files_ok, of 4 one_sys]
    by (auto simp: two_sys_def file_at_def slot_at_def one_files_def new_file_def vfs_fstat_def one_sys_def)
  have "delivers two_sys (int 4) ?cs (kern fs)" by (simp add: fs(2) two_sys_def IBCS_IS_ERR_def)
  moreover have "numbers ?e (map (de_ino \<circ> hd) ?cs) (o_inodes ?s) = Some ([5], tab)"
    by (simp add: abi_map_def linux_to_svr4_ino_t_def)
  moreover have "dir_size ?cs = 24" "dir_entries [5] ?cs = [(5, [97])]" by (simp_all add: dir_size_def reclen_def dir_entries_def)
  ultimately show "\<exists>r s'. svr4_getdents two_sys ?e 4 0x1000 512 ?s = Some (r, s') \<and> unat r = 24 \<and> dirents_at (o_mem s') 0x1000 [(5, [97])]"
    using svr4_getdents_portions [OF _ fs(1), of ?cs ?e "[5]" tab 512 "0x1000"] one_files_ok by auto
qed


text \<open>A mounted file system is reported in full, whatever length of the buffer the program gives.\<close>

lemma svr4_statfs_ignores_length:
  assumes "sint len \<le> 40" "sint len' \<le> 40"
  shows "svr4_statfs sys stk sb typ pad path buf len 0 s = svr4_statfs sys stk sb typ pad path buf len' 0 s"
  using assms by (simp add: svr4_statfs_def)

text \<open>\<open>fstatfs\<close> of a mounted file system goes on with a path that was never set.\<close>

lemma svr4_fstatfs_undefined: "sint len \<le> 40 \<Longrightarrow> svr4_fstatfs sys stk sb typ pad None fd buf len 0 s = None"
  by (simp add: svr4_fstatfs_def split: option.splits)

end
