(* ===== verification/Coff.thy ===== *)
theory Coff
  imports Mounts Brk Exec_Domain Svr4_Limits Binfmt
begin

text \<open>
  The loader of COFF programs, \<^verbatim>\<open>src/binfmt-coff/binfmt-coff.c\<close>, with the structures of
  \<^verbatim>\<open>src/include/ibcs-us/linux26-compat/linux/coff.h\<close>.

  The memory of the program is a part of the state of the native kernel (\<open>ust\<close>), because \<open>mmap\<close> fills it. The
  program file is an open file of the table. A header is the list of its bytes. \<open>None\<close> is undefined behaviour:
  a read outside a buffer, a file pointer that is an error. \<open>kmalloc\<close> never fails (\<open>ibcs_malloc\<close> ends the process
  instead); what a fresh block holds is \<open>c_heap\<close>. The checks that this build compiles to nothing (\<open>access_ok\<close>,
  \<open>flush_old_exec\<close>, \<open>setup_arg_pages\<close>, the tracing) are left out.
\<close>

section \<open>Headers\<close>

definition COFF_SHORT :: "u8 list \<Rightarrow> nat \<Rightarrow> u16" where
  "COFF_SHORT ps i = push_bit 8 (ucast (ps ! (i + 1))) OR ucast (ps ! i)"

definition COFF_LONG :: "u8 list \<Rightarrow> nat \<Rightarrow> u32" where
  "COFF_LONG ps i = push_bit 24 (ucast (ps ! (i + 3))) OR push_bit 16 (ucast (ps ! (i + 2))) OR
     push_bit 8 (ucast (ps ! (i + 1))) OR ucast (ps ! i)"

definition COFF_FILHSZ :: nat where "COFF_FILHSZ = 20"
definition COFF_AOUTSZ :: nat where "COFF_AOUTSZ = 28"
definition COFF_SCNHSZ :: nat where "COFF_SCNHSZ = 40"
definition COFF_SLIBSZ :: nat where "COFF_SLIBSZ = 8"

definition COFF_F_EXEC :: u16 where "COFF_F_EXEC = 2"
definition COFF_F_AR16WR :: u16 where "COFF_F_AR16WR = 0x80"
definition COFF_F_AR32WR :: u16 where "COFF_F_AR32WR = 0x100"

definition COFF_STYP_TEXT :: u32 where "COFF_STYP_TEXT = 0x20"
definition COFF_STYP_DATA :: u32 where "COFF_STYP_DATA = 0x40"
definition COFF_STYP_BSS :: u32 where "COFF_STYP_BSS = 0x80"
definition COFF_STYP_INFO :: u32 where "COFF_STYP_INFO = 0x200"
definition COFF_STYP_LIB :: u32 where "COFF_STYP_LIB = 0x800"

record coff_scnhdr =
  s_vaddr :: u32
  s_size :: u32
  s_scnptr :: u32
  s_scnflags :: u32

definition scnhdr :: "u8 list \<Rightarrow> coff_scnhdr" where
  "scnhdr bs = \<lparr>s_vaddr = COFF_LONG bs 12, s_size = COFF_LONG bs 16, s_scnptr = COFF_LONG bs 20, s_scnflags = COFF_LONG bs 36\<rparr>"

text \<open>The section headers in the buffer that was read, \<open>n\<close> of them.\<close>

definition scnhdrs :: "u8 list \<Rightarrow> nat \<Rightarrow> coff_scnhdr list" where
  "scnhdrs buf n = map (\<lambda>i. scnhdr (take COFF_SCNHSZ (drop (COFF_SCNHSZ * i) buf))) [0..<n]"

section \<open>The system\<close>

record 'k coffsys =
  c_mount :: "'k ust mountsys"
  c_mmap2 :: "'k ust mmap_call"
  c_mremap :: "'k ust mremap_call"
  c_lim :: "'k ust limsys"
  c_uselib :: "u8 list \<Rightarrow> 'k ust \<Rightarrow> u32 \<times> 'k ust"
  c_kill :: "u32 \<Rightarrow> 'k ust \<Rightarrow> 'k ust"
  c_heap :: "nat \<Rightarrow> u8 list"
  c_cmdline_personality :: u32

record image =
  start_code :: u32
  end_code :: u32
  start_data :: u32
  end_data :: u32
  start_brk :: u32
  start_stack :: u32
  start_addr :: u32

text \<open>The parts of \<open>struct linux_binprm\<close> the loader uses; the file is its place in the table of files.\<close>

record binprm =
  b_buf :: "u8 list"
  b_file :: nat
  b_p :: u32

record 'k coffst =
  c_files :: "'k ust files"
  c_ptrace :: u32
  c_mm :: mm_struct
  c_task :: task_personality
  c_domains :: domains
  c_image :: image

definition on_kern :: "('k ust \<Rightarrow> 'a \<times> 'k ust) \<Rightarrow> 'k coffst \<Rightarrow> 'a \<times> 'k coffst" where
  "on_kern f s = (case f (kern (c_files s)) of (r, k) \<Rightarrow> (r, s\<lparr>c_files := (c_files s)\<lparr>kern := k\<rparr>\<rparr>))"

text \<open>\<open>kernel_read\<close> of \<^verbatim>\<open>linux/fs.h\<close>: the result, the bytes read, and the state.\<close>

definition kernel_read :: "'k coffsys \<Rightarrow> nat \<Rightarrow> u32 \<Rightarrow> u32 \<Rightarrow> 'k coffst \<Rightarrow> (u32 \<times> u8 list \<times> 'k coffst) option" where
  "kernel_read sys fp offset nbytes s = do {
     (got, _, fs) \<leftarrow> fop_read (files_sys (stat_sys (c_mount sys))) fp nbytes (ucast offset) (c_files s);
     Some (got, filled (c_mount sys) (kern fs), s\<lparr>c_files := fs\<rparr>)
   }"

definition dev_null :: "u8 list" where
  "dev_null = map (of_nat \<circ> of_char) ''/dev/null'' @ [0]"

definition get_unused_fd :: "'k fsys \<Rightarrow> 'k files \<Rightarrow> (u32 \<times> 'k files) option" where
  "get_unused_fd sys s = do {
     (r, s) \<leftarrow> Files.linux26_fopen sys dev_null 0 s;
     (case r of
        Inl e \<Rightarrow> None
      | Inr fd \<Rightarrow> do { s \<leftarrow> fput fd s; Some (of_nat fd, s) })
   }"

definition CAP_SYS_RAWIO :: u32 where "CAP_SYS_RAWIO = 17"

definition cap_mmap :: "'k coffsys \<Rightarrow> int \<Rightarrow> 'k coffst \<Rightarrow> u32 \<times> 'k coffst" where
  "cap_mmap sys oper s =
     (let s = (if oper = 1 then snd (on_kern (linux26_capability (c_lim sys) CAP_SYS_RAWIO 1) s)
               else if oper = 2 then snd (on_kern (linux26_capability (c_lim sys) CAP_SYS_RAWIO (- 1)) s)
               else s)
      in on_kern (linux26_capability (c_lim sys) CAP_SYS_RAWIO 0) s)"

definition coff_mmap ::
  "'k coffsys \<Rightarrow> nat option \<Rightarrow> u32 \<Rightarrow> u32 \<Rightarrow> u32 \<Rightarrow> u32 \<Rightarrow> u32 \<Rightarrow> 'k coffst \<Rightarrow> u32 \<times> 'k coffst" where
  "coff_mmap sys fp addr len prot flag offset s =
     (case binfmt_mmap (c_mmap2 sys) (map_option of_nat fp) addr len prot flag offset (c_mm s, kern (c_files s)) of
        (r, mm, k) \<Rightarrow> (r, s\<lparr>c_mm := mm, c_files := (c_files s)\<lparr>kern := k\<rparr>\<rparr>))"

section \<open>Clues\<close>

record coff_clue =
  terminal :: bool
  clue_len :: int
  clue_text :: "u8 list"
  mask_and :: u32
  mask_or :: u32

definition cbytes :: "string \<Rightarrow> u8 list" where
  "cbytes t = map (of_nat \<circ> of_char) t @ [0]"

definition PER_SVR3 :: u32 where "PER_SVR3 = 0x0002 OR 0x4000000 OR 0x1000000"
definition PER_SCOSVR3 :: u32 where "PER_SCOSVR3 = 0x0003 OR 0x4000000 OR 0x2000000 OR 0x1000000"
definition PER_WYSEV386 :: u32 where "PER_WYSEV386 = 0x0004 OR 0x4000000 OR 0x1000000"
definition PER_ISCR4 :: u32 where "PER_ISCR4 = 0x0005 OR 0x4000000"

definition clue :: "bool \<Rightarrow> int \<Rightarrow> string \<Rightarrow> u32 \<Rightarrow> u32 \<Rightarrow> coff_clue" where
  "clue t n txt ma mo = \<lparr>terminal = t, clue_len = n, clue_text = cbytes txt, mask_and = ma, mask_or = mo\<rparr>"

definition coff_clues :: "coff_clue list" where
  "coff_clues =
    [clue True 36 ''@(#) UNIX System V/386 Release 3.2.1'' 0 PER_WYSEV386,
     clue True 23 ''@(#) crt1.s 1.8 89/05/30'' 0 PER_SCOSVR3,
     clue True 16 ''@(#)SCO UNIX 3.2'' 0 PER_SCOSVR3,
     clue True 18 (CHR 0x22 # ''@(#) SCO UNIX 3.2'') 0 PER_SCOSVR3,
     clue True 17 ''@(#) SCO UNIX 3.2'' 0 PER_SCOSVR3,
     clue True 11 ''@(#)SCO 3.2'' 0 PER_SCOSVR3,
     clue False 32 ''@(#) crt1.s.source 20.1 94/12/04'' 0 PER_SCOSVR3,
     clue True 13 ''ods_30_compat'' (NOT 0) SHORT_INODE,
     clue True (- 1) ''INTERACTIVE'' 0 PER_ISCR4]"

text \<open>The clues against the string at \<open>p\<close>: the personality, the hits, and whether a terminal clue was met.\<close>

fun clue_loop :: "u8 list \<Rightarrow> coff_clue list \<Rightarrow> u32 \<Rightarrow> nat \<Rightarrow> (u32 \<times> nat \<times> bool) option" where
  "clue_loop p [] pers hits = Some (pers, hits, False)"
| "clue_loop p (c # cs) pers hits = do {
     hit \<leftarrow> (if clue_len c < 0 then map_option (\<lambda>r. r \<noteq> None) (strstr p (clue_text c))
             else map_option (\<lambda>r. r = 0) (strncmp p (clue_text c) (nat (clue_len c))));
     if hit then
       let pers = pers AND mask_and c OR mask_or c
       in if terminal c then Some (pers, hits, True) else clue_loop p cs pers (hits + 1)
     else clue_loop p cs pers hits
   }"

text \<open>
  The loop over the strings of a page that was read: \<open>p\<close> is the place in the buffer, \<open>count\<close> runs ahead of it by one
  for every string behind the first. \<open>*p\<close> is read before \<open>count < err\<close> is tested.
\<close>

function skip_string :: "u8 list \<Rightarrow> nat \<Rightarrow> nat \<Rightarrow> nat \<Rightarrow> (nat \<times> nat) option" where
  "skip_string buffer err p count =
     (if length buffer \<le> p then None
      else if buffer ! p \<noteq> 0 \<and> count < err then skip_string buffer err (p + 1) (count + 1)
      else Some (p, count))"
  by auto
termination by (relation "measure (\<lambda>(buffer, err, p, count). err - count)") auto

lemma skip_string_count: "skip_string buffer err p count = Some (p', count') \<Longrightarrow> count \<le> count' \<and> (count \<le> err \<longrightarrow> count' \<le> err)"
  by (induction buffer err p count rule: skip_string.induct) (auto split: if_splits simp: skip_string.simps)

declare skip_string.simps [simp del]

function scan_page ::
  "u8 list \<Rightarrow> nat \<Rightarrow> nat \<Rightarrow> nat \<Rightarrow> nat \<Rightarrow> u32 \<Rightarrow> nat \<Rightarrow> (bool \<times> nat \<times> u32 \<times> nat) option" where
  "scan_page buffer err p count start pers hits =
     (if err \<le> count then Some (False, start, pers, hits)
      else case clue_loop (drop p (buffer[length buffer - 1 := 0])) coff_clues pers hits of
        None \<Rightarrow> None
      | Some (pers, hits, True) \<Rightarrow> Some (True, start, pers, hits)
      | Some (pers, hits, False) \<Rightarrow>
          (case skip_string buffer err p count of
             None \<Rightarrow> None
           | Some (p, count) \<Rightarrow>
               if count < err then scan_page buffer err (p + 1) (count + 1 + 1) (count + 1) pers hits
               else scan_page buffer err p (count + 1) start pers hits))"
  by pat_completeness auto
termination
  by (relation "measure (\<lambda>(buffer, err, p, count, start, pers, hits). err - count)") (auto dest: skip_string_count)

declare scan_page.simps [simp del]

text \<open>The loop over the pages of a comment section; \<open>buffer\<close> is the page.\<close>

partial_function (option) comment_loop ::
  "'k coffsys \<Rightarrow> nat \<Rightarrow> u8 list \<Rightarrow> u32 \<Rightarrow> u32 \<Rightarrow> u32 \<Rightarrow> nat \<Rightarrow> 'k coffst \<Rightarrow> (nat \<times> u32 \<times> 'k coffst) option" where
  "comment_loop sys fp buffer nbytes offset pers hits s =
     (if nbytes = 0 then Some (hits, pers, s)
      else do {
        (err, bytes, s) \<leftarrow> kernel_read sys fp offset (if PAGE_SIZE < nbytes then PAGE_SIZE else nbytes) s;
        if sint err \<le> 0 then Some (0, pers, s)
        else if length buffer < unat err \<or> length bytes \<noteq> unat err then None
        else do {
          let buffer = bytes @ drop (unat err) buffer;
          (found, start, pers, hits) \<leftarrow> scan_page buffer (unat err) 0 0 0 pers hits;
          if found then Some (1, pers, s)
          else let start = (if start = 0 then err else of_nat start)
               in comment_loop sys fp buffer (nbytes - start) (offset + start) pers hits s
        }
      })"

definition coff_parse_comments ::
  "'k coffsys \<Rightarrow> nat \<Rightarrow> coff_scnhdr \<Rightarrow> u32 \<Rightarrow> 'k coffst \<Rightarrow> (nat \<times> u32 \<times> 'k coffst) option" where
  "coff_parse_comments sys fp sect pers s =
     comment_loop sys fp (c_heap sys (unat PAGE_SIZE)) (if 8192 < s_size sect then 8192 else s_size sect) (s_scnptr sect) pers 0 s"


section \<open>Mapping\<close>

definition coff_isaligned :: "coff_scnhdr \<Rightarrow> u32" where
  "coff_isaligned sectp = (if (s_vaddr sectp - s_scnptr sectp) AND NOT PAGE_MASK \<noteq> 0 then - ENOEXEC else 0)"

text \<open>The size that is passed is not used.\<close>

definition coff_clear_memory :: "u32 \<Rightarrow> u32 \<Rightarrow> 'k coffst \<Rightarrow> u32 \<times> 'k coffst" where
  "coff_clear_memory addr sz =
     (let sz = (PAGE_SIZE - (addr AND NOT PAGE_MASK)) AND NOT PAGE_MASK
      in on_kern (\<lambda>k. (0, k\<lparr>um := copy_to_user (um k) addr (replicate (unat sz) 0)\<rparr>)))"

record coff_section =
  scnptr :: u32
  sect_size :: u32
  vaddr :: u32

definition map_coff :: "'k coffsys \<Rightarrow> nat \<Rightarrow> coff_section \<Rightarrow> u32 \<Rightarrow> u32 \<Rightarrow> u32 \<Rightarrow> 'k coffst \<Rightarrow> u32 \<times> 'k coffst" where
  "map_coff sys fp sect prot flag offset =
     coff_mmap sys (Some fp) (vaddr sect AND PAGE_MASK) (sect_size sect + (vaddr sect AND NOT PAGE_MASK)) prot
       (flag OR MAP_32BIT) offset"

section \<open>Shared libraries\<close>

text \<open>
  The loop over the entries of a library section: \<open>phdr\<close> is the rest of the buffer from the current entry on.
  \<open>uselib\<close> is no call of the emulated kernel, so \<open>SYS(uselib, ...)\<close> is the native one.
\<close>

function preload_loop :: "'k coffsys \<Rightarrow> u8 list \<Rightarrow> int \<Rightarrow> u32 \<Rightarrow> 'k coffst \<Rightarrow> (u32 \<times> 'k coffst) option" where
  "preload_loop sys phdr nbytes err s =
     (if nbytes \<le> int COFF_SLIBSZ then Some (err, s)
      else if length phdr < COFF_SLIBSZ then None
      else let entry_size = COFF_LONG phdr 0 * 4; header_size = COFF_LONG phdr 4 * 4
      in if of_int nbytes \<le> header_size \<or> entry_size \<le> header_size \<or> sint entry_size \<le> 0 then Some (- ENOEXEC, s)
      else if \<not> terminated (drop (unat header_size) phdr) then None
      else let (err, s) = on_kern (c_uselib sys (cstr (drop (unat header_size) phdr))) s
      in if sint err < 0 then Some (err, s)
      else preload_loop sys (drop (unat entry_size) phdr) (nbytes - sint entry_size) err s)"
  by auto
termination by (relation "measure (\<lambda>(sys, phdr, nbytes, err, s). nat nbytes)") (auto simp: COFF_SLIBSZ_def)

declare preload_loop.simps [simp del]

definition coff_preload_shlib :: "'k coffsys \<Rightarrow> nat \<Rightarrow> coff_scnhdr \<Rightarrow> 'k coffst \<Rightarrow> (u32 \<times> 'k coffst) option" where
  "coff_preload_shlib sys fp sect s =
     (let nbytes = sint (s_size sect)
      in if nbytes < int COFF_SLIBSZ then Some (- ENOEXEC, s)
      else do {
        (err, bytes, s) \<leftarrow> kernel_read sys fp (s_scnptr sect) (s_size sect) s;
        if sint err < 0 then Some (err, s)
        else if sint err \<noteq> nbytes then Some (- ENOEXEC, s)
        else preload_loop sys bytes nbytes err s
      })"

fun coff_preload_shlibs :: "'k coffsys \<Rightarrow> nat \<Rightarrow> coff_scnhdr list \<Rightarrow> u32 \<Rightarrow> 'k coffst \<Rightarrow> (u32 \<times> 'k coffst) option" where
  "coff_preload_shlibs sys fp [] err s = Some (err, s)"
| "coff_preload_shlibs sys fp (h # hs) err s =
     (if s_scnflags h = COFF_STYP_LIB
      then do {
        (err, s) \<leftarrow> coff_preload_shlib sys fp h s;
        if err \<noteq> 0 then Some (err, s) else coff_preload_shlibs sys fp hs err s
      }
      else coff_preload_shlibs sys fp hs err s)"

section \<open>Loading an object\<close>

definition COFF_I386MAGIC :: u16 where "COFF_I386MAGIC = 0x14c"
definition COFF_STMAGIC :: u16 where "COFF_STMAGIC = 0x101"
definition COFF_OMAGIC :: u16 where "COFF_OMAGIC = 0x104"
definition COFF_ZMAGIC :: u16 where "COFF_ZMAGIC = 0x10B"
definition COFF_SHMAGIC :: u16 where "COFF_SHMAGIC = 0x123"
definition MAP_EXECUTABLE :: u32 where "MAP_EXECUTABLE = 0x1000"
definition PT_PTRACED :: u32 where "PT_PTRACED = 1"

definition coff_header_ok :: "u8 list \<Rightarrow> bool" where
  "coff_header_ok buf \<longleftrightarrow> COFF_SHORT buf 0 = COFF_I386MAGIC \<and>
     COFF_SHORT buf 18 AND (COFF_F_AR32WR OR COFF_F_AR16WR) = COFF_F_AR32WR \<and> COFF_SHORT buf 18 AND COFF_F_EXEC \<noteq> 0"

record sects =
  text_sect :: "coff_scnhdr option"
  data_sect :: "coff_scnhdr option"
  bss_sect :: "coff_scnhdr option"
  text_count :: nat
  data_count :: nat
  bss_count :: nat
  lib_count :: nat
  sect_status :: u32

definition no_sects :: "u32 \<Rightarrow> sects" where
  "no_sects status = \<lparr>text_sect = None, data_sect = None, bss_sect = None, text_count = 0, data_count = 0,
     bss_count = 0, lib_count = 0, sect_status = status\<rparr>"

definition classify_sect :: "coff_scnhdr \<Rightarrow> sects \<Rightarrow> sects" where
  "classify_sect h c =
     (if s_scnflags h = COFF_STYP_TEXT
      then c\<lparr>sect_status := sect_status c OR coff_isaligned h, text_sect := Some h, text_count := text_count c + 1\<rparr>
      else if s_scnflags h = COFF_STYP_DATA
      then c\<lparr>sect_status := sect_status c OR coff_isaligned h, data_sect := Some h, data_count := data_count c + 1\<rparr>
      else if s_scnflags h = COFF_STYP_BSS then c\<lparr>bss_sect := Some h, bss_count := bss_count c + 1\<rparr>
      else if s_scnflags h = COFF_STYP_LIB then c\<lparr>lib_count := lib_count c + 1\<rparr>
      else c)"

text \<open>The start address, or \<open>None\<close> for a file that is no program (library) of the right kind.\<close>

definition coff_start_addr :: "u8 list \<Rightarrow> bool \<Rightarrow> int \<Rightarrow> coff_scnhdr \<Rightarrow> u32 option" where
  "coff_start_addr buf binary aout_size txt =
     (if aout_size = 0 then (if binary then Some (s_vaddr txt) else None)
      else if aout_size < int COFF_AOUTSZ then None
      else let aout_magic = COFF_SHORT buf COFF_FILHSZ
      in if aout_magic = COFF_OMAGIC \<or> aout_magic = COFF_ZMAGIC \<or> aout_magic = COFF_STMAGIC
         then (if binary then Some (COFF_LONG buf (COFF_FILHSZ + 16)) else None)
         else if aout_magic = COFF_SHMAGIC \<and> \<not> binary then Some 0 else None)"

definition coff_section_of :: "coff_scnhdr option \<Rightarrow> coff_section" where
  "coff_section_of h = (case h of None \<Rightarrow> \<lparr>scnptr = 0, sect_size = 0, vaddr = 0\<rparr>
     | Some h \<Rightarrow> \<lparr>scnptr = s_scnptr h, sect_size = s_size h, vaddr = s_vaddr h\<rparr>)"

fun find_personality :: "'k coffsys \<Rightarrow> nat \<Rightarrow> coff_scnhdr list \<Rightarrow> u32 \<Rightarrow> 'k coffst \<Rightarrow> (u32 \<times> 'k coffst) option" where
  "find_personality sys fp [] pers s = Some (PER_SCOSVR3, s)"
| "find_personality sys fp (h # hs) pers s =
     (if s_scnflags h = COFF_STYP_INFO
      then do {
        (status, pers, s) \<leftarrow> coff_parse_comments sys fp h pers s;
        if 0 < status then Some (pers, s) else find_personality sys fp hs pers s
      }
      else find_personality sys fp hs pers s)"

text \<open>The part for a program: its personality, the layout of its image, its start address.\<close>

definition coff_setup_binary ::
  "'k coffsys \<Rightarrow> binprm \<Rightarrow> coff_scnhdr list \<Rightarrow> coff_section \<Rightarrow> coff_section \<Rightarrow> coff_section \<Rightarrow> u32 \<Rightarrow> 'k coffst \<Rightarrow> 'k coffst option" where
  "coff_setup_binary sys bprm hdrs txt data bss start s = do {
     (pers, s) \<leftarrow> find_personality sys (b_file bprm) hdrs PER_SVR3 s;
     let pers = (if c_cmdline_personality sys \<noteq> 0 then c_cmdline_personality sys else pers);
     task \<leftarrow> (if pers AND 0xFF = task_personality (c_task s) AND 0xFF
              then map_option snd (set_personality 0 (c_domains s)) else Some (c_task s));
     (_, task) \<leftarrow> set_personality pers (c_domains s);
     Some (s\<lparr>c_task := task, c_mm := (c_mm s)\<lparr>brk := sect_size bss + vaddr bss\<rparr>,
       c_image := \<lparr>start_code = vaddr txt, end_code = sect_size txt + vaddr txt, start_data = vaddr data,
         end_data = sect_size data + vaddr data, start_brk = vaddr bss, start_stack = b_p bprm, start_addr = start\<rparr>\<rparr>)
   }"

text \<open>A \<open>read\<close> into the memory of the program.\<close>

definition read_to_user :: "'k coffsys \<Rightarrow> nat \<Rightarrow> u32 \<Rightarrow> u32 \<Rightarrow> u64 \<Rightarrow> 'k coffst \<Rightarrow> (u64 \<times> 'k coffst) option" where
  "read_to_user sys fp addr n pos s = do {
     (got, pos, fs) \<leftarrow> fop_read (files_sys (stat_sys (c_mount sys))) fp n pos (c_files s);
     let k = kern fs;
     let k = (if IBCS_IS_ERR got then k else k\<lparr>um := copy_to_user (um k) addr (filled (c_mount sys) k)\<rparr>);
     Some (pos, s\<lparr>c_files := fs\<lparr>kern := k\<rparr>\<rparr>)
   }"

definition coff_do_brk :: "'k coffsys \<Rightarrow> u32 \<Rightarrow> u32 \<Rightarrow> 'k coffst \<Rightarrow> u32 \<times> 'k coffst" where
  "coff_do_brk sys addr n s =
     (case do_brk (c_mremap sys) addr n (c_mm s, kern (c_files s)) of
        (r, mm, k) \<Rightarrow> (r, s\<lparr>c_mm := mm, c_files := (c_files s)\<lparr>kern := k\<rparr>\<rparr>))"

definition coff_read_pages :: "'k coffsys \<Rightarrow> nat \<Rightarrow> coff_section \<Rightarrow> coff_section \<Rightarrow> 'k coffst \<Rightarrow> (u32 \<times> 'k coffst) option" where
  "coff_read_pages sys fp txt data s = do {
     let (_, s) = coff_do_brk sys (vaddr txt) (sect_size txt) s;
     (pos, s) \<leftarrow> read_to_user sys fp (vaddr data) (scnptr data) (scast (scnptr data)) s;
     let (_, s) = coff_do_brk sys (vaddr data) (sect_size data) s;
     (pos, s) \<leftarrow> read_to_user sys fp (vaddr txt) (scnptr txt) pos s;
     Some (0, s)
   }"

definition with_rawio :: "'k coffsys \<Rightarrow> u32 \<Rightarrow> ('k coffst \<Rightarrow> u32 \<times> 'k coffst) \<Rightarrow> 'k coffst \<Rightarrow> u32 \<times> 'k coffst" where
  "with_rawio sys ce act s =
     (let (_, s) = cap_mmap sys 1 s; (r, s) = act s in (r, if ce = 0 then snd (cap_mmap sys 2 s) else s))"

definition coff_map_pages :: "'k coffsys \<Rightarrow> nat \<Rightarrow> u32 \<Rightarrow> coff_section \<Rightarrow> coff_section \<Rightarrow> 'k coffst \<Rightarrow> u32 \<times> 'k coffst" where
  "coff_map_pages sys fp ce txt data s =
     (let flags = MAP_FIXED OR MAP_PRIVATE OR MAP_DENYWRITE OR MAP_EXECUTABLE;
          (m_addr, s) = with_rawio sys ce (map_coff sys fp txt (PROT_READ OR PROT_EXEC) flags (scnptr txt AND PAGE_MASK)) s
      in if m_addr \<noteq> vaddr txt AND PAGE_MASK then (- ENOEXEC, s)
      else if sect_size data \<noteq> 0
      then let (m_addr, s) = with_rawio sys ce
             (map_coff sys fp data (PROT_READ OR PROT_WRITE OR PROT_EXEC) flags (scnptr data AND PAGE_MASK)) s
           in if m_addr \<noteq> vaddr data AND PAGE_MASK then (- ENOEXEC, s) else (0, s)
      else (0, s))"

definition coff_map_bss :: "'k coffsys \<Rightarrow> u32 \<Rightarrow> coff_section \<Rightarrow> 'k coffst \<Rightarrow> u32 \<times> 'k coffst" where
  "coff_map_bss sys ce bss s =
     (if sect_size bss = 0 then (0, s)
      else let (_, s) = with_rawio sys ce (coff_mmap sys None (PAGE_ALIGN (vaddr bss))
             (sect_size bss + vaddr bss - PAGE_ALIGN (vaddr bss)) (PROT_READ OR PROT_WRITE OR PROT_EXEC)
             (MAP_FIXED OR MAP_PRIVATE OR MAP_32BIT) 0) s
      in coff_clear_memory (vaddr bss) (sect_size bss) s)"

text \<open>The shared libraries of a program, and the signal when they or the bss could not be set up.\<close>

definition coff_finish :: "'k coffsys \<Rightarrow> nat \<Rightarrow> coff_scnhdr list \<Rightarrow> nat \<Rightarrow> 'k coffst \<Rightarrow> (u32 \<times> 'k coffst) option" where
  "coff_finish sys fp hdrs libs s = do {
     (status, s) \<leftarrow> (if libs \<noteq> 0 then coff_preload_shlibs sys fp hdrs 0 s else Some (0, s));
     Some (if sint status < 0 then (0, snd (on_kern (\<lambda>k. ((), c_kill sys 11 k)) s))
           else if c_ptrace s AND PT_PTRACED \<noteq> 0 then (0, snd (on_kern (\<lambda>k. ((), c_kill sys 5 k)) s))
           else (0, s))
   }"

text \<open>From the checks of the sections to the label \<open>out_free_file\<close>.\<close>

definition coff_load_sections ::
  "'k coffsys \<Rightarrow> binprm \<Rightarrow> bool \<Rightarrow> u32 \<Rightarrow> bool \<Rightarrow> coff_scnhdr list \<Rightarrow> sects \<Rightarrow> 'k coffst \<Rightarrow> (u32 \<times> 'k coffst) option" where
  "coff_load_sections sys bprm binary ce pageable hdrs c s =
     (if text_count c \<noteq> 1 \<or> binary \<and> (data_count c \<noteq> 1 \<or> bss_count c \<noteq> 1) then Some (- ENOEXEC, s)
      else case coff_start_addr (b_buf bprm) binary (sint (COFF_SHORT (b_buf bprm) 16)) (the (text_sect c)) of
        None \<Rightarrow> Some (- ENOEXEC, s)
      | Some start \<Rightarrow> do {
          let txt = coff_section_of (text_sect c);
          let data = coff_section_of (data_sect c);
          let bss = coff_section_of (bss_sect c);
          s \<leftarrow> (if binary then coff_setup_binary sys bprm hdrs txt data bss start s else Some s);
          (status, s) \<leftarrow> (if pageable then Some (coff_map_pages sys (b_file bprm) ce txt data s)
                          else coff_read_pages sys (b_file bprm) txt data s);
          if status \<noteq> 0 then Some (status, s)
          else let (status, s) = coff_map_bss sys ce bss s
          in if sint status < 0 \<or> \<not> binary then Some (status, s)
          else coff_finish sys (b_file bprm) hdrs (lib_count c) s
        })"

definition coff_load_object :: "'k coffsys \<Rightarrow> binprm \<Rightarrow> bool \<Rightarrow> 'k coffst \<Rightarrow> (u32 \<times> 'k coffst) option" where
  "coff_load_object sys bprm binary s =
     (let (ce, s) = cap_mmap sys 0 s;
          sections = sint (COFF_SHORT (b_buf bprm) 2);
          aout_size = sint (COFF_SHORT (b_buf bprm) 16)
      in if \<not> coff_header_ok (b_buf bprm) \<or> sections = 0 then Some (- ENOEXEC, s)
      else if sections < 0 then None
      else do {
        f \<leftarrow> file_at (c_files s) (b_file bprm);
        let n = COFF_SCNHSZ * nat sections;
        (status, bytes, s) \<leftarrow> kernel_read sys (b_file bprm) (of_int (aout_size + int COFF_FILHSZ)) (of_nat n) s;
        if sint status < 0 then Some (status, s)
        else do {
          let sect_bufr = bytes @ drop (length bytes) (c_heap sys n);
          (status, fs) \<leftarrow> get_unused_fd (files_sys (stat_sys (c_mount sys))) (c_files s);
          let s = s\<lparr>c_files := fs\<rparr>;
          let coff_exec_fileno = status;
          if sint status < 0 then Some (status, s)
          else do {
            let hdrs = scnhdrs sect_bufr (nat sections);
            let c = fold classify_sect hdrs (no_sects status);
            let pageable = (op_mmap (f_op f) \<noteq> None \<and> 0 \<le> sint (sect_status c));
            (status, s) \<leftarrow> coff_load_sections sys bprm binary ce pageable hdrs c s;
            (_, fs) \<leftarrow> linux26_close (files_sys (stat_sys (c_mount sys))) (sint coff_exec_fileno) (c_files s);
            Some (status, s\<lparr>c_files := fs\<rparr>)
          }
        }
      })"

definition coff_load_binary :: "'k coffsys \<Rightarrow> binprm \<Rightarrow> 'k coffst \<Rightarrow> (u32 \<times> 'k coffst) option" where
  "coff_load_binary sys bpp s = coff_load_object sys bpp True s"

definition coff_load_shlib :: "'k coffsys \<Rightarrow> nat \<Rightarrow> 'k coffst \<Rightarrow> (u32 \<times> 'k coffst) option" where
  "coff_load_shlib sys fp s = do {
     (err, bytes, s) \<leftarrow> kernel_read sys fp 0 BINPRM_BUF_SIZE s;
     if sint err < 0 then Some (err, s)
     else coff_load_object sys
       \<lparr>b_buf = bytes @ replicate (unat BINPRM_BUF_SIZE - length bytes) 0, b_file = fp, b_p = 0\<rparr> False s
   }"

text \<open>The loader in the list of formats; \<open>coff_format\<close> is its place in the arena of list heads.\<close>

definition coff_module_init :: "nat \<Rightarrow> list_heads \<Rightarrow> u32 \<times> list_heads" where
  "coff_module_init coff_format = register_binfmt coff_format"

definition coff_module_exit :: "nat \<Rightarrow> list_heads \<Rightarrow> list_heads" where
  "coff_module_exit coff_format = unregister_binfmt coff_format"

section \<open>Reading the program file\<close>

text \<open>
  What the loader relies on of the native kernel: the file \<open>fp\<close> holds \<open>content\<close>, \<open>lseek\<close> goes where it is told, a
  \<open>read\<close> of a regular file gives all bytes up to the end, and neither touches the memory of the program. \<open>posn n k\<close>
  says that the file stands at offset \<open>n\<close>.
\<close>

definition reads_file :: "'k coffsys \<Rightarrow> (nat \<Rightarrow> 'k ust \<Rightarrow> bool) \<Rightarrow> nat \<Rightarrow> u8 list \<Rightarrow> bool" where
  "reads_file sys posn fp content \<longleftrightarrow>
     (let fs = files_sys (stat_sys (c_mount sys)) in
      (\<forall>n k off. posn n k \<longrightarrow> (\<exists>k'. sys_lseek fs (int fp) off 0 k = (off, k') \<and> posn (unat off) k' \<and> um k' = um k)) \<and>
      (\<forall>n k len. posn n k \<longrightarrow> (\<exists>k' m. sys_read fs (int fp) len k = (of_nat (length (take (unat len) (drop n content))), k') \<and>
         posn m k' \<and> um k' = um k \<and> filled (c_mount sys) k' = take (unat len) (drop n content))))"

text \<open>The program file is open, and between two states only the kernel differs, not the memory.\<close>

definition program_file :: "nat \<Rightarrow> 'k files \<Rightarrow> bool" where
  "program_file fp fs \<longleftrightarrow>
     (\<exists>f. file_at fs fp = Some f \<and> op_read (f_op f) = Some Native \<and> op_mmap (f_op f) \<noteq> None \<and> f_fd f = fp)"

definition held :: "(nat \<Rightarrow> 'k ust \<Rightarrow> bool) \<Rightarrow> nat \<Rightarrow> 'k coffst \<Rightarrow> bool" where
  "held posn fp s \<longleftrightarrow> table_ok (c_files s) \<and> program_file fp (c_files s) \<and> (\<exists>n. posn n (kern (c_files s)))"

definition umem :: "'k coffst \<Rightarrow> umem" where
  "umem s = um (kern (c_files s))"

definition same :: "(nat \<Rightarrow> 'k ust \<Rightarrow> bool) \<Rightarrow> nat \<Rightarrow> 'k coffst \<Rightarrow> 'k coffst \<Rightarrow> bool" where
  "same posn fp s s' \<longleftrightarrow> held posn fp s' \<and> umem s' = umem s \<and> c_mm s' = c_mm s \<and> c_task s' = c_task s \<and>
     c_domains s' = c_domains s \<and> c_image s' = c_image s \<and> c_ptrace s' = c_ptrace s \<and>
     (\<forall>i. file_at (c_files s') i = file_at (c_files s) i)"

lemma program_file_kern [simp]: "program_file fp (fs\<lparr>kern := k\<rparr>) = program_file fp fs"
  by (simp add: program_file_def)

lemma same_refl: "held posn fp s \<Longrightarrow> same posn fp s s"
  by (simp add: same_def)

lemma same_trans: "same posn fp s s' \<Longrightarrow> same posn fp s' s'' \<Longrightarrow> same posn fp s s''"
  by (simp add: same_def)

lemma same_held: "same posn fp s s' \<Longrightarrow> held posn fp s'"
  by (simp add: same_def)

lemma same_kern:
  assumes "held posn fp s" "posn n k" "um k = um (kern (c_files s))"
  shows "same posn fp s (s\<lparr>c_files := (c_files s)\<lparr>kern := k\<rparr>\<rparr>)"
  using assms by (auto simp: same_def held_def umem_def)

lemma sint_of_nat_small: "n < 2 ^ 31 \<Longrightarrow> sint (of_nat n :: u32) = int n"
  by (simp add: sint_small unat_of_nat_u32)

lemma sint_nonneg:
  fixes x :: u32
  assumes "0 \<le> sint x"
  shows "sint x = int (unat x)"
proof -
  have "uint (word_of_int (sint x) :: u32) = sint x mod 2 ^ 32"
    by (simp only: uint_word_of_int) simp
  moreover have "sint x < 2 ^ 31" using sint_less [of x] by simp
  ultimately show ?thesis using assms by simp
qed

lemma kernel_read_part:
  assumes rd: "reads_file sys posn fp content" and h: "held posn fp s" and n: "unat n < 2 ^ 31"
  shows "\<exists>s'. kernel_read sys fp off n s =
      Some (of_nat (length (take (unat n) (drop (unat off) content))), take (unat n) (drop (unat off) content), s')
    \<and> same posn fp s s'"
proof -
  let ?fs = "files_sys (stat_sys (c_mount sys))" and ?part = "take (unat n) (drop (unat off) content)"
  obtain m where at: "posn m (kern (c_files s))" using h by (auto simp: held_def)
  obtain f where f: "file_at (c_files s) fp = Some f" "op_read (f_op f) = Some Native" "f_fd f = fp"
    using h by (auto simp: held_def program_file_def)
  have "unat off < 2 ^ LENGTH(32)" by (rule unsigned_less)
  then have o: "unat (ucast off :: u64) = unat off" by (simp add: unsigned_ucast_eq take_bit_nat_eq_self)
  obtain k1 where k1: "sys_lseek ?fs (int fp) (ucast off) 0 (kern (c_files s)) = (ucast off, k1)" "posn (unat off) k1"
      "um k1 = um (kern (c_files s))"
    using rd at o unfolding reads_file_def Let_def by metis
  obtain k2 m2 where k2: "sys_read ?fs (int fp) n k1 = (of_nat (length ?part), k2)" "posn m2 k2" "um k2 = um k1"
      "filled (c_mount sys) k2 = ?part"
    using rd k1(2) unfolding reads_file_def Let_def by metis
  have "length ?part < 2 ^ 31" using n by simp
  then have "\<not> IBCS_IS_ERR (of_nat (length ?part))"
    by (intro not_IBCS_IS_ERR_small) (simp add: unat_of_nat_u32)
  then have "kernel_read sys fp off n s = Some (of_nat (length ?part), ?part, s\<lparr>c_files := (c_files s)\<lparr>kern := k2\<rparr>\<rparr>)"
    using f k1(1) k2(1,4)
    by (simp add: kernel_read_def fop_read_def file_operations_read_def file_operations_llseek_def)
  then show ?thesis using same_kern [OF h k2(2)] k1(3) k2(3) by auto
qed

section \<open>The libraries of a program\<close>

text \<open>An entry of a library section: what follows the two sizes, the path, and what fills the entry up.\<close>

definition le32 :: "u32 \<Rightarrow> u8 list" where
  "le32 w = [ucast w, ucast (drop_bit 8 w), ucast (drop_bit 16 w), ucast (drop_bit 24 w)]"

type_synonym slib = "u8 list \<times> u8 list \<times> u8 list"

definition slib_length :: "slib \<Rightarrow> nat" where
  "slib_length e = (case e of (hdr, path, pad) \<Rightarrow> COFF_SLIBSZ + length hdr + length path + 1 + length pad)"

definition slib_bytes :: "slib \<Rightarrow> u8 list" where
  "slib_bytes e = (case e of (hdr, path, pad) \<Rightarrow>
     le32 (of_nat (slib_length e div 4)) @ le32 (of_nat ((COFF_SLIBSZ + length hdr) div 4)) @ hdr @ path @ 0 # pad)"

definition slib_ok :: "slib \<Rightarrow> bool" where
  "slib_ok e \<longleftrightarrow> (case e of (hdr, path, pad) \<Rightarrow> 4 dvd length hdr \<and> 4 dvd slib_length e \<and> 0 \<notin> set path)"

definition slib_path :: "slib \<Rightarrow> u8 list" where
  "slib_path e = fst (snd e)"

text \<open>What loading libraries means: \<open>uselib\<close> on one path after the other, up to the first failure.\<close>

fun uselibs :: "'k coffsys \<Rightarrow> u8 list list \<Rightarrow> u32 \<Rightarrow> 'k coffst \<Rightarrow> u32 \<times> 'k coffst" where
  "uselibs sys [] err s = (err, s)"
| "uselibs sys (p # ps) err s =
     (let (err, s) = on_kern (c_uselib sys p) s in if sint err < 0 then (err, s) else uselibs sys ps err s)"

lemma COFF_LONG_le32: "COFF_LONG (le32 w @ r) 0 = w"
proof (rule bit_word_eqI)
  fix n assume "n < LENGTH(32)"
  then consider "n < 8" | "8 \<le> n" "n < 16" | "16 \<le> n" "n < 24" | "24 \<le> n" "n < 32" by force
  then show "bit (COFF_LONG (le32 w @ r) 0) n = bit w n"
    by cases (auto simp: COFF_LONG_def le32_def bit_simps)
qed

lemma COFF_LONG_behind: "length a = 4 \<Longrightarrow> COFF_LONG (a @ r) 4 = COFF_LONG r 0"
  by (simp add: COFF_LONG_def nth_append numeral_2_eq_2)

lemma length_le32: "length (le32 w) = 4"
  by (simp add: le32_def)

lemma length_slib_bytes: "length (slib_bytes e) = slib_length e"
  by (cases e) (simp add: slib_bytes_def slib_length_def le32_def COFF_SLIBSZ_def)

lemma slib_longs:
  "COFF_LONG (slib_bytes (hdr, path, pad) @ r) 0 = of_nat (slib_length (hdr, path, pad) div 4)"
  "COFF_LONG (slib_bytes (hdr, path, pad) @ r) 4 = of_nat ((COFF_SLIBSZ + length hdr) div 4)"
  by (simp_all only: slib_bytes_def prod.case append_assoc COFF_LONG_le32 COFF_LONG_behind length_le32)

lemma times_four: "4 dvd n \<Longrightarrow> of_nat (n div 4) * 4 = (of_nat n :: u32)"
  by (metis dvd_div_mult_self of_nat_mult of_nat_numeral)

lemma cstr_path: "0 \<notin> set p \<Longrightarrow> terminated (p @ 0 # r) \<and> cstr (p @ 0 # r) = p"
  by (simp add: terminated_def cstr_append)

lemma preload_loop_entries:
  assumes "\<forall>e \<in> set es. slib_ok e" "length (concat (map slib_bytes es)) < 2 ^ 31"
  shows "preload_loop sys (concat (map slib_bytes es)) (int (length (concat (map slib_bytes es)))) err s =
    Some (uselibs sys (map slib_path es) err s)"
  using assms
proof (induction es arbitrary: err s)
  case Nil
  then show ?case by (simp add: preload_loop.simps COFF_SLIBSZ_def)
next
  case (Cons e es)
  obtain hdr path pad where e: "e = (hdr, path, pad)" by (cases e) auto
  let ?rest = "concat (map slib_bytes es)" and ?n = "slib_length e"
  let ?all = "slib_bytes e @ ?rest" and ?h = "COFF_SLIBSZ + length hdr"
  have d: "4 dvd length hdr" "4 dvd ?n" "0 \<notin> set path" using Cons.prems(1) e by (auto simp: slib_ok_def)
  have small: "?n + length ?rest < 2 ^ 31" using Cons.prems(2) by (simp add: length_slib_bytes)
  have n: "?h < ?n" "8 < ?n" using e by (simp_all add: slib_length_def COFF_SLIBSZ_def)
  have "4 dvd ?h" using d(1) by (simp add: COFF_SLIBSZ_def)
  then have longs: "COFF_LONG ?all 0 * 4 = of_nat ?n" "COFF_LONG ?all 4 * 4 = of_nat ?h"
    using d(2) unfolding e slib_longs by (simp_all only: times_four)
  have w: "unat (of_nat ?n :: u32) = ?n" "unat (of_nat ?h :: u32) = ?h" "sint (of_nat ?n :: u32) = int ?n"
    using small n by (simp_all add: unat_of_nat_u32 sint_of_nat_small del: of_nat_add)
  have len: "int (length ?all) = int ?n + int (length ?rest)" by (simp add: length_slib_bytes)
  have lw: "unat (of_int (int (length ?all)) :: u32) = length ?all"
    using small by (simp add: length_slib_bytes unat_of_nat_u32 del: of_nat_add)
  have "drop ?h ?all = drop (length hdr) (drop COFF_SLIBSZ ?all)" by (simp only: drop_drop add.commute)
  then have at: "drop ?h ?all = path @ 0 # pad @ ?rest" by (simp add: e slib_bytes_def le32_def COFF_SLIBSZ_def del: drop_drop)
  have dr: "drop ?n ?all = ?rest" "int (?n + length ?rest) - int ?n = int (length ?rest)" by (simp_all add: length_slib_bytes)
  obtain r s' where u: "on_kern (c_uselib sys path) s = (r, s')" by fastforce
  have "preload_loop sys ?all (int (length ?all)) err s =
      (if sint r < 0 then Some (r, s') else preload_loop sys ?rest (int (length ?rest)) r s')"
    unfolding preload_loop.simps [of sys ?all] using n small longs w lw d(3)
    by (simp add: COFF_SLIBSZ_def at [unfolded COFF_SLIBSZ_def] dr u cstr_path word_le_nat_alt length_slib_bytes Let_def
      del: of_nat_add drop_append)
  then show ?case using Cons.IH [of r s'] Cons.prems small u e by (simp add: slib_path_def)
qed

text \<open>
  Whatever a library section holds, when its last byte is a NUL the walk over its entries ends and never leaves
  the buffer.
\<close>

lemma terminated_last: "xs \<noteq> [] \<Longrightarrow> last xs = 0 \<Longrightarrow> terminated xs"
  by (metis last_in_set terminated_def)

lemma preload_loop_inside:
  assumes "nbytes \<le> int (length phdr)" "nbytes < 2 ^ 31" "8 < nbytes \<Longrightarrow> last phdr = 0"
  shows "preload_loop sys phdr nbytes err s \<noteq> None"
  using assms
proof (induction sys phdr nbytes err s rule: preload_loop.induct)
  case (1 sys phdr nbytes err s)
  let ?e = "COFF_LONG phdr 0 * 4" and ?h = "COFF_LONG phdr 4 * 4"
  show ?case
  proof (cases "nbytes \<le> int COFF_SLIBSZ \<or> of_int nbytes \<le> ?h \<or> ?e \<le> ?h \<or> sint ?e \<le> 0")
    case True
    with 1(2) show ?thesis by (auto simp: preload_loop.simps [of sys phdr] Let_def COFF_SLIBSZ_def)
  next
    case False
    then have go: "\<not> nbytes \<le> int COFF_SLIBSZ" "\<not> of_int nbytes \<le> ?h" "\<not> ?e \<le> ?h" "\<not> sint ?e \<le> 0" by auto
    have nb: "unat (of_int nbytes :: u32) = nat nbytes"
      using go(1) 1(3) by (simp add: unat_of_nat_u32 COFF_SLIBSZ_def flip: of_nat_nat)
    then have h: "unat ?h < length phdr" using go(2) 1(2) by (simp add: word_le_nat_alt)
    have t: "terminated (drop (unat ?h) phdr)"
      using h 1(4) go(1) by (intro terminated_last) (auto simp: COFF_SLIBSZ_def)
    obtain r s' where u: "on_kern (c_uselib sys (cstr (drop (unat ?h) phdr))) s = (r, s')" by fastforce
    have e: "sint ?e = int (unat ?e)" using go(4) by (intro sint_nonneg) simp
    have "preload_loop sys (drop (unat ?e) phdr) (nbytes - sint ?e) r s' \<noteq> None" if "\<not> sint r < 0"
    proof (rule 1(1) [OF go(1) _ refl refl])
      show "\<not> length phdr < COFF_SLIBSZ" using go(1) 1(2) by linarith
      show "last (drop (unat ?e) phdr) = 0" if "8 < nbytes - sint ?e"
      proof -
        have "unat ?e < length phdr" using that 1(2) e by linarith
        then show ?thesis using 1(4) go(1) by (simp add: COFF_SLIBSZ_def)
      qed
      show "nbytes - sint ?e \<le> int (length (drop (unat ?e) phdr))"
        using e 1(2) unfolding length_drop by linarith
      show "nbytes - sint ?e < 2 ^ 31" using 1(3) go(4) by linarith
    qed (use go t u that in auto)
    then show ?thesis using go t u 1(2) by (simp add: preload_loop.simps [of sys phdr] Let_def)
  qed
qed

section \<open>Clues in the comment sections\<close>

text \<open>The search of a comment section of a file whose content is known.\<close>

lemma scan_page_start:
  assumes "scan_page buffer err p count start pers hits = Some (found, start', pers', hits')" "start \<le> err"
  shows "start' \<le> err"
  using assms
proof (induction buffer err p count start pers hits rule: scan_page.induct)
  case (1 buffer err p count start pers hits)
  then show ?case
    by (auto simp: scan_page.simps [of buffer err p] split: if_splits option.splits bool.splits)
qed

function comments :: "u8 list \<Rightarrow> u8 list \<Rightarrow> nat \<Rightarrow> nat \<Rightarrow> u32 \<Rightarrow> nat \<Rightarrow> (nat \<times> u32) option" where
  "comments content buffer nbytes offset pers hits =
     (if nbytes = 0 then Some (hits, pers)
      else let bytes = take (min (unat PAGE_SIZE) nbytes) (drop offset content); err = length bytes
      in if err = 0 then Some (0, pers)
      else case scan_page (bytes @ drop err buffer) err 0 0 0 pers hits of
        None \<Rightarrow> None
      | Some (found, start, pers, hits) \<Rightarrow>
          if found then Some (1, pers)
          else let start = (if start = 0 then err else start)
               in comments content (bytes @ drop err buffer) (nbytes - start) (offset + start) pers hits)"
  by pat_completeness auto
termination
  by (relation "measure (\<lambda>(content, buffer, nbytes, offset, pers, hits). nbytes)") auto

declare comments.simps [simp del]

lemma comment_loop_file:
  assumes "reads_file sys posn fp content" "held posn fp s" "length content < 2 ^ 31"
    "length buffer = unat PAGE_SIZE" "n \<le> 2 ^ 14" "off \<le> length content" "nbytes = of_nat n" "offset = of_nat off"
    "comments content buffer n off pers hits = Some (h, pers')"
  shows "\<exists>s'. comment_loop sys fp buffer nbytes offset pers hits s = Some (h, pers', s') \<and> same posn fp s s'"
  using assms
proof (induction content buffer n off pers hits arbitrary: s nbytes offset rule: comments.induct)
  case (1 content buffer n off pers hits s nbytes offset)
  have ps: "unat PAGE_SIZE = 4096" by (simp add: PAGE_SIZE_def)
  let ?m = "min (unat PAGE_SIZE) n" and ?len = "if PAGE_SIZE < nbytes then PAGE_SIZE else nbytes"
  let ?bytes = "take ?m (drop off content)"
  have w: "unat nbytes = n" "unat offset = off" using 1(4,6,7,8,9) by (simp_all add: unat_of_nat_u32)
  have len: "unat ?len = ?m" using w(1) by (simp add: word_less_nat_alt)
  show ?case
  proof (cases "n = 0")
    case True
    with 1(3,8,10) show ?thesis by (simp add: comment_loop.simps comments.simps same_refl)
  next
    case False
    then have nz: "nbytes \<noteq> 0" using w(1) by auto
    define bytes where "bytes = ?bytes"
    have "?m < 2 ^ 31" by (simp add: ps)
    then obtain s1 where rd: "kernel_read sys fp offset ?len s = Some (of_nat (length bytes), bytes, s1)" "same posn fp s s1"
      using kernel_read_part [OF 1(2,3), of ?len offset] unfolding len w(2) bytes_def by blast
    let ?buf = "bytes @ drop (length bytes) buffer"
    have e: "length bytes \<le> 4096" "length bytes \<le> n" "off + length bytes \<le> length content"
      using 1(7) by (auto simp: ps bytes_def)
    then have ew: "sint (of_nat (length bytes) :: u32) = int (length bytes)" "unat (of_nat (length bytes) :: u32) = length bytes"
      by (simp_all add: sint_of_nat_small unat_of_nat_u32)
    have cm: "Some (h, pers') = (if length bytes = 0 then Some (0, pers)
      else case scan_page ?buf (length bytes) 0 0 0 pers hits of
        None \<Rightarrow> None
      | Some (found, start, pers, hits) \<Rightarrow>
          if found then Some (1, pers)
          else let start = (if start = 0 then length bytes else start) in comments content ?buf (n - start) (off + start) pers hits)"
      using 1(10) False by (simp only: comments.simps [of content buffer] bytes_def Let_def if_False)
    show ?thesis
    proof (cases "length bytes = 0")
      case True
      with cm nz rd show ?thesis by (intro exI [of _ s1]) (simp add: comment_loop.simps)
    next
      case n0: False
      obtain found start pers1 hits1 where sc: "scan_page ?buf (length bytes) 0 0 0 pers hits = Some (found, start, pers1, hits1)"
        using cm n0 by (auto split: option.splits)
      have pos: "\<not> int (length bytes) \<le> 0" "\<not> length buffer < length bytes" using n0 e(1) 1(5) ps by auto
      have step: "comment_loop sys fp buffer nbytes offset pers hits s = (if found then Some (1, pers1, s1)
        else let start = (if start = 0 then of_nat (length bytes) else of_nat start)
             in comment_loop sys fp ?buf (nbytes - start) (offset + start) pers1 hits1 s1)"
        using nz rd(1) ew pos sc by (subst comment_loop.simps) simp
      show ?thesis
      proof (cases found)
        case True
        with step rd(2) cm n0 sc show ?thesis by simp
      next
        case nf: False
        let ?st = "if start = 0 then length bytes else start"
        have st: "?st \<le> length bytes" using scan_page_start [OF sc] by simp
        have "comments content ?buf (n - ?st) (off + ?st) pers1 hits1 = Some (h, pers')"
          using cm n0 sc nf by (simp add: Let_def)
        moreover have "nbytes - of_nat ?st = of_nat (n - ?st)" "offset + of_nat ?st = of_nat (off + ?st)"
          using st e(2) 1(8,9) by (simp_all add: of_nat_diff)
        moreover have "off + ?st \<le> length content" "n - ?st \<le> 2 ^ 14" "length ?buf = unat PAGE_SIZE"
          using st e 1(5,6) ps by auto
        ultimately obtain s' where "comment_loop sys fp ?buf (nbytes - of_nat ?st) (offset + of_nat ?st) pers1 hits1 s1 = Some (h, pers', s')"
            "same posn fp s1 s'"
          using 1(1) [OF False bytes_def refl n0 sc refl refl refl nf refl 1(2) same_held [OF rd(2)] 1(4)] by blast
        then show ?thesis using step nf same_trans [OF rd(2)] by (auto simp: Let_def)
      qed
    qed
  qed
qed

section \<open>An example kernel\<close>

text \<open>A kernel with one file, whose state is the offset and the bytes read last; every mapping succeeds.\<close>

definition ex_fs :: "u8 list \<Rightarrow> (nat \<times> u8 list) ust fsys" where
  "ex_fs content = \<lparr>sys_fstat64 = \<lambda>fd k. (Inr one_stat, k), sys_stat64 = \<lambda>p k. (Inr one_stat, k),
     sys_open = \<lambda>p m f k. (4, k), sys_creat = \<lambda>p m k. (4, k), sys_access = \<lambda>p m k. (0, k),
     sys_close = \<lambda>fd k. (0, k), sys_dup = \<lambda>fd fd2 k. (5, k),
     sys_read = \<lambda>fd n k. (let part = take (unat n) (drop (fst (ks k)) content)
       in (of_nat (length part), k\<lparr>ks := (fst (ks k) + length part, part)\<rparr>)),
     sys_write = \<lambda>fd n k. (0, k), sys_lseek = \<lambda>fd off w k. (off, k\<lparr>ks := (unat off, [])\<rparr>), sys_getcwd = \<lambda>n. Inl (- 2),
     drv_read = \<lambda>d fd n k. (n, k), drv_write = \<lambda>d fd n k. (n, k), drv_open = \<lambda>d fd k. k,
     drv_release = \<lambda>d fd k. k, drv_chrdev_open = \<lambda>d p m f. - 2, drivers = \<lambda>d. no_operations,
     fresh = \<lambda>i. slot.Null, filemaps = [], stack_bytes = replicate 16 0\<rparr>"

definition ex_mmap :: "u8 list \<Rightarrow> (nat \<times> u8 list) ust mmap_call" where
  "ex_mmap content a k =
     (let from = unat (mm_addr a); len = unat (mm_len a) in
      if len = 0 \<or> 2 ^ 31 < from + len then (- EINVAL, k)
      else (mm_addr a, k\<lparr>um := \<lambda>x. if from \<le> unat x \<and> unat x < from + (len + 4095) div 4096 * 4096
        then (let i = 4096 * unat (mm_pgoff a) + (unat x - from)
              in if mm_fd a \<noteq> None \<and> i < length content then content ! i else 0)
        else um k x\<rparr>))"

definition ex_sys :: "u8 list \<Rightarrow> (nat \<times> u8 list) coffsys" where
  "ex_sys content = \<lparr>
     c_mount = \<lparr>stat_sys = \<lparr>files_sys = ex_fs content, sys_lstat64 = \<lambda>p k. (Inr one_stat, k)\<rparr>, filled = \<lambda>k. snd (ks k),
       sys_statfs = \<lambda>p k. (Inr one_statfs, k)\<rparr>,
     c_mmap2 = ex_mmap content, c_mremap = \<lambda>a old new k. (a, k),
     c_lim = \<lparr>sys_capget = (\<lambda>k. (0, (\<lparr>effective = - 1, permitted = - 1, inheritable = 0\<rparr>, \<lparr>effective = 0, permitted = 0, inheritable = 0\<rparr>), k)),
       sys_capset = (\<lambda>c k. (0, k)), sys_getrlimit = (\<lambda>r k. (0, \<lparr>rlim_cur = 0, rlim_max = 0\<rparr>, k)), sys_setrlimit = (\<lambda>r l k. (0, k))\<rparr>,
     c_uselib = \<lambda>p k. (0, k\<lparr>ks := (length p, p)\<rparr>), c_kill = \<lambda>sig k. k, c_heap = \<lambda>n. replicate n 0, c_cmdline_personality = 0\<rparr>"

definition ex_file :: filp where
  "ex_file = \<lparr>f_fd = 3, f_count = 0, f_isopen = True, f_inode = no_inode, f_own = False, f_op_real = no_operations\<rparr>"

definition ex_state :: "(nat \<times> u8 list) coffst" where
  "ex_state = \<lparr>
     c_files = \<lparr>fdt = [slot.Null, slot.Null, slot.Null, Open ex_file], fd_array = True, chrdevs = [], kern = \<lparr>um = \<lambda>_. 0, ks = (0, [])\<rparr>\<rparr>,
     c_ptrace = 0,
     c_mm = \<lparr>brk = 0, ibcs_brk_mmap_addr = 0, ibcs_brk_mmap_max = 0, ibcs_brk_mmap_min = 0, ibcs_bss_mmap_addr = 0,
       ibcs_bss_mmap_len = 0, ibcs_high_mmap_addr = 0, ibcs_high_mmap_len = 0\<rparr>,
     c_task = \<lparr>exec_domain = None, task_personality = 0\<rparr>, c_domains = domains_example,
     c_image = \<lparr>start_code = 0, end_code = 0, start_data = 0, end_data = 0, start_brk = 0, start_stack = 0, start_addr = 0\<rparr>\<rparr>"

lemma ex_reads: "reads_file (ex_sys content) (\<lambda>n k. fst (ks k) = n) 3 content"
  by (simp add: reads_file_def ex_sys_def ex_fs_def Let_def)

lemma ex_held: "held (\<lambda>n k. fst (ks k) = n) 3 ex_state"
  by (simp add: held_def ex_state_def ex_file_def table_ok_def program_file_def file_at_def slot_at_def f_op_def
      file_operations_def less_Suc_eq numeral_eq_Suc nth_Cons')

text \<open>
  C19: The libraries of a program are loaded in the order of its library section: for a section made of entries that
  each give a path, \<open>coff_preload_shlib\<close> calls \<open>uselib\<close> on exactly these paths, one after the other, and stops at the
  first failure, whose error it returns.
\<close>

theorem coff_libraries_in_order:
  assumes "reads_file sys posn fp content" "held posn fp s" "\<forall>e \<in> set es. slib_ok e" "es \<noteq> []"
    "take (unat (s_size sect)) (drop (unat (s_scnptr sect)) content) = concat (map slib_bytes es)"
    "unat (s_size sect) = length (concat (map slib_bytes es))" "unat (s_size sect) < 2 ^ 31"
  shows "\<exists>s'. same posn fp s s' \<and> coff_preload_shlib sys fp sect s = Some (uselibs sys (map slib_path es) (s_size sect) s')"
proof -
  let ?bs = "concat (map slib_bytes es)"
  obtain s' where s': "kernel_read sys fp (s_scnptr sect) (s_size sect) s = Some (of_nat (length ?bs), ?bs, s')" "same posn fp s s'"
    using kernel_read_part [OF assms(1,2,7), of "s_scnptr sect"] unfolding assms(5) by blast
  have sz: "sint (s_size sect) = int (length ?bs)" "of_nat (length ?bs) = s_size sect"
    using assms(6,7) by (simp_all add: sint_small flip: assms(6))
  have "8 \<le> length ?bs"
    using assms(4) by (cases es) (auto simp: length_slib_bytes slib_length_def COFF_SLIBSZ_def split: prod.splits)
  then show ?thesis
    using s' sz preload_loop_entries [OF assms(3), of sys "s_size sect" s'] assms(6,7)
    by (intro exI [of _ s']) (simp add: coff_preload_shlib_def Let_def COFF_SLIBSZ_def)
qed

theorem coff_libraries_in_order_witness:
  "\<exists>s'. coff_preload_shlib (ex_sys (slib_bytes ([], [47, 97], [0]) @ slib_bytes ([], [98], [0, 0]))) 3
      \<lparr>s_vaddr = 0, s_size = 24, s_scnptr = 0, s_scnflags = COFF_STYP_LIB\<rparr> ex_state = Some (0, s') \<and> ks (kern (c_files s')) = (1, [98])"
proof -
  let ?es = "[([], [47, 97], [0]), ([], [98], [0, 0])] :: slib list"
  have "\<forall>e \<in> set ?es. slib_ok e" "length (concat (map slib_bytes ?es)) = 24"
    by (simp_all add: slib_ok_def slib_length_def length_slib_bytes COFF_SLIBSZ_def)
  then show ?thesis
    using coff_libraries_in_order [OF ex_reads [of "concat (map slib_bytes ?es)"] ex_held, of ?es "\<lparr>s_vaddr = 0, s_size = 24, s_scnptr = 0, s_scnflags = COFF_STYP_LIB\<rparr>"]
    by (auto simp: slib_path_def on_kern_def ex_sys_def)
qed

end
