(* ===== verification/Coff_Load.thy ===== *)
theory Coff_Load
  imports Coff
begin

text \<open>
  What a COFF program finds in its memory when \<open>coff_load_binary\<close> of \<^verbatim>\<open>src/binfmt-coff/binfmt-coff.c\<close> has
  loaded it: the bytes of its text and data sections from the file and zeroes in the bss, together with the
  start address, the break and the personality. The native \<open>mmap\<close> is only known by its documentation.
\<close>

section \<open>Pages\<close>

lemma PAGE_MASK_alt: "PAGE_MASK = NOT (mask 12)"
  by (simp add: PAGE_MASK_def PAGE_SIZE_def mask_eq_exp_minus_1)

lemma unat_PAGE_MASK: "unat (x AND PAGE_MASK) = unat x div 4096 * 4096"
  unfolding PAGE_MASK_alt and_not_mask by (rule unat_push_drop)

lemma unat_PAGE_rest: "unat (x AND NOT PAGE_MASK) = unat x mod 4096"
proof -
  have "x AND NOT PAGE_MASK = take_bit 12 x" by (simp add: PAGE_MASK_alt take_bit_eq_mask)
  then show ?thesis by (simp add: take_bit_eq_mod unat_mod)
qed

definition page_end :: "nat \<Rightarrow> nat" where
  "page_end n = (n + 4095) div 4096 * 4096"

lemma unat_PAGE_ALIGN_end: "unat x + 4095 < 2 ^ 32 \<Longrightarrow> unat (PAGE_ALIGN x) = page_end (unat x)"
  by (simp add: unat_PAGE_ALIGN page_end_def)

lemma page_end_le: "n \<le> page_end n" "page_end n < n + 4096" "n \<le> m \<Longrightarrow> page_end n \<le> page_end m"
  by (auto simp: page_end_def div_le_mono)

lemma page_end_add:
  assumes "4096 dvd a"
  shows "page_end (a + n) = a + page_end n"
proof -
  obtain k where a: "a = 4096 * k" using assms by (auto simp: dvd_def)
  have "(a + n + 4095) div 4096 = k + (n + 4095) div 4096"
    using div_mult_self1 [of 4096 "n + 4095" k] by (simp add: a ac_simps)
  then show ?thesis by (simp add: page_end_def a)
qed

lemma page_end_alt: "page_end v = v + (4096 - v mod 4096) mod 4096"
proof -
  have "page_end (v div 4096 * 4096 + v mod 4096) = v div 4096 * 4096 + page_end (v mod 4096)"
    by (rule page_end_add) simp
  moreover have "page_end r = r + (4096 - r) mod 4096" if "r < 4096" for r
  proof (cases "r = 0")
    case False
    with that have "(r + 4095) div 4096 = 1" by (intro div_nat_eqI) auto
    with that False show ?thesis by (simp add: page_end_def)
  qed (simp add: page_end_def)
  ultimately show ?thesis by simp
qed

section \<open>The native kernel\<close>

text \<open>
  \<open>mmap\<close> with \<open>MAP_FIXED\<close> puts the pages where it is told, with the bytes of the file or zeroes, and changes no
  other memory; without a length, or beyond the end of the address space, it fails and changes nothing. The
  upper half of the address space is the kernel's own business.
\<close>

definition maps_memory :: "'k coffsys \<Rightarrow> (nat \<Rightarrow> 'k ust \<Rightarrow> bool) \<Rightarrow> nat \<Rightarrow> u8 list \<Rightarrow> bool" where
  "maps_memory sys posn fp content \<longleftrightarrow>
     (\<forall>n k a. posn n k \<longrightarrow> mm_flags a AND MAP_FIXED \<noteq> 0 \<longrightarrow> mm_addr a AND NOT PAGE_MASK = 0 \<longrightarrow>
        mm_fd a \<in> {None, Some (of_nat fp)} \<longrightarrow>
        (let from = unat (mm_addr a); len = unat (mm_len a) in
         \<exists>res k' m. c_mmap2 sys a k = (res, k') \<and> posn m k' \<and>
           (0 < len \<and> from + len \<le> 2 ^ 31 \<longrightarrow> res = mm_addr a \<and>
              (\<forall>x. if from \<le> unat x \<and> unat x < from + page_end len
                   then (if mm_fd a = None then um k' x = 0
                         else let i = 4096 * unat (mm_pgoff a) + (unat x - from) in i < length content \<longrightarrow> um k' x = content ! i)
                   else um k' x = um k x)) \<and>
           (len = 0 \<or> 2 ^ 32 \<le> from + len \<longrightarrow> IBCS_IS_ERR res \<and> um k' = um k)))"

text \<open>The other calls leave the memory alone; \<open>fd\<close> is what \<^verbatim>\<open>/dev/null\<close> is opened as.\<close>

definition coff_kernel :: "'k coffsys \<Rightarrow> (nat \<Rightarrow> 'k ust \<Rightarrow> bool) \<Rightarrow> nat \<Rightarrow> nat \<Rightarrow> u8 list \<Rightarrow> bool" where
  "coff_kernel sys posn fp fd content \<longleftrightarrow>
     reads_file sys posn fp content \<and> maps_memory sys posn fp content \<and> fd \<noteq> fp \<and> fd < 2 ^ 20 \<and>
     (let fs = files_sys (stat_sys (c_mount sys)); lim = c_lim sys in
      (\<forall>n k. posn n k \<longrightarrow>
        (\<forall>i. \<exists>m. posn m (snd (sys_fstat64 fs i k)) \<and> um (snd (sys_fstat64 fs i k)) = um k) \<and>
        (\<forall>f. \<exists>m. posn m (k\<lparr>um := f\<rparr>)) \<and>
        (\<exists>k' m. sys_open fs dev_null 0 0 k = (of_nat fd, k') \<and> posn m k' \<and> um k' = um k) \<and>
        (\<exists>m. posn m (snd (sys_close fs (int fd) k)) \<and> um (snd (sys_close fs (int fd) k)) = um k) \<and>
        (\<exists>m. posn m (snd (snd (sys_capget lim k))) \<and> um (snd (snd (sys_capget lim k))) = um k) \<and>
        (\<forall>c. \<exists>m. posn m (snd (sys_capset lim c k)) \<and> um (snd (sys_capset lim c k)) = um k)))"

lemma linux26_capability_quiet:
  assumes "coff_kernel sys posn fp fd content" "posn n k"
  shows "\<exists>m. posn m (snd (linux26_capability (c_lim sys) flag action k)) \<and>
    um (snd (linux26_capability (c_lim sys) flag action k)) = um k"
proof -
  obtain r c0 c1 k1 where g: "sys_capget (c_lim sys) k = (r, (c0, c1), k1)" by (cases "sys_capget (c_lim sys) k") auto
  then obtain m where k1: "posn m k1" "um k1 = um k" using assms unfolding coff_kernel_def Let_def by (metis snd_conv)
  have st: "\<exists>m. posn m k2 \<and> um k2 = um k" if "sys_capset (c_lim sys) c k1 = (r2, k2)" for c r2 k2
    using assms(1) k1 that unfolding coff_kernel_def Let_def by (metis snd_conv)
  show ?thesis using k1 st by (auto simp: linux26_capability_def g Let_def split: prod.splits)
qed

lemma on_kern_same:
  assumes "held posn fp s" "\<And>n k. posn n k \<Longrightarrow> \<exists>m. posn m (snd (f k)) \<and> um (snd (f k)) = um k"
  shows "same posn fp s (snd (on_kern f s))"
proof -
  obtain n where "posn n (kern (c_files s))" using assms(1) by (auto simp: held_def)
  then obtain m where "posn m (snd (f (kern (c_files s))))" "um (snd (f (kern (c_files s)))) = um (kern (c_files s))"
    using assms(2) by blast
  then show ?thesis using same_kern [OF assms(1)] by (auto simp: on_kern_def split: prod.splits)
qed

lemma cap_mmap_same:
  assumes k: "coff_kernel sys posn fp fd content" and h: "held posn fp s"
  shows "same posn fp s (snd (cap_mmap sys oper s))"
proof -
  have cap: "same posn fp s' (snd (on_kern (linux26_capability (c_lim sys) CAP_SYS_RAWIO a) s'))" if "held posn fp s'" for s' a
    using on_kern_same [OF that, of "linux26_capability (c_lim sys) CAP_SYS_RAWIO a"] linux26_capability_quiet [OF k] by blast
  show ?thesis
    using cap [OF h] same_trans [OF cap [OF h] cap [OF same_held [OF cap [OF h]]]] by (simp add: cap_mmap_def Let_def)
qed

text \<open>What a mapping leaves: everything but the memory and the record of the highest mappings.\<close>

definition kept :: "(nat \<Rightarrow> 'k ust \<Rightarrow> bool) \<Rightarrow> nat \<Rightarrow> 'k coffst \<Rightarrow> 'k coffst \<Rightarrow> bool" where
  "kept posn fp s s' \<longleftrightarrow> held posn fp s' \<and> brk (c_mm s') = brk (c_mm s) \<and> c_task s' = c_task s \<and>
     c_domains s' = c_domains s \<and> c_image s' = c_image s \<and> c_ptrace s' = c_ptrace s"

lemma same_kept: "same posn fp s s' \<Longrightarrow> kept posn fp s s'"
  by (simp add: same_def kept_def)

lemma kept_trans: "kept posn fp s s' \<Longrightarrow> kept posn fp s' s'' \<Longrightarrow> kept posn fp s s''"
  by (simp add: kept_def)

lemma kept_held: "kept posn fp s s' \<Longrightarrow> held posn fp s'"
  by (simp add: kept_def)

text \<open>The descriptor the loader reserves, and its release.\<close>

lemma get_unused_fd_kept:
  assumes k: "coff_kernel sys posn fp fd content" and h: "held posn fp s" and free: "file_at (c_files s) fd = None"
  shows "\<exists>fs. get_unused_fd (files_sys (stat_sys (c_mount sys))) (c_files s) = Some (of_nat fd, fs) \<and>
    kept posn fp s (s\<lparr>c_files := fs\<rparr>) \<and> um (kern fs) = umem s"
proof -
  let ?fs = "files_sys (stat_sys (c_mount sys))"
  obtain n where n: "posn n (kern (c_files s))" and ok: "table_ok (c_files s)" and nf: "program_file fp (c_files s)"
    using h by (auto simp: held_def)
  have fd: "unat (of_nat fd :: u32) = fd" "fd \<noteq> fp" using k by (simp_all add: coff_kernel_def unat_of_nat_u32)
  have ne: "\<not> IBCS_IS_ERR (of_nat fd)" using k fd by (intro not_IBCS_IS_ERR_small) (simp add: coff_kernel_def)
  obtain k1 m where k1: "sys_open ?fs dev_null 0 0 (kern (c_files s)) = (of_nat fd, k1)" "posn m k1" "um k1 = um (kern (c_files s))"
    using k n unfolding coff_kernel_def Let_def by metis
  obtain s1 f where s1: "fget ?fs fd ((c_files s)\<lparr>kern := k1\<rparr>) = Some s1" "others_ok fd s1" "file_at s1 fd = Some f"
    "f_fd f = fd" "f_count f = 1" "f_own f = False" "kern s1 = snd (new_file ?fs fd k1)"
    "\<And>i. i \<noteq> fd \<Longrightarrow> file_at s1 i = file_at (c_files s) i"
    using fget_new [of "(c_files s)\<lparr>kern := k1\<rparr>" fd ?fs] ok free by auto
  have "kern s1 = k1 \<or> kern s1 = snd (sys_fstat64 ?fs (int fd) k1)"
    unfolding s1(7) by (auto simp: new_file_def vfs_fstat_def Let_def split: prod.splits sum.splits)
  then have "\<exists>m. posn m (kern s1) \<and> um (kern s1) = um k1"
    using k1(2) k unfolding coff_kernel_def Let_def by metis
  moreover have "program_file fp (set_slot fd (settled f) s1)" using nf s1(8) fd(2) by (simp add: program_file_def)
  ultimately have "kept posn fp s (s\<lparr>c_files := set_slot fd (settled f) s1\<rparr>)" "um (kern s1) = umem s"
    using fput_spec(2) [OF s1(2,3,4,5)] k1(3) by (auto simp: kept_def held_def umem_def)
  then show ?thesis
    using k1(1) ne fd(1) s1(1) fput_spec(1) [OF s1(2,3,4,5)]
    by (auto simp: get_unused_fd_def Files.linux26_fopen_def)
qed

lemma close_kept:
  assumes k: "coff_kernel sys posn fp fd content" and h: "held posn fp s"
  shows "\<exists>r fs. linux26_close (files_sys (stat_sys (c_mount sys))) (int fd) (c_files s) = Some (r, fs) \<and>
    kept posn fp s (s\<lparr>c_files := fs\<rparr>) \<and> um (kern fs) = umem s"
proof -
  let ?fs = "files_sys (stat_sys (c_mount sys))"
  obtain n where n: "posn n (kern (c_files s))" and ok: "table_ok (c_files s)" and nf: "program_file fp (c_files s)"
    using h by (auto simp: held_def)
  obtain r k1 where c: "sys_close ?fs (int fd) (kern (c_files s)) = (r, k1)" by fastforce
  then obtain m where k1: "posn m k1" "um k1 = um (kern (c_files s))"
    using k n unfolding coff_kernel_def Let_def by (metis snd_conv)
  have "\<exists>fs. linux26_close ?fs (int fd) (c_files s) = Some (r, fs) \<and> kern fs = k1"
    using ok c
    by (cases "fd < length (fdt (c_files s)) \<and> fdt (c_files s) ! fd \<noteq> slot.Null"; cases "fdt (c_files s) ! fd")
      (auto simp: linux26_close_def fdestroy_def file_at_iff table_ok_def file_at_def slot_at_def Let_def)
  then obtain fs where fs: "linux26_close ?fs (int fd) (c_files s) = Some (r, fs)" "kern fs = k1" by auto
  have "fd \<noteq> fp" using k by (simp add: coff_kernel_def)
  then have "table_ok fs" "program_file fp fs"
    using linux26_close_keeps [OF ok fs(1)] nf by (simp_all add: program_file_def)
  then have "kept posn fp s (s\<lparr>c_files := fs\<rparr>)" "um (kern fs) = umem s" using fs(2) k1 by (auto simp: kept_def held_def umem_def)
  with fs(1) show ?thesis by auto
qed

section \<open>Mappings\<close>

lemma MAP_FIXED_iff: "flag AND MAP_FIXED \<noteq> 0 \<longleftrightarrow> bit flag 4"
  using and_exp_nonzero [of flag 4] by (simp add: MAP_FIXED_def)

lemma MAP_FIXED_kept:
  "bit flag 4 \<Longrightarrow> (flag AND NOT MAP_DENYWRITE) AND MAP_FIXED \<noteq> 0" "bit flag 4 \<Longrightarrow> (flag OR a) AND MAP_FIXED \<noteq> 0"
  "bit flag 4 \<Longrightarrow> ((flag AND NOT MAP_DENYWRITE) OR a) AND MAP_FIXED \<noteq> 0"
proof -
  have "\<not> bit MAP_DENYWRITE 4" by (simp add: MAP_DENYWRITE_def)
  then show "bit flag 4 \<Longrightarrow> (flag AND NOT MAP_DENYWRITE) AND MAP_FIXED \<noteq> 0" "bit flag 4 \<Longrightarrow> (flag OR a) AND MAP_FIXED \<noteq> 0"
    "bit flag 4 \<Longrightarrow> ((flag AND NOT MAP_DENYWRITE) OR a) AND MAP_FIXED \<noteq> 0"
    unfolding MAP_FIXED_iff by (simp_all add: bit_simps)
qed

text \<open>\<open>binfmt_mmap\<close> makes one request of the kernel, with these fields, and keeps the break.\<close>

lemma binfmt_mmap_request:
  assumes "bit flag 4" "offset AND NOT PAGE_MASK = 0" "\<not> offset + PAGE_ALIGN len < offset"
  shows "\<exists>a. mm_addr a = addr \<and> mm_len a = len \<and> mm_fd a = f \<and> mm_pgoff a = drop_bit 12 offset \<and> mm_flags a AND MAP_FIXED \<noteq> 0 \<and>
    (\<exists>mm'. binfmt_mmap call f addr len prot flag offset (mm, k) = (fst (call a k), mm', snd (call a k)) \<and> brk mm' = brk mm)"
proof -
  let ?patch = "prot AND PROT_EXEC \<noteq> 0 \<and> (prot AND PROT_READ = 0 \<or> prot AND PROT_WRITE = 0)"
  let ?flag = "if ?patch then flag AND NOT MAP_DENYWRITE else flag"
  let ?a = "\<lparr>mm_addr = addr, mm_len = len, mm_prot = (if ?patch then prot OR PROT_READ OR PROT_WRITE else prot),
       mm_flags = (if f = None then ?flag OR MAP_ANONYMOUS else ?flag), mm_fd = f, mm_pgoff = drop_bit 12 offset\<rparr>"
  have "flag AND MAP_FIXED \<noteq> 0" using assms(1) by (simp add: MAP_FIXED_iff)
  then have "mm_flags ?a AND MAP_FIXED \<noteq> 0" using MAP_FIXED_kept [OF assms(1)] by simp
  moreover have "\<exists>mm'. binfmt_mmap call f addr len prot flag offset (mm, k) = (fst (call ?a k), mm', snd (call ?a k)) \<and> brk mm' = brk mm"
    using assms(2,3) by (auto simp: binfmt_mmap_def do_mmap_def do_mmap_pgoff_def Let_def split: prod.splits)
  ultimately show ?thesis by (intro exI [of _ ?a]) simp
qed

text \<open>The memory \<open>m'\<close> is the memory \<open>m\<close> with pages mapped at \<open>from\<close>, of the file from offset \<open>off\<close> on or of zeroes.\<close>

definition remapped :: "u8 list option \<Rightarrow> nat \<Rightarrow> nat \<Rightarrow> nat \<Rightarrow> umem \<Rightarrow> umem \<Rightarrow> bool" where
  "remapped c from len off m m' \<longleftrightarrow>
     (\<forall>x. if from \<le> unat x \<and> unat x < from + page_end len
          then (case c of None \<Rightarrow> m' x = 0
                | Some content \<Rightarrow> off + (unat x - from) < length content \<longrightarrow> m' x = content ! (off + (unat x - from)))
          else m' x = m x)"

lemma maps_memoryD:
  assumes "maps_memory sys posn fp content" "posn n k" "mm_flags a AND MAP_FIXED \<noteq> 0" "mm_addr a AND NOT PAGE_MASK = 0"
    "mm_fd a \<in> {None, Some (of_nat fp)}"
  obtains res k' m where "c_mmap2 sys a k = (res, k')" "posn m k'"
    "0 < unat (mm_len a) \<Longrightarrow> unat (mm_addr a) + unat (mm_len a) \<le> 2 ^ 31 \<Longrightarrow> res = mm_addr a"
    "0 < unat (mm_len a) \<Longrightarrow> unat (mm_addr a) + unat (mm_len a) \<le> 2 ^ 31 \<Longrightarrow>
       remapped (if mm_fd a = None then None else Some content) (unat (mm_addr a)) (unat (mm_len a)) (4096 * unat (mm_pgoff a)) (um k) (um k')"
    "unat (mm_len a) = 0 \<or> 2 ^ 32 \<le> unat (mm_addr a) + unat (mm_len a) \<Longrightarrow> um k' = um k"
proof -
  note [rule_format, OF assms(2-5)] = assms(1) [unfolded maps_memory_def Let_def]
  then obtain res k' m where r: "c_mmap2 sys a k = (res, k')" "posn m k'"
    "0 < unat (mm_len a) \<and> unat (mm_addr a) + unat (mm_len a) \<le> 2 ^ 31 \<longrightarrow> res = mm_addr a \<and>
       (\<forall>x. if unat (mm_addr a) \<le> unat x \<and> unat x < unat (mm_addr a) + page_end (unat (mm_len a))
            then (if mm_fd a = None then um k' x = 0
                  else 4096 * unat (mm_pgoff a) + (unat x - unat (mm_addr a)) < length content \<longrightarrow>
                       um k' x = content ! (4096 * unat (mm_pgoff a) + (unat x - unat (mm_addr a))))
            else um k' x = um k x)"
    "unat (mm_len a) = 0 \<or> 2 ^ 32 \<le> unat (mm_addr a) + unat (mm_len a) \<longrightarrow> IBCS_IS_ERR res \<and> um k' = um k" by blast
  show thesis by (rule that [OF r(1,2)]) (use r(3,4) in \<open>auto simp: remapped_def\<close>)
qed

lemma coff_mmap_fixed:
  assumes k: "coff_kernel sys posn fp fd content" and h: "held posn fp s"
    and a: "addr AND NOT PAGE_MASK = 0" "0 < unat len" "unat addr + unat len \<le> 2 ^ 31"
    and o: "offset AND NOT PAGE_MASK = 0" "unat offset + unat len < 2 ^ 31"
    and f: "bit flag 4" "f \<in> {None, Some fp}"
  shows "\<exists>s'. coff_mmap sys f addr len prot flag offset s = (addr, s') \<and> kept posn fp s s' \<and>
    remapped (if f = None then None else Some content) (unat addr) (unat len) (unat offset) (umem s) (umem s')"
proof -
  obtain n where n: "posn n (kern (c_files s))" using h by (auto simp: held_def)
  have "unat (PAGE_ALIGN len) < unat len + 4096" using page_end_le(2) [of "unat len"] a by (simp add: unat_PAGE_ALIGN_end)
  then have "unat (offset + PAGE_ALIGN len) = unat offset + unat (PAGE_ALIGN len)" using o(2) by (simp add: unat_word_ariths)
  then have no: "\<not> offset + PAGE_ALIGN len < offset" by (simp add: word_less_nat_alt)
  obtain r mm' where r: "mm_addr r = addr" "mm_len r = len" "mm_fd r = map_option of_nat f" "mm_pgoff r = drop_bit 12 offset"
      "mm_flags r AND MAP_FIXED \<noteq> 0" "binfmt_mmap (c_mmap2 sys) (map_option of_nat f) addr len prot flag offset (c_mm s, kern (c_files s)) =
        (fst (c_mmap2 sys r (kern (c_files s))), mm', snd (c_mmap2 sys r (kern (c_files s))))" "brk mm' = brk (c_mm s)"
    using binfmt_mmap_request [OF f(1) o(1) no] by metis
  have mm: "maps_memory sys posn fp content" using k by (simp add: coff_kernel_def)
  have al: "mm_addr r AND NOT PAGE_MASK = 0" using a(1) r(1) by simp
  have "mm_fd r \<in> {None, Some (of_nat fp)}" using r(3) f(2) by auto
  then obtain k' m where k': "c_mmap2 sys r (kern (c_files s)) = (addr, k')" "posn m k'"
      "remapped (if f = None then None else Some content) (unat addr) (unat len) (4096 * unat (mm_pgoff r)) (um (kern (c_files s))) (um k')"
    using maps_memoryD [OF mm n r(5) al] a(2,3) r(1-3) by (metis map_option_is_None)
  have "unat (drop_bit 12 offset) = unat offset div 4096" by (simp add: drop_bit_eq_div unat_div)
  moreover have "unat offset mod 4096 = 0" using unat_PAGE_rest [of offset] o(1) by simp
  ultimately have po: "4096 * unat (mm_pgoff r) = unat offset" using r(4) by auto
  let ?s = "s\<lparr>c_mm := mm', c_files := (c_files s)\<lparr>kern := k'\<rparr>\<rparr>"
  have "kept posn fp s ?s" using h k'(2) r(7) by (auto simp: kept_def held_def)
  moreover have "remapped (if f = None then None else Some content) (unat addr) (unat len) (unat offset) (umem s) (umem ?s)"
    using k'(3) po by (simp add: umem_def)
  ultimately show ?thesis using r(6) k'(1) by (intro exI [of _ ?s]) (simp add: coff_mmap_def)
qed

lemma coff_mmap_refused:
  assumes k: "coff_kernel sys posn fp fd content" and h: "held posn fp s"
    and a: "addr AND NOT PAGE_MASK = 0" "unat len = 0 \<or> 2 ^ 32 \<le> unat addr + unat len" and f: "bit flag 4"
  shows "kept posn fp s (snd (coff_mmap sys None addr len prot flag 0 s)) \<and> umem (snd (coff_mmap sys None addr len prot flag 0 s)) = umem s"
proof -
  obtain n where n: "posn n (kern (c_files s))" using h by (auto simp: held_def)
  obtain r mm' where r: "mm_addr r = addr" "mm_len r = len" "mm_fd r = None" "mm_flags r AND MAP_FIXED \<noteq> 0"
      "binfmt_mmap (c_mmap2 sys) None addr len prot flag 0 (c_mm s, kern (c_files s)) =
        (fst (c_mmap2 sys r (kern (c_files s))), mm', snd (c_mmap2 sys r (kern (c_files s))))" "brk mm' = brk (c_mm s)"
    using binfmt_mmap_request [OF f, of 0 len addr None "c_mmap2 sys" prot "c_mm s" "kern (c_files s)"] by auto
  have mm: "maps_memory sys posn fp content" using k by (simp add: coff_kernel_def)
  have al: "mm_addr r AND NOT PAGE_MASK = 0" using a(1) r(1) by simp
  obtain res k' m where k': "c_mmap2 sys r (kern (c_files s)) = (res, k')" "posn m k'" "um k' = um (kern (c_files s))"
    using maps_memoryD [OF mm n r(4) al] a(2) r(1-3) by (metis insertI1)
  let ?s = "s\<lparr>c_mm := mm', c_files := (c_files s)\<lparr>kern := k'\<rparr>\<rparr>"
  have "kept posn fp s ?s" "umem ?s = umem s" using h k'(2,3) r(6) by (auto simp: kept_def held_def umem_def)
  moreover have "snd (coff_mmap sys None addr len prot flag 0 s) = ?s" using r(5) k'(1) by (simp add: coff_mmap_def)
  ultimately show ?thesis by simp
qed

lemma with_rawio_act:
  assumes k: "coff_kernel sys posn fp fd content" and h: "held posn fp s"
    and act: "\<And>s1. held posn fp s1 \<Longrightarrow> umem s1 = umem s \<Longrightarrow> P (fst (act s1)) \<and> kept posn fp s1 (snd (act s1)) \<and> Q (umem (snd (act s1)))"
  shows "P (fst (with_rawio sys ce act s)) \<and> kept posn fp s (snd (with_rawio sys ce act s)) \<and> Q (umem (snd (with_rawio sys ce act s)))"
proof -
  note c1 = cap_mmap_same [OF k h, of 1]
  let ?s1 = "snd (cap_mmap sys 1 s)"
  have a: "P (fst (act ?s1))" "kept posn fp ?s1 (snd (act ?s1))" "Q (umem (snd (act ?s1)))"
    using act [of ?s1] c1 by (auto simp: same_def)
  note c2 = cap_mmap_same [OF k kept_held [OF a(2)], of 2]
  have "kept posn fp s (snd (act ?s1))" "kept posn fp s (snd (cap_mmap sys 2 (snd (act ?s1))))"
    using kept_trans [OF same_kept [OF c1] a(2)] kept_trans [OF _ same_kept [OF c2]] by blast+
  moreover have "umem (snd (cap_mmap sys 2 (snd (act ?s1)))) = umem (snd (act ?s1))" using c2 by (simp add: same_def)
  ultimately show ?thesis using a by (auto simp: with_rawio_def Let_def case_prod_beta)
qed

section \<open>Sections\<close>

text \<open>
  A section that can be mapped: it lies in the file and in the lower half of the address space, not empty, with
  the same offset in a page of the file as in a page of the memory. \<open>holds\<close>: the memory has its bytes.
\<close>

definition placed :: "u8 list \<Rightarrow> coff_section \<Rightarrow> bool" where
  "placed content sect \<longleftrightarrow> 0 < unat (sect_size sect) \<and> unat (scnptr sect) + unat (sect_size sect) \<le> length content \<and>
     unat (vaddr sect) + unat (sect_size sect) \<le> 2 ^ 31 \<and> unat (vaddr sect) mod 4096 = unat (scnptr sect) mod 4096"

definition holds :: "u8 list \<Rightarrow> coff_section \<Rightarrow> umem \<Rightarrow> bool" where
  "holds content sect m \<longleftrightarrow> (\<forall>i < unat (sect_size sect). m (vaddr sect + of_nat i) = content ! (unat (scnptr sect) + i))"

text \<open>The memory from address \<open>a\<close> up to \<open>b\<close> may differ, the rest is the same.\<close>

definition changed_in :: "nat \<Rightarrow> nat \<Rightarrow> umem \<Rightarrow> umem \<Rightarrow> bool" where
  "changed_in a b m m' \<longleftrightarrow> (\<forall>x. \<not> (a \<le> unat x \<and> unat x < b) \<longrightarrow> m' x = m x)"

definition page_start :: "nat \<Rightarrow> nat" where
  "page_start n = n div 4096 * 4096"

lemma holds_changed:
  assumes "holds content sect m" "changed_in a b m m'" "unat (vaddr sect) + unat (sect_size sect) \<le> 2 ^ 31"
    "unat (vaddr sect) + unat (sect_size sect) \<le> a \<or> b \<le> unat (vaddr sect)"
  shows "holds content sect m'"
  unfolding holds_def
proof (intro allI impI)
  fix i assume i: "i < unat (sect_size sect)"
  then have "unat (vaddr sect + of_nat i) = unat (vaddr sect) + i"
    using assms(3) by (simp add: unat_word_ariths unat_of_nat_u32)
  then have "m' (vaddr sect + of_nat i) = m (vaddr sect + of_nat i)" using assms(2,4) i by (auto simp: changed_in_def)
  then show "m' (vaddr sect + of_nat i) = content ! (unat (scnptr sect) + i)" using assms(1) i by (simp add: holds_def)
qed

lemma map_coff_section:
  assumes k: "coff_kernel sys posn fp fd content" and h: "held posn fp s" and p: "placed content sect"
    and c: "length content < 2 ^ 31" and f: "bit flag 4"
  shows "fst (map_coff sys fp sect prot flag (scnptr sect AND PAGE_MASK) s) = vaddr sect AND PAGE_MASK \<and>
    kept posn fp s (snd (map_coff sys fp sect prot flag (scnptr sect AND PAGE_MASK) s)) \<and>
    (holds content sect (umem (snd (map_coff sys fp sect prot flag (scnptr sect AND PAGE_MASK) s))) \<and>
     changed_in (page_start (unat (vaddr sect))) (page_end (unat (vaddr sect) + unat (sect_size sect))) (umem s)
       (umem (snd (map_coff sys fp sect prot flag (scnptr sect AND PAGE_MASK) s))))"
proof -
  let ?v = "unat (vaddr sect)" and ?n = "unat (sect_size sect)" and ?o = "unat (scnptr sect)"
  let ?len = "sect_size sect + (vaddr sect AND NOT PAGE_MASK)" and ?a = "vaddr sect AND PAGE_MASK" and ?off = "scnptr sect AND PAGE_MASK"
  have q: "0 < ?n" "?o + ?n \<le> length content" "?v + ?n \<le> 2 ^ 31" "?v mod 4096 = ?o mod 4096" using p by (auto simp: placed_def)
  have len: "unat ?len = ?n + ?v mod 4096" using q(3) by (simp add: unat_word_ariths unat_PAGE_rest)
  have a: "unat ?a = page_start ?v" "unat ?off = page_start ?o" by (simp_all add: unat_PAGE_MASK page_start_def)
  have st: "page_start ?v + ?v mod 4096 = ?v" "page_start ?o + ?o mod 4096 = ?o" by (simp_all add: page_start_def)
  have al: "?a AND NOT PAGE_MASK = 0" "?off AND NOT PAGE_MASK = 0" by (simp_all add: and.assoc)
  have fl: "bit (flag OR MAP_32BIT) 4" using f by (simp add: bit_or_iff)
  obtain s' where s': "coff_mmap sys (Some fp) ?a ?len prot (flag OR MAP_32BIT) ?off s = (?a, s')" "kept posn fp s s'"
      "remapped (Some content) (page_start ?v) (unat ?len) (page_start ?o) (umem s) (umem s')"
    using coff_mmap_fixed [OF k h al(1) _ _ al(2) _ fl, of ?len "Some fp" prot] a len st q c by auto
  have pe: "page_start ?v + page_end (unat ?len) = page_end (?v + ?n)"
  proof -
    have "page_end (page_start ?v + unat ?len) = page_start ?v + page_end (unat ?len)"
      by (rule page_end_add) (simp add: page_start_def)
    moreover have "page_start ?v + unat ?len = ?v + ?n" using len st(1) by simp
    ultimately show ?thesis by simp
  qed
  have "holds content sect (umem s')"
    unfolding holds_def
  proof (intro allI impI)
    fix i assume i: "i < ?n"
    let ?x = "vaddr sect + of_nat i"
    have x: "unat ?x = ?v + i" using q(3) i by (simp add: unat_word_ariths unat_of_nat_u32)
    have o: "page_start ?o + (unat ?x - page_start ?v) = ?o + i" unfolding x using st q(4) by linarith
    have "page_start ?v \<le> unat ?x" "unat ?x < page_start ?v + page_end (unat ?len)"
      unfolding x pe using st(1) i page_end_le(1) [of "?v + ?n"] by linarith+
    then show "umem s' ?x = content ! (?o + i)"
      using s'(3) o i q(2) unfolding remapped_def by (metis (mono_tags, lifting) add_less_cancel_left less_le_trans option.case(2))
  qed
  moreover have "changed_in (page_start ?v) (page_end (?v + ?n)) (umem s) (umem s')"
    using s'(3) unfolding remapped_def changed_in_def pe by metis
  ultimately show ?thesis using s'(1,2) by (simp add: map_coff_def)
qed

text \<open>The bss: zeroes up to the end of its last page, and nothing else changes.\<close>

definition zeroed :: "nat \<Rightarrow> nat \<Rightarrow> umem \<Rightarrow> umem \<Rightarrow> bool" where
  "zeroed a b m m' \<longleftrightarrow> (\<forall>x. m' x = (if a \<le> unat x \<and> unat x < b then 0 else m x))"

lemma copy_zeroes:
  assumes "unat a + n \<le> 2 ^ 31"
  shows "zeroed (unat a) (unat a + n) m (copy_to_user m a (replicate n 0))"
  unfolding zeroed_def
proof (intro allI)
  fix x
  show "copy_to_user m a (replicate n 0) x = (if unat a \<le> unat x \<and> unat x < unat a + n then 0 else m x)"
  proof (cases "unat a \<le> unat x \<and> unat x < unat a + n")
    case True
    then have "x = a + of_nat (unat x - unat a)" "unat x - unat a < n" by (auto simp: of_nat_diff)
    then show ?thesis
      using True assms copy_to_user_inside [of "unat x - unat a" "replicate n 0" m a] by simp
  next
    case False
    have "n \<le> unat (x - a)"
    proof (cases "unat a \<le> unat x")
      case True
      with False show ?thesis by (simp add: unat_sub_if' word_le_nat_alt)
    next
      case lt: False
      then have "unat (x - a) = unat x + 2 ^ 32 - unat a" by (simp add: unat_sub_if' word_le_nat_alt)
      then show ?thesis using assms by simp
    qed
    then have "of_nat (length (replicate n (0 :: u8))) \<le> x - a" using assms by (simp add: word_le_nat_alt unat_of_nat_u32)
    then show ?thesis using False assms copy_to_user_outside [of "replicate n 0" x a m] by auto
  qed
qed

lemma coff_clear_memory_page:
  assumes k: "coff_kernel sys posn fp fd content" and h: "held posn fp s" and v: "unat addr < 2 ^ 31 - 4096"
  shows "fst (coff_clear_memory addr sz s) = 0 \<and> kept posn fp s (snd (coff_clear_memory addr sz s)) \<and>
    zeroed (unat addr) (page_end (unat addr)) (umem s) (umem (snd (coff_clear_memory addr sz s)))"
proof -
  let ?r = "PAGE_SIZE - (addr AND NOT PAGE_MASK)" and ?v = "unat addr"
  have "unat (addr AND NOT PAGE_MASK) = ?v mod 4096" by (rule unat_PAGE_rest)
  then have "unat ?r = 4096 - ?v mod 4096" by (simp add: PAGE_SIZE_def unat_sub_if' word_le_nat_alt)
  then have "unat (?r AND NOT PAGE_MASK) = (4096 - ?v mod 4096) mod 4096" by (simp add: unat_PAGE_rest)
  then have e: "?v + unat (?r AND NOT PAGE_MASK) = page_end ?v" by (simp add: page_end_alt)
  obtain n where n: "posn n (kern (c_files s))" using h by (auto simp: held_def)
  have "\<exists>m. posn m ((kern (c_files s))\<lparr>um := f\<rparr>)" for f using k n unfolding coff_kernel_def Let_def by blast
  then have "kept posn fp s (snd (coff_clear_memory addr sz s))"
    using h by (auto simp: kept_def held_def coff_clear_memory_def on_kern_def Let_def)
  moreover have "zeroed ?v (page_end ?v) (umem s) (umem (snd (coff_clear_memory addr sz s)))"
    using copy_zeroes [of addr "unat (?r AND NOT PAGE_MASK)" "umem s"] v page_end_le(2) [of ?v]
    by (simp add: e coff_clear_memory_def on_kern_def umem_def Let_def)
  ultimately show ?thesis by (simp add: coff_clear_memory_def on_kern_def Let_def)
qed

lemma remapped_zeroed: "remapped None a n off m m' \<Longrightarrow> zeroed a (a + page_end n) m m'"
  unfolding remapped_def zeroed_def option.case by metis

lemma zeroed_trans:
  assumes "zeroed b c m m1" "zeroed a b m1 m2" "a \<le> b" "b \<le> c"
  shows "zeroed a c m m2"
  using assms by (auto simp: zeroed_def)

lemma zeroed_changed: "zeroed a b m m' \<Longrightarrow> changed_in a b m m'"
  by (simp add: zeroed_def changed_in_def)

lemma coff_map_bss_zero:
  assumes k: "coff_kernel sys posn fp fd content" and h: "held posn fp s"
    and v: "unat (vaddr bss) + unat (sect_size bss) < 2 ^ 31 - 4096"
  shows "fst (coff_map_bss sys ce bss s) = 0 \<and> kept posn fp s (snd (coff_map_bss sys ce bss s)) \<and>
    (0 < unat (sect_size bss) \<longrightarrow>
       zeroed (unat (vaddr bss)) (page_end (unat (vaddr bss) + unat (sect_size bss))) (umem s) (umem (snd (coff_map_bss sys ce bss s)))) \<and>
    (unat (sect_size bss) = 0 \<longrightarrow> umem (snd (coff_map_bss sys ce bss s)) = umem s)"
proof (cases "sect_size bss = 0")
  case True
  then show ?thesis using h by (simp add: coff_map_bss_def same_kept same_refl)
next
  case False
  let ?v = "unat (vaddr bss)" and ?n = "unat (sect_size bss)" and ?pa = "PAGE_ALIGN (vaddr bss)"
  let ?len = "sect_size bss + vaddr bss - PAGE_ALIGN (vaddr bss)"
  let ?act = "coff_mmap sys None ?pa ?len (PROT_READ OR PROT_WRITE OR PROT_EXEC) (MAP_FIXED OR MAP_PRIVATE OR MAP_32BIT) 0"
  have n: "0 < ?n" using False by (simp add: unat_gt_0)
  have pa: "unat ?pa = page_end ?v" using v by (intro unat_PAGE_ALIGN_end) simp
  have al: "?pa AND NOT PAGE_MASK = 0" by (simp add: PAGE_ALIGN_def and.assoc)
  have fl: "bit (MAP_FIXED OR MAP_PRIVATE OR MAP_32BIT) 4" by (simp add: MAP_FIXED_def MAP_PRIVATE_def MAP_32BIT_def)
  have sum: "unat (sect_size bss + vaddr bss) = ?v + ?n" using v by (simp add: unat_word_ariths)
  have dv: "4096 dvd page_end ?v" by (simp add: page_end_def)
  have act: "fst (?act s1) = fst (?act s1) \<and> kept posn fp s1 (snd (?act s1)) \<and> zeroed (page_end ?v) (page_end (?v + ?n)) (umem s) (umem (snd (?act s1)))"
    if s1: "held posn fp s1" "umem s1 = umem s" for s1
  proof (cases "page_end ?v < ?v + ?n")
    case True
    then have len: "unat ?len = ?v + ?n - page_end ?v" using sum pa by (simp add: unat_sub_if')
    have "?v + ?n - page_end ?v < 2 ^ 31" using v by simp
    then obtain s2 where s2: "?act s1 = (?pa, s2)" "kept posn fp s1 s2" "remapped None (page_end ?v) (unat ?len) 0 (umem s1) (umem s2)"
      using coff_mmap_fixed [OF k s1(1) al _ _ _ _ fl, of ?len 0 None "PROT_READ OR PROT_WRITE OR PROT_EXEC"] True len pa v by auto
    have "page_end ?v + page_end (unat ?len) = page_end (?v + ?n)"
      using page_end_add [OF dv, of "unat ?len"] True len by simp
    with s2 s1(2) remapped_zeroed [OF s2(3)] show ?thesis by simp
  next
    case le: False
    have "unat ?len = 0 \<or> 2 ^ 32 \<le> unat ?pa + unat ?len"
      using le sum pa by (auto simp: unat_sub_if')
    note ref = coff_mmap_refused [OF k s1(1) al this fl, of "PROT_READ OR PROT_WRITE OR PROT_EXEC"]
    have "page_end (?v + ?n) \<le> page_end (page_end ?v)" using le by (intro page_end_le(3)) simp
    also have "page_end (page_end ?v) = page_end ?v" using page_end_add [OF dv, of 0] by (simp add: page_end_def)
    finally show ?thesis using ref s1(2) by (auto simp: zeroed_def)
  qed
  have m: "kept posn fp s (snd (with_rawio sys ce ?act s))"
      "zeroed (page_end ?v) (page_end (?v + ?n)) (umem s) (umem (snd (with_rawio sys ce ?act s)))"
    using with_rawio_act [OF k h, of "\<lambda>_. True" ?act] act by auto
  have b: "unat (vaddr bss) < 2 ^ 31 - 4096" using v by simp
  note c = coff_clear_memory_page [OF k kept_held [OF m(1)] b, of "sect_size bss"]
  have "page_end ?v \<le> page_end (?v + ?n)" "?v \<le> page_end ?v" by (simp_all add: page_end_le)
  then have "zeroed ?v (page_end (?v + ?n)) (umem s) (umem (snd (coff_clear_memory (vaddr bss) (sect_size bss) (snd (with_rawio sys ce ?act s)))))"
    using zeroed_trans [OF m(2)] c by blast
  then show ?thesis using False n c kept_trans [OF m(1)] by (simp add: coff_map_bss_def Let_def case_prod_beta)
qed

text \<open>Text and data, mapped one after the other.\<close>

lemma coff_map_pages_holds:
  assumes k: "coff_kernel sys posn fp fd content" and h: "held posn fp s" and c: "length content < 2 ^ 31"
    and t: "placed content txt" and d: "sect_size data = 0 \<or> placed content data"
    and ap: "unat (vaddr txt) + unat (sect_size txt) \<le> page_start (unat (vaddr data)) \<or>
      page_end (unat (vaddr data) + unat (sect_size data)) \<le> unat (vaddr txt)"
  shows "\<exists>s'. coff_map_pages sys fp ce txt data s = (0, s') \<and> kept posn fp s s' \<and> holds content txt (umem s') \<and> holds content data (umem s')"
proof -
  let ?fl = "MAP_FIXED OR MAP_PRIVATE OR MAP_DENYWRITE OR MAP_EXECUTABLE"
  have fl: "bit ?fl 4" by (simp add: MAP_FIXED_def MAP_PRIVATE_def MAP_DENYWRITE_def MAP_EXECUTABLE_def)
  let ?m = "\<lambda>sect prot. map_coff sys fp sect prot ?fl (scnptr sect AND PAGE_MASK)"
  have map: "fst (with_rawio sys ce (?m sect prot) s) = vaddr sect AND PAGE_MASK \<and> kept posn fp s (snd (with_rawio sys ce (?m sect prot) s)) \<and>
    (holds content sect (umem (snd (with_rawio sys ce (?m sect prot) s))) \<and>
     changed_in (page_start (unat (vaddr sect))) (page_end (unat (vaddr sect) + unat (sect_size sect))) (umem s)
       (umem (snd (with_rawio sys ce (?m sect prot) s))))"
    if "held posn fp s" "placed content sect" for s sect prot
  proof (rule with_rawio_act [OF k that(1), where P = "\<lambda>r. r = vaddr sect AND PAGE_MASK" and act = "?m sect prot"
        and Q = "\<lambda>m. holds content sect m \<and> changed_in (page_start (unat (vaddr sect))) (page_end (unat (vaddr sect) + unat (sect_size sect))) (umem s) m"])
    fix s1 assume s1: "held posn fp s1" "umem s1 = umem s"
    show "fst (?m sect prot s1) = vaddr sect AND PAGE_MASK \<and> kept posn fp s1 (snd (?m sect prot s1)) \<and> (holds content sect (umem (snd (?m sect prot s1))) \<and>
      changed_in (page_start (unat (vaddr sect))) (page_end (unat (vaddr sect) + unat (sect_size sect))) (umem s) (umem (snd (?m sect prot s1))))"
      using map_coff_section [OF k s1(1) that(2) c fl, of prot] unfolding s1(2) .
  qed
  obtain s1 where s1: "with_rawio sys ce (?m txt (PROT_READ OR PROT_EXEC)) s = (vaddr txt AND PAGE_MASK, s1)" "kept posn fp s s1" "holds content txt (umem s1)"
    using map [OF h t, of "PROT_READ OR PROT_EXEC"] by (metis prod.collapse)
  show ?thesis
  proof (cases "sect_size data = 0")
    case True
    then show ?thesis using s1 by (intro exI [of _ s1]) (simp add: coff_map_pages_def Let_def holds_def)
  next
    case False
    then have pd: "placed content data" using d by simp
    obtain s2 where s2: "with_rawio sys ce (?m data (PROT_READ OR PROT_WRITE OR PROT_EXEC)) s1 = (vaddr data AND PAGE_MASK, s2)"
        "kept posn fp s1 s2" "holds content data (umem s2)"
        "changed_in (page_start (unat (vaddr data))) (page_end (unat (vaddr data) + unat (sect_size data))) (umem s1) (umem s2)"
      using map [OF kept_held [OF s1(2)] pd, of "PROT_READ OR PROT_WRITE OR PROT_EXEC"] by (metis prod.collapse)
    have "holds content txt (umem s2)" using holds_changed [OF s1(3) s2(4) _ ap] t by (simp add: placed_def)
    then show ?thesis using s1 s2 False kept_trans [OF s1(2) s2(2)] by (intro exI [of _ s2]) (simp add: coff_map_pages_def Let_def)
  qed
qed

section \<open>The personality of a program\<close>

fun file_personality :: "u8 list \<Rightarrow> u8 list \<Rightarrow> coff_scnhdr list \<Rightarrow> u32 \<Rightarrow> u32 option" where
  "file_personality content page [] pers = Some PER_SCOSVR3"
| "file_personality content page (h # hs) pers =
     (if s_scnflags h = COFF_STYP_INFO
      then (case comments content page (min 8192 (unat (s_size h))) (unat (s_scnptr h)) pers 0 of
              None \<Rightarrow> None
            | Some (hits, pers) \<Rightarrow> if 0 < hits then Some pers else file_personality content page hs pers)
      else file_personality content page hs pers)"

lemma find_personality_file:
  assumes rd: "reads_file sys posn fp content" "length content < 2 ^ 31" "length (c_heap sys (unat PAGE_SIZE)) = unat PAGE_SIZE"
    and h: "held posn fp s" and i: "\<forall>x \<in> set hdrs. s_scnflags x = COFF_STYP_INFO \<longrightarrow> unat (s_scnptr x) \<le> length content"
    and p: "file_personality content (c_heap sys (unat PAGE_SIZE)) hdrs pers = Some p"
  shows "\<exists>s'. find_personality sys fp hdrs pers s = Some (p, s') \<and> same posn fp s s'"
  using h i p
proof (induction hdrs arbitrary: pers s)
  case Nil
  then show ?case by (simp add: same_refl)
next
  case (Cons x hdrs)
  show ?case
  proof (cases "s_scnflags x = COFF_STYP_INFO")
    case False
    with Cons show ?thesis by simp
  next
    case True
    let ?n = "if 8192 < s_size x then 8192 else s_size x"
    obtain hits p1 where c: "comments content (c_heap sys (unat PAGE_SIZE)) (min 8192 (unat (s_size x))) (unat (s_scnptr x)) pers 0 = Some (hits, p1)"
      using Cons.prems(3) True by (auto split: option.splits)
    have n: "?n = of_nat (min 8192 (unat (s_size x)))" by (simp add: word_less_nat_alt min_def)
    have m: "min 8192 (unat (s_size x)) \<le> 2 ^ 14" by simp
    obtain s1 where s1: "coff_parse_comments sys fp x pers s = Some (hits, p1, s1)" "same posn fp s s1"
      using comment_loop_file [OF rd(1) Cons.prems(1) rd(2,3) m _ n _ c, of "s_scnptr x"] Cons.prems(2) True
      by (auto simp: coff_parse_comments_def)
    show ?thesis
    proof (cases "0 < hits")
      case True
      with s1 c Cons.prems(3) \<open>s_scnflags x = COFF_STYP_INFO\<close> show ?thesis by simp
    next
      case False
      then obtain s2 where "find_personality sys fp hdrs p1 s1 = Some (p, s2)" "same posn fp s1 s2"
        using Cons.IH [OF same_held [OF s1(2)], of p1] Cons.prems(2,3) c True by auto
      then show ?thesis using s1 False True same_trans by auto
    qed
  qed
qed

lemma coff_setup_binary_file:
  assumes rd: "reads_file sys posn fp content" "length content < 2 ^ 31" "length (c_heap sys (unat PAGE_SIZE)) = unat PAGE_SIZE"
    and h: "held posn fp s" and i: "\<forall>x \<in> set hdrs. s_scnflags x = COFF_STYP_INFO \<longrightarrow> unat (s_scnptr x) \<le> length content"
    and p: "file_personality content (c_heap sys (unat PAGE_SIZE)) hdrs PER_SVR3 = Some p0"
      "pers = (if c_cmdline_personality sys \<noteq> 0 then c_cmdline_personality sys else p0)"
    and dom: "set_personality 0 (c_domains s) \<noteq> None" "set_personality pers (c_domains s) = Some (0, task)"
    and b: "b_file bprm = fp"
  shows "\<exists>s'. coff_setup_binary sys bprm hdrs txt data bss start s = Some s' \<and> held posn fp s' \<and> umem s' = umem s \<and>
    c_task s' = task \<and> brk (c_mm s') = sect_size bss + vaddr bss \<and> c_ptrace s' = c_ptrace s \<and>
    c_image s' = \<lparr>start_code = vaddr txt, end_code = sect_size txt + vaddr txt, start_data = vaddr data,
         end_data = sect_size data + vaddr data, start_brk = vaddr bss, start_stack = b_p bprm, start_addr = start\<rparr>"
proof -
  obtain s1 where s1: "find_personality sys fp hdrs PER_SVR3 s = Some (p0, s1)" "same posn fp s s1"
    using find_personality_file [OF rd h i p(1)] by auto
  have "c_domains s1 = c_domains s" "held posn fp s1" "umem s1 = umem s" "c_ptrace s1 = c_ptrace s" using s1(2) by (simp_all add: same_def)
  then show ?thesis using s1(1) p(2) dom b by (auto simp: coff_setup_binary_def held_def umem_def Let_def)
qed

section \<open>The headers\<close>

lemma classify_counts:
  "text_count (fold classify_sect hs c) = text_count c + length (filter (\<lambda>h. s_scnflags h = COFF_STYP_TEXT) hs)"
  "data_count (fold classify_sect hs c) = data_count c + length (filter (\<lambda>h. s_scnflags h = COFF_STYP_DATA) hs)"
  "bss_count (fold classify_sect hs c) = bss_count c + length (filter (\<lambda>h. s_scnflags h = COFF_STYP_BSS) hs)"
  "lib_count (fold classify_sect hs c) = lib_count c + length (filter (\<lambda>h. s_scnflags h = COFF_STYP_LIB) hs)"
  by (induction hs arbitrary: c)
    (simp_all add: classify_sect_def COFF_STYP_TEXT_def COFF_STYP_DATA_def COFF_STYP_BSS_def COFF_STYP_LIB_def)

lemma classify_step:
  "text_sect (classify_sect h c) = (if s_scnflags h = COFF_STYP_TEXT then Some h else text_sect c)"
  "data_sect (classify_sect h c) = (if s_scnflags h = COFF_STYP_DATA then Some h else data_sect c)"
  "bss_sect (classify_sect h c) = (if s_scnflags h = COFF_STYP_BSS then Some h else bss_sect c)"
  by (auto simp: classify_sect_def COFF_STYP_TEXT_def COFF_STYP_DATA_def COFF_STYP_BSS_def COFF_STYP_LIB_def)

lemma classify_none:
  "filter (\<lambda>h. s_scnflags h = COFF_STYP_TEXT) hs = [] \<Longrightarrow> text_sect (fold classify_sect hs c) = text_sect c"
  "filter (\<lambda>h. s_scnflags h = COFF_STYP_DATA) hs = [] \<Longrightarrow> data_sect (fold classify_sect hs c) = data_sect c"
  "filter (\<lambda>h. s_scnflags h = COFF_STYP_BSS) hs = [] \<Longrightarrow> bss_sect (fold classify_sect hs c) = bss_sect c"
  by (induction hs arbitrary: c) (auto simp: classify_step split: if_splits)

lemma classify_one:
  "filter (\<lambda>h. s_scnflags h = COFF_STYP_TEXT) hs = [t] \<Longrightarrow> text_sect (fold classify_sect hs c) = Some t"
  "filter (\<lambda>h. s_scnflags h = COFF_STYP_DATA) hs = [t] \<Longrightarrow> data_sect (fold classify_sect hs c) = Some t"
  "filter (\<lambda>h. s_scnflags h = COFF_STYP_BSS) hs = [t] \<Longrightarrow> bss_sect (fold classify_sect hs c) = Some t"
  by (induction hs arbitrary: c) (auto simp: classify_step classify_none split: if_splits)

lemma classify_status:
  "\<forall>h \<in> set hs. s_scnflags h \<in> {COFF_STYP_TEXT, COFF_STYP_DATA} \<longrightarrow> coff_isaligned h = 0 \<Longrightarrow>
   sect_status (fold classify_sect hs c) = sect_status c"
  by (induction hs arbitrary: c) (auto simp: classify_sect_def)

text \<open>
  A program the loader accepts: the headers are in the file, there is one text, one data and one bss section and no
  library section, text and data can be mapped, and the three lie apart from each other in memory.
\<close>

definition coff_headers :: "u8 list \<Rightarrow> u8 list \<Rightarrow> coff_scnhdr list" where
  "coff_headers content buf =
     (let n = nat (sint (COFF_SHORT buf 2)); a = nat (sint (COFF_SHORT buf 16))
      in scnhdrs (take (COFF_SCNHSZ * n) (drop (COFF_FILHSZ + a) content)) n)"

definition coff_program :: "u8 list \<Rightarrow> u8 list \<Rightarrow> coff_scnhdr \<Rightarrow> coff_scnhdr \<Rightarrow> coff_scnhdr \<Rightarrow> bool" where
  "coff_program content buf t d b \<longleftrightarrow>
     coff_header_ok buf \<and> 0 < sint (COFF_SHORT buf 2) \<and> 0 \<le> sint (COFF_SHORT buf 16) \<and>
     COFF_FILHSZ + nat (sint (COFF_SHORT buf 16)) + COFF_SCNHSZ * nat (sint (COFF_SHORT buf 2)) \<le> length content \<and>
     (let hs = coff_headers content buf in
      filter (\<lambda>h. s_scnflags h = COFF_STYP_TEXT) hs = [t] \<and> filter (\<lambda>h. s_scnflags h = COFF_STYP_DATA) hs = [d] \<and>
      filter (\<lambda>h. s_scnflags h = COFF_STYP_BSS) hs = [b] \<and> filter (\<lambda>h. s_scnflags h = COFF_STYP_LIB) hs = [] \<and>
      (\<forall>h \<in> set hs. s_scnflags h = COFF_STYP_INFO \<longrightarrow> unat (s_scnptr h) \<le> length content)) \<and>
     coff_isaligned t = 0 \<and> coff_isaligned d = 0 \<and>
     (let txt = coff_section_of (Some t); data = coff_section_of (Some d) in
      placed content txt \<and> (sect_size data = 0 \<or> placed content data)) \<and>
     unat (s_vaddr b) + unat (s_size b) < 2 ^ 31 - 4096 \<and>
     (unat (s_vaddr t) + unat (s_size t) \<le> page_start (unat (s_vaddr d)) \<or> page_end (unat (s_vaddr d) + unat (s_size d)) \<le> unat (s_vaddr t)) \<and>
     (\<forall>h \<in> {t, d}. unat (s_vaddr h) + unat (s_size h) \<le> unat (s_vaddr b) \<or> page_end (unat (s_vaddr b) + unat (s_size b)) \<le> unat (s_vaddr h))"

section \<open>The image of a program\<close>

text \<open>The sections of a program the loader accepts, from the checks to the signals.\<close>

lemma coff_load_sections_image:
  assumes k: "coff_kernel sys posn fp fd content" and h: "held posn fp s" and c: "length content < 2 ^ 31"
    and heap: "length (c_heap sys (unat PAGE_SIZE)) = unat PAGE_SIZE"
    and prog: "coff_program content (b_buf bprm) t d b" and fp: "b_file bprm = fp"
    and start: "coff_start_addr (b_buf bprm) True (sint (COFF_SHORT (b_buf bprm) 16)) t = Some start"
    and p: "file_personality content (c_heap sys (unat PAGE_SIZE)) (coff_headers content (b_buf bprm)) PER_SVR3 = Some p0"
      "pers = (if c_cmdline_personality sys \<noteq> 0 then c_cmdline_personality sys else p0)"
    and dom: "set_personality 0 (c_domains s) \<noteq> None" "set_personality pers (c_domains s) = Some (0, task)"
    and tr: "c_ptrace s AND PT_PTRACED = 0"
  shows "\<exists>s'. coff_load_sections sys bprm True ce True (coff_headers content (b_buf bprm))
      (fold classify_sect (coff_headers content (b_buf bprm)) (no_sects st)) s = Some (0, s') \<and>
    held posn fp s' \<and> holds content (coff_section_of (Some t)) (umem s') \<and> holds content (coff_section_of (Some d)) (umem s') \<and>
    (\<forall>i < unat (s_size b). umem s' (s_vaddr b + of_nat i) = 0) \<and>
    start_addr (c_image s') = start \<and> brk (c_mm s') = s_size b + s_vaddr b \<and> c_task s' = task"
proof -
  let ?hs = "coff_headers content (b_buf bprm)" and ?t = "coff_section_of (Some t)" and ?d = "coff_section_of (Some d)" and ?b = "coff_section_of (Some b)"
  let ?c = "fold classify_sect ?hs (no_sects st)"
  note pr = prog [unfolded coff_program_def Let_def]
  have cnt: "text_count ?c = 1" "data_count ?c = 1" "bss_count ?c = 1" "lib_count ?c = 0"
    using pr by (simp_all add: classify_counts no_sects_def)
  have sec: "text_sect ?c = Some t" "data_sect ?c = Some d" "bss_sect ?c = Some b" using pr by (simp_all add: classify_one)
  have info: "\<forall>x \<in> set ?hs. s_scnflags x = COFF_STYP_INFO \<longrightarrow> unat (s_scnptr x) \<le> length content" using pr by simp
  have rd: "reads_file sys posn fp content" using k by (simp add: coff_kernel_def)
  obtain s1 where s1: "coff_setup_binary sys bprm ?hs ?t ?d ?b start s = Some s1" "held posn fp s1" "c_task s1 = task"
      "brk (c_mm s1) = sect_size ?b + vaddr ?b" "c_ptrace s1 = c_ptrace s" "start_addr (c_image s1) = start"
    using coff_setup_binary_file [OF rd c heap h info p dom fp, of ?t ?d ?b start] by auto
  have tp: "placed content ?t" "sect_size ?d = 0 \<or> placed content ?d" using pr by auto
  have ap: "unat (vaddr ?t) + unat (sect_size ?t) \<le> page_start (unat (vaddr ?d)) \<or>
      page_end (unat (vaddr ?d) + unat (sect_size ?d)) \<le> unat (vaddr ?t)" using pr by (auto simp: coff_section_of_def)
  obtain s2 where s2: "coff_map_pages sys fp ce ?t ?d s1 = (0, s2)" "kept posn fp s1 s2" "holds content ?t (umem s2)" "holds content ?d (umem s2)"
    using coff_map_pages_holds [OF k s1(2) c tp ap] by auto
  have bb: "unat (vaddr ?b) + unat (sect_size ?b) < 2 ^ 31 - 4096" using pr by (simp add: coff_section_of_def)
  obtain s3 where s3: "coff_map_bss sys ce ?b s2 = (0, s3)" "kept posn fp s2 s3"
      "0 < unat (sect_size ?b) \<Longrightarrow> zeroed (unat (vaddr ?b)) (page_end (unat (vaddr ?b) + unat (sect_size ?b))) (umem s2) (umem s3)"
      "unat (sect_size ?b) = 0 \<Longrightarrow> umem s3 = umem s2"
    using coff_map_bss_zero [OF k kept_held [OF s2(2)] bb, of ce] by (metis prod.collapse)
  have keep: "holds content sect (umem s3)"
    if "holds content sect (umem s2)" "unat (vaddr sect) + unat (sect_size sect) \<le> 2 ^ 31"
      "unat (vaddr sect) + unat (sect_size sect) \<le> unat (vaddr ?b) \<or> page_end (unat (vaddr ?b) + unat (sect_size ?b)) \<le> unat (vaddr sect)" for sect
  proof (cases "unat (sect_size ?b) = 0")
    case True
    with s3(4) that(1) show ?thesis by simp
  next
    case False
    then show ?thesis using holds_changed [OF that(1) zeroed_changed [OF s3(3)] that(2,3)] by simp
  qed
  have "holds content ?t (umem s3)" using keep [OF s2(3)] tp(1) pr by (simp add: placed_def coff_section_of_def)
  moreover have "holds content ?d (umem s3)"
  proof (cases "sect_size ?d = 0")
    case False
    then show ?thesis using keep [OF s2(4)] tp(2) pr by (simp add: placed_def coff_section_of_def)
  qed (simp add: holds_def)
  moreover have "umem s3 (s_vaddr b + of_nat i) = 0" if i: "i < unat (s_size b)" for i
  proof -
    have sz: "sect_size ?b = s_size b" "vaddr ?b = s_vaddr b" by (simp_all add: coff_section_of_def)
    have "unat (s_vaddr b + of_nat i) = unat (s_vaddr b) + i" using i bb sz by (simp add: unat_word_ariths unat_of_nat_u32)
    then show ?thesis using s3(3) i page_end_le(1) [of "unat (s_vaddr b) + unat (s_size b)"] by (simp add: zeroed_def sz)
  qed
  moreover have "c_ptrace s3 AND PT_PTRACED = 0" using tr s1(5) s2(2) s3(2) by (simp add: kept_def)
  ultimately show ?thesis
    using cnt sec start s1 s2 s3(1,2) fp
    by (intro exI [of _ s3]) (simp add: coff_load_sections_def coff_finish_def Let_def kept_def coff_section_of_def)
qed

lemma sections_small: "sint (COFF_SHORT buf i) < 2 ^ 15" "- (2 ^ 15) \<le> sint (COFF_SHORT buf i)"
  using sint_less [of "COFF_SHORT buf i"] sint_greater_eq [of "COFF_SHORT buf i"] by simp_all

lemma scnhdrs_append:
  assumes "length bytes = COFF_SCNHSZ * n"
  shows "scnhdrs (bytes @ r) n = scnhdrs bytes n"
proof -
  have "take COFF_SCNHSZ (drop (COFF_SCNHSZ * i) (bytes @ r)) = take COFF_SCNHSZ (drop (COFF_SCNHSZ * i) bytes)" if "i < n" for i
  proof -
    have "COFF_SCNHSZ * Suc i \<le> COFF_SCNHSZ * n" using that by (intro mult_le_mono2) simp
    then show ?thesis using assms by simp
  qed
  then show ?thesis unfolding scnhdrs_def by (intro map_cong refl) (simp only: atLeastLessThan_upt [symmetric] set_upt atLeastLessThan_iff)
qed

lemma coff_load_object_run:
  assumes "cap_mmap sys 0 s = (ce, s0)" "coff_header_ok (b_buf bprm)" "0 < sint (COFF_SHORT (b_buf bprm) 2)"
    and f: "file_at (c_files s0) (b_file bprm) = Some f"
    and rd: "kernel_read sys (b_file bprm) (of_int (sint (COFF_SHORT (b_buf bprm) 16) + int COFF_FILHSZ))
        (of_nat (COFF_SCNHSZ * nat (sint (COFF_SHORT (b_buf bprm) 2)))) s0 = Some (status, bytes, s1)" "\<not> sint status < 0"
    and fd: "get_unused_fd (files_sys (stat_sys (c_mount sys))) (c_files s1) = Some (fd, fs2)" "\<not> sint fd < 0"
    and hs: "scnhdrs (bytes @ drop (length bytes) (c_heap sys (COFF_SCNHSZ * nat (sint (COFF_SHORT (b_buf bprm) 2)))))
        (nat (sint (COFF_SHORT (b_buf bprm) 2))) = hs"
    and ld: "coff_load_sections sys bprm binary ce
        (op_mmap (f_op f) \<noteq> None \<and> 0 \<le> sint (sect_status (fold classify_sect hs (no_sects fd)))) hs
        (fold classify_sect hs (no_sects fd)) (s1\<lparr>c_files := fs2\<rparr>) = Some (r, s3)"
    and cl: "linux26_close (files_sys (stat_sys (c_mount sys))) (sint fd) (c_files s3) = Some (r', fs4)"
  shows "coff_load_object sys bprm binary s = Some (r, s3\<lparr>c_files := fs4\<rparr>)"
  unfolding coff_load_object_def Let_def assms(1) prod.case
  using assms(2,3) f rd(2) fd ld cl by (simp add: rd(1) hs del: of_int_add of_nat_mult of_nat_nat)

text \<open>The section headers the loader reads.\<close>

lemma coff_headers_read:
  assumes k: "coff_kernel sys posn fp fd content" and h: "held posn fp s" and prog: "coff_program content buf t d b"
  shows "\<exists>bytes s'. kernel_read sys fp (of_int (sint (COFF_SHORT buf 16) + int COFF_FILHSZ)) (of_nat (COFF_SCNHSZ * nat (sint (COFF_SHORT buf 2)))) s =
      Some (of_nat (length bytes), bytes, s') \<and> same posn fp s s' \<and> length bytes = COFF_SCNHSZ * nat (sint (COFF_SHORT buf 2)) \<and>
      length bytes < 2 ^ 31 \<and> scnhdrs bytes (nat (sint (COFF_SHORT buf 2))) = coff_headers content buf"
proof -
  let ?n = "nat (sint (COFF_SHORT buf 2))" and ?a = "nat (sint (COFF_SHORT buf 16))"
  note pr = prog [unfolded coff_program_def]
  have rd: "reads_file sys posn fp content" using k by (simp add: coff_kernel_def)
  have n: "?n < 2 ^ 15" "?a < 2 ^ 15" using sections_small(1) [of buf 2] sections_small(1) [of buf 16] by simp_all
  have w: "unat (of_nat (COFF_SCNHSZ * ?n) :: u32) = COFF_SCNHSZ * ?n"
    using n(1) by (intro unat_of_nat_u32) (simp add: COFF_SCNHSZ_def)
  have "sint (COFF_SHORT buf 16) + int COFF_FILHSZ = int (COFF_FILHSZ + ?a)" using pr by simp
  then have o: "unat (of_int (sint (COFF_SHORT buf 16) + int COFF_FILHSZ) :: u32) = COFF_FILHSZ + ?a"
    using n(2) unat_of_nat_u32 [of "COFF_FILHSZ + ?a"] by (simp only: of_int_of_nat_eq) (simp add: COFF_FILHSZ_def)
  let ?bytes = "take (COFF_SCNHSZ * ?n) (drop (COFF_FILHSZ + ?a) content)"
  have len: "length ?bytes = COFF_SCNHSZ * ?n" "COFF_SCNHSZ * ?n < 2 ^ 31" using pr n(1) by (auto simp: COFF_SCNHSZ_def)
  obtain s' where "kernel_read sys fp (of_int (sint (COFF_SHORT buf 16) + int COFF_FILHSZ)) (of_nat (COFF_SCNHSZ * ?n)) s =
      Some (of_nat (length ?bytes), ?bytes, s')" "same posn fp s s'"
    using kernel_read_part [OF rd h, of "of_nat (COFF_SCNHSZ * ?n)" "of_int (sint (COFF_SHORT buf 16) + int COFF_FILHSZ)"] len(2)
    unfolding w o by blast
  then show ?thesis using len by (intro exI [of _ ?bytes] exI [of _ s']) (simp add: coff_headers_def Let_def)
qed


text \<open>A program of one byte of text at 4236, one of data at 8333 and two of bss at 12288.\<close>

definition ex_scn :: "u32 \<Rightarrow> u32 \<Rightarrow> u32 \<Rightarrow> u32 \<Rightarrow> u8 list" where
  "ex_scn v n off flags = replicate 12 0 @ le32 v @ le32 n @ le32 off @ replicate 12 0 @ le32 flags"

definition ex_coff :: "u8 list" where
  "ex_coff = [0x4C, 1, 3, 0] @ replicate 14 0 @ [2, 1] @ ex_scn 4236 1 140 0x20 @ ex_scn 8333 1 141 0x40 @ ex_scn 12288 2 0 0x80 @ [0xC3, 7]"

definition ex_t :: coff_scnhdr where "ex_t = \<lparr>s_vaddr = 4236, s_size = 1, s_scnptr = 140, s_scnflags = 0x20\<rparr>"
definition ex_d :: coff_scnhdr where "ex_d = \<lparr>s_vaddr = 8333, s_size = 1, s_scnptr = 141, s_scnflags = 0x40\<rparr>"
definition ex_b :: coff_scnhdr where "ex_b = \<lparr>s_vaddr = 12288, s_size = 2, s_scnptr = 0, s_scnflags = 0x80\<rparr>"
definition ex_bprm :: binprm where "ex_bprm = \<lparr>b_buf = take 128 ex_coff, b_file = 3, b_p = 0\<rparr>"

lemma ex_maps: "maps_memory (ex_sys content) (\<lambda>n k. fst (ks k) = n) 3 content"
proof -
  have "IBCS_IS_ERR (- EINVAL)" by (simp add: IBCS_IS_ERR_def)
  then show ?thesis by (auto simp: maps_memory_def ex_sys_def ex_mmap_def page_end_def Let_def)
qed

lemma ex_kernel: "coff_kernel (ex_sys content) (\<lambda>n k. fst (ks k) = n) 3 4 content"
  using ex_reads [of content] ex_maps [of content]
  by (simp add: coff_kernel_def Let_def) (simp add: ex_sys_def ex_fs_def)

lemma ex_headers: "coff_headers ex_coff (b_buf ex_bprm) = [ex_t, ex_d, ex_b]"
  by code_simp

lemma ex_shorts: "sint (COFF_SHORT (b_buf ex_bprm) 2) = 3" "sint (COFF_SHORT (b_buf ex_bprm) 16) = 0" "coff_header_ok (b_buf ex_bprm)"
  "length ex_coff = 142"
  by code_simp+

lemma ex_program: "coff_program ex_coff (b_buf ex_bprm) ex_t ex_d ex_b"
  unfolding coff_program_def ex_headers ex_shorts Let_def
  by (simp add: ex_t_def ex_d_def ex_b_def COFF_STYP_TEXT_def COFF_STYP_DATA_def COFF_STYP_BSS_def COFF_STYP_LIB_def COFF_STYP_INFO_def
      coff_isaligned_def PAGE_MASK_def PAGE_SIZE_def coff_section_of_def placed_def ex_shorts page_start_def page_end_def COFF_FILHSZ_def COFF_SCNHSZ_def)


end
