(* ===== verification/Svr4_Ipc.thy ===== *)
theory Svr4_Ipc
  imports Umem
begin

text \<open>
  Semaphores, shared memory and message queues: \<^verbatim>\<open>src/per-svr4/ipc.c\<close> with the structures of
  \<^verbatim>\<open>src/include/ibcs-us/per-svr4/ipc.h\<close>.

  The native structures (\<open>semid_ds\<close>, \<open>shmid_ds\<close>, \<open>msqid_ds\<close> of \<^verbatim>\<open>linux/sem.h\<close>, \<^verbatim>\<open>linux/shm.h\<close>, \<^verbatim>\<open>linux/msg.h\<close> on
  i386, whose numbers have 16 bits) are records; those of the program are places in its memory, in the old (\<open>ibcs2\<close>) or
  the new (\<open>abi4\<close>) layout. A translation between them is a load or a store of the fields. The native calls are the
  record \<open>ipcsys\<close>: \<open>sys_ipc\<close> makes the calls that pass the arguments of the program on; the others are given a
  structure and fill it. \<open>GETALL\<close> and \<open>SETALL\<close> use the structure as an array of short integers, so the native
  \<open>semctl\<close> works on the bytes of the structure, a memory of its own that starts at address 0. The stack the structures lie
  on is a parameter where bytes of it reach the program.
\<close>

section \<open>Structures\<close>

record ipc_perm =
  p_uid :: u16
  p_gid :: u16
  p_cuid :: u16
  p_cgid :: u16
  p_mode :: u16
  p_seq :: u16
  p_key :: u32

record semid_ds =
  sem_perm :: ipc_perm
  sem_base :: u32
  sem_nsems :: u16
  sem_otime :: u32
  sem_ctime :: u32

record shmid_ds =
  shm_perm :: ipc_perm
  shm_segsz :: u32
  shm_lpid :: u16
  shm_cpid :: u16
  shm_nattch :: u16
  shm_atime :: u32
  shm_dtime :: u32
  shm_ctime :: u32

record msqid_ds =
  msg_perm :: ipc_perm
  msg_first :: u32
  msg_last :: u32
  msg_cbytes :: u16
  msg_qnum :: u16
  msg_qbytes :: u16
  msg_lspid :: u16
  msg_lrpid :: u16
  msg_stime :: u32
  msg_rtime :: u32
  msg_ctime :: u32

text \<open>Stores of several fields: the offset and the value of each.\<close>

datatype field = F16 u32 u16 | F32 u32 u32

primrec put_field :: "u32 \<Rightarrow> field \<Rightarrow> umem \<Rightarrow> umem" where
  "put_field a (F16 off v) m = store16 m (a + off) v"
| "put_field a (F32 off v) m = store32 m (a + off) v"

definition put_fields :: "u32 \<Rightarrow> field list \<Rightarrow> umem \<Rightarrow> umem" where
  "put_fields a fs m = fold (put_field a) fs m"

subsection \<open>Permissions\<close>

definition ip_to_lp :: "umem \<Rightarrow> u32 \<Rightarrow> ipc_perm" where
  "ip_to_lp m ip = \<lparr>p_uid = load16 m ip, p_gid = load16 m (ip + 2), p_cuid = load16 m (ip + 4), p_cgid = load16 m (ip + 6),
     p_mode = load16 m (ip + 8), p_seq = load16 m (ip + 10), p_key = load32 m (ip + 12)\<rparr>"

definition lp_to_ip :: "ipc_perm \<Rightarrow> field list" where
  "lp_to_ip lp = [F16 0 (p_uid lp), F16 2 (p_gid lp), F16 4 (p_cuid lp), F16 6 (p_cgid lp), F16 8 (p_mode lp),
     F16 10 (p_seq lp), F32 12 (p_key lp)]"

text \<open>The numbers of the new layout have 32 bits; the native ones do not.\<close>

definition ip_to_lp_l :: "umem \<Rightarrow> u32 \<Rightarrow> ipc_perm" where
  "ip_to_lp_l m ip = \<lparr>p_uid = ucast (load32 m ip), p_gid = ucast (load32 m (ip + 4)), p_cuid = ucast (load32 m (ip + 8)),
     p_cgid = ucast (load32 m (ip + 12)), p_mode = ucast (load32 m (ip + 16)), p_seq = ucast (load32 m (ip + 20)),
     p_key = load32 m (ip + 24)\<rparr>"

definition lp_to_ip_l :: "ipc_perm \<Rightarrow> field list" where
  "lp_to_ip_l lp = [F32 0 (ucast (p_uid lp)), F32 4 (ucast (p_gid lp)), F32 8 (ucast (p_cuid lp)), F32 12 (ucast (p_cgid lp)),
     F32 16 (ucast (p_mode lp)), F32 20 (ucast (p_seq lp)), F32 24 (p_key lp)]"

text \<open>\<open>memset\<close> of a structure.\<close>

definition zero :: "u32 \<Rightarrow> nat \<Rightarrow> umem \<Rightarrow> umem" where
  "zero a n m = copy_to_user m a (replicate n 0)"

subsection \<open>Semaphores\<close>

definition isem_to_lsem :: "umem \<Rightarrow> u32 \<Rightarrow> semid_ds" where
  "isem_to_lsem m is = \<lparr>sem_perm = ip_to_lp m is, sem_base = load32 m (is + 16), sem_nsems = load16 m (is + 20),
     sem_otime = load32 m (is + 24), sem_ctime = load32 m (is + 28)\<rparr>"

definition lsem_to_isem :: "semid_ds \<Rightarrow> u32 \<Rightarrow> umem \<Rightarrow> umem" where
  "lsem_to_isem ls is = put_fields is (lp_to_ip (sem_perm ls) @
     [F32 16 (sem_base ls), F16 20 (sem_nsems ls), F32 24 (sem_otime ls), F32 28 (sem_ctime ls)])"

definition isem_to_lsem_l :: "umem \<Rightarrow> u32 \<Rightarrow> semid_ds" where
  "isem_to_lsem_l m is = \<lparr>sem_perm = ip_to_lp_l m is, sem_base = load32 m (is + 44), sem_nsems = load16 m (is + 48),
     sem_otime = load32 m (is + 52), sem_ctime = load32 m (is + 60)\<rparr>"

definition lsem_to_isem_l :: "semid_ds \<Rightarrow> u32 \<Rightarrow> umem \<Rightarrow> umem" where
  "lsem_to_isem_l ls is m = put_fields is (lp_to_ip_l (sem_perm ls) @
     [F32 44 (sem_base ls), F16 48 (sem_nsems ls), F32 52 (sem_otime ls), F32 60 (sem_ctime ls)]) (zero is 84 m)"

text \<open>The native structure as the bytes the kernel sees.\<close>

definition load_native_sem :: "umem \<Rightarrow> semid_ds" where
  "load_native_sem m = \<lparr>sem_perm = \<lparr>p_uid = load16 m 4, p_gid = load16 m 6, p_cuid = load16 m 8, p_cgid = load16 m 10,
     p_mode = load16 m 12, p_seq = load16 m 14, p_key = load32 m 0\<rparr>, sem_base = load32 m 24, sem_nsems = load16 m 40,
     sem_otime = load32 m 16, sem_ctime = load32 m 20\<rparr>"

definition store_native_sem :: "semid_ds \<Rightarrow> umem \<Rightarrow> umem" where
  "store_native_sem ls = (let p = sem_perm ls in put_fields 0
     [F16 4 (p_uid p), F16 6 (p_gid p), F16 8 (p_cuid p), F16 10 (p_cgid p), F16 12 (p_mode p), F16 14 (p_seq p),
      F32 0 (p_key p), F32 24 (sem_base ls), F16 40 (sem_nsems ls), F32 16 (sem_otime ls), F32 20 (sem_ctime ls)])"

subsection \<open>Shared memory\<close>

definition ishm_to_lshm :: "umem \<Rightarrow> u32 \<Rightarrow> shmid_ds" where
  "ishm_to_lshm m is = \<lparr>shm_perm = ip_to_lp m is, shm_segsz = load32 m (is + 16), shm_lpid = load16 m (is + 28),
     shm_cpid = load16 m (is + 30), shm_nattch = load16 m (is + 32), shm_atime = load32 m (is + 36),
     shm_dtime = load32 m (is + 40), shm_ctime = load32 m (is + 44)\<rparr>"

definition lshm_to_ishm :: "shmid_ds \<Rightarrow> u32 \<Rightarrow> umem \<Rightarrow> umem" where
  "lshm_to_ishm ls is = put_fields is (lp_to_ip (shm_perm ls) @
     [F32 16 (shm_segsz ls), F16 28 (shm_lpid ls), F16 30 (shm_cpid ls), F16 32 (shm_nattch ls), F32 36 (shm_atime ls),
      F32 40 (shm_dtime ls), F32 44 (shm_ctime ls)])"

definition ishm_to_lshm_l :: "umem \<Rightarrow> u32 \<Rightarrow> shmid_ds" where
  "ishm_to_lshm_l m is = \<lparr>shm_perm = ip_to_lp_l m is, shm_segsz = load32 m (is + 44), shm_lpid = ucast (load32 m (is + 56)),
     shm_cpid = ucast (load32 m (is + 60)), shm_nattch = ucast (load32 m (is + 64)), shm_atime = load32 m (is + 72),
     shm_dtime = load32 m (is + 80), shm_ctime = load32 m (is + 88)\<rparr>"

definition lshm_to_ishm_l :: "shmid_ds \<Rightarrow> u32 \<Rightarrow> umem \<Rightarrow> umem" where
  "lshm_to_ishm_l ls is m = put_fields is (lp_to_ip_l (shm_perm ls) @
     [F32 44 (shm_segsz ls), F32 56 (ucast (shm_lpid ls)), F32 60 (ucast (shm_cpid ls)), F32 64 (ucast (shm_nattch ls)),
      F32 72 (shm_atime ls), F32 80 (shm_dtime ls), F32 88 (shm_ctime ls)]) (zero is 112 m)"

subsection \<open>Message queues\<close>

definition imsq_to_lmsq :: "umem \<Rightarrow> u32 \<Rightarrow> msqid_ds" where
  "imsq_to_lmsq m im = \<lparr>msg_perm = ip_to_lp m im, msg_first = load32 m (im + 16), msg_last = load32 m (im + 20),
     msg_cbytes = load16 m (im + 24), msg_qnum = load16 m (im + 26), msg_qbytes = load16 m (im + 28),
     msg_lspid = load16 m (im + 30), msg_lrpid = load16 m (im + 32), msg_stime = load32 m (im + 36),
     msg_rtime = load32 m (im + 40), msg_ctime = load32 m (im + 44)\<rparr>"

definition lmsq_to_imsq :: "msqid_ds \<Rightarrow> u32 \<Rightarrow> umem \<Rightarrow> umem" where
  "lmsq_to_imsq lm im = put_fields im (lp_to_ip (msg_perm lm) @
     [F32 16 (msg_first lm), F32 20 (msg_last lm), F16 24 (msg_cbytes lm), F16 26 (msg_qnum lm), F16 28 (msg_qbytes lm),
      F16 30 (msg_lspid lm), F16 32 (msg_lrpid lm), F32 36 (msg_stime lm), F32 40 (msg_rtime lm), F32 44 (msg_ctime lm)])"

definition imsq_to_lmsq_l :: "umem \<Rightarrow> u32 \<Rightarrow> msqid_ds" where
  "imsq_to_lmsq_l m im = \<lparr>msg_perm = ip_to_lp_l m im, msg_first = load32 m (im + 44), msg_last = load32 m (im + 48),
     msg_cbytes = ucast (load32 m (im + 52)), msg_qnum = ucast (load32 m (im + 56)), msg_qbytes = ucast (load32 m (im + 60)),
     msg_lspid = ucast (load32 m (im + 64)), msg_lrpid = ucast (load32 m (im + 68)), msg_stime = load32 m (im + 72),
     msg_rtime = load32 m (im + 80), msg_ctime = load32 m (im + 88)\<rparr>"

definition lmsq_to_imsq_l :: "msqid_ds \<Rightarrow> u32 \<Rightarrow> umem \<Rightarrow> umem" where
  "lmsq_to_imsq_l lm im m = put_fields im (lp_to_ip_l (msg_perm lm) @
     [F32 44 (msg_first lm), F32 48 (msg_last lm), F32 52 (ucast (msg_cbytes lm)), F32 56 (ucast (msg_qnum lm)),
      F32 60 (ucast (msg_qbytes lm)), F32 64 (ucast (msg_lspid lm)), F32 68 (ucast (msg_lrpid lm)), F32 72 (msg_stime lm),
      F32 80 (msg_rtime lm), F32 88 (msg_ctime lm)]) (zero im 112 m)"

section \<open>Calls\<close>

record 'k ipcsys =
  sys_ipc :: "u32 \<Rightarrow> u32 list \<Rightarrow> 'k ust \<Rightarrow> u32 \<times> 'k ust"
  ipc_semctl :: "u32 \<Rightarrow> u32 \<Rightarrow> u32 \<Rightarrow> umem \<Rightarrow> 'k ust \<Rightarrow> u32 \<times> umem \<times> 'k ust"
  ipc_shmctl :: "u32 \<Rightarrow> u32 \<Rightarrow> shmid_ds \<Rightarrow> 'k ust \<Rightarrow> u32 \<times> shmid_ds \<times> 'k ust"
  ipc_msgctl :: "u32 \<Rightarrow> u32 \<Rightarrow> msqid_ds \<Rightarrow> 'k ust \<Rightarrow> u32 \<times> msqid_ds \<times> 'k ust"
  ipc_shmat :: "u32 \<Rightarrow> u32 \<Rightarrow> u32 \<Rightarrow> 'k ust \<Rightarrow> u32 \<times> u32 \<times> 'k ust"
  ipc_stack :: "u32 \<Rightarrow> u8"
  shm_garbage :: shmid_ds
  msg_garbage :: msqid_ds

definition SEMOP :: u32 where "SEMOP = 1"
definition SEMGET :: u32 where "SEMGET = 2"
definition SEMCTL :: u32 where "SEMCTL = 3"
definition MSGSND :: u32 where "MSGSND = 11"
definition MSGRCV :: u32 where "MSGRCV = 12"
definition MSGGET :: u32 where "MSGGET = 13"
definition MSGCTL :: u32 where "MSGCTL = 14"
definition SHMDT :: u32 where "SHMDT = 22"
definition SHMGET :: u32 where "SHMGET = 23"
definition SHMCTL :: u32 where "SHMCTL = 24"

definition IPC_RMID :: u32 where "IPC_RMID = 0"
definition IPC_SET :: u32 where "IPC_SET = 1"
definition IPC_STAT :: u32 where "IPC_STAT = 2"
definition SHM_LOCK :: u32 where "SHM_LOCK = 11"
definition SHM_UNLOCK :: u32 where "SHM_UNLOCK = 12"
definition GETPID :: u32 where "GETPID = 11"
definition GETVAL :: u32 where "GETVAL = 12"
definition GETALL :: u32 where "GETALL = 13"
definition GETNCNT :: u32 where "GETNCNT = 14"
definition GETZCNT :: u32 where "GETZCNT = 15"
definition SETVAL :: u32 where "SETVAL = 16"
definition SETALL :: u32 where "SETALL = 17"

definition svr4sem2linux :: "u32 list" where
  "svr4sem2linux = [IPC_RMID, IPC_SET, IPC_STAT, GETNCNT, GETPID, GETVAL, GETALL, GETZCNT, SETVAL, SETALL,
     IPC_RMID, IPC_SET, IPC_STAT]"

text \<open>The bytes of a structure on the stack, as \<open>copy_to_user\<close> finds them.\<close>

definition stack_struct :: "'k ipcsys \<Rightarrow> nat \<Rightarrow> u32 \<Rightarrow> umem \<Rightarrow> umem" where
  "stack_struct sys n a m = copy_to_user m a (map (\<lambda>i. ipc_stack sys (of_nat i)) [0..<n])"

definition ibcs2_semctl :: "'k ipcsys \<Rightarrow> u32 \<Rightarrow> u32 \<Rightarrow> u32 \<Rightarrow> u32 \<Rightarrow> 'k ust \<Rightarrow> u32 \<times> 'k ust" where
  "ibcs2_semctl sys first second third fourth k =
     (let isp = load32 (um k) fourth;
          (err, ls, k) = ipc_semctl sys first second third (store_native_sem (isem_to_lsem (um k) isp) (ipc_stack sys)) k
      in if sint err < 0 then (err, k) else (0, k\<lparr>um := lsem_to_isem (load_native_sem ls) isp (um k)\<rparr>))"

definition abi4_semctl :: "'k ipcsys \<Rightarrow> u32 \<Rightarrow> u32 \<Rightarrow> u32 \<Rightarrow> u32 \<Rightarrow> 'k ust \<Rightarrow> u32 \<times> 'k ust" where
  "abi4_semctl sys first second third fourth k =
     (let isp = load32 (um k) fourth;
          (err, ls, k) = ipc_semctl sys first second third (store_native_sem (isem_to_lsem_l (um k) isp) (ipc_stack sys)) k
      in if sint err < 0 then (err, k) else (0, k\<lparr>um := lsem_to_isem_l (load_native_sem ls) isp (um k)\<rparr>))"

text \<open>The command indexes the table before it is looked at: outside of it the result is undefined.\<close>

definition svr4_semctl :: "'k ipcsys \<Rightarrow> u32 \<Rightarrow> u32 \<Rightarrow> u32 \<Rightarrow> u32 \<Rightarrow> 'k ust \<Rightarrow> (u32 \<times> 'k ust) option" where
  "svr4_semctl sys arg1 arg2 arg3 arg4 k =
     (if length svr4sem2linux \<le> unat arg3 then None
      else let cmd = svr4sem2linux ! unat arg3 in Some (
        if arg3 \<in> {9, 6} then ibcs2_semctl sys arg1 0 cmd arg4 k
        else if arg3 \<in> {0, 10, 8, 5, 4, 3, 7} then sys_ipc sys SEMCTL [arg1, arg2, cmd, arg4, 0] k
        else if arg3 \<in> {1, 2} then ibcs2_semctl sys arg1 arg2 cmd arg4 k
        else if arg3 \<in> {12, 11} then abi4_semctl sys arg1 arg2 cmd arg4 k
        else (- EINVAL, k)))"

definition svr4_semget :: "'k ipcsys \<Rightarrow> u32 \<Rightarrow> u32 \<Rightarrow> u32 \<Rightarrow> 'k ust \<Rightarrow> u32 \<times> 'k ust" where
  "svr4_semget sys arg1 arg2 arg3 = sys_ipc sys SEMGET [arg1, arg2, arg3]"

definition svr4_semop :: "'k ipcsys \<Rightarrow> u32 \<Rightarrow> u32 \<Rightarrow> u32 \<Rightarrow> 'k ust \<Rightarrow> u32 \<times> 'k ust" where
  "svr4_semop sys arg1 arg2 arg3 = sys_ipc sys SEMOP [arg1, arg3, 0, arg2]"

definition svr4_semsys :: "'k ust gate \<Rightarrow> 'k ipcsys \<Rightarrow> pt_regs \<Rightarrow> 'k ust \<Rightarrow> (u32 \<times> 'k ust) option" where
  "svr4_semsys g sys regp k =
     (let which = get_syscall_parameter g regp 0 k; arg1 = get_syscall_parameter g regp 1 k;
          arg2 = get_syscall_parameter g regp 2 k; arg3 = get_syscall_parameter g regp 3 k; arg4 = esp regp + 4 * 5
      in if which = 0 then svr4_semctl sys arg1 arg2 arg3 arg4 k
         else if which = 1 then Some (svr4_semget sys arg1 arg2 arg3 k)
         else if which = 2 then Some (svr4_semop sys arg1 arg2 arg3 k)
         else Some (- EINVAL, k))"

definition svr4_shmdt :: "'k ust gate \<Rightarrow> 'k ipcsys \<Rightarrow> pt_regs \<Rightarrow> 'k ust \<Rightarrow> u32 \<times> 'k ust" where
  "svr4_shmdt g sys regp k = sys_ipc sys SHMDT [0, 0, 0, get_syscall_parameter g regp 1 k] k"

definition svr4_shmctl :: "'k ipcsys \<Rightarrow> u32 \<Rightarrow> u32 \<Rightarrow> u32 \<Rightarrow> 'k ust \<Rightarrow> u32 \<times> 'k ust" where
  "svr4_shmctl sys arg1 cmd arg3 k =
     (if cmd = 3 then sys_ipc sys SHMCTL [arg1, SHM_LOCK, 0, arg3] k
      else if cmd = 4 then sys_ipc sys SHMCTL [arg1, SHM_UNLOCK, 0, arg3] k
      else if cmd = 1 then
        let (err, ls, k) = ipc_shmctl sys arg1 IPC_SET (ishm_to_lshm (um k) arg3) k
        in if sint err < 0 then (err, k) else (0, k\<lparr>um := lshm_to_ishm ls arg3 (um k)\<rparr>)
      else if cmd = 11 then
        let (err, ls, k) = ipc_shmctl sys arg1 IPC_SET (ishm_to_lshm_l (um k) arg3) k
        in if sint err < 0 then (err, k) else (0, k\<lparr>um := lshm_to_ishm_l ls arg3 (um k)\<rparr>)
      else if cmd = 0 \<or> cmd = 10 then sys_ipc sys SHMCTL [arg1, IPC_RMID, 0, arg3] k
      else if cmd = 2 then
        let (err, ls, k) = ipc_shmctl sys arg1 IPC_STAT (shm_garbage sys) k
        in if sint err < 0 then (err, k) else (0, k\<lparr>um := lshm_to_ishm ls arg3 (stack_struct sys 48 arg3 (um k))\<rparr>)
      else if cmd = 12 then
        let (err, ls, k) = ipc_shmctl sys arg1 IPC_STAT (shm_garbage sys) k
        in if sint err < 0 then (err, k) else (0, k\<lparr>um := lshm_to_ishm_l ls arg3 (um k)\<rparr>)
      else (- EINVAL, k))"

text \<open>The end of \<open>svr4_shmsys\<close> tells the program of the result itself.\<close>

definition shmsys_out :: "'k ust gate \<Rightarrow> pt_regs \<Rightarrow> u32 \<times> 'k ust \<Rightarrow> (pt_regs \<times> 'k ust) option" where
  "shmsys_out g regp = (\<lambda>(err, k).
     if sint err < 0 \<and> - 255 < sint err
     then map_option (\<lambda>e. (set_error regp e, k)) (iABI_errors g (- sint err))
     else Some (set_result (clear_error regp) err, k))"

definition svr4_shmsys :: "'k ust gate \<Rightarrow> 'k ipcsys \<Rightarrow> pt_regs \<Rightarrow> 'k ust \<Rightarrow> (pt_regs \<times> 'k ust) option" where
  "svr4_shmsys g sys regp k =
     (let cmd = get_syscall_parameter g regp 0 k in
      if cmd = 2 then shmsys_out g regp (svr4_shmdt g sys regp k)
      else let arg1 = get_syscall_parameter g regp 1 k; arg2 = get_syscall_parameter g regp 2 k;
               arg3 = get_syscall_parameter g regp 3 k
      in shmsys_out g regp (
        if cmd = 0 then (let (err, raddr, k) = ipc_shmat sys arg1 arg2 arg3 k in (if 0 \<le> sint err then raddr else err, k))
        else if cmd = 3 then sys_ipc sys SHMGET [arg1, arg2, arg3] k
        else if cmd = 1 then svr4_shmctl sys arg1 arg2 arg3 k
        else (- EINVAL, k)))"

text \<open>The result of the native \<open>IPC_SET\<close> is overwritten.\<close>

definition svr4_msgctl :: "'k ipcsys \<Rightarrow> u32 \<Rightarrow> u32 \<Rightarrow> u32 \<Rightarrow> 'k ust \<Rightarrow> u32 \<times> 'k ust" where
  "svr4_msgctl sys arg1 cmd arg3 k =
     (if cmd = 1 then
        let (err, lm, k) = ipc_msgctl sys arg1 IPC_SET (imsq_to_lmsq (um k) arg3) k
        in (0, k\<lparr>um := lmsq_to_imsq lm arg3 (um k)\<rparr>)
      else if cmd = 11 then
        let (err, lm, k) = ipc_msgctl sys arg1 IPC_SET (imsq_to_lmsq_l (um k) arg3) k
        in (0, k\<lparr>um := lmsq_to_imsq_l lm arg3 (um k)\<rparr>)
      else if cmd = 0 \<or> cmd = 10 then sys_ipc sys MSGCTL [arg1, IPC_RMID, 0, arg3] k
      else if cmd = 2 then
        let (err, lm, k) = ipc_msgctl sys arg1 IPC_STAT (msg_garbage sys) k
        in if sint err < 0 then (err, k) else (0, k\<lparr>um := lmsq_to_imsq lm arg3 (stack_struct sys 48 arg3 (um k))\<rparr>)
      else if cmd = 12 then
        let (err, lm, k) = ipc_msgctl sys arg1 IPC_STAT (msg_garbage sys) k
        in if sint err < 0 then (err, k) else (0, k\<lparr>um := lmsq_to_imsq_l lm arg3 (um k)\<rparr>)
      else (- EINVAL, k))"

definition svr4_msgsys :: "'k ust gate \<Rightarrow> 'k ipcsys \<Rightarrow> pt_regs \<Rightarrow> 'k ust \<Rightarrow> u32 \<times> 'k ust" where
  "svr4_msgsys g sys regp k =
     (let p = (\<lambda>n. get_syscall_parameter g regp n k); cmd = p 0; arg1 = p 1; arg2 = p 2
      in if cmd = 0 then sys_ipc sys MSGGET [arg1, arg2] k
         else if cmd = 1 then svr4_msgctl sys arg1 arg2 (p 3) k
         else if cmd = 2 then sys_ipc sys (MSGRCV + 0x10000) [arg1, p 3, p 5, arg2, p 4] k
         else if cmd = 3 then (let (err, k) = sys_ipc sys MSGSND [arg1, p 3, p 4, arg2] k in (if 0 < sint err then 0 else err, k))
         else (- EINVAL, k))"

section \<open>Translations\<close>

lemma trunc_ucast: "ucast (ucast (v :: u16) :: u32) = v"
  by (rule bit_word_eqI) (simp add: bit_simps)

text \<open>A field that is stored can be loaded again, also after the fields apart from it were stored.\<close>

lemma apart_byte:
  fixes x y :: u32
  assumes "n \<le> x - y" "of_nat w \<le> y - x" "i < w" "w \<le> 4" "n \<noteq> 0"
  shows "n \<le> x + of_nat i - y"
proof -
  have "x \<noteq> y" using assms(1,5) by auto
  then have "unat x \<noteq> unat y" by (simp add: word_unat_eq_iff)
  moreover have "unat x < 2 ^ 32" "unat y < 2 ^ 32" using unsigned_less [of x] unsigned_less [of y] by simp_all
  ultimately have "unat (y - x) + unat (x - y) = 2 ^ 32" by (simp add: unat_sub_if')
  moreover have "w \<le> unat (y - x)" using assms(2,4) by (simp add: word_le_nat_alt unat_of_nat_u32)
  moreover have "unat (x - y) < 2 ^ 32" using unsigned_less [of "x - y"] by simp
  ultimately have small: "unat (x - y) + i < 2 ^ 32" using assms(3) by linarith
  have "unat (x + of_nat i - y) = unat ((x - y) + of_nat i)" by (simp add: algebra_simps)
  also have "\<dots> = unat (x - y) + i" using small assms(3,4) by (simp add: unat_word_ariths unat_of_nat_u32)
  finally show ?thesis using assms(1) by (simp add: word_le_nat_alt)
qed

lemma load_store_apart:
  "4 \<le> x - y \<Longrightarrow> 4 \<le> y - x \<Longrightarrow> load32 (store32 m y v) x = load32 m x"
  "2 \<le> x - y \<Longrightarrow> 4 \<le> y - x \<Longrightarrow> load32 (store16 m y w) x = load32 m x"
  "4 \<le> x - y \<Longrightarrow> 2 \<le> y - x \<Longrightarrow> load16 (store32 m y v) x = load16 m x"
  "2 \<le> x - y \<Longrightarrow> 2 \<le> y - x \<Longrightarrow> load16 (store16 m y w) x = load16 m x"
  using apart_byte [of 4 x y 4 1] apart_byte [of 4 x y 4 2] apart_byte [of 4 x y 4 3]
    apart_byte [of 2 x y 4 1] apart_byte [of 2 x y 4 2] apart_byte [of 2 x y 4 3] apart_byte [of 4 x y 2 1] apart_byte [of 2 x y 2 1]
  by (simp_all add: load32_def load16_def store32_outside store16_outside)

lemma minus_own: "a - (a + b) = - b" for a b :: u32
  by simp

lemmas put_simps = put_fields_def lp_to_ip_def lp_to_ip_l_def load_store_apart load16_store16 load32_store32 minus_own

lemma isem_read_back: "isem_to_lsem (lsem_to_isem ls a m) a = ls"
  by (simp add: isem_to_lsem_def lsem_to_isem_def ip_to_lp_def put_simps)

lemma isem_read_back_l: "isem_to_lsem_l (lsem_to_isem_l ls a m) a = ls"
  by (simp add: isem_to_lsem_l_def lsem_to_isem_l_def ip_to_lp_l_def put_simps trunc_ucast)

lemma ishm_read_back: "ishm_to_lshm (lshm_to_ishm ls a m) a = ls"
  by (simp add: ishm_to_lshm_def lshm_to_ishm_def ip_to_lp_def put_simps)

lemma ishm_read_back_l: "ishm_to_lshm_l (lshm_to_ishm_l ls a m) a = ls"
  by (simp add: ishm_to_lshm_l_def lshm_to_ishm_l_def ip_to_lp_l_def put_simps trunc_ucast)

lemma imsq_read_back: "imsq_to_lmsq (lmsq_to_imsq ls a m) a = ls"
  by (simp add: imsq_to_lmsq_def lmsq_to_imsq_def ip_to_lp_def put_simps)

lemma imsq_read_back_l: "imsq_to_lmsq_l (lmsq_to_imsq_l ls a m) a = ls"
  by (simp add: imsq_to_lmsq_l_def lmsq_to_imsq_l_def ip_to_lp_l_def put_simps trunc_ucast)

lemma native_read_back: "load_native_sem (store_native_sem ls m) = ls"
  by (simp add: load_native_sem_def store_native_sem_def put_simps Let_def)

text \<open>A structure that is stored touches its own bytes only.\<close>

primrec field_end :: "field \<Rightarrow> nat" where
  "field_end (F16 off v) = unat off + 2"
| "field_end (F32 off v) = unat off + 4"

lemma put_field_outside: "field_end f \<le> unat (x - a) \<Longrightarrow> put_field a f m x = m x"
proof (cases f)
  case (F16 off v)
  assume "field_end f \<le> unat (x - a)"
  then have "2 \<le> x - (a + off)" using F16 by (simp add: word_le_nat_alt diff_diff_eq [symmetric] unat_sub word_le_nat_alt)
  then show ?thesis using F16 by (simp add: store16_outside)
next
  case (F32 off v)
  assume "field_end f \<le> unat (x - a)"
  then have "4 \<le> x - (a + off)" using F32 by (simp add: word_le_nat_alt diff_diff_eq [symmetric] unat_sub word_le_nat_alt)
  then show ?thesis using F32 by (simp add: store32_outside)
qed

lemma put_fields_outside: "\<forall>f \<in> set fs. field_end f \<le> unat (x - a) \<Longrightarrow> put_fields a fs m x = m x"
  unfolding put_fields_def by (induction fs arbitrary: m) (simp_all add: put_field_outside)

lemma bytes_outside: "n \<le> unat (x - a) \<Longrightarrow> length bs = n \<Longrightarrow> n < 2 ^ 16 \<Longrightarrow> copy_to_user m a bs x = m x"
  by (rule copy_to_user_outside) (simp_all add: word_le_nat_alt unat_of_nat_u32)

lemma struct_outside:
  "32 \<le> unat (x - a) \<Longrightarrow> lsem_to_isem ls a m x = m x" "84 \<le> unat (x - a) \<Longrightarrow> lsem_to_isem_l ls a m x = m x"
  "48 \<le> unat (x - a) \<Longrightarrow> lshm_to_ishm ls' a (stack_struct sys 48 a m) x = m x" "112 \<le> unat (x - a) \<Longrightarrow> lshm_to_ishm_l ls' a m x = m x"
  "48 \<le> unat (x - a) \<Longrightarrow> lmsq_to_imsq lm a (stack_struct sys 48 a m) x = m x" "112 \<le> unat (x - a) \<Longrightarrow> lmsq_to_imsq_l lm a m x = m x"
  by (simp_all add: lsem_to_isem_def lsem_to_isem_l_def lshm_to_ishm_def lshm_to_ishm_l_def lmsq_to_imsq_def lmsq_to_imsq_l_def
      put_fields_outside lp_to_ip_def lp_to_ip_l_def zero_def stack_struct_def bytes_outside)

text \<open>
  C20: \<open>IPC_STAT\<close> of a semaphore set, a shared memory segment or a message queue, in the old layout (\<open>l = False\<close>) or
  the new one, tells the program exactly what the kernel says of the object, returns 0 and writes nothing outside
  of the structure the program gave.
\<close>

theorem ipc_stat_reports:
  assumes sem: "ipc_semctl sys obj n IPC_STAT
      (store_native_sem ((if l then isem_to_lsem_l else isem_to_lsem) (um k) (load32 (um k) argp)) (ipc_stack sys)) k =
      (0, store_native_sem sd buf, k)"
    and shm: "ipc_shmctl sys obj IPC_STAT (shm_garbage sys) k = (0, sh, k)"
    and msg: "ipc_msgctl sys obj IPC_STAT (msg_garbage sys) k = (0, mq, k)"
    and cmd: "cmd = (if l then 12 else 2)"
  shows "(\<exists>m. svr4_semctl sys obj n cmd argp k = Some (0, k\<lparr>um := m\<rparr>) \<and>
      (if l then isem_to_lsem_l else isem_to_lsem) m (load32 (um k) argp) = sd \<and>
      (\<forall>x. (if l then 84 else 32) \<le> unat (x - load32 (um k) argp) \<longrightarrow> m x = um k x)) \<and>
    (\<exists>m. svr4_shmctl sys obj cmd a k = (0, k\<lparr>um := m\<rparr>) \<and>
      (if l then ishm_to_lshm_l else ishm_to_lshm) m a = sh \<and> (\<forall>x. (if l then 112 else 48) \<le> unat (x - a) \<longrightarrow> m x = um k x)) \<and>
    (\<exists>m. svr4_msgctl sys obj cmd a k = (0, k\<lparr>um := m\<rparr>) \<and>
      (if l then imsq_to_lmsq_l else imsq_to_lmsq) m a = mq \<and> (\<forall>x. (if l then 112 else 48) \<le> unat (x - a) \<longrightarrow> m x = um k x))"
proof (intro conjI)
  let ?isp = "load32 (um k) argp"
  let ?m = "if l then lsem_to_isem_l sd ?isp (um k) else lsem_to_isem sd ?isp (um k)"
  have "svr4_semctl sys obj n cmd argp k = Some (0, k\<lparr>um := ?m\<rparr>)"
    using sem cmd by (cases l) (simp_all add: svr4_semctl_def svr4sem2linux_def ibcs2_semctl_def abi4_semctl_def Let_def native_read_back)
  then show "\<exists>m. svr4_semctl sys obj n cmd argp k = Some (0, k\<lparr>um := m\<rparr>) \<and>
      (if l then isem_to_lsem_l else isem_to_lsem) m ?isp = sd \<and> (\<forall>x. (if l then 84 else 32) \<le> unat (x - ?isp) \<longrightarrow> m x = um k x)"
    by (intro exI [of _ ?m]) (simp add: isem_read_back isem_read_back_l struct_outside)
  let ?m = "if l then lshm_to_ishm_l sh a (um k) else lshm_to_ishm sh a (stack_struct sys 48 a (um k))"
  have "svr4_shmctl sys obj cmd a k = (0, k\<lparr>um := ?m\<rparr>)" using shm cmd by (cases l) (simp_all add: svr4_shmctl_def)
  then show "\<exists>m. svr4_shmctl sys obj cmd a k = (0, k\<lparr>um := m\<rparr>) \<and>
      (if l then ishm_to_lshm_l else ishm_to_lshm) m a = sh \<and> (\<forall>x. (if l then 112 else 48) \<le> unat (x - a) \<longrightarrow> m x = um k x)"
    by (intro exI [of _ ?m]) (simp add: ishm_read_back ishm_read_back_l struct_outside)
  let ?m = "if l then lmsq_to_imsq_l mq a (um k) else lmsq_to_imsq mq a (stack_struct sys 48 a (um k))"
  have "svr4_msgctl sys obj cmd a k = (0, k\<lparr>um := ?m\<rparr>)" using msg cmd by (cases l) (simp_all add: svr4_msgctl_def)
  then show "\<exists>m. svr4_msgctl sys obj cmd a k = (0, k\<lparr>um := m\<rparr>) \<and>
      (if l then imsq_to_lmsq_l else imsq_to_lmsq) m a = mq \<and> (\<forall>x. (if l then 112 else 48) \<le> unat (x - a) \<longrightarrow> m x = um k x)"
    by (intro exI [of _ ?m]) (simp add: imsq_read_back imsq_read_back_l struct_outside)
qed

text \<open>
  \<open>msgctl\<close> with \<open>IPC_SET\<close> succeeds whatever the kernel says; \<open>shmctl\<close> and \<open>semctl\<close> pass an error on and leave
  the memory alone.
\<close>

lemma msgctl_set_ignores_error:
  assumes "ipc_msgctl sys obj IPC_SET (imsq_to_lmsq (um k) a) k = (- EPERM, imsq_to_lmsq (um k) a, k)"
  shows "fst (svr4_msgctl sys obj 1 a k) = 0"
  using assms by (simp add: svr4_msgctl_def)

lemma set_error_passed:
  "ipc_shmctl sys obj IPC_SET (ishm_to_lshm (um k) a) k = (e, d, k) \<Longrightarrow> sint e < 0 \<Longrightarrow> svr4_shmctl sys obj 1 a k = (e, k)"
  "ipc_semctl sys obj n IPC_SET (store_native_sem (isem_to_lsem (um k) (load32 (um k) argp)) (ipc_stack sys)) k = (e, ls, k) \<Longrightarrow>
   sint e < 0 \<Longrightarrow> svr4_semctl sys obj n 1 argp k = Some (e, k)"
  by (simp_all add: svr4_shmctl_def svr4_semctl_def svr4sem2linux_def ibcs2_semctl_def Let_def)

lemma semctl_command_unchecked: "13 \<le> unat cmd \<Longrightarrow> svr4_semctl sys obj n cmd argp k = None"
  by (simp add: svr4_semctl_def svr4sem2linux_def)

text \<open>The new layout loses the upper half of the numbers: owner 65536 is the super user.\<close>

lemma set_l_truncates:
  assumes "load32 (um k) a = 0x10000"
  shows "svr4_shmctl sys obj 11 a k = (case ipc_shmctl sys obj IPC_SET (ishm_to_lshm_l (um k) a) k of (err, ls, k') \<Rightarrow>
      if sint err < 0 then (err, k') else (0, k'\<lparr>um := lshm_to_ishm_l ls a (um k')\<rparr>)) \<and> p_uid (shm_perm (ishm_to_lshm_l (um k) a)) = 0"
  using assms by (simp add: svr4_shmctl_def ishm_to_lshm_l_def ip_to_lp_l_def)

text \<open>
  C40: \<open>GETALL\<close> never gives a program the values of a set of one or two semaphores: the kernel stores them, as it
  documents, as short integers at the address it is given, but that is a structure whose fields are then sorted into the
  layout of the program, so the first elements of the array of the program are what they were before. The call
  returns 0 all the same.
\<close>

theorem semctl_getall_loses_values:
  assumes "arr = load32 (um k) argp" "buf = store_native_sem (isem_to_lsem (um k) arr) (ipc_stack sys)"
    "ipc_semctl sys obj 0 GETALL buf k = (0, fold (\<lambda>i m. store16 m (2 * of_nat i) (vals ! i)) [0..<length vals] buf, k)"
    "length vals \<in> {1, 2}"
  shows "\<exists>k'. svr4_semctl sys obj n 6 argp k = Some (0, k') \<and> (\<forall>i < length vals. load16 (um k') (arr + 2 * of_nat i) = load16 (um k) (arr + 2 * of_nat i))"
proof -
  let ?is = "isem_to_lsem (um k) arr"
  let ?ls = "fold (\<lambda>i m. store16 m (2 * of_nat i) (vals ! i)) [0..<length vals] buf"
  have perm: "p_uid (sem_perm (load_native_sem ?ls)) = p_uid (sem_perm ?is) \<and> p_gid (sem_perm (load_native_sem ?ls)) = p_gid (sem_perm ?is)"
  proof -
    have e: "[0..<2] = [0, 1 :: nat]" by (simp add: upt_rec)
    have b: "load_native_sem buf = ?is" by (simp add: assms(2) native_read_back)
    have "load16 buf 4 = p_uid (sem_perm ?is)" "load16 buf 6 = p_gid (sem_perm ?is)"
      unfolding b [symmetric] by (simp_all add: load_native_sem_def)
    then show ?thesis using assms(4) by (auto simp: load_native_sem_def load_store_apart e)
  qed
  have "load16 (lsem_to_isem ls arr m) arr = p_uid (sem_perm ls)" "load16 (lsem_to_isem ls arr m) (arr + 2) = p_gid (sem_perm ls)" for ls m
    by (simp_all add: lsem_to_isem_def put_simps)
  moreover have "svr4_semctl sys obj n 6 argp k = Some (0, k\<lparr>um := lsem_to_isem (load_native_sem ?ls) arr (um k)\<rparr>)"
    using assms(1-3) by (simp add: svr4_semctl_def svr4sem2linux_def ibcs2_semctl_def Let_def)
  moreover have "p_uid (sem_perm ?is) = load16 (um k) arr" "p_gid (sem_perm ?is) = load16 (um k) (arr + 2)"
    by (simp_all add: isem_to_lsem_def ip_to_lp_def)
  ultimately show ?thesis using perm assms(4) by (auto simp: less_Suc_eq numeral_2_eq_2)
qed

section \<open>An example\<close>

definition ex_perm :: ipc_perm where
  "ex_perm = \<lparr>p_uid = 7, p_gid = 8, p_cuid = 7, p_cgid = 8, p_mode = 0x180, p_seq = 1, p_key = 99\<rparr>"

definition ex_sem :: semid_ds where
  "ex_sem = \<lparr>sem_perm = ex_perm, sem_base = 0, sem_nsems = 1, sem_otime = 5, sem_ctime = 6\<rparr>"

definition ex_shm :: shmid_ds where
  "ex_shm = \<lparr>shm_perm = ex_perm, shm_segsz = 4096, shm_lpid = 3, shm_cpid = 4, shm_nattch = 1, shm_atime = 5, shm_dtime = 0, shm_ctime = 6\<rparr>"

definition ex_msq :: msqid_ds where
  "ex_msq = \<lparr>msg_perm = ex_perm, msg_first = 0, msg_last = 0, msg_cbytes = 10, msg_qnum = 1, msg_qbytes = 100, msg_lspid = 3, msg_lrpid = 0,
     msg_stime = 5, msg_rtime = 0, msg_ctime = 6\<rparr>"

text \<open>A kernel with one object of each kind; the semaphore has the value 42.\<close>

definition ex_ipc :: "unit ipcsys" where
  "ex_ipc = \<lparr>sys_ipc = \<lambda>c args k. (0, k),
     ipc_semctl = \<lambda>i n cmd ls k. (0, if cmd = GETALL then store16 ls 0 42 else store_native_sem ex_sem ls, k),
     ipc_shmctl = \<lambda>i cmd ls k. (0, ex_shm, k), ipc_msgctl = \<lambda>i cmd ls k. (0, ex_msq, k), ipc_shmat = \<lambda>i a f k. (0, 0x1000, k),
     ipc_stack = \<lambda>_. 0, shm_garbage = ex_shm, msg_garbage = ex_msq\<rparr>"

theorem ipc_stat_reports_witness:
  "\<exists>m. svr4_shmctl ex_ipc 1 12 0x1000 \<lparr>um = \<lambda>_. 1, ks = ()\<rparr> = (0, \<lparr>um = m, ks = ()\<rparr>) \<and> ishm_to_lshm_l m 0x1000 = ex_shm \<and> m 0x1070 = 1"
proof -
  have "unat ((0x1070 :: u32) - 0x1000) = 112" by simp
  then show ?thesis
    using ipc_stat_reports [where sys = ex_ipc and obj = 1 and n = 0 and l = True and k = "\<lparr>um = \<lambda>_. 1, ks = ()\<rparr>" and argp = 0 and sd = ex_sem
      and sh = ex_shm and mq = ex_msq and cmd = 12 and a = "0x1000"]
    by (simp add: ex_ipc_def IPC_STAT_def GETALL_def) fastforce
qed

theorem semctl_getall_loses_values_witness:
  "\<exists>k'. svr4_semctl ex_ipc 1 0 6 0x2000 \<lparr>um = \<lambda>_. 0, ks = ()\<rparr> = Some (0, k') \<and> load16 (um k') 0 = 0"
  using semctl_getall_loses_values [where arr = 0 and k = "\<lparr>um = \<lambda>_. 0, ks = ()\<rparr>" and argp = "0x2000" and sys = ex_ipc and obj = 1 and vals = "[42]" and n = 0]
  by (auto simp: ex_ipc_def GETALL_def load32_def load16_def)

end
