(* ===== verification/Spec2Isabelle.thy ===== *)
theory Spec2Isabelle
  imports Map_Tables Short_Inode Malloc Fmt Filemap_Parse Brk Exec_Domain Chrdev Binfmt Semaphore Files Lcall_Entry Personality Linux26_Signal Svr4_Termios Svr4_Stat Svr4_Limits Svr4_Open Coff_Load Svr4_Ipc
begin

text \<open>
  \<^bold>\<open>ibcs-us\<close> runs i386 programs of other System V Unixes (SCO OpenServer and Xenix, ISC, UnixWare 7,
  Solaris, Wyse) on Linux, in user space. A program enters the emulator with a far call through gate 7
  or 27; the emulator finds the call in the table of the program's \<^emph>\<open>personality\<close>, translates numbers,
  flags, signals, structures and path names, makes the native call and translates the answer back.
  Under the personalities lies a small \<^emph>\<open>emulated kernel\<close> (\<^verbatim>\<open>src/ibcs/linux26-compat.c\<close>) with the interface
  of Linux 2.6, for which the personality code was first written.

  \<^bold>\<open>How the parts interact.\<close> A loader that is registered with the emulated kernel (\<open>Binfmt\<close>) maps the
  program, sets the break (\<open>Brk\<close>) and selects a personality (\<open>Exec_Domain\<close>). The first far call faults;
  the SIGSEGV handler that \<open>sysent_initialise\<close> installs (\<open>Linux26_Signal\<close>) patches it into a near call
  (\<open>Lcall\<close>) of \<open>ibcs_lcall\<close> (\<open>Lcall_Entry\<close>), which saves the registers and runs the handler of the
  personality (\<open>Personality\<close> and the \<open>Per_\<close> theories). The handler's table names a native call or an
  emulation: signals (\<open>Svr4_Signal\<close>), terminals (\<open>Svr4_Termios\<close>), file status (\<open>Svr4_Stat\<close>), limits
  (\<open>Svr4_Limits\<close>), \<open>fcntl\<close> (\<open>Svr4_Fcntl\<close>). These use the translation tables (\<open>Map_Tables\<close>), the short inode
  numbers (\<open>Short_Inode\<close>) and the memory of the program (\<open>Umem\<close>). Path names go through the file map
  (\<open>Filemap\<close>, \<open>Filemap_Parse\<close>), opened character devices to the emulator's own drivers (\<open>Chrdev\<close>,
  \<open>Files\<close>). Everything allocates from the emulator's heap (\<open>Malloc\<close>) under its semaphores (\<open>Semaphore\<close>)
  and reports through its own formatter (\<open>Cstring\<close>, \<open>Fmt\<close>).

  \<^bold>\<open>Theories, sources and what they show.\<close>

  \<^item> \<open>Prelude\<close>: the C integer types as words, errno values, error pointers, page arithmetic, the locale
    \<open>kept_invariant\<close> (a step function that keeps an invariant keeps it over every run) and shared word and list
    lemmas. \<open>Ring\<close>: circular doubly linked lists given by a successor and a predecessor function.
  \<^item> \<open>Map_Tables\<close>, from \<^verbatim>\<open>ibcs/map.c\<close>: \<open>map_bitvec\<close>, \<open>map_flags\<close>, \<open>map_sigvec\<close>, \<open>map_value\<close>.
  \<^item> \<open>Short_Inode\<close>, from \<^verbatim>\<open>ibcs/short-inode.c\<close>: the hash table and LRU list of 65533 elements. Numbers are
    stable and distinct while no more inodes are in use, the LRU list stays a ring in order of use.
  \<^item> \<open>Malloc\<close>, \<open>Cstring\<close>, \<open>Fmt\<close>, from \<^verbatim>\<open>ibcs/ibcs-lib.c\<close>: the chain of headers as a word memory; a block
    handed out overlaps no other; when the search ends, and the freed blocks after which it does not. Strings are
    lists of bytes ending in a NUL; the formatter is a refinement of a specification of its text.
  \<^item> \<open>Filemap\<close>, \<open>Filemap_Parse\<close>, from \<^verbatim>\<open>ibcs/filemap.c\<close>: path normalisation as the walk over the
    components, the first entry that applies, and the map file parsed and printed.
  \<^item> \<open>Brk\<close>, \<open>Exec_Domain\<close>, \<open>Chrdev\<close>, \<open>Binfmt\<close>, \<open>Semaphore\<close>, \<open>Files\<close>, \<open>Linux26_Signal\<close>, from
    \<^verbatim>\<open>ibcs/linux26-compat.c\<close> and the headers under \<^verbatim>\<open>include/ibcs-us/linux26-compat\<close>: the program break, the
    registries (linked lists and a table), the futex protocol as a step relation of any number of threads, the
    table of open files with the redirection to drivers, and the signal actions kept for the program.
  \<^item> \<open>Lcall\<close>, \<open>Lcall_Entry\<close>, from \<^verbatim>\<open>ibcs/sysent.c\<close>: the gate, the calling conventions, the trace format, the
    patching of far calls and the assembler entry as a list of instructions on a machine state.
  \<^item> \<open>Per_Base\<close>, \<open>Per_Sco\<close>, \<open>Per_Cxenix\<close>, \<open>Per_Isc\<close>, \<open>Per_Uw7\<close>, \<open>Per_Solaris\<close>, \<open>Per_Wyse\<close>,
    \<open>Personality\<close>, from the \<^verbatim>\<open>sysent.c\<close> of each personality: every table entry and every translation segment;
    calls return, indirect calls do what the direct ones do, masks of signals survive the translation.
  \<^item> \<open>Svr4_Signal\<close>, \<open>Svr4_Termios\<close>, \<open>Svr4_Stat\<close>, \<open>Svr4_Limits\<close>, \<open>Svr4_Fcntl\<close>, from \<^verbatim>\<open>per-svr4\<close> and the files of
    the same purpose of the other personalities: what is set is what is reported, on the memory of the program.
  \<^item> \<open>Mounts\<close>, from \<^verbatim>\<open>ibcs/linux26-compat.c\<close>: the search of \<^verbatim>\<open>/proc/mounts\<close> for the file system of an inode, on a file
    that is read in portions, as a refinement of a search over its lines. \<open>Statvfs\<close>, from the \<^verbatim>\<open>statvfs.c\<close> of
    \<^verbatim>\<open>per-svr4\<close> and \<^verbatim>\<open>per-sco\<close> and from \<^verbatim>\<open>per-uw7/lfs.c\<close>: what \<open>statvfs\<close> reports of it. \<open>Svr4_Open\<close>, from
    \<^verbatim>\<open>per-svr4/open.c\<close>: \<open>open\<close>, \<open>statfs\<close> and the reading of directories with \<open>vfs_readdir\<close>.
  \<^item> \<open>Coff\<close>, \<open>Coff_Load\<close>, from \<^verbatim>\<open>binfmt-coff/binfmt-coff.c\<close> and \<^verbatim>\<open>coff.h\<close>: the loader, from the checks of the header to
    the libraries it preloads; the memory of the program after a successful load is the sections of the file and a
    zero bss.
  \<^item> \<open>Svr4_Ipc\<close>, from \<^verbatim>\<open>per-svr4/ipc.c\<close>: semaphores, shared memory and message queues in the old and the new layout
    of their structures.
  \<^item> This theory: the properties that need a personality's tables and the signal calls together.

  \<^bold>\<open>Conventions.\<close> A C structure is a \<open>record\<close>, an enumeration a \<open>datatype\<close>, a w-bit integer a \<open>w word\<close>.
  State is passed explicitly. An emulated call returns its result word, negative errno values included, as the
  code does. \<open>None\<close> stands for undefined behaviour (an index outside an array, a null pointer) or for a loop that
  does not end (\<open>partial_function\<close>); a property that a call returns says so as an equation with \<open>Some\<close>. No
  definition runs on fuel with one exception: the handler of a personality takes the depth of nested indirect
  calls, and \<open>lcall7_always_returns\<close> shows which depth is enough. The native kernel, the drivers of character
  devices and the loaders of formats are arguments, mostly records of functions on a state of any type; what a
  property needs of them is a hypothesis, and its witness gives a concrete instance.

  \<^bold>\<open>Interfaces as locales.\<close> \<open>kept_invariant\<close> (\<open>Prelude\<close>): a step function that keeps an invariant; interpreted for
  the calls on the file table (\<open>Files\<close>) and used as a predicate for the signal calls. \<open>domain_registry\<close>
  (\<open>Exec_Domain\<close>): what a client of register, unregister and lookup may rely on. \<open>inode_numbering\<close> (\<open>Short_Inode\<close>):
  a numbering that is stable and injective up to a bound, which the file status calls rely on. \<open>lcall_personality\<close>
  (\<open>Per_Base\<close>): a gate, a table and a dispatcher that makes an indirect call by a direct one, interpreted in
  \<open>Personality\<close> for all six personalities at once.

  \<^bold>\<open>Not modelled.\<close> Pure wrappers of native calls (sockets, \<open>poll\<close>) and start-up code that parses options and environment.
\<close>

section \<open>Signals under a personality\<close>

text \<open>A signal number of the personality that the kernel's numbering keeps apart.\<close>

definition kept_signal :: "per \<Rightarrow> u32 \<Rightarrow> bool" where
  "kept_signal p sig \<longleftrightarrow> 1 \<le> sig \<and> sig < 32 \<and> bit (kept_signals p) (unat sig - 1)"

lemma kept_signal_mapped:
  assumes "kept_signal p sig"
  shows "\<exists>n. abi_mapsig (exec_domain_of p) sig = of_nat n \<and> 1 \<le> n \<and> n \<le> 32"
proof -
  have s: "1 \<le> unat sig" "unat sig \<le> 32" "\<not> 32 \<le> sig"
    using assms by (auto simp: kept_signal_def word_le_nat_alt word_less_nat_alt)
  let ?n = "unat (signal_map (exec_domain_of p) ! unat sig)"
  have "1 \<le> ?n \<and> ?n \<le> 32"
    using inverse_entry_of [OF s(1,2), of p] assms by (simp add: inverse_entry_def kept_signal_def Let_def)
  with s(3) show ?thesis by (intro exI [of _ ?n]) (simp add: abi_mapsig_def)
qed





text \<open>
  \<open>sighold\<close> and \<open>sigrelse\<close> of signal 0 write outside a signal set in every personality: signal 0 is
  translated to 0, which is not refused.
\<close>

theorem sighold_zero:
  assumes "asks g regs k request" "request = 0x200 \<or> request = 0x400"
  shows "abi_sigfunc g (exec_domain_of p) sys regs k = None"
proof -
  have "signal_map (exec_domain_of p) ! 0 = 0"
    by (cases p) (simp_all add: domain_defs sco_to_linux_signals_def xenix_to_linux_signals_def isc_to_linux_signals_def
      uw7_to_linux_signals_def solaris_to_linux_signals_def wyse_to_linux_signals_def)
  then show ?thesis by (rule signal_zero_undefined [OF assms])
qed

theorem sighold_zero_witness:
  "abi_sigfunc (request_gate 0x200) (exec_domain_of WYSE) plain_kernel some_regs plain_state = None"
  by (rule sighold_zero [OF request_gate_asks]) simp

section \<open>Faults under a personality\<close>

lemma empty_mask_kernel: "\<exists>v. map_sigvec_to_kernel 0 tab = Some v"
  using map_sigvec_to_kernel_loop_defined [of 1 0 tab sigemptyset] by (simp add: map_sigvec_to_kernel_def)

lemma uw7_segv: "abi_mapsig (exec_domain_of UW7) 11 = SIGSEGV"
  by (simp add: abi_mapsig_def domain_defs uw7_to_linux_signals_def SIGSEGV_def)

theorem segv_handler_kept_witness:
  "\<exists>rs s'. runs (do_sigcall quiet_gate (exec_domain_of UW7) plain_kernel) [Sigaction 11 (Some \<lparr>svr4_sa_flags = 0, svr4_sa_handler = 1, svr4_sa_mask = 0\<rparr>) False,
       Linux_signal 11 0] started = Some (rs, s')
     \<and> k_handler (fst (sigkern s') 11) = 0x5000"
proof -
  have i: "sysent_initialise 0x5000 plain_kernel plain_state = Some (sigkern started)"
    by (simp add: sysent_initialise_def ibcs_sigaction_def plain_kernel_def plain_state_def IBCS_IS_ERR_def started_def)
  have a: "fst (snd (snd (rt_sigaction plain_kernel SIGSEGV (Some act) k))) 11 = act" for act k
    by (simp add: plain_kernel_def SIGSEGV_def split: prod.splits)
  obtain rs s' where r: "runs (do_sigcall quiet_gate (exec_domain_of UW7) plain_kernel)
      [Sigaction 11 (Some \<lparr>svr4_sa_flags = 0, svr4_sa_handler = 1, svr4_sa_mask = 0\<rparr>) False, Linux_signal 11 0] started = Some (rs, s')"
    using uw7_segv empty_mask_kernel [of "nth (signal_map (exec_domain_of UW7))"]
    by (auto simp: do_sigcall_def abi_sigaction_def Let_def case_prod_beta SIGSEGV_def)
  show ?thesis
    using segv_handler_kept [OF plain_segv_private a i refl r] r by auto
qed

theorem segv_reaches_program_witness:
  "\<exists>old s'. abi_sigaction (exec_domain_of UW7) (linux26_sigsys plain_kernel) 11 (Some \<lparr>svr4_sa_flags = 0, svr4_sa_handler = 1, svr4_sa_mask = 0\<rparr>) False started
       = Some (0, old, s')
     \<and> lcall_sigsegv 0x5000 \<lparr>sa_handler = k_handler (sigtab s' 11), sa_flags = k_flags (sigtab s' 11)\<rparr> (\<lambda>_. 0x90) 0x1000 = Call_siginfo 1"
proof -
  obtain v where v: "map_sigvec_to_kernel (svr4_sa_mask \<lparr>svr4_sa_flags = 0, svr4_sa_handler = 1, svr4_sa_mask = 0\<rparr>) (nth (signal_map (exec_domain_of UW7))) = Some v"
    using empty_mask_kernel by auto
  have "lcall_gate_at (\<lambda>_. 0x90) 0x1000 = None" by (simp add: lcall_gate_at_def)
  from segv_reaches_program [OF uw7_segv v this, of plain_kernel False started "0x5000"] show ?thesis by auto
qed

end
